(* ===== verification/Prelude.thy ===== *)
theory Prelude
  imports Main "HOL-Library.Word"
begin

text \<open>
  Shared vocabulary of the development: the machine integers of the Rust sources as words of the
  same width, the saturating and rounding operations of the standard library, and the generic
  facts on words, lists, options and maps that the component theories use.

  Plain \<open>+\<close>, \<open>-\<close> and \<open>*\<close> on words wrap around.  This is the behaviour of the
  release profile of the workspace (its \<open>Cargo.toml\<close> switches no overflow checks on).
\<close>

section \<open>Machine types\<close>

type_synonym u8 = "8 word"
type_synonym u32 = "32 word"
type_synonym u64 = "64 word"
type_synonym u128 = "128 word"
type_synonym u256 = "256 word"
type_synonym usize = "64 word"
type_synonym isize = "64 word"
type_synonym address = "160 word"
type_synonym b256 = "256 word"
type_synonym bytes = "u8 list"
type_synonym instant = nat
type_synonym duration = nat

named_theorems unat_simps \<open>word operations read as operations on natural numbers\<close>

section \<open>Saturating and rounding arithmetic\<close>

definition saturating_add :: "'a::len word \<Rightarrow> 'a word \<Rightarrow> 'a word" where
  "saturating_add a b = (if unat a + unat b < 2 ^ LENGTH('a) then a + b else - 1)"

definition saturating_sub :: "'a::len word \<Rightarrow> 'a word \<Rightarrow> 'a word" where
  "saturating_sub a b = (if a < b then 0 else a - b)"

definition div_ceil :: "'a::len word \<Rightarrow> 'a word \<Rightarrow> 'a word" where
  \<comment> \<open>the source panics on the divisor 0; the statements about its callers ask for a non-zero one\<close>
  "div_ceil a b = (if a mod b > 0 then a div b + 1 else a div b)"

lemma unat_max_word: "unat (- 1 :: 'a::len word) = 2 ^ LENGTH('a) - 1"
  by (simp add: unsigned_minus_1_eq_mask mask_eq_exp_minus_1)

lemma unat_saturating_add [unat_simps]:
  "unat (saturating_add a b) = min (unat a + unat b) (2 ^ LENGTH('a) - 1)"
  for a b :: "'a::len word"
proof (cases "unat a + unat b < 2 ^ LENGTH('a)")
  case True
  then show ?thesis by (simp add: saturating_add_def unat_word_ariths)
next
  case False
  then show ?thesis by (simp add: saturating_add_def unat_max_word)
qed

lemma unat_saturating_sub [unat_simps]:
  "unat (saturating_sub a b) = unat a - unat b"
  by (simp add: saturating_sub_def word_less_nat_alt unat_sub_if')

lemma saturating_sub_le: "saturating_sub a b \<le> a"
  by (simp add: word_le_nat_alt unat_simps)

lemma saturating_add_ge: "a \<le> saturating_add a b" for a b :: "'a::len word"
proof -
  have "unat a < 2 ^ LENGTH('a)" by (rule unsigned_less)
  then have "unat a \<le> 2 ^ LENGTH('a) - 1" by linarith
  then show ?thesis by (simp add: word_le_nat_alt unat_simps)
qed

lemma saturating_sub_zero [simp]: "saturating_sub a 0 = a" "saturating_sub 0 b = 0"
  by (auto simp: saturating_sub_def word_gt_0)

lemma saturating_add_zero [simp]: "saturating_add a 0 = a" "saturating_add 0 a = a"
  by (simp_all add: saturating_add_def)

lemma saturating_sub_self [simp]: "saturating_sub a a = 0"
  by (simp add: saturating_sub_def)

lemma saturating_sub_eq_0_iff: "saturating_sub a b = 0 \<longleftrightarrow> a \<le> b"
  by (metis diff_is_0_eq unat_eq_zero unat_saturating_sub word_le_nat_alt)

text \<open>Adding and taking away again restores the value exactly when the addition did not saturate.\<close>

lemma saturating_sub_add:
  fixes a b :: "'a::len word"
  assumes "unat a + unat b < 2 ^ LENGTH('a)"
  shows "saturating_sub (saturating_add a b) b = a"
proof -
  have "unat (saturating_sub (saturating_add a b) b) = unat a"
    using assms by (simp add: unat_simps)
  then show ?thesis by (simp only: word_unat_eq_iff)
qed

lemma unat_add_no_overflow [unat_simps]:
  "unat a + unat b < 2 ^ LENGTH('a) \<Longrightarrow> unat (a + b) = unat a + unat b"
  for a b :: "'a::len word"
  by (simp add: unat_word_ariths)

lemma unat_mult_no_overflow [unat_simps]:
  "unat a * unat b < 2 ^ LENGTH('a) \<Longrightarrow> unat (a * b) = unat a * unat b"
  for a b :: "'a::len word"
  by (simp add: unat_word_ariths)

end
