(* ===== verification/F64.thy ===== *)
theory F64
  imports Prelude Complex_Main "HOL-Library.Log_Nat"
begin

text \<open>
  The part of Rust's \<open>f64\<close> the sources compute with: conversion from \<open>u128\<close>, addition,
  multiplication, division, comparison and the cast back to \<open>u128\<close>.  A finite value is the
  rational it denotes; every operation rounds its exact result to 53 significant bits, ties to
  even.  The quantities of the program are gas amounts and ratios of gas amounts (below \<open>2 ^ 257\<close>
  and, unless zero, above \<open>2 ^ - 257\<close>), so neither the exponent range of the format nor
  subnormal numbers come into play, and they are left out.
\<close>

datatype f64 = Fin rat | Inf | NegInf | NaN

definition round_half_even :: "rat \<Rightarrow> int" where
  "round_half_even x =
     (let f = \<lfloor>x\<rfloor>; d = x - of_int f
      in if d < 1/2 then f else if 1/2 < d then f + 1 else if even f then f else f + 1)"

text \<open>The exponent \<open>e\<close> with \<open>2 ^ e \<le> x < 2 ^ (e + 1)\<close>, for positive \<open>x\<close>.\<close>

definition exponent :: "rat \<Rightarrow> int" where
  "exponent x =
     (if 1 \<le> x then int (floorlog 2 (nat \<lfloor>x\<rfloor>)) - 1
      else - int (floorlog 2 (nat (\<lceil>1 / x\<rceil> - 1))))"

definition pow2 :: "int \<Rightarrow> rat" where
  "pow2 e = (if 0 \<le> e then 2 ^ nat e else 1 / 2 ^ nat (- e))"

definition rnd :: "rat \<Rightarrow> rat" where
  "rnd x =
     (if x = 0 then 0
      else let u = pow2 (exponent \<bar>x\<bar> - 52) in of_int (round_half_even (x / u)) * u)"

fun f64_add :: "f64 \<Rightarrow> f64 \<Rightarrow> f64" where
  "f64_add (Fin a) (Fin b) = Fin (rnd (a + b))"
| "f64_add NaN _ = NaN"
| "f64_add _ NaN = NaN"
| "f64_add Inf NegInf = NaN"
| "f64_add NegInf Inf = NaN"
| "f64_add Inf _ = Inf"
| "f64_add _ Inf = Inf"
| "f64_add NegInf _ = NegInf"
| "f64_add _ NegInf = NegInf"

text \<open>Zero carries no sign here: the sources only divide non-negative gas amounts.\<close>

fun f64_mul :: "f64 \<Rightarrow> f64 \<Rightarrow> f64" where
  "f64_mul (Fin a) (Fin b) = Fin (rnd (a * b))"
| "f64_mul NaN _ = NaN"
| "f64_mul _ NaN = NaN"
| "f64_mul (Fin a) Inf = (if a = 0 then NaN else if 0 < a then Inf else NegInf)"
| "f64_mul (Fin a) NegInf = (if a = 0 then NaN else if 0 < a then NegInf else Inf)"
| "f64_mul Inf (Fin a) = (if a = 0 then NaN else if 0 < a then Inf else NegInf)"
| "f64_mul NegInf (Fin a) = (if a = 0 then NaN else if 0 < a then NegInf else Inf)"
| "f64_mul Inf Inf = Inf"
| "f64_mul NegInf NegInf = Inf"
| "f64_mul _ _ = NegInf"

fun f64_div :: "f64 \<Rightarrow> f64 \<Rightarrow> f64" where
  "f64_div (Fin a) (Fin b) =
     (if b = 0 then (if a = 0 then NaN else if 0 < a then Inf else NegInf) else Fin (rnd (a / b)))"
| "f64_div NaN _ = NaN"
| "f64_div _ NaN = NaN"
| "f64_div (Fin _) _ = Fin 0"
| "f64_div Inf (Fin b) = (if b < 0 then NegInf else Inf)"
| "f64_div NegInf (Fin b) = (if b < 0 then Inf else NegInf)"
| "f64_div _ _ = NaN"

fun f64_less :: "f64 \<Rightarrow> f64 \<Rightarrow> bool" where
  "f64_less (Fin a) (Fin b) = (a < b)"
| "f64_less NaN _ = False"
| "f64_less _ NaN = False"
| "f64_less NegInf NegInf = False"
| "f64_less NegInf _ = True"
| "f64_less _ NegInf = False"
| "f64_less Inf _ = False"
| "f64_less _ Inf = True"

definition f64_of_u128 :: "u128 \<Rightarrow> f64" where
  "f64_of_u128 n = Fin (rnd (of_nat (unat n)))"

text \<open>The \<open>as u128\<close> cast truncates and saturates; not-a-number becomes zero.\<close>

fun f64_to_u128 :: "f64 \<Rightarrow> u128" where
  "f64_to_u128 (Fin a) =
     (if a \<le> 0 then 0 else if 2 ^ 128 \<le> a then - 1 else word_of_int \<lfloor>a\<rfloor>)"
| "f64_to_u128 Inf = - 1"
| "f64_to_u128 NegInf = 0"
| "f64_to_u128 NaN = 0"

text \<open>Values of the literals the sources use.\<close>

definition f64_zero :: f64 where "f64_zero = Fin 0"
definition f64_two :: f64 where "f64_two = Fin 2"
definition f64_tenth :: f64 where "f64_tenth = Fin (rnd (1 / 10))"

subsection \<open>Rounding\<close>

lemma round_half_even_of_int [simp]: "round_half_even (of_int n) = n"
  by (simp add: round_half_even_def)

lemma round_half_even_nonneg: "0 \<le> x \<Longrightarrow> 0 \<le> round_half_even x"
  by (simp add: round_half_even_def Let_def)

lemma pow2_pos [simp]: "0 < pow2 e"
  by (simp add: pow2_def)

lemma rnd_zero [simp]: "rnd 0 = 0"
  by (simp add: rnd_def)

lemma rnd_nonneg: "0 \<le> x \<Longrightarrow> 0 \<le> rnd x"
  by (simp add: rnd_def Let_def round_half_even_nonneg less_imp_le)

lemma f64_less_irrefl [simp]: "\<not> f64_less a a"
  by (cases a) auto

end
