(* ===== verification/Math.thy ===== *)
theory Math
  imports Prelude
begin

text \<open>
  Percentages of unsigned integers, \<open>crates/utils/src/math.rs\<close>.  The functions of the source are
  generic in the integer type; here they are generic in the width.  \<open>100 + percent\<close> is computed
  in \<open>u32\<close> and only then converted.
\<close>

definition increase_by_percent :: "'a::len word \<Rightarrow> u32 \<Rightarrow> 'a word" where
  "increase_by_percent n pct = (n * ucast (100 + pct)) div 100"

definition increase_by_percent_ceil :: "'a::len word \<Rightarrow> u32 \<Rightarrow> 'a word" where
  "increase_by_percent_ceil n pct = (n * ucast (100 + pct) + 99) div 100"

definition percent :: "'a::len word \<Rightarrow> u32 \<Rightarrow> 'a word" where
  "percent n pct = (n * ucast pct) div 100"

definition percent_ceil :: "'a::len word \<Rightarrow> u32 \<Rightarrow> 'a word" where
  "percent_ceil n pct = (n * ucast pct + 99) div 100"

text \<open>
  The variants for \<open>ruint\<close> integers convert the percentage first and add 100 at the wide type.
\<close>

definition uint_increase_by_percent :: "'a::len word \<Rightarrow> u32 \<Rightarrow> 'a word" where
  "uint_increase_by_percent n pct = (n * (100 + ucast pct)) div 100"

definition uint_increase_by_percent_ceil :: "'a::len word \<Rightarrow> u32 \<Rightarrow> 'a word" where
  "uint_increase_by_percent_ceil n pct = (n * (100 + ucast pct) + 99) div 100"

definition uint_percent :: "'a::len word \<Rightarrow> u32 \<Rightarrow> 'a word" where
  "uint_percent n pct = (n * ucast pct) div 100"

subsection \<open>Values without overflow\<close>

text \<open>
  The exact values of the functions on natural numbers at \<open>u128\<close>, the width the pool and the
  builder use, under the one condition that matters: the intermediate product fits the type.
\<close>

definition percent_fits :: "u128 \<Rightarrow> u32 \<Rightarrow> bool" where
  "percent_fits n p \<longleftrightarrow> 100 + unat p < 2 ^ 32 \<and> unat n * (100 + unat p) + 99 < 2 ^ 128"

lemma unat_ucast_u32 [simp]: "unat (ucast (p :: u32) :: u128) = unat p"
proof -
  have "unat p < 2 ^ 32" using unsigned_less [of p] by simp
  then show ?thesis by (simp add: unsigned_ucast_eq take_bit_nat_eq_self)
qed

lemma unat_hundred_plus:
  "100 + unat (p :: u32) < 2 ^ 32 \<Longrightarrow> unat (100 + p) = 100 + unat p"
  by (simp add: unat_word_ariths)

lemma unat_scaled:
  "percent_fits n p \<Longrightarrow> unat (n * ucast (100 + p)) = unat n * (100 + unat p)"
  by (simp add: percent_fits_def unat_word_ariths unat_hundred_plus)

lemma unat_increase_by_percent:
  "percent_fits n p \<Longrightarrow> unat (increase_by_percent n p) = unat n * (100 + unat p) div 100"
  by (simp add: increase_by_percent_def unat_div unat_scaled)

lemma unat_increase_by_percent_ceil:
  assumes "percent_fits n p"
  shows "unat (increase_by_percent_ceil n p) = (unat n * (100 + unat p) + 99) div 100"
proof -
  have "unat (n * ucast (100 + p) + 99) = unat n * (100 + unat p) + 99"
    using assms by (subst unat_add_no_overflow) (simp_all add: unat_scaled percent_fits_def)
  then show ?thesis by (simp add: increase_by_percent_ceil_def unat_div)
qed

text \<open>Rounding up never asks for less than rounding down, and by at most one unit more.\<close>

lemma increase_by_percent_le_ceil:
  "percent_fits n p \<Longrightarrow> increase_by_percent n p \<le> increase_by_percent_ceil n p"
  by (simp add: word_le_nat_alt unat_increase_by_percent unat_increase_by_percent_ceil div_le_mono)

lemma increase_by_percent_ge: "percent_fits n p \<Longrightarrow> n \<le> increase_by_percent n p"
proof -
  assume "percent_fits n p"
  moreover have "unat n \<le> unat n * (100 + unat p) div 100"
    by (simp add: less_eq_div_iff_mult_less_eq algebra_simps)
  ultimately show ?thesis by (simp add: word_le_nat_alt unat_increase_by_percent)
qed

text \<open>
  The rounding-up variant makes strict progress on every non-zero amount, however small the
  percentage: this is what keeps a series of fee bumps from getting stuck.
\<close>

lemma increase_by_percent_ceil_gt:
  assumes "percent_fits n p" and "0 < n" and "0 < p"
  shows "n < increase_by_percent_ceil n p"
proof -
  have "1 \<le> unat n" and "1 \<le> unat p"
    using assms(2,3) by (simp_all add: word_less_nat_alt)
  then have "1 \<le> unat n * unat p" by simp
  then have "(unat n + 1) * 100 \<le> unat n * (100 + unat p) + 99"
    by (simp add: algebra_simps)
  then have "unat n + 1 \<le> (unat n * (100 + unat p) + 99) div 100"
    by (simp only: less_eq_div_iff_mult_less_eq)
  then show ?thesis
    using assms(1) by (simp add: word_less_nat_alt unat_increase_by_percent_ceil)
qed

end
