(* ===== verification/Gas_Fees.thy ===== *)
theory Gas_Fees
  imports Math
begin

text \<open>
  EIP-1559 fee pairs and the priority fee modes, \<open>crates/types/src/gas.rs\<close>.
\<close>

record gas_fees =
  gf_max_fee_per_gas :: u128
  gf_max_priority_fee_per_gas :: u128

definition gas_fees_default :: gas_fees where
  "gas_fees_default = \<lparr>gf_max_fee_per_gas = 0, gf_max_priority_fee_per_gas = 0\<rparr>"

definition gas_fees_increase_by_percent :: "gas_fees \<Rightarrow> u32 \<Rightarrow> gas_fees" where
  "gas_fees_increase_by_percent f pct =
     \<lparr>gf_max_fee_per_gas = increase_by_percent_ceil (gf_max_fee_per_gas f) pct,
      gf_max_priority_fee_per_gas = increase_by_percent_ceil (gf_max_priority_fee_per_gas f) pct\<rparr>"

definition gas_fees_gas_price :: "gas_fees \<Rightarrow> u128 \<Rightarrow> u128" where
  "gas_fees_gas_price f base_fee =
     min (gf_max_fee_per_gas f) (saturating_add base_fee (gf_max_priority_fee_per_gas f))"

datatype priority_fee_mode = BaseFeePercent u32 | PriorityFeeIncreasePercent u32

fun priority_fee_mode_try_from :: "string \<Rightarrow> u32 \<Rightarrow> string + priority_fee_mode" where
  "priority_fee_mode_try_from kind value =
     (if kind = ''base_fee_percent'' then Inr (BaseFeePercent value)
      else if kind = ''priority_fee_increase_percent'' then Inr (PriorityFeeIncreasePercent value)
      else Inl (''Invalid priority fee mode: '' @ kind))"

definition required_fees :: "priority_fee_mode \<Rightarrow> gas_fees \<Rightarrow> gas_fees" where
  "required_fees mode bundle_fees =
     (let base_fee = gf_max_fee_per_gas bundle_fees - gf_max_priority_fee_per_gas bundle_fees;
          prio = (case mode of
                    BaseFeePercent pct \<Rightarrow> percent base_fee pct
                  | PriorityFeeIncreasePercent pct \<Rightarrow>
                      increase_by_percent (gf_max_priority_fee_per_gas bundle_fees) pct)
      in \<lparr>gf_max_fee_per_gas = base_fee + prio, gf_max_priority_fee_per_gas = prio\<rparr>)"

definition minimum_priority_fee ::
  "priority_fee_mode \<Rightarrow> u128 \<Rightarrow> u32 \<Rightarrow> u128 \<Rightarrow> u32 \<Rightarrow> u128" where
  "minimum_priority_fee mode base_fee base_fee_accept_percent min_max_priority_fee_per_gas
     bundle_priority_fee_overhead_percent =
     (case mode of
        BaseFeePercent pct \<Rightarrow> percent (percent base_fee base_fee_accept_percent) pct
      | PriorityFeeIncreasePercent pct \<Rightarrow>
          increase_by_percent min_max_priority_fee_per_gas
            (pct + bundle_priority_fee_overhead_percent))"

subsection \<open>Order on fee pairs\<close>

text \<open>A fee pair covers another one when both components do: the test the tracker and the pool make.\<close>

definition fees_cover :: "gas_fees \<Rightarrow> gas_fees \<Rightarrow> bool" where
  "fees_cover f g \<longleftrightarrow> gf_max_fee_per_gas g \<le> gf_max_fee_per_gas f
      \<and> gf_max_priority_fee_per_gas g \<le> gf_max_priority_fee_per_gas f"

lemma fees_cover_refl [simp]: "fees_cover f f"
  by (simp add: fees_cover_def)

lemma fees_cover_trans [trans]: "fees_cover f g \<Longrightarrow> fees_cover g h \<Longrightarrow> fees_cover f h"
  by (auto simp: fees_cover_def)

definition fees_fit :: "gas_fees \<Rightarrow> u32 \<Rightarrow> bool" where
  "fees_fit f pct \<longleftrightarrow> percent_fits (gf_max_fee_per_gas f) pct
      \<and> percent_fits (gf_max_priority_fee_per_gas f) pct"

lemma gas_fees_increase_covers:
  "fees_fit f pct \<Longrightarrow> fees_cover (gas_fees_increase_by_percent f pct) f"
  by (auto simp: fees_cover_def fees_fit_def gas_fees_increase_by_percent_def
      intro: order_trans [OF increase_by_percent_ge increase_by_percent_le_ceil])

lemma required_fees_base:
  "gf_max_fee_per_gas (required_fees m f) - gf_max_priority_fee_per_gas (required_fees m f)
   = gf_max_fee_per_gas f - gf_max_priority_fee_per_gas f"
  by (simp add: required_fees_def Let_def)

end
