(* ===== verification/Timestamp.thy ===== *)
theory Timestamp
  imports Prelude
begin

text \<open>
  On-chain timestamps and validity ranges, \<open>crates/types/src/timestamp.rs\<close>.  A timestamp is a
  newtype of \<open>u64\<close> (seconds since the epoch); a duration is counted in nanoseconds, of which only
  the whole seconds count.  The wall clock is an argument.
\<close>

type_synonym timestamp = u64

definition as_secs :: "duration \<Rightarrow> u64" where
  "as_secs d = of_nat (d div 1000000000)"

definition timestamp_MIN :: timestamp where "timestamp_MIN = 0"

definition timestamp_MAX :: timestamp where "timestamp_MAX = - 1"

definition timestamp_add :: "timestamp \<Rightarrow> duration \<Rightarrow> timestamp" where
  "timestamp_add t d = t + as_secs d"

definition timestamp_sub :: "timestamp \<Rightarrow> duration \<Rightarrow> timestamp" where
  "timestamp_sub t d = t - as_secs d"

record valid_time_range =
  valid_after :: timestamp
  valid_until :: timestamp

definition all_time :: valid_time_range where
  "all_time = \<lparr>valid_after = timestamp_MIN, valid_until = timestamp_MAX\<rparr>"

definition from_genesis :: "timestamp \<Rightarrow> valid_time_range" where
  "from_genesis u = \<lparr>valid_after = timestamp_MIN, valid_until = u\<rparr>"

definition is_valid_now :: "timestamp \<Rightarrow> valid_time_range \<Rightarrow> duration \<Rightarrow> bool" where
  "is_valid_now now r until_buffer \<longleftrightarrow>
     valid_after r \<le> now \<and> valid_until r > timestamp_add now until_buffer"

definition range_contains :: "valid_time_range \<Rightarrow> timestamp \<Rightarrow> duration \<Rightarrow> bool" where
  "range_contains r t buffer \<longleftrightarrow> valid_after r \<le> t \<and> timestamp_add t buffer \<le> valid_until r"

definition intersect :: "valid_time_range \<Rightarrow> valid_time_range \<Rightarrow> valid_time_range" where
  "intersect r s = \<lparr>valid_after = max (valid_after r) (valid_after s),
                    valid_until = min (valid_until r) (valid_until s)\<rparr>"

lemma range_contains_all_time [simp]: "range_contains all_time t d"
  by (simp add: range_contains_def all_time_def timestamp_MIN_def timestamp_MAX_def)

lemma timestamp_sub_add [simp]: "timestamp_sub (timestamp_add t d) d = t"
  by (simp add: timestamp_add_def timestamp_sub_def)

end
