(* ===== verification/Entity.thy ===== *)
theory Entity
  imports Prelude
begin

text \<open>
  The entities of a user operation (its account, paymaster, aggregator and factory) and the
  updates the builder reports about them, \<open>crates/types/src/entity.rs\<close>.
\<close>

datatype entity_type = Account | Paymaster | Aggregator | Factory

text \<open>\<open>EntityType::iter()\<close>: the variants in declaration order.\<close>

definition entity_type_iter :: "entity_type list" where
  "entity_type_iter = [Account, Paymaster, Aggregator, Factory]"

fun entity_type_to_str :: "entity_type \<Rightarrow> string" where
  "entity_type_to_str Account = ''account''"
| "entity_type_to_str Paymaster = ''paymaster''"
| "entity_type_to_str Aggregator = ''aggregator''"
| "entity_type_to_str Factory = ''factory''"

definition entity_type_from_str :: "string \<Rightarrow> string + entity_type" where
  "entity_type_from_str s =
     (if s = ''account'' then Inr Account
      else if s = ''paymaster'' then Inr Paymaster
      else if s = ''aggregator'' then Inr Aggregator
      else if s = ''factory'' then Inr Factory
      else Inl (''Invalid entity type: '' @ s))"

record entity =
  ent_kind :: entity_type
  ent_address :: address

definition entity_new :: "entity_type \<Rightarrow> address \<Rightarrow> entity" where
  "entity_new k a = \<lparr>ent_kind = k, ent_address = a\<rparr>"

definition entity_account :: "address \<Rightarrow> entity" where
  "entity_account a = entity_new Account a"

definition entity_paymaster :: "address \<Rightarrow> entity" where
  "entity_paymaster a = entity_new Paymaster a"

definition entity_aggregator :: "address \<Rightarrow> entity" where
  "entity_aggregator a = entity_new Aggregator a"

definition entity_factory :: "address \<Rightarrow> entity" where
  "entity_factory a = entity_new Factory a"

definition is_paymaster :: "entity \<Rightarrow> bool" where
  "is_paymaster e \<longleftrightarrow> ent_kind e = Paymaster"

datatype entity_update_type =
  UnstakedInvalidation | StakedInvalidation | PaymasterOpsSeenDecrement

text \<open>The \<open>as i32\<close> cast gives the position of the variant.\<close>

fun entity_update_type_as_i32 :: "entity_update_type \<Rightarrow> int" where
  "entity_update_type_as_i32 UnstakedInvalidation = 0"
| "entity_update_type_as_i32 StakedInvalidation = 1"
| "entity_update_type_as_i32 PaymasterOpsSeenDecrement = 2"

definition entity_update_type_try_from :: "int \<Rightarrow> entity_update_type option" where
  "entity_update_type_try_from x =
     (if x = entity_update_type_as_i32 UnstakedInvalidation then Some UnstakedInvalidation
      else if x = entity_update_type_as_i32 StakedInvalidation then Some StakedInvalidation
      else if x = entity_update_type_as_i32 PaymasterOpsSeenDecrement
           then Some PaymasterOpsSeenDecrement
      else None)"

record entity_update =
  eu_entity :: entity
  eu_update_type :: entity_update_type
  eu_value :: "u64 option"

record entity_info =
  ei_entity :: entity
  ei_is_staked :: bool

record entity_infos =
  eis_factory :: "entity_info option"
  eis_sender :: entity_info
  eis_paymaster :: "entity_info option"
  eis_aggregator :: "entity_info option"

fun entity_infos_get :: "entity_infos \<Rightarrow> entity_type \<Rightarrow> entity_info option" where
  "entity_infos_get i Factory = eis_factory i"
| "entity_infos_get i Account = Some (eis_sender i)"
| "entity_infos_get i Paymaster = eis_paymaster i"
| "entity_infos_get i Aggregator = eis_aggregator i"

definition entity_infos_entities :: "entity_infos \<Rightarrow> (entity_type \<times> entity_info) list" where
  "entity_infos_entities i =
     List.map_filter (\<lambda>t. map_option (Pair t) (entity_infos_get i t)) entity_type_iter"

definition type_from_address :: "entity_infos \<Rightarrow> address \<Rightarrow> entity_type option" where
  "type_from_address i a =
     (let matches = (\<lambda>o'. case o' of None \<Rightarrow> False | Some info \<Rightarrow> a = ent_address (ei_entity info))
      in if a = ent_address (ei_entity (eis_sender i)) then Some Account
         else if matches (eis_factory i) then Some Factory
         else if matches (eis_paymaster i) then Some Paymaster
         else if matches (eis_aggregator i) then Some Aggregator
         else None)"

definition sender_address :: "entity_infos \<Rightarrow> address" where
  "sender_address i = ent_address (ei_entity (eis_sender i))"

definition set_sender :: "entity_infos \<Rightarrow> address \<Rightarrow> bool \<Rightarrow> entity_infos" where
  "set_sender i a staked =
     i\<lparr>eis_sender := \<lparr>ei_entity = entity_account a, ei_is_staked = staked\<rparr>\<rparr>"

definition set_factory :: "entity_infos \<Rightarrow> address \<Rightarrow> bool \<Rightarrow> entity_infos" where
  "set_factory i a staked =
     i\<lparr>eis_factory := Some \<lparr>ei_entity = entity_factory a, ei_is_staked = staked\<rparr>\<rparr>"

definition set_paymaster :: "entity_infos \<Rightarrow> address \<Rightarrow> bool \<Rightarrow> entity_infos" where
  "set_paymaster i a staked =
     i\<lparr>eis_paymaster := Some \<lparr>ei_entity = entity_paymaster a, ei_is_staked = staked\<rparr>\<rparr>"

definition set_aggregator :: "entity_infos \<Rightarrow> address \<Rightarrow> entity_infos" where
  "set_aggregator i a =
     i\<lparr>eis_aggregator := Some \<lparr>ei_entity = entity_aggregator a, ei_is_staked = True\<rparr>\<rparr>"

subsection \<open>Facts\<close>

lemma set_entity_type_iter [simp]: "set entity_type_iter = UNIV"
  by (auto simp: entity_type_iter_def intro: entity_type.exhaust)

lemma distinct_entity_type_iter [simp]: "distinct entity_type_iter"
  by (simp add: entity_type_iter_def)

lemma entity_type_from_to_str [simp]: "entity_type_from_str (entity_type_to_str t) = Inr t"
  by (cases t) (simp_all add: entity_type_from_str_def)

lemma entity_update_type_try_from_as_i32 [simp]:
  "entity_update_type_try_from (entity_update_type_as_i32 u) = Some u"
  by (cases u) (simp_all add: entity_update_type_try_from_def)

text \<open>The iterator lists each kind of entity at most once, in the order of the enum.\<close>

lemma set_entity_infos_entities:
  "set (entity_infos_entities i) = {(t, info). entity_infos_get i t = Some info}"
  by (force simp: entity_infos_entities_def List.map_filter_def image_iff)

lemma map_fst_entity_infos_entities:
  "map fst (entity_infos_entities i) =
   filter (\<lambda>t. entity_infos_get i t \<noteq> None) entity_type_iter"
  by (auto simp: entity_infos_entities_def List.map_filter_def entity_type_iter_def)

lemma distinct_entity_infos_entities: "distinct (map fst (entity_infos_entities i))"
  by (simp add: map_fst_entity_infos_entities)

end
