(* ===== verification/User_Op_Types.thy ===== *)
theory User_Op_Types
  imports F64 Gas_Fees Timestamp Entity
begin

text \<open>
  The data of user operations: the v0.6 and v0.7 operations, the packed on-chain form of v0.7, the
  permissions, the EIP-7702 authorization, the aggregator costs and the chain specification
  (\<open>crates/types/src/user_operation/\<close>, \<open>authorization.rs\<close>, \<open>aggregator.rs\<close>, \<open>chain.rs\<close>,
  \<open>da.rs\<close>).
\<close>

record user_operation_id =
  id_sender :: address
  id_nonce :: u256

datatype entry_point_version = Unspecified | EP_V0_6 | EP_V0_7

record eip7702_auth =
  auth_chain_id :: u64
  auth_address :: address
  auth_nonce :: u64
  auth_y_parity :: u8
  auth_r :: u256
  auth_s :: u256

record aggregator_costs =
  execution_fixed_gas :: u128
  execution_variable_gas :: u128
  sig_fixed_length :: u128
  sig_variable_length :: u128

record user_operation_v0_6 =
  u6_sender :: address
  u6_nonce :: u256
  u6_init_code :: bytes
  u6_call_data :: bytes
  u6_call_gas_limit :: u128
  u6_verification_gas_limit :: u128
  u6_pre_verification_gas :: u128
  u6_max_fee_per_gas :: u128
  u6_max_priority_fee_per_gas :: u128
  u6_paymaster_and_data :: bytes
  u6_signature :: bytes
  u6_calldata_gas_cost :: u128
  u6_calldata_floor_gas_limit :: u128
  u6_authorization_tuple :: "eip7702_auth option"
  u6_aggregator :: "address option"
  u6_original_signature :: bytes
  u6_original_calldata_cost :: u128
  u6_original_calldata_floor_limit :: u128
  u6_aggregator_costs :: aggregator_costs
  u6_hash :: b256
  u6_entry_point :: address
  u6_chain_id :: u64

text \<open>The solidity struct \<open>PackedUserOperation\<close>; its two \<open>bytes32\<close> fields are byte lists.\<close>

record packed_user_operation =
  puo_sender :: address
  puo_nonce :: u256
  puo_initCode :: bytes
  puo_callData :: bytes
  puo_accountGasLimits :: bytes
  puo_preVerificationGas :: u256
  puo_gasFees :: bytes
  puo_paymasterAndData :: bytes
  puo_signature :: bytes

record user_operation_v0_7 =
  u7_sender :: address
  u7_nonce :: u256
  u7_call_data :: bytes
  u7_call_gas_limit :: u128
  u7_verification_gas_limit :: u128
  u7_pre_verification_gas :: u128
  u7_max_priority_fee_per_gas :: u128
  u7_max_fee_per_gas :: u128
  u7_signature :: bytes
  u7_factory :: "address option"
  u7_factory_data :: bytes
  u7_paymaster :: "address option"
  u7_paymaster_verification_gas_limit :: u128
  u7_paymaster_post_op_gas_limit :: u128
  u7_paymaster_data :: bytes
  u7_authorization_tuple :: "eip7702_auth option"
  u7_entry_point :: address
  u7_chain_id :: u64
  u7_hash :: b256
  u7_packed :: packed_user_operation
  u7_calldata_gas_cost :: u128
  u7_calldata_floor_gas_limit :: u128
  u7_aggregator :: "address option"
  u7_original_signature :: bytes
  u7_original_calldata_cost :: u128
  u7_original_calldata_floor_limit :: u128
  u7_aggregator_costs :: aggregator_costs

datatype user_operation_variant = V0_6 user_operation_v0_6 | V0_7 user_operation_v0_7

record bundler_sponsorship =
  bs_max_cost :: u256
  bs_valid_until :: u64

record user_operation_permissions =
  perm_trusted :: bool
  perm_max_allowed_in_pool_for_sender :: "usize option"
  perm_underpriced_accept_pct :: "u32 option"
  perm_underpriced_bundle_pct :: "u32 option"
  perm_bundler_sponsorship :: "bundler_sponsorship option"

definition permissions_default :: user_operation_permissions where
  "permissions_default =
     \<lparr>perm_trusted = False, perm_max_allowed_in_pool_for_sender = None,
      perm_underpriced_accept_pct = None, perm_underpriced_bundle_pct = None,
      perm_bundler_sponsorship = None\<rparr>"

text \<open>DA gas data of an operation and of a block.\<close>

datatype da_gas_data = DAEmpty | DANitro u128 | DABedrock u64

record nitro_block_data =
  nitro_l1_base_fee :: u128
  nitro_base_fee :: u128

record bedrock_block_data =
  bedrock_base_fee_scalar :: u64
  bedrock_l1_base_fee :: u64
  bedrock_blob_base_fee_scalar :: u64
  bedrock_blob_base_fee :: u64

datatype da_gas_block_data = DABlockEmpty | DABlockNitro nitro_block_data | DABlockBedrock bedrock_block_data

text \<open>
  A registered signature aggregator: its costs, its dummy signature, and the answer of its
  (remote) signature validation.
\<close>

datatype signature_aggregator_error =
  UnsupportedAggregator address | ValidationReverted bytes
  | InvalidUserOperation string | ProviderError string

record signature_aggregator =
  sa_address :: address
  sa_costs :: aggregator_costs
  sa_dummy_uo_signature :: bytes
  sa_validate_user_op_signature ::
    "user_operation_variant \<Rightarrow> signature_aggregator_error + bytes"
  sa_aggregate_signatures ::
    "user_operation_variant list \<Rightarrow> signature_aggregator_error + bytes"

record user_ops_per_aggregator =
  upa_user_ops :: "user_operation_variant list"
  upa_aggregator :: address
  upa_signature :: bytes

text \<open>A submission proxy; the (remote) processing of a revert is a field.\<close>

record submission_proxy =
  sp_address :: address
  sp_process_revert :: "bytes \<Rightarrow> user_ops_per_aggregator list \<Rightarrow> b256 list"

datatype da_gas_oracle_type =
  OracleNone | ArbitrumNitro | OptimismBedrock | LocalBedrock | CachedNitro

datatype priority_fee_oracle_type = Provider | UsageBased

record chain_spec =
  cs_name :: string
  cs_id :: u64
  cs_entry_point_address_v0_6 :: address
  cs_entry_point_address_v0_7 :: address
  cs_multicall3_address :: address
  cs_flashblocks_enabled :: bool
  cs_deposit_transfer_overhead :: u64
  cs_max_transaction_size_bytes :: usize
  cs_block_gas_limit :: u64
  cs_transaction_gas_limit :: u64
  cs_transaction_intrinsic_gas :: u64
  cs_per_user_op_v0_6_gas :: u64
  cs_per_user_op_v0_7_gas :: u64
  cs_per_user_op_deploy_overhead_gas :: u64
  cs_per_user_op_word_gas :: u64
  cs_calldata_zero_byte_gas :: u64
  cs_calldata_non_zero_byte_gas :: u64
  cs_da_pre_verification_gas :: bool
  cs_da_gas_oracle_type :: da_gas_oracle_type
  cs_da_gas_oracle_contract_address :: address
  cs_include_da_gas_in_gas_limit :: bool
  cs_eip1559_enabled :: bool
  cs_eip7702_enabled :: bool
  cs_eip7623_enabled :: bool
  cs_eip7623_calldata_floor_zero_byte_gas :: u64
  cs_eip7623_calldata_floor_non_zero_byte_gas :: u64
  cs_priority_fee_oracle_type :: priority_fee_oracle_type
  cs_min_max_priority_fee_per_gas :: u64
  cs_max_max_priority_fee_per_gas :: u64
  cs_congestion_trigger_usage_ratio_threshold :: f64
  cs_charge_gas_limit_via_pvg :: bool
  cs_bundle_max_send_interval_millis :: u64
  cs_flashbots_enabled :: bool
  cs_flashbots_relay_url :: "string option"
  cs_bloxroute_enabled :: bool
  cs_chain_history_size :: u64
  cs_signature_aggregators :: "address \<rightharpoonup> signature_aggregator"
  cs_submission_proxies :: "address \<rightharpoonup> submission_proxy"

definition chain_spec_default :: chain_spec where
  "chain_spec_default =
     \<lparr>cs_name = ''Unknown'',
      cs_id = 0,
      cs_entry_point_address_v0_6 = 0x5FF137D4b0FDCD49DcA30c7CF57E578a026d2789,
      cs_entry_point_address_v0_7 = 0x0000000071727De22E5E9d8BAf0edAc6f37da032,
      cs_multicall3_address = 0xcA11bde05977b3631167028862bE2a173976CA11,
      cs_flashblocks_enabled = False,
      cs_deposit_transfer_overhead = 30000,
      cs_max_transaction_size_bytes = 131072,
      cs_block_gas_limit = 30000000,
      cs_transaction_gas_limit = 0,
      cs_transaction_intrinsic_gas = 21000,
      cs_per_user_op_v0_6_gas = 18300,
      cs_per_user_op_v0_7_gas = 19500,
      cs_per_user_op_deploy_overhead_gas = 0,
      cs_per_user_op_word_gas = 4,
      cs_calldata_zero_byte_gas = 4,
      cs_calldata_non_zero_byte_gas = 16,
      cs_da_pre_verification_gas = False,
      cs_da_gas_oracle_type = OracleNone,
      cs_da_gas_oracle_contract_address = 0,
      cs_include_da_gas_in_gas_limit = False,
      cs_eip1559_enabled = True,
      cs_eip7702_enabled = False,
      cs_eip7623_enabled = False,
      cs_eip7623_calldata_floor_zero_byte_gas = 10,
      cs_eip7623_calldata_floor_non_zero_byte_gas = 40,
      cs_priority_fee_oracle_type = Provider,
      cs_min_max_priority_fee_per_gas = 0,
      cs_max_max_priority_fee_per_gas = - 1,
      cs_congestion_trigger_usage_ratio_threshold = Fin (3/4),
      cs_charge_gas_limit_via_pvg = False,
      cs_bundle_max_send_interval_millis = 1000,
      cs_flashbots_enabled = False,
      cs_flashbots_relay_url = None,
      cs_bloxroute_enabled = False,
      cs_chain_history_size = 64,
      cs_signature_aggregators = Map.empty,
      cs_submission_proxies = Map.empty\<rparr>"

definition chain_transaction_gas_limit :: "chain_spec \<Rightarrow> u128" where
  "chain_transaction_gas_limit cs =
     (if cs_transaction_gas_limit cs > 0 then ucast (cs_transaction_gas_limit cs)
      else ucast (cs_block_gas_limit cs))"

definition calldata_floor_zero_byte_gas :: "chain_spec \<Rightarrow> u128" where
  "calldata_floor_zero_byte_gas cs =
     (if cs_eip7623_enabled cs then ucast (cs_eip7623_calldata_floor_zero_byte_gas cs) else 0)"

definition calldata_floor_non_zero_byte_gas :: "chain_spec \<Rightarrow> u128" where
  "calldata_floor_non_zero_byte_gas cs =
     (if cs_eip7623_enabled cs then ucast (cs_eip7623_calldata_floor_non_zero_byte_gas cs) else 0)"

definition supports_eip7702 :: "chain_spec \<Rightarrow> address \<Rightarrow> bool" where
  "supports_eip7702 cs entry_point \<longleftrightarrow>
     cs_eip7702_enabled cs \<or> entry_point = cs_entry_point_address_v0_7 cs"

definition get_signature_aggregator :: "chain_spec \<Rightarrow> address \<Rightarrow> signature_aggregator option" where
  "get_signature_aggregator cs a = cs_signature_aggregators cs a"

section \<open>The libraries the operations are built on\<close>

text \<open>
  ABI encoding, the keccak hash, the recovery of the signer of an EIP-7702 authorization and the two
  gas constants of EIP-7702 come from the \<open>alloy\<close> crates.  They are the fields of a record that
  the operations take as an argument.
\<close>

record contract_user_operation =
  cuo_sender :: address
  cuo_nonce :: u256
  cuo_initCode :: bytes
  cuo_callData :: bytes
  cuo_callGasLimit :: u256
  cuo_verificationGasLimit :: u256
  cuo_preVerificationGas :: u256
  cuo_maxFeePerGas :: u256
  cuo_maxPriorityFeePerGas :: u256
  cuo_paymasterAndData :: bytes
  cuo_signature :: bytes

record user_operation_hash_encoded =
  uhe_encodedHash :: b256
  uhe_entryPoint :: address
  uhe_chainId :: u256

record user_operation_packed_for_hash_v0_6 =
  pfh6_sender :: address
  pfh6_nonce :: u256
  pfh6_hashInitCode :: b256
  pfh6_hashCallData :: b256
  pfh6_callGasLimit :: u256
  pfh6_verificationGasLimit :: u256
  pfh6_preVerificationGas :: u256
  pfh6_maxFeePerGas :: u256
  pfh6_maxPriorityFeePerGas :: u256
  pfh6_hashPaymasterAndData :: b256

record user_operation_packed_for_hash_v0_7 =
  pfh7_sender :: address
  pfh7_nonce :: u256
  pfh7_hashInitCode :: b256
  pfh7_hashCallData :: b256
  pfh7_accountGasLimits :: bytes
  pfh7_preVerificationGas :: u256
  pfh7_gasFees :: bytes
  pfh7_hashPaymasterAndData :: b256

record alloy =
  abi_encode_cuo :: "contract_user_operation \<Rightarrow> bytes"
  abi_encode_puo :: "packed_user_operation \<Rightarrow> bytes"
  abi_encode_pfh6 :: "user_operation_packed_for_hash_v0_6 \<Rightarrow> bytes"
  abi_encode_pfh7 :: "user_operation_packed_for_hash_v0_7 \<Rightarrow> bytes"
  abi_encode_uhe :: "user_operation_hash_encoded \<Rightarrow> bytes"
  keccak256 :: "bytes \<Rightarrow> b256"
  recover_authority :: "eip7702_auth \<Rightarrow> string + address"
  PER_AUTH_BASE_COST :: u64
  PER_EMPTY_ACCOUNT_COST :: u64

datatype eip7702_error =
  InvalidAuthSignature address address | RecoverError string

definition eip7702_validate :: "alloy \<Rightarrow> eip7702_auth \<Rightarrow> address \<Rightarrow> eip7702_error + unit" where
  "eip7702_validate al auth signer =
     (case recover_authority al auth of
        Inr a \<Rightarrow> if a = signer then Inr () else Inl (InvalidAuthSignature signer a)
      | Inl e \<Rightarrow> Inl (RecoverError e))"

definition eip7702_max_fill :: "eip7702_auth \<Rightarrow> eip7702_auth" where
  "eip7702_max_fill a =
     \<lparr>auth_chain_id = auth_chain_id a, auth_address = auth_address a, auth_nonce = - 1,
      auth_y_parity = 27, auth_r = - 1, auth_s = - 1\<rparr>"

definition aggregator_costs_default :: aggregator_costs where
  "aggregator_costs_default =
     \<lparr>execution_fixed_gas = 0, execution_variable_gas = 0,
      sig_fixed_length = 0, sig_variable_length = 0\<rparr>"

end
