(* ===== verification/Bytes.thy ===== *)
theory Bytes
  imports Prelude
begin

text \<open>
  Big-endian byte strings of machine integers (\<open>to_be_bytes\<close>, \<open>from_be_bytes\<close> and
  \<open>Address::from_slice\<close> of the sources), with the round trip between the two directions.
\<close>

unbundle bit_operations_syntax

definition be_bytes :: "nat \<Rightarrow> 'a::len word \<Rightarrow> bytes" where
  "be_bytes n w = map (\<lambda>i. ucast (drop_bit (8 * i) w)) (rev [0..<n])"

definition from_be_bytes :: "bytes \<Rightarrow> 'a::len word" where
  "from_be_bytes bs = foldl (\<lambda>a b. push_bit 8 a OR ucast b) 0 bs"

lemma length_be_bytes [simp]: "length (be_bytes n w) = n"
  by (simp add: be_bytes_def)

lemma be_bytes_0 [simp]: "be_bytes 0 w = []"
  by (simp add: be_bytes_def)

lemma be_bytes_Suc: "be_bytes (Suc n) w = be_bytes n (drop_bit 8 w) @ [ucast w]"
  by (simp add: be_bytes_def upt_conv_Cons map_Suc_upt [symmetric] rev_map o_def
      add.commute del: upt_Suc flip: map_Suc_upt)

lemma from_be_bytes_snoc: "from_be_bytes (bs @ [b]) = push_bit 8 (from_be_bytes bs) OR ucast b"
  by (simp add: from_be_bytes_def)

lemma take_bit_byte:
  fixes w :: "'a::len word"
  shows "push_bit 8 (take_bit m (drop_bit 8 w)) OR ucast (ucast w :: u8) = take_bit (8 + m) w"
  by (rule bit_eqI) (auto simp: bit_simps dest: bit_imp_le_length)

lemma from_be_bytes_be_bytes_take:
  "from_be_bytes (be_bytes n w) = take_bit (8 * n) w" for w :: "'a::len word"
proof (induction n arbitrary: w)
  case 0
  show ?case by (simp add: from_be_bytes_def)
next
  case (Suc n)
  then show ?case by (simp add: be_bytes_Suc from_be_bytes_snoc take_bit_byte)
qed

lemma from_be_bytes_be_bytes [simp]:
  "8 * n = LENGTH('a) \<Longrightarrow> from_be_bytes (be_bytes n w) = w" for w :: "'a::len word"
  by (simp add: from_be_bytes_be_bytes_take)

end
