(* ===== verification/User_Operation_V0_6.thy ===== *)
theory User_Operation_V0_6
  imports User_Op_Types Bytes Math
begin

text \<open>
  Shared helpers of \<open>crates/types/src/user_operation/mod.rs\<close> and the v0.6 user operation,
  \<open>crates/types/src/user_operation/v0_6.rs\<close>: its entities, its gas functions, its
  transformation for an aggregator and its builder.
\<close>

unbundle bit_operations_syntax

section \<open>Helpers of the user operation module\<close>

definition byte_len :: "'b list \<Rightarrow> usize" where
  "byte_len b = of_nat (length b)"

definition TIME_RANGE_BUFFER :: duration where
  "TIME_RANGE_BUFFER = 60 * 1000000000"

definition BUNDLE_BYTE_OVERHEAD :: usize where
  "BUNDLE_BYTE_OVERHEAD = 4 + 32 + 32 + 32"

definition USER_OP_OFFSET_WORD_SIZE :: usize where
  "USER_OP_OFFSET_WORD_SIZE = 32"

definition bundle_shared_gas :: "chain_spec \<Rightarrow> u128" where
  "bundle_shared_gas cs = ucast (cs_transaction_intrinsic_gas cs)"

definition bundle_per_uo_shared_gas :: "chain_spec \<Rightarrow> usize \<Rightarrow> u128" where
  "bundle_per_uo_shared_gas cs bundle_size =
     (if bundle_size = 0 then 0 else div_ceil (bundle_shared_gas cs) (ucast bundle_size))"

definition optional_bundle_per_uo_shared_gas :: "chain_spec \<Rightarrow> usize option \<Rightarrow> u128" where
  "optional_bundle_per_uo_shared_gas cs bundle_size =
     (case bundle_size of Some n \<Rightarrow> bundle_per_uo_shared_gas cs n | None \<Rightarrow> 0)"

definition aggregator_gas_limit ::
  "chain_spec \<Rightarrow> aggregator_costs \<Rightarrow> usize option \<Rightarrow> u128" where
  "aggregator_gas_limit cs costs bundle_size =
     (let nzb = ucast (cs_calldata_non_zero_byte_gas cs);
          shared_portion =
            (case bundle_size of
               Some n \<Rightarrow> div_ceil (execution_fixed_gas costs + sig_fixed_length costs * nzb) (ucast n)
             | None \<Rightarrow> 0);
          variable_portion = execution_variable_gas costs + sig_variable_length costs * nzb
      in shared_portion + variable_portion)"

definition extra_data_len :: "aggregator_costs \<Rightarrow> usize \<Rightarrow> usize" where
  "extra_data_len costs bundle_size =
     ucast (div_ceil (sig_fixed_length costs) (ucast bundle_size) + sig_variable_length costs)"

definition op_calldata_gas_cost :: "usize \<Rightarrow> usize \<Rightarrow> chain_spec \<Rightarrow> u128" where
  "op_calldata_gas_cost total_bytes non_zero_bytes cs =
     (let length_in_words = drop_bit 5 (ucast total_bytes + 31);
          zero_bytes = total_bytes - non_zero_bytes;
          call_data_cost = ucast (cs_calldata_zero_byte_gas cs) * ucast zero_bytes
                         + ucast (cs_calldata_non_zero_byte_gas cs) * ucast non_zero_bytes
      in call_data_cost + ucast (cs_per_user_op_word_gas cs) * length_in_words)"

definition op_calldata_floor_gas_cost :: "usize \<Rightarrow> usize \<Rightarrow> chain_spec \<Rightarrow> u128" where
  "op_calldata_floor_gas_cost total_bytes non_zero_bytes cs =
     (let zero_bytes = total_bytes - non_zero_bytes
      in calldata_floor_zero_byte_gas cs * ucast zero_bytes
         + calldata_floor_non_zero_byte_gas cs * ucast non_zero_bytes)"

text \<open>The argument is the ABI encoding of the operation.\<close>

definition calc_calldata_gas_costs :: "bytes \<Rightarrow> chain_spec \<Rightarrow> u128 \<times> u128" where
  "calc_calldata_gas_costs data cs =
     (let total_bytes = byte_len data;
          non_zero_bytes = byte_len (filter (\<lambda>x. x \<noteq> 0) data)
      in (op_calldata_gas_cost total_bytes non_zero_bytes cs,
          op_calldata_floor_gas_cost total_bytes non_zero_bytes cs))"

definition byte_array_abi_len :: "bytes \<Rightarrow> usize" where
  "byte_array_abi_len b = (byte_len b + 31) AND NOT 31"

definition default_if_none_or_equal :: "'v option \<Rightarrow> 'v \<Rightarrow> 'v \<Rightarrow> 'v" where
  "default_if_none_or_equal v d e =
     (case v of None \<Rightarrow> d | Some x \<Rightarrow> if x \<noteq> e then x else d)"

section \<open>The operation\<close>

definition V0_6_ENTRY_POINT_INNER_GAS_OVERHEAD :: u128 where
  "V0_6_ENTRY_POINT_INNER_GAS_OVERHEAD = 5000"

definition V0_6_ABI_ENCODED_USER_OPERATION_FIXED_LEN :: usize where
  "V0_6_ABI_ENCODED_USER_OPERATION_FIXED_LEN = 512"

definition get_address_from_field :: "bytes \<Rightarrow> address option" where
  "get_address_from_field data =
     (if length data < 20 then None else Some (from_be_bytes (take 20 data)))"

definition uo6_factory :: "user_operation_v0_6 \<Rightarrow> address option" where
  "uo6_factory uo = get_address_from_field (u6_init_code uo)"

definition uo6_paymaster :: "user_operation_v0_6 \<Rightarrow> address option" where
  "uo6_paymaster uo = get_address_from_field (u6_paymaster_and_data uo)"

definition uo6_id :: "user_operation_v0_6 \<Rightarrow> user_operation_id" where
  "uo6_id uo = \<lparr>id_sender = u6_sender uo, id_nonce = u6_nonce uo\<rparr>"

fun uo6_entity_address :: "user_operation_v0_6 \<Rightarrow> entity_type \<Rightarrow> address option" where
  "uo6_entity_address uo Account = Some (u6_sender uo)"
| "uo6_entity_address uo Paymaster = uo6_paymaster uo"
| "uo6_entity_address uo Factory = uo6_factory uo"
| "uo6_entity_address uo Aggregator = None"

definition uo6_entities :: "user_operation_v0_6 \<Rightarrow> entity list" where
  "uo6_entities uo =
     List.map_filter (\<lambda>t. map_option (entity_new t) (uo6_entity_address uo t)) entity_type_iter"

definition uo6_max_gas_cost :: "user_operation_v0_6 \<Rightarrow> u256" where
  "uo6_max_gas_cost uo =
     (let mul = (if uo6_paymaster uo \<noteq> None then 3 else 1)
      in ucast (u6_max_fee_per_gas uo
                * (u6_pre_verification_gas uo + u6_call_gas_limit uo
                   + u6_verification_gas_limit uo * mul)))"

definition uo6_heap_size :: "user_operation_v0_6 \<Rightarrow> usize" where
  "uo6_heap_size uo =
     byte_len (u6_init_code uo) + byte_len (u6_call_data uo)
     + byte_len (u6_paymaster_and_data uo) + byte_len (u6_signature uo)"

definition uo6_total_verification_gas_limit :: "user_operation_v0_6 \<Rightarrow> u128" where
  "uo6_total_verification_gas_limit uo =
     (let mul = (if uo6_paymaster uo \<noteq> None then 2 else 1)
      in u6_verification_gas_limit uo * mul)"

definition uo6_paymaster_post_op_gas_limit :: "user_operation_v0_6 \<Rightarrow> u128" where
  "uo6_paymaster_post_op_gas_limit uo =
     (if uo6_paymaster uo \<noteq> None then u6_verification_gas_limit uo * 2 else 0)"

definition uo6_required_pre_execution_buffer :: "user_operation_v0_6 \<Rightarrow> u128" where
  "uo6_required_pre_execution_buffer uo =
     u6_verification_gas_limit uo + V0_6_ENTRY_POINT_INNER_GAS_OVERHEAD"

definition uo6_static_pre_verification_gas :: "user_operation_v0_6 \<Rightarrow> chain_spec \<Rightarrow> u128" where
  "uo6_static_pre_verification_gas uo cs =
     u6_calldata_gas_cost uo + ucast (cs_per_user_op_v0_6_gas cs)
     + (if uo6_factory uo \<noteq> None then ucast (cs_per_user_op_deploy_overhead_gas cs) else 0)"

definition uo6_aggregator_gas_limit ::
  "user_operation_v0_6 \<Rightarrow> chain_spec \<Rightarrow> usize option \<Rightarrow> u128" where
  "uo6_aggregator_gas_limit uo cs bundle_size =
     (if u6_aggregator uo = None then 0
      else aggregator_gas_limit cs (u6_aggregator_costs uo) bundle_size)"

definition uo6_extra_data_len :: "user_operation_v0_6 \<Rightarrow> usize \<Rightarrow> usize" where
  "uo6_extra_data_len uo bundle_size =
     (if u6_aggregator uo \<noteq> None then extra_data_len (u6_aggregator_costs uo) bundle_size else 0)"

definition uo6_abi_encoded_size :: "user_operation_v0_6 \<Rightarrow> usize" where
  "uo6_abi_encoded_size uo =
     V0_6_ABI_ENCODED_USER_OPERATION_FIXED_LEN
     + byte_array_abi_len (u6_init_code uo) + byte_array_abi_len (u6_call_data uo)
     + byte_array_abi_len (u6_paymaster_and_data uo) + byte_array_abi_len (u6_signature uo)"

definition uo6_effective_verification_gas_limit_efficiency_reject_threshold ::
  "user_operation_v0_6 \<Rightarrow> f64 \<Rightarrow> f64" where
  "uo6_effective_verification_gas_limit_efficiency_reject_threshold uo thresh =
     (if uo6_paymaster uo \<noteq> None then f64_div thresh f64_two else thresh)"

definition contract_user_operation_from :: "user_operation_v0_6 \<Rightarrow> contract_user_operation" where
  "contract_user_operation_from uo =
     \<lparr>cuo_sender = u6_sender uo, cuo_nonce = u6_nonce uo, cuo_initCode = u6_init_code uo,
      cuo_callData = u6_call_data uo, cuo_callGasLimit = ucast (u6_call_gas_limit uo),
      cuo_verificationGasLimit = ucast (u6_verification_gas_limit uo),
      cuo_preVerificationGas = ucast (u6_pre_verification_gas uo),
      cuo_maxFeePerGas = ucast (u6_max_fee_per_gas uo),
      cuo_maxPriorityFeePerGas = ucast (u6_max_priority_fee_per_gas uo),
      cuo_paymasterAndData = u6_paymaster_and_data uo, cuo_signature = u6_signature uo\<rparr>"

definition packed_for_hash_from_v0_6 ::
  "alloy \<Rightarrow> user_operation_v0_6 \<Rightarrow> user_operation_packed_for_hash_v0_6" where
  "packed_for_hash_from_v0_6 al uo =
     \<lparr>pfh6_sender = u6_sender uo, pfh6_nonce = u6_nonce uo,
      pfh6_hashInitCode = keccak256 al (u6_init_code uo),
      pfh6_hashCallData = keccak256 al (u6_call_data uo),
      pfh6_callGasLimit = ucast (u6_call_gas_limit uo),
      pfh6_verificationGasLimit = ucast (u6_verification_gas_limit uo),
      pfh6_preVerificationGas = ucast (u6_pre_verification_gas uo),
      pfh6_maxFeePerGas = ucast (u6_max_fee_per_gas uo),
      pfh6_maxPriorityFeePerGas = ucast (u6_max_priority_fee_per_gas uo),
      pfh6_hashPaymasterAndData = keccak256 al (u6_paymaster_and_data uo)\<rparr>"

definition uo6_transform_for_aggregator ::
  "alloy \<Rightarrow> user_operation_v0_6 \<Rightarrow> chain_spec \<Rightarrow> address \<Rightarrow> aggregator_costs \<Rightarrow> bytes
     \<Rightarrow> user_operation_v0_6" where
  "uo6_transform_for_aggregator al uo cs aggregator costs new_signature =
     (let uo = uo\<lparr>u6_aggregator := Some aggregator, u6_aggregator_costs := costs,
                 u6_original_calldata_cost := u6_calldata_gas_cost uo,
                 u6_original_calldata_floor_limit := u6_calldata_floor_gas_limit uo,
                 u6_original_signature := u6_signature uo,
                 u6_signature := new_signature\<rparr>;
          (cost, floor_limit) =
            calc_calldata_gas_costs (abi_encode_cuo al (contract_user_operation_from uo)) cs
      in uo\<lparr>u6_calldata_gas_cost := cost, u6_calldata_floor_gas_limit := floor_limit\<rparr>)"

definition uo6_with_original_signature :: "user_operation_v0_6 \<Rightarrow> user_operation_v0_6" where
  "uo6_with_original_signature uo =
     uo\<lparr>u6_signature := u6_original_signature uo,
        u6_calldata_gas_cost := u6_original_calldata_cost uo,
        u6_calldata_floor_gas_limit := u6_original_calldata_floor_limit uo\<rparr>"

section \<open>The builder\<close>

record required_fields_v0_6 =
  rf6_sender :: address
  rf6_nonce :: u256
  rf6_init_code :: bytes
  rf6_call_data :: bytes
  rf6_call_gas_limit :: u128
  rf6_verification_gas_limit :: u128
  rf6_pre_verification_gas :: u128
  rf6_max_fee_per_gas :: u128
  rf6_max_priority_fee_per_gas :: u128
  rf6_paymaster_and_data :: bytes
  rf6_signature :: bytes

record builder_v0_6 =
  b6_chain_spec :: chain_spec
  b6_required :: required_fields_v0_6
  b6_contract_uo :: "contract_user_operation option"
  b6_authorization_tuple :: "eip7702_auth option"
  b6_aggregator :: "address option"

definition builder6_new :: "chain_spec \<Rightarrow> required_fields_v0_6 \<Rightarrow> builder_v0_6" where
  "builder6_new cs required =
     \<lparr>b6_chain_spec = cs, b6_required = required, b6_contract_uo = None,
      b6_authorization_tuple = None, b6_aggregator = None\<rparr>"

text \<open>\<open>u128::try_from(U256)\<close>: fails when the value does not fit.\<close>

datatype from_uint_error = FromUintOverflow

definition u128_try_from :: "u256 \<Rightarrow> from_uint_error + u128" where
  "u128_try_from x = (if unat x < 2 ^ 128 then Inr (ucast x) else Inl FromUintOverflow)"

definition required_fields6_try_from ::
  "contract_user_operation \<Rightarrow> from_uint_error + required_fields_v0_6" where
  "required_fields6_try_from op =
     (case u128_try_from (cuo_callGasLimit op) of Inl e \<Rightarrow> Inl e | Inr cgl \<Rightarrow>
      case u128_try_from (cuo_verificationGasLimit op) of Inl e \<Rightarrow> Inl e | Inr vgl \<Rightarrow>
      case u128_try_from (cuo_preVerificationGas op) of Inl e \<Rightarrow> Inl e | Inr pvg \<Rightarrow>
      case u128_try_from (cuo_maxFeePerGas op) of Inl e \<Rightarrow> Inl e | Inr mf \<Rightarrow>
      case u128_try_from (cuo_maxPriorityFeePerGas op) of Inl e \<Rightarrow> Inl e | Inr mpf \<Rightarrow>
        Inr \<lparr>rf6_sender = cuo_sender op, rf6_nonce = cuo_nonce op,
             rf6_init_code = cuo_initCode op, rf6_call_data = cuo_callData op,
             rf6_call_gas_limit = cgl, rf6_verification_gas_limit = vgl,
             rf6_pre_verification_gas = pvg, rf6_max_fee_per_gas = mf,
             rf6_max_priority_fee_per_gas = mpf,
             rf6_paymaster_and_data = cuo_paymasterAndData op,
             rf6_signature = cuo_signature op\<rparr>)"

definition builder6_from_contract ::
  "chain_spec \<Rightarrow> contract_user_operation \<Rightarrow> from_uint_error + builder_v0_6" where
  "builder6_from_contract cs cuo =
     (case required_fields6_try_from cuo of
        Inl e \<Rightarrow> Inl e
      | Inr required \<Rightarrow>
          Inr \<lparr>b6_chain_spec = cs, b6_required = required, b6_contract_uo = Some cuo,
               b6_authorization_tuple = None, b6_aggregator = None\<rparr>)"

definition builder6_from_uo :: "user_operation_v0_6 \<Rightarrow> chain_spec \<Rightarrow> builder_v0_6" where
  "builder6_from_uo uo cs =
     \<lparr>b6_chain_spec = cs,
      b6_required =
        \<lparr>rf6_sender = u6_sender uo, rf6_nonce = u6_nonce uo, rf6_init_code = u6_init_code uo,
         rf6_call_data = u6_call_data uo, rf6_call_gas_limit = u6_call_gas_limit uo,
         rf6_verification_gas_limit = u6_verification_gas_limit uo,
         rf6_pre_verification_gas = u6_pre_verification_gas uo,
         rf6_max_fee_per_gas = u6_max_fee_per_gas uo,
         rf6_max_priority_fee_per_gas = u6_max_priority_fee_per_gas uo,
         rf6_paymaster_and_data = u6_paymaster_and_data uo, rf6_signature = u6_signature uo\<rparr>,
      b6_contract_uo = None, b6_authorization_tuple = u6_authorization_tuple uo,
      b6_aggregator = u6_aggregator uo\<rparr>"

definition builder6_build :: "alloy \<Rightarrow> builder_v0_6 \<Rightarrow> user_operation_v0_6" where
  "builder6_build al b =
     (let r = b6_required b; cs = b6_chain_spec b;
          uo = \<lparr>u6_sender = rf6_sender r, u6_nonce = rf6_nonce r, u6_init_code = rf6_init_code r,
                u6_call_data = rf6_call_data r, u6_call_gas_limit = rf6_call_gas_limit r,
                u6_verification_gas_limit = rf6_verification_gas_limit r,
                u6_pre_verification_gas = rf6_pre_verification_gas r,
                u6_max_fee_per_gas = rf6_max_fee_per_gas r,
                u6_max_priority_fee_per_gas = rf6_max_priority_fee_per_gas r,
                u6_paymaster_and_data = rf6_paymaster_and_data r,
                u6_signature = rf6_signature r, u6_calldata_gas_cost = 0,
                u6_calldata_floor_gas_limit = 0,
                u6_authorization_tuple = b6_authorization_tuple b,
                u6_aggregator = b6_aggregator b, u6_original_signature = [],
                u6_original_calldata_cost = 0, u6_original_calldata_floor_limit = 0,
                u6_aggregator_costs = aggregator_costs_default, u6_hash = 0,
                u6_entry_point = cs_entry_point_address_v0_6 cs, u6_chain_id = cs_id cs\<rparr>;
          cuo = (case b6_contract_uo b of Some c \<Rightarrow> c | None \<Rightarrow> contract_user_operation_from uo);
          (cost, floor_limit) = calc_calldata_gas_costs (abi_encode_cuo al cuo) cs;
          uo = uo\<lparr>u6_calldata_gas_cost := cost, u6_calldata_floor_gas_limit := floor_limit\<rparr>;
          encoded = \<lparr>uhe_encodedHash =
                       keccak256 al (abi_encode_pfh6 al (packed_for_hash_from_v0_6 al uo)),
                     uhe_entryPoint = cs_entry_point_address_v0_6 cs,
                     uhe_chainId = ucast (cs_id cs)\<rparr>
      in uo\<lparr>u6_hash := keccak256 al (abi_encode_uhe al encoded)\<rparr>)"

end
