(* ===== verification/User_Operation_V0_7.thy ===== *)
theory User_Operation_V0_7
  imports User_Operation_V0_6
begin

text \<open>
  The v0.7 user operation, \<open>crates/types/src/user_operation/v0_7.rs\<close>: its entities and gas
  functions, its packed on-chain form, the transformation for an aggregator and the builder.
\<close>

definition V0_7_ENTRY_POINT_INNER_GAS_OVERHEAD :: u128 where
  "V0_7_ENTRY_POINT_INNER_GAS_OVERHEAD = 10000"

definition V0_7_ABI_ENCODED_USER_OPERATION_FIXED_LEN :: usize where
  "V0_7_ABI_ENCODED_USER_OPERATION_FIXED_LEN = 416"

definition uo7_id :: "user_operation_v0_7 \<Rightarrow> user_operation_id" where
  "uo7_id uo = \<lparr>id_sender = u7_sender uo, id_nonce = u7_nonce uo\<rparr>"

definition uo7_max_gas_cost :: "user_operation_v0_7 \<Rightarrow> u256" where
  "uo7_max_gas_cost uo =
     ucast (u7_max_fee_per_gas uo
            * (u7_pre_verification_gas uo + u7_call_gas_limit uo + u7_verification_gas_limit uo
               + u7_paymaster_verification_gas_limit uo + u7_paymaster_post_op_gas_limit uo))"

definition uo7_entities :: "user_operation_v0_7 \<Rightarrow> entity list" where
  "uo7_entities uo =
     [entity_account (u7_sender uo)]
     @ (case u7_factory uo of Some f \<Rightarrow> [entity_factory f] | None \<Rightarrow> [])
     @ (case u7_paymaster uo of Some p \<Rightarrow> [entity_paymaster p] | None \<Rightarrow> [])"

definition uo7_heap_size :: "user_operation_v0_7 \<Rightarrow> usize" where
  "uo7_heap_size uo =
     byte_len (puo_callData (u7_packed uo)) + byte_len (puo_initCode (u7_packed uo))
     + byte_len (puo_paymasterAndData (u7_packed uo)) + byte_len (u7_call_data uo)
     + byte_len (u7_signature uo) + byte_len (u7_factory_data uo)
     + byte_len (u7_paymaster_data uo)"

definition uo7_total_verification_gas_limit :: "user_operation_v0_7 \<Rightarrow> u128" where
  "uo7_total_verification_gas_limit uo =
     u7_verification_gas_limit uo + u7_paymaster_verification_gas_limit uo"

definition uo7_static_pre_verification_gas :: "user_operation_v0_7 \<Rightarrow> chain_spec \<Rightarrow> u128" where
  "uo7_static_pre_verification_gas uo cs =
     u7_calldata_gas_cost uo + ucast (cs_per_user_op_v0_7_gas cs)
     + (if u7_factory uo \<noteq> None then ucast (cs_per_user_op_deploy_overhead_gas cs) else 0)"

definition uo7_required_pre_execution_buffer :: "user_operation_v0_7 \<Rightarrow> u128" where
  "uo7_required_pre_execution_buffer uo =
     V0_7_ENTRY_POINT_INNER_GAS_OVERHEAD + u7_paymaster_post_op_gas_limit uo
     + (u7_call_gas_limit uo + u7_paymaster_post_op_gas_limit uo
        + V0_7_ENTRY_POINT_INNER_GAS_OVERHEAD) div 63"

definition uo7_aggregator_gas_limit ::
  "user_operation_v0_7 \<Rightarrow> chain_spec \<Rightarrow> usize option \<Rightarrow> u128" where
  "uo7_aggregator_gas_limit uo cs bundle_size =
     (if u7_aggregator uo = None then 0
      else aggregator_gas_limit cs (u7_aggregator_costs uo) bundle_size)"

definition uo7_extra_data_len :: "user_operation_v0_7 \<Rightarrow> usize \<Rightarrow> usize" where
  "uo7_extra_data_len uo bundle_size =
     (if u7_aggregator uo \<noteq> None then extra_data_len (u7_aggregator_costs uo) bundle_size else 0)"

definition uo7_abi_encoded_size :: "user_operation_v0_7 \<Rightarrow> usize" where
  "uo7_abi_encoded_size uo =
     V0_7_ABI_ENCODED_USER_OPERATION_FIXED_LEN
     + byte_array_abi_len (puo_initCode (u7_packed uo))
     + byte_array_abi_len (puo_callData (u7_packed uo))
     + byte_array_abi_len (puo_paymasterAndData (u7_packed uo))
     + byte_array_abi_len (puo_signature (u7_packed uo))"

section \<open>Packing\<close>

definition concat_u128_be :: "u128 \<Rightarrow> u128 \<Rightarrow> bytes" where
  "concat_u128_be a b =
     (let a = be_bytes 16 a; b = be_bytes 16 b
      in map (\<lambda>i. if i \<ge> length a then b ! (i - length a) else a ! i) [0..<32])"

text \<open>\<open>split_at\<close> panics on a shorter slice.\<close>

definition u128_from_be_slice :: "bytes \<Rightarrow> u128 option" where
  "u128_from_be_slice input =
     (if length input < 16 then None else Some (from_be_bytes (take 16 input)))"

definition pack_user_operation :: "user_operation_v0_7 \<Rightarrow> packed_user_operation" where
  "pack_user_operation uo =
     (let init_code = (case u7_factory uo of
                         Some f \<Rightarrow> be_bytes 20 f @ u7_factory_data uo | None \<Rightarrow> []);
          account_gas_limits = concat_u128_be (u7_verification_gas_limit uo) (u7_call_gas_limit uo);
          gas_fees = concat_u128_be (u7_max_priority_fee_per_gas uo) (u7_max_fee_per_gas uo);
          pvgl = be_bytes 16 (u7_paymaster_verification_gas_limit uo);
          pogl = be_bytes 16 (u7_paymaster_post_op_gas_limit uo);
          paymaster_and_data = (case u7_paymaster uo of
                                  Some p \<Rightarrow> be_bytes 20 p @ pvgl @ pogl @ u7_paymaster_data uo
                                | None \<Rightarrow> [])
      in \<lparr>puo_sender = u7_sender uo, puo_nonce = u7_nonce uo, puo_initCode = init_code,
          puo_callData = u7_call_data uo, puo_accountGasLimits = account_gas_limits,
          puo_preVerificationGas = ucast (u7_pre_verification_gas uo), puo_gasFees = gas_fees,
          puo_paymasterAndData = paymaster_and_data, puo_signature = u7_signature uo\<rparr>)"

definition hash_packed_user_operation ::
  "alloy \<Rightarrow> packed_user_operation \<Rightarrow> address \<Rightarrow> u64 \<Rightarrow> b256" where
  "hash_packed_user_operation al puo entry_point chain_id =
     (let packed_for_hash =
            \<lparr>pfh7_sender = puo_sender puo, pfh7_nonce = puo_nonce puo,
             pfh7_hashInitCode = keccak256 al (puo_initCode puo),
             pfh7_hashCallData = keccak256 al (puo_callData puo),
             pfh7_accountGasLimits = puo_accountGasLimits puo,
             pfh7_preVerificationGas = puo_preVerificationGas puo,
             pfh7_gasFees = puo_gasFees puo,
             pfh7_hashPaymasterAndData = keccak256 al (puo_paymasterAndData puo)\<rparr>;
          encoded = \<lparr>uhe_encodedHash = keccak256 al (abi_encode_pfh7 al packed_for_hash),
                     uhe_entryPoint = entry_point, uhe_chainId = ucast chain_id\<rparr>
      in keccak256 al (abi_encode_uhe al encoded))"

definition uo7_transform_for_aggregator ::
  "alloy \<Rightarrow> user_operation_v0_7 \<Rightarrow> chain_spec \<Rightarrow> address \<Rightarrow> aggregator_costs \<Rightarrow> bytes
     \<Rightarrow> user_operation_v0_7" where
  "uo7_transform_for_aggregator al uo cs aggregator costs new_signature =
     (let uo = uo\<lparr>u7_aggregator := Some aggregator, u7_aggregator_costs := costs,
                 u7_original_signature := u7_signature uo,
                 u7_original_calldata_cost := u7_calldata_gas_cost uo,
                 u7_original_calldata_floor_limit := u7_calldata_floor_gas_limit uo,
                 u7_signature := new_signature\<rparr>;
          uo = uo\<lparr>u7_packed := pack_user_operation uo\<rparr>;
          (cost, floor_limit) = calc_calldata_gas_costs (abi_encode_puo al (u7_packed uo)) cs
      in uo\<lparr>u7_calldata_gas_cost := cost, u7_calldata_floor_gas_limit := floor_limit\<rparr>)"

definition uo7_with_original_signature :: "user_operation_v0_7 \<Rightarrow> user_operation_v0_7" where
  "uo7_with_original_signature uo =
     (let uo = uo\<lparr>u7_signature := u7_original_signature uo\<rparr>;
          uo = uo\<lparr>u7_packed := pack_user_operation uo\<rparr>
      in uo\<lparr>u7_calldata_gas_cost := u7_original_calldata_cost uo,
            u7_calldata_floor_gas_limit := u7_original_calldata_floor_limit uo\<rparr>)"

section \<open>The builder\<close>

record required_fields_v0_7 =
  rf7_sender :: address
  rf7_nonce :: u256
  rf7_call_data :: bytes
  rf7_call_gas_limit :: u128
  rf7_verification_gas_limit :: u128
  rf7_pre_verification_gas :: u128
  rf7_max_priority_fee_per_gas :: u128
  rf7_max_fee_per_gas :: u128
  rf7_signature :: bytes

record builder_v0_7 =
  b7_chain_spec :: chain_spec
  b7_required :: required_fields_v0_7
  b7_factory :: "address option"
  b7_factory_data :: bytes
  b7_paymaster :: "address option"
  b7_paymaster_verification_gas_limit :: u128
  b7_paymaster_post_op_gas_limit :: u128
  b7_paymaster_data :: bytes
  b7_packed_uo :: "packed_user_operation option"
  b7_authorization_tuple :: "eip7702_auth option"
  b7_aggregator :: "address option"

definition builder7_new :: "chain_spec \<Rightarrow> required_fields_v0_7 \<Rightarrow> builder_v0_7" where
  "builder7_new cs required =
     \<lparr>b7_chain_spec = cs, b7_required = required, b7_factory = None, b7_factory_data = [],
      b7_paymaster = None, b7_paymaster_verification_gas_limit = 0,
      b7_paymaster_post_op_gas_limit = 0, b7_paymaster_data = [], b7_packed_uo = None,
      b7_authorization_tuple = None, b7_aggregator = None\<rparr>"

definition builder7_factory :: "builder_v0_7 \<Rightarrow> address \<Rightarrow> bytes \<Rightarrow> builder_v0_7" where
  "builder7_factory b factory data = b\<lparr>b7_factory := Some factory, b7_factory_data := data\<rparr>"

definition builder7_paymaster ::
  "builder_v0_7 \<Rightarrow> address \<Rightarrow> u128 \<Rightarrow> u128 \<Rightarrow> bytes \<Rightarrow> builder_v0_7" where
  "builder7_paymaster b paymaster pvgl pogl data =
     b\<lparr>b7_paymaster := Some paymaster, b7_paymaster_verification_gas_limit := pvgl,
       b7_paymaster_post_op_gas_limit := pogl, b7_paymaster_data := data\<rparr>"

definition builder7_clear_paymaster :: "builder_v0_7 \<Rightarrow> builder_v0_7" where
  "builder7_clear_paymaster b =
     b\<lparr>b7_paymaster := None, b7_paymaster_verification_gas_limit := 0,
       b7_paymaster_post_op_gas_limit := 0, b7_paymaster_data := []\<rparr>"

text \<open>
  \<open>from_packed\<close>: the outer option is \<open>None\<close> where indexing a slice out of range panics.  The two
  \<open>bytes32\<close> fields have 32 bytes by their type; on other lists the model panics.
\<close>

definition builder7_from_packed ::
  "packed_user_operation \<Rightarrow> chain_spec \<Rightarrow> (from_uint_error + builder_v0_7) option" where
  "builder7_from_packed puo cs =
     (case (u128_from_be_slice (drop 16 (puo_accountGasLimits puo)),
            u128_from_be_slice (take 16 (puo_accountGasLimits puo)),
            u128_from_be_slice (take 16 (puo_gasFees puo)),
            u128_from_be_slice (drop 16 (puo_gasFees puo))) of
        (Some cgl, Some vgl, Some mpf, Some mf) \<Rightarrow>
          (case u128_try_from (puo_preVerificationGas puo) of
             Inl e \<Rightarrow> Some (Inl e)
           | Inr pvg \<Rightarrow>
               (let b = builder7_new cs
                          \<lparr>rf7_sender = puo_sender puo, rf7_nonce = puo_nonce puo,
                           rf7_call_data = puo_callData puo, rf7_call_gas_limit = cgl,
                           rf7_verification_gas_limit = vgl, rf7_pre_verification_gas = pvg,
                           rf7_max_priority_fee_per_gas = mpf, rf7_max_fee_per_gas = mf,
                           rf7_signature = puo_signature puo\<rparr>;
                    b = b\<lparr>b7_packed_uo := Some puo\<rparr>;
                    ic = puo_initCode puo; pd = puo_paymasterAndData puo
                in if ic \<noteq> [] \<and> length ic < 20 then None
                   else let b = (if ic \<noteq> []
                                 then builder7_factory b (from_be_bytes (take 20 ic)) (drop 20 ic)
                                 else b)
                        in if pd \<noteq> [] \<and> length pd < 52 then None
                           else if pd \<noteq> []
                           then (case (u128_from_be_slice (take 16 (drop 20 pd)),
                                       u128_from_be_slice (take 16 (drop 36 pd))) of
                                   (Some pvgl, Some pogl) \<Rightarrow>
                                     Some (Inr (builder7_paymaster b (from_be_bytes (take 20 pd))
                                                  pvgl pogl (drop 52 pd)))
                                 | _ \<Rightarrow> None)
                           else Some (Inr b)))
      | _ \<Rightarrow> None)"

definition builder7_from_uo :: "user_operation_v0_7 \<Rightarrow> chain_spec \<Rightarrow> builder_v0_7" where
  "builder7_from_uo uo cs =
     \<lparr>b7_chain_spec = cs,
      b7_required =
        \<lparr>rf7_sender = u7_sender uo, rf7_nonce = u7_nonce uo, rf7_call_data = u7_call_data uo,
         rf7_call_gas_limit = u7_call_gas_limit uo,
         rf7_verification_gas_limit = u7_verification_gas_limit uo,
         rf7_pre_verification_gas = u7_pre_verification_gas uo,
         rf7_max_priority_fee_per_gas = u7_max_priority_fee_per_gas uo,
         rf7_max_fee_per_gas = u7_max_fee_per_gas uo, rf7_signature = u7_signature uo\<rparr>,
      b7_factory = u7_factory uo, b7_factory_data = u7_factory_data uo,
      b7_paymaster = u7_paymaster uo,
      b7_paymaster_verification_gas_limit = u7_paymaster_verification_gas_limit uo,
      b7_paymaster_post_op_gas_limit = u7_paymaster_post_op_gas_limit uo,
      b7_paymaster_data = u7_paymaster_data uo, b7_packed_uo = None,
      b7_authorization_tuple = u7_authorization_tuple uo, b7_aggregator = u7_aggregator uo\<rparr>"

definition packed_user_operation_default :: packed_user_operation where
  "packed_user_operation_default =
     \<lparr>puo_sender = 0, puo_nonce = 0, puo_initCode = [], puo_callData = [],
      puo_accountGasLimits = replicate 32 0, puo_preVerificationGas = 0,
      puo_gasFees = replicate 32 0, puo_paymasterAndData = [], puo_signature = []\<rparr>"

definition builder7_build :: "alloy \<Rightarrow> builder_v0_7 \<Rightarrow> user_operation_v0_7" where
  "builder7_build al b =
     (let r = b7_required b; cs = b7_chain_spec b;
          uo = \<lparr>u7_sender = rf7_sender r, u7_nonce = rf7_nonce r, u7_call_data = rf7_call_data r,
                u7_call_gas_limit = rf7_call_gas_limit r,
                u7_verification_gas_limit = rf7_verification_gas_limit r,
                u7_pre_verification_gas = rf7_pre_verification_gas r,
                u7_max_priority_fee_per_gas = rf7_max_priority_fee_per_gas r,
                u7_max_fee_per_gas = rf7_max_fee_per_gas r, u7_signature = rf7_signature r,
                u7_factory = b7_factory b, u7_factory_data = b7_factory_data b,
                u7_paymaster = b7_paymaster b,
                u7_paymaster_verification_gas_limit = b7_paymaster_verification_gas_limit b,
                u7_paymaster_post_op_gas_limit = b7_paymaster_post_op_gas_limit b,
                u7_paymaster_data = b7_paymaster_data b,
                u7_authorization_tuple = b7_authorization_tuple b,
                u7_entry_point = cs_entry_point_address_v0_7 cs, u7_chain_id = cs_id cs,
                u7_hash = 0, u7_packed = packed_user_operation_default,
                u7_calldata_gas_cost = 0, u7_calldata_floor_gas_limit = 0,
                u7_aggregator = b7_aggregator b, u7_original_signature = [],
                u7_original_calldata_cost = 0, u7_original_calldata_floor_limit = 0,
                u7_aggregator_costs = aggregator_costs_default\<rparr>;
          packed = (case b7_packed_uo b of Some p \<Rightarrow> p | None \<Rightarrow> pack_user_operation uo);
          hash = hash_packed_user_operation al packed (cs_entry_point_address_v0_7 cs) (cs_id cs);
          (cost, floor_limit) = calc_calldata_gas_costs (abi_encode_puo al packed) cs
      in uo\<lparr>u7_hash := hash, u7_packed := packed, u7_calldata_gas_cost := cost,
            u7_calldata_floor_gas_limit := floor_limit\<rparr>)"

section \<open>Packing and unpacking are inverse\<close>

lemma concat_u128_be_append: "concat_u128_be a b = be_bytes 16 a @ be_bytes 16 b"
  by (rule nth_equalityI) (auto simp: concat_u128_be_def Let_def nth_append)

lemma u128_from_be_slice_be_bytes [simp]:
  "u128_from_be_slice (be_bytes 16 a @ bs) = Some a" "u128_from_be_slice (be_bytes 16 a) = Some a"
  by (simp_all add: u128_from_be_slice_def)

lemma ucast_ucast_u128 [simp]: "ucast (ucast x :: u256) = x" for x :: u128
  by (rule bit_word_eqI) (simp add: bit_simps)

lemma u128_try_from_ucast [simp]: "u128_try_from (ucast x) = Inr x" for x :: u128
proof -
  have "unat (ucast x :: u256) < 2 ^ 128"
    using unsigned_less [of x, where 'a = nat] by (simp add: unsigned_ucast_eq take_bit_eq_mod)
  then show ?thesis by (simp add: u128_try_from_def)
qed

lemma address_from_be_bytes [simp]: "from_be_bytes (be_bytes 20 a) = a" for a :: address
  by simp

text \<open>
  The fields of an optional group (the factory, the paymaster) are unset together; the builder
  keeps them so.
\<close>

definition uo7_grouped :: "user_operation_v0_7 \<Rightarrow> bool" where
  "uo7_grouped uo \<longleftrightarrow>
     (u7_factory uo = None \<longrightarrow> u7_factory_data uo = []) \<and>
     (u7_paymaster uo = None \<longrightarrow>
        u7_paymaster_verification_gas_limit uo = 0 \<and> u7_paymaster_post_op_gas_limit uo = 0 \<and>
        u7_paymaster_data uo = [])"

lemma be_bytes_20_not_Nil [simp]: "be_bytes 20 a \<noteq> []"
  by (metis length_be_bytes list.size(3) zero_neq_numeral)

lemma builder7_from_packed_pack:
  assumes "uo7_grouped uo"
  shows "builder7_from_packed (pack_user_operation uo) cs =
           Some (Inr ((builder7_from_uo uo cs)
             \<lparr>b7_packed_uo := Some (pack_user_operation uo), b7_authorization_tuple := None,
              b7_aggregator := None\<rparr>))"
  using assms
  by (cases "u7_factory uo"; cases "u7_paymaster uo")
    (simp_all add: builder7_from_packed_def pack_user_operation_def builder7_from_uo_def
      builder7_new_def builder7_factory_def builder7_paymaster_def concat_u128_be_append
      uo7_grouped_def Let_def)

section \<open>Cached fields\<close>

text \<open>
  The cached packed form and hash of an operation belong to its fields.  Building an operation from
  its fields and transforming it for an aggregator keep it so.
\<close>

definition uo7_cached :: "alloy \<Rightarrow> user_operation_v0_7 \<Rightarrow> bool" where
  "uo7_cached al uo \<longleftrightarrow>
     u7_packed uo = pack_user_operation uo \<and>
     u7_hash uo = hash_packed_user_operation al (u7_packed uo) (u7_entry_point uo) (u7_chain_id uo)"

lemma pack_user_operation_signature [simp]:
  "pack_user_operation (uo\<lparr>u7_signature := s\<rparr>) = (pack_user_operation uo)\<lparr>puo_signature := s\<rparr>"
  "pack_user_operation (uo\<lparr>u7_packed := p\<rparr>) = pack_user_operation uo"
  "pack_user_operation (uo\<lparr>u7_hash := h\<rparr>) = pack_user_operation uo"
  "pack_user_operation (uo\<lparr>u7_calldata_gas_cost := c\<rparr>) = pack_user_operation uo"
  "pack_user_operation (uo\<lparr>u7_calldata_floor_gas_limit := c\<rparr>) = pack_user_operation uo"
  "pack_user_operation (uo\<lparr>u7_aggregator := a\<rparr>) = pack_user_operation uo"
  "pack_user_operation (uo\<lparr>u7_aggregator_costs := co\<rparr>) = pack_user_operation uo"
  "pack_user_operation (uo\<lparr>u7_original_signature := s\<rparr>) = pack_user_operation uo"
  "pack_user_operation (uo\<lparr>u7_original_calldata_cost := c\<rparr>) = pack_user_operation uo"
  "pack_user_operation (uo\<lparr>u7_original_calldata_floor_limit := c\<rparr>) = pack_user_operation uo"
  by (simp_all add: pack_user_operation_def Let_def cong: option.case_cong)

lemma puo_signature_pack [simp]: "puo_signature (pack_user_operation uo) = u7_signature uo"
  by (simp add: pack_user_operation_def Let_def)

lemma hash_packed_user_operation_signature [simp]:
  "hash_packed_user_operation al (p\<lparr>puo_signature := s\<rparr>) = hash_packed_user_operation al p"
  by (simp add: hash_packed_user_operation_def fun_eq_iff)

lemma uo7_cached_build: "b7_packed_uo b = None \<Longrightarrow> uo7_cached al (builder7_build al b)"
  by (simp add: uo7_cached_def builder7_build_def pack_user_operation_def Let_def
      split: prod.splits cong: option.case_cong)

lemma uo7_cached_transform:
  "uo7_cached al uo \<Longrightarrow> uo7_cached al (uo7_transform_for_aggregator al uo cs a costs s)"
  by (simp add: uo7_cached_def uo7_transform_for_aggregator_def Let_def split: prod.splits)

lemma uo7_with_original_signature_transform:
  assumes "uo7_cached al uo"
  shows "uo7_with_original_signature (uo7_transform_for_aggregator al uo cs a costs s) =
           uo\<lparr>u7_aggregator := Some a, u7_aggregator_costs := costs,
              u7_original_signature := u7_signature uo,
              u7_original_calldata_cost := u7_calldata_gas_cost uo,
              u7_original_calldata_floor_limit := u7_calldata_floor_gas_limit uo\<rparr>"
  using assms
  by (simp add: uo7_cached_def uo7_transform_for_aggregator_def uo7_with_original_signature_def
      Let_def split: prod.splits)

end
