(* ===== verification/User_Operation.thy ===== *)
theory User_Operation
  imports User_Operation_V0_7
begin

text \<open>
  The user operation enum and the trait methods with a default body,
  \<open>crates/types/src/user_operation/mod.rs\<close>: fees, gas limits of a bundle and the required
  pre-verification gas.
\<close>

section \<open>The enum dispatches to its two versions\<close>

fun uo_entry_point :: "user_operation_variant \<Rightarrow> address" where
  "uo_entry_point (V0_6 op) = u6_entry_point op"
| "uo_entry_point (V0_7 op) = u7_entry_point op"

fun uo_chain_id :: "user_operation_variant \<Rightarrow> u64" where
  "uo_chain_id (V0_6 op) = u6_chain_id op"
| "uo_chain_id (V0_7 op) = u7_chain_id op"

fun uo_hash :: "user_operation_variant \<Rightarrow> b256" where
  "uo_hash (V0_6 op) = u6_hash op"
| "uo_hash (V0_7 op) = u7_hash op"

fun uo_id :: "user_operation_variant \<Rightarrow> user_operation_id" where
  "uo_id (V0_6 op) = uo6_id op"
| "uo_id (V0_7 op) = uo7_id op"

fun uo_sender :: "user_operation_variant \<Rightarrow> address" where
  "uo_sender (V0_6 op) = u6_sender op"
| "uo_sender (V0_7 op) = u7_sender op"

fun uo_nonce :: "user_operation_variant \<Rightarrow> u256" where
  "uo_nonce (V0_6 op) = u6_nonce op"
| "uo_nonce (V0_7 op) = u7_nonce op"

fun uo_paymaster :: "user_operation_variant \<Rightarrow> address option" where
  "uo_paymaster (V0_6 op) = uo6_paymaster op"
| "uo_paymaster (V0_7 op) = u7_paymaster op"

fun uo_factory :: "user_operation_variant \<Rightarrow> address option" where
  "uo_factory (V0_6 op) = uo6_factory op"
| "uo_factory (V0_7 op) = u7_factory op"

fun uo_aggregator :: "user_operation_variant \<Rightarrow> address option" where
  "uo_aggregator (V0_6 op) = u6_aggregator op"
| "uo_aggregator (V0_7 op) = u7_aggregator op"

fun uo_call_data :: "user_operation_variant \<Rightarrow> bytes" where
  "uo_call_data (V0_6 op) = u6_call_data op"
| "uo_call_data (V0_7 op) = u7_call_data op"

fun uo_max_gas_cost :: "user_operation_variant \<Rightarrow> u256" where
  "uo_max_gas_cost (V0_6 op) = uo6_max_gas_cost op"
| "uo_max_gas_cost (V0_7 op) = uo7_max_gas_cost op"

fun uo_entities :: "user_operation_variant \<Rightarrow> entity list" where
  "uo_entities (V0_6 op) = uo6_entities op"
| "uo_entities (V0_7 op) = uo7_entities op"

fun uo_heap_size :: "user_operation_variant \<Rightarrow> usize" where
  "uo_heap_size (V0_6 op) = uo6_heap_size op"
| "uo_heap_size (V0_7 op) = uo7_heap_size op"

fun uo_call_gas_limit :: "user_operation_variant \<Rightarrow> u128" where
  "uo_call_gas_limit (V0_6 op) = u6_call_gas_limit op"
| "uo_call_gas_limit (V0_7 op) = u7_call_gas_limit op"

fun uo_verification_gas_limit :: "user_operation_variant \<Rightarrow> u128" where
  "uo_verification_gas_limit (V0_6 op) = u6_verification_gas_limit op"
| "uo_verification_gas_limit (V0_7 op) = u7_verification_gas_limit op"

fun uo_total_verification_gas_limit :: "user_operation_variant \<Rightarrow> u128" where
  "uo_total_verification_gas_limit (V0_6 op) = uo6_total_verification_gas_limit op"
| "uo_total_verification_gas_limit (V0_7 op) = uo7_total_verification_gas_limit op"

fun uo_paymaster_post_op_gas_limit :: "user_operation_variant \<Rightarrow> u128" where
  "uo_paymaster_post_op_gas_limit (V0_6 op) = uo6_paymaster_post_op_gas_limit op"
| "uo_paymaster_post_op_gas_limit (V0_7 op) = u7_paymaster_post_op_gas_limit op"

fun uo_required_pre_execution_buffer :: "user_operation_variant \<Rightarrow> u128" where
  "uo_required_pre_execution_buffer (V0_6 op) = uo6_required_pre_execution_buffer op"
| "uo_required_pre_execution_buffer (V0_7 op) = uo7_required_pre_execution_buffer op"

fun uo_pre_verification_gas :: "user_operation_variant \<Rightarrow> u128" where
  "uo_pre_verification_gas (V0_6 op) = u6_pre_verification_gas op"
| "uo_pre_verification_gas (V0_7 op) = u7_pre_verification_gas op"

fun uo_static_pre_verification_gas :: "user_operation_variant \<Rightarrow> chain_spec \<Rightarrow> u128" where
  "uo_static_pre_verification_gas (V0_6 op) = uo6_static_pre_verification_gas op"
| "uo_static_pre_verification_gas (V0_7 op) = uo7_static_pre_verification_gas op"

fun uo_calldata_floor_gas_limit :: "user_operation_variant \<Rightarrow> u128" where
  "uo_calldata_floor_gas_limit (V0_6 op) = u6_calldata_floor_gas_limit op"
| "uo_calldata_floor_gas_limit (V0_7 op) = u7_calldata_floor_gas_limit op"

fun uo_max_fee_per_gas :: "user_operation_variant \<Rightarrow> u128" where
  "uo_max_fee_per_gas (V0_6 op) = u6_max_fee_per_gas op"
| "uo_max_fee_per_gas (V0_7 op) = u7_max_fee_per_gas op"

fun uo_max_priority_fee_per_gas :: "user_operation_variant \<Rightarrow> u128" where
  "uo_max_priority_fee_per_gas (V0_6 op) = u6_max_priority_fee_per_gas op"
| "uo_max_priority_fee_per_gas (V0_7 op) = u7_max_priority_fee_per_gas op"

fun uo_signature :: "user_operation_variant \<Rightarrow> bytes" where
  "uo_signature (V0_6 op) = u6_signature op"
| "uo_signature (V0_7 op) = u7_signature op"

fun uo_aggregator_gas_limit :: "user_operation_variant \<Rightarrow> chain_spec \<Rightarrow> usize option \<Rightarrow> u128" where
  "uo_aggregator_gas_limit (V0_6 op) = uo6_aggregator_gas_limit op"
| "uo_aggregator_gas_limit (V0_7 op) = uo7_aggregator_gas_limit op"

fun uo_original_signature :: "user_operation_variant \<Rightarrow> bytes" where
  "uo_original_signature (V0_6 op) = u6_original_signature op"
| "uo_original_signature (V0_7 op) = u7_original_signature op"

fun uo_extra_data_len :: "user_operation_variant \<Rightarrow> usize \<Rightarrow> usize" where
  "uo_extra_data_len (V0_6 op) = uo6_extra_data_len op"
| "uo_extra_data_len (V0_7 op) = uo7_extra_data_len op"

fun uo_abi_encoded_size :: "user_operation_variant \<Rightarrow> usize" where
  "uo_abi_encoded_size (V0_6 op) = uo6_abi_encoded_size op"
| "uo_abi_encoded_size (V0_7 op) = uo7_abi_encoded_size op"

fun uo_authorization_tuple :: "user_operation_variant \<Rightarrow> eip7702_auth option" where
  "uo_authorization_tuple (V0_6 op) = u6_authorization_tuple op"
| "uo_authorization_tuple (V0_7 op) = u7_authorization_tuple op"

fun uo_transform_for_aggregator ::
  "alloy \<Rightarrow> user_operation_variant \<Rightarrow> chain_spec \<Rightarrow> address \<Rightarrow> aggregator_costs \<Rightarrow> bytes
     \<Rightarrow> user_operation_variant" where
  "uo_transform_for_aggregator al (V0_6 op) cs a costs s =
     V0_6 (uo6_transform_for_aggregator al op cs a costs s)"
| "uo_transform_for_aggregator al (V0_7 op) cs a costs s =
     V0_7 (uo7_transform_for_aggregator al op cs a costs s)"

fun uo_with_original_signature :: "user_operation_variant \<Rightarrow> user_operation_variant" where
  "uo_with_original_signature (V0_6 op) = V0_6 (uo6_with_original_signature op)"
| "uo_with_original_signature (V0_7 op) = V0_7 (uo7_with_original_signature op)"

fun uo_effective_verification_gas_limit_efficiency_reject_threshold ::
  "user_operation_variant \<Rightarrow> f64 \<Rightarrow> f64" where
  "uo_effective_verification_gas_limit_efficiency_reject_threshold (V0_6 op) thresh =
     uo6_effective_verification_gas_limit_efficiency_reject_threshold op thresh"
| "uo_effective_verification_gas_limit_efficiency_reject_threshold (V0_7 op) thresh = thresh"

fun uo_type :: "user_operation_variant \<Rightarrow> entry_point_version" where
  "uo_type (V0_6 _) = EP_V0_6"
| "uo_type (V0_7 _) = EP_V0_7"

section \<open>Methods with a default body\<close>

definition uo_gas_price :: "user_operation_variant \<Rightarrow> u128 \<Rightarrow> u128" where
  "uo_gas_price uo base_fee = min (uo_max_fee_per_gas uo) (base_fee + uo_max_priority_fee_per_gas uo)"

definition single_uo_bundle_size_bytes :: "user_operation_variant \<Rightarrow> usize" where
  "single_uo_bundle_size_bytes uo =
     uo_abi_encoded_size uo + BUNDLE_BYTE_OVERHEAD + USER_OP_OFFSET_WORD_SIZE"

definition authorization_gas_limit :: "alloy \<Rightarrow> user_operation_variant \<Rightarrow> u128" where
  "authorization_gas_limit al uo =
     (if uo_authorization_tuple uo \<noteq> None
      then ucast (PER_AUTH_BASE_COST al) + ucast (PER_EMPTY_ACCOUNT_COST al) else 0)"

definition bundle_gas_limit_without_pvg :: "user_operation_variant \<Rightarrow> u128" where
  "bundle_gas_limit_without_pvg uo =
     uo_total_verification_gas_limit uo + uo_required_pre_execution_buffer uo
     + uo_call_gas_limit uo"

definition pre_verification_execution_gas_limit ::
  "alloy \<Rightarrow> user_operation_variant \<Rightarrow> chain_spec \<Rightarrow> usize option \<Rightarrow> u128" where
  "pre_verification_execution_gas_limit al uo cs bundle_size =
     saturating_add
       (saturating_add
         (saturating_add (uo_static_pre_verification_gas uo cs)
           (optional_bundle_per_uo_shared_gas cs bundle_size))
         (authorization_gas_limit al uo))
       (uo_aggregator_gas_limit uo cs bundle_size)"

definition pre_verification_da_gas_limit ::
  "alloy \<Rightarrow> user_operation_variant \<Rightarrow> chain_spec \<Rightarrow> usize option \<Rightarrow> u128" where
  "pre_verification_da_gas_limit al uo cs bundle_size =
     (if cs_da_pre_verification_gas cs \<and> cs_include_da_gas_in_gas_limit cs
      then saturating_sub (uo_pre_verification_gas uo)
             (pre_verification_execution_gas_limit al uo cs bundle_size)
      else 0)"

definition pre_verification_bundle_gas_limit ::
  "alloy \<Rightarrow> user_operation_variant \<Rightarrow> chain_spec \<Rightarrow> usize option \<Rightarrow> u128" where
  "pre_verification_bundle_gas_limit al uo cs bundle_size =
     pre_verification_execution_gas_limit al uo cs bundle_size
     + pre_verification_da_gas_limit al uo cs bundle_size"

definition bundle_gas_limit ::
  "alloy \<Rightarrow> user_operation_variant \<Rightarrow> chain_spec \<Rightarrow> usize option \<Rightarrow> u128" where
  "bundle_gas_limit al uo cs bundle_size =
     pre_verification_bundle_gas_limit al uo cs bundle_size + bundle_gas_limit_without_pvg uo"

definition bundle_computation_gas_limit ::
  "alloy \<Rightarrow> user_operation_variant \<Rightarrow> chain_spec \<Rightarrow> usize option \<Rightarrow> u128" where
  "bundle_computation_gas_limit al uo cs bundle_size =
     pre_verification_execution_gas_limit al uo cs bundle_size + bundle_gas_limit_without_pvg uo"

definition pre_op_gas_limit :: "user_operation_variant \<Rightarrow> u128" where
  "pre_op_gas_limit uo = uo_pre_verification_gas uo + uo_total_verification_gas_limit uo"

definition execution_gas_limit :: "user_operation_variant \<Rightarrow> u128" where
  "execution_gas_limit uo = uo_call_gas_limit uo + uo_paymaster_post_op_gas_limit uo"

definition increase_required_pvg_with_calldata_floor_gas ::
  "user_operation_variant \<Rightarrow> u128 \<Rightarrow> u128 \<Rightarrow> u128 \<Rightarrow> f64 \<Rightarrow> u128" where
  "increase_required_pvg_with_calldata_floor_gas uo max_required_pvg_without_da da_gas
       required_calldata_floor_gas_limit thresh =
     (let lowest_gas_usage =
            f64_to_u128
              (f64_add
                (f64_add (f64_of_u128 max_required_pvg_without_da)
                  (f64_mul (f64_of_u128 (execution_gas_limit uo)) f64_tenth))
                (f64_mul (f64_of_u128 (uo_total_verification_gas_limit uo))
                  (uo_effective_verification_gas_limit_efficiency_reject_threshold uo thresh)));
          required_pvg_without_da =
            (if lowest_gas_usage < required_calldata_floor_gas_limit
             then max_required_pvg_without_da
                  + (required_calldata_floor_gas_limit - lowest_gas_usage)
             else max_required_pvg_without_da)
      in required_pvg_without_da + da_gas)"

definition required_pre_verification_gas ::
  "alloy \<Rightarrow> user_operation_variant \<Rightarrow> chain_spec \<Rightarrow> usize \<Rightarrow> u128 \<Rightarrow> f64 option \<Rightarrow> u128" where
  "required_pre_verification_gas al uo cs bundle_size da_gas threshold =
     (let base_pvg =
            (case threshold of
               Some thresh \<Rightarrow>
                 increase_required_pvg_with_calldata_floor_gas uo
                   (pre_verification_execution_gas_limit al uo cs (Some bundle_size)) da_gas
                   (uo_calldata_floor_gas_limit uo) thresh
             | None \<Rightarrow>
                 pre_verification_execution_gas_limit al uo cs (Some bundle_size) + da_gas)
      in if cs_charge_gas_limit_via_pvg cs
         then saturating_add base_pvg
                (uo_total_verification_gas_limit uo + uo_required_pre_execution_buffer uo
                 + uo_call_gas_limit uo)
         else base_pvg)"

text \<open>\<open>None\<close> where the source panics: the aggregator is not in the chain specification.\<close>

definition dummy_transform_for_aggregator ::
  "alloy \<Rightarrow> user_operation_variant \<Rightarrow> address \<Rightarrow> chain_spec \<Rightarrow> user_operation_variant option" where
  "dummy_transform_for_aggregator al uo aggregator cs =
     (case get_signature_aggregator cs aggregator of
        None \<Rightarrow> None
      | Some agg \<Rightarrow> Some (uo_transform_for_aggregator al uo cs (sa_address agg) (sa_costs agg)
                              (sa_dummy_uo_signature agg)))"

section \<open>Facts\<close>

lemma id_sender_uo_id [simp]: "id_sender (uo_id uo) = uo_sender uo"
  by (cases uo) (simp_all add: uo6_id_def uo7_id_def)

lemma id_nonce_uo_id [simp]: "id_nonce (uo_id uo) = uo_nonce uo"
  by (cases uo) (simp_all add: uo6_id_def uo7_id_def)

lemma uo_transform_for_aggregator_keeps [simp]:
  "uo_hash (uo_transform_for_aggregator al uo cs a costs s) = uo_hash uo"
  "uo_id (uo_transform_for_aggregator al uo cs a costs s) = uo_id uo"
  "uo_sender (uo_transform_for_aggregator al uo cs a costs s) = uo_sender uo"
  by (cases uo; simp add: uo6_transform_for_aggregator_def uo7_transform_for_aggregator_def
      uo6_id_def uo7_id_def Let_def split: prod.splits)+

lemma uo_gas_price_le_max_fee: "uo_gas_price uo base_fee \<le> uo_max_fee_per_gas uo"
  by (simp add: uo_gas_price_def)

end
