(* ===== verification/Pool_Types.thy ===== *)
theory Pool_Types
  imports User_Operation
begin

text \<open>
  The vocabulary of the pool: the operations it stores, its errors and its events
  (\<open>crates/types/src/pool/types.rs\<close>, \<open>crates/types/src/pool/error.rs\<close>,
  \<open>crates/pool/src/emit.rs\<close>), the size tracker and the entity counter
  (\<open>crates/pool/src/mempool/size.rs\<close>, \<open>entity_tracker.rs\<close>).
\<close>

section \<open>Errors\<close>

record storage_slot =
  slot_address :: address
  slot_slot :: u256

text \<open>An opcode is its byte.  A panic is its code.\<close>

type_synonym violation_op_code = u8

datatype validation_revert =
  VR_EntryPoint string
  | VR_Operation string bytes "string option"
  | VR_Unknown bytes
  | VR_Panic u256

record needs_stake_information =
  nsi_needs_stake :: entity
  nsi_accessing_entity :: entity_type
  nsi_accessed_entity :: "entity_type option"
  nsi_accessed_address :: address
  nsi_slot :: u256
  nsi_min_stake :: u256
  nsi_min_unstake_delay :: u32

datatype precheck_violation =
  SenderIsNotContractAndNoInitCode address
  | ExistingSenderWithInitCode address
  | FactoryIsNotContract address
  | TotalGasLimitTooHigh u128 u128
  | VerificationGasLimitTooHigh u128 u128
  | PreVerificationGasTooLow u128 u128
  | PaymasterIsNotContract address
  | PaymasterDepositTooLow u256 u256
  | SenderFundsTooLow u256 u256
  | MaxPriorityFeePerGasTooLow u128 u128
  | MaxFeePerGasTooLow u128 u128
  | CallGasLimitTooLow u128 u128
  | FactoryMustBeEmpty address
  | OverMaxCost u256 u256

datatype simulation_violation =
  InvalidSignature
  | InvalidAccountSignature
  | InvalidTimeRange timestamp timestamp
  | InvalidPaymasterSignature
  | UsedForbiddenOpcode entity address violation_op_code
  | UsedForbiddenPrecompile entity address address
  | AccessedUndeployedContract entity address
  | FactoryCalledCreate2Twice address
  | InvalidStorageAccess entity storage_slot
  | AssociatedStorageDuringDeploy "entity option" storage_slot
  | CalledBannedEntryPointMethod entity
  | CallHadValue entity
  | CodeHashChanged
  | NotStaked needs_stake_information
  | UnstakedPaymasterContext
  | UnintendedRevertWithMessage entity_type string "address option"
  | UnintendedRevert entity_type "address option"
  | ValidationRevert validation_revert
  | DidNotRevert
  | WrongNumberOfPhases u32
  | OutOfGas entity
  | AggregatorMismatch address address
  | VerificationGasLimitBufferTooLow u128 u128
  | AccessedUnsupportedContractType string address

text \<open>
  The source stores the text of the 7702 and aggregator errors; the error itself is kept here.
\<close>

datatype mempool_error =
  Other string
  | OperationAlreadyKnown
  | ReplacementUnderpriced u128 u128
  | MaxOperationsReached usize entity
  | MultipleRolesViolation entity
  | AssociatedStorageIsAlternateSender
  | SenderAddressUsedAsAlternateEntity address
  | EntityThrottled entity
  | DiscardedOnInsert
  | Invalid7702AuthSignature eip7702_error
  | PaymasterBalanceTooLow u256 u256
  | PrecheckViolation precheck_violation
  | SimulationViolation simulation_violation
  | AggregatorError signature_aggregator_error
  | UnknownEntryPoint address
  | OperationDropTooSoon u64 u64 u64
  | VerificationGasLimitEfficiencyTooLow f64 f64
  | ExecutionGasLimitEfficiencyTooLow f64 f64
  | TooManyExpectedStorageSlots usize usize
  | EIPNotSupported string

datatype pool_error = PE_MempoolError mempool_error | PE_UnexpectedResponse | PE_Other string

fun pool_error_from :: "mempool_error \<Rightarrow> pool_error" where
  "pool_error_from (Other e) = PE_Other e"
| "pool_error_from error = PE_MempoolError error"

section \<open>Pool data\<close>

record address_update =
  au_address :: address
  au_balance :: u256
  au_nonce :: "u64 option"
  au_mined_tx_hashes :: "b256 list"

record new_head =
  nh_block_hash :: b256
  nh_block_number :: u64
  nh_address_updates :: "address_update list"

record reputation =
  rep_address :: address
  rep_ops_seen :: u64
  rep_ops_included :: u64

datatype reputation_status = Ok | Throttled | Banned

fun reputation_status_serialize :: "reputation_status \<Rightarrow> string" where
  "reputation_status_serialize Ok = ''ok''"
| "reputation_status_serialize Throttled = ''throttled''"
| "reputation_status_serialize Banned = ''banned''"

definition reputation_status_deserialize :: "string \<Rightarrow> string + reputation_status" where
  "reputation_status_deserialize s =
     (if s = ''ok'' then Inr Ok
      else if s = ''throttled'' then Inr Throttled
      else if s = ''banned'' then Inr Banned
      else Inl (''Invalid reputation status '' @ s))"

record stake_info =
  si_stake :: u256
  si_unstake_delay_sec :: u32

record stake_status =
  ss_is_staked :: bool
  ss_stake_info :: stake_info

record paymaster_metadata =
  pm_address :: address
  pm_confirmed_balance :: u256
  pm_pending_balance :: u256

record pool_operation =
  po_uo :: user_operation_variant
  po_entry_point :: address
  po_aggregator :: "address option"
  po_valid_time_range :: valid_time_range
  po_expected_code_hash :: b256
  po_sim_block_hash :: b256
  po_sim_block_number :: u64
  po_account_is_staked :: bool
  po_entity_infos :: entity_infos
  po_da_gas_data :: da_gas_data
  po_filter_id :: "string option"
  po_perms :: user_operation_permissions

definition contains_entity :: "pool_operation \<Rightarrow> entity \<Rightarrow> bool" where
  "contains_entity po e =
     (case entity_infos_get (po_entity_infos po) (ent_kind e) of
        Some ei \<Rightarrow> ent_address (ei_entity ei) = ent_address e
      | None \<Rightarrow> False)"

definition po_entities :: "pool_operation \<Rightarrow> entity list" where
  "po_entities po =
     map (\<lambda>(t, ei). entity_new t (ent_address (ei_entity ei)))
       (entity_infos_entities (po_entity_infos po))"

definition unstaked_entities :: "pool_operation \<Rightarrow> entity list" where
  "unstaked_entities po =
     map (\<lambda>(t, ei). entity_new t (ent_address (ei_entity ei)))
       (filter (\<lambda>(t, ei). \<not> (ei_is_staked ei \<or> ent_kind (ei_entity ei) = Aggregator))
         (entity_infos_entities (po_entity_infos po)))"

text \<open>The value of \<open>size_of\<close> for the two structs is fixed by the compiler and hence an argument.\<close>

record type_sizes =
  size_of_PoolOperation :: usize
  size_of_OrderedPoolOperation :: usize

definition po_mem_size :: "type_sizes \<Rightarrow> pool_operation \<Rightarrow> usize" where
  "po_mem_size sz po = size_of_PoolOperation sz + uo_heap_size (po_uo po)"

section \<open>Events\<close>

datatype operation_origin = Local | External | ReturnedAfterReorg

datatype entity_reputation = ER_Ok | ThrottledButOk | ThrottledAndRejected | ER_Banned

record entity_status =
  es_address :: address
  es_reputation :: entity_reputation

record entity_summary =
  esum_sender :: entity_status
  esum_factory :: "entity_status option"
  esum_paymaster :: "entity_status option"
  esum_aggregator :: "entity_status option"

definition set_status :: "entity_summary \<Rightarrow> entity_type \<Rightarrow> entity_status \<Rightarrow> entity_summary" where
  "set_status es kind status =
     (case kind of
        Account \<Rightarrow> es\<lparr>esum_sender := status\<rparr>
      | Paymaster \<Rightarrow> es\<lparr>esum_paymaster := Some status\<rparr>
      | Aggregator \<Rightarrow> es\<lparr>esum_aggregator := Some status\<rparr>
      | Factory \<Rightarrow> es\<lparr>esum_factory := Some status\<rparr>)"

datatype op_removal_reason =
  Requested
  | Mined u64 b256 b256
  | ThrottledAndOld u64 u64
  | EntityRemoved entity
  | EntityThrottledReason entity
  | Expired timestamp
  | PoolSizeExceeded

datatype op_pool_event =
  ReceivedOp b256 user_operation_variant u64 operation_origin timestamp timestamp entity_summary
  | RemovedOp b256 op_removal_reason
  | RemovedEntity entity
  | ThrottledEntity entity
  | UpdatedDAData b256 bool u128 u128

section \<open>Size tracker\<close>

text \<open>The tracked size is a signed word; comparison with a \<open>usize\<close> casts the latter.\<close>

type_synonym size_tracker = isize

definition size_add :: "size_tracker \<Rightarrow> usize \<Rightarrow> size_tracker" where
  "size_add s n = s + n"

definition size_sub :: "size_tracker \<Rightarrow> usize \<Rightarrow> size_tracker" where
  "size_sub s n = s - n"

definition size_gt :: "size_tracker \<Rightarrow> usize \<Rightarrow> bool" where
  "size_gt s n \<longleftrightarrow> sint n < sint s"

section \<open>Entity counter\<close>

record entity_counter =
  ec_sender :: usize
  ec_paymaster :: usize
  ec_aggregator :: usize
  ec_factory :: usize

definition entity_counter_default :: entity_counter where
  "entity_counter_default = \<lparr>ec_sender = 0, ec_paymaster = 0, ec_aggregator = 0, ec_factory = 0\<rparr>"

definition ec_total :: "entity_counter \<Rightarrow> usize" where
  "ec_total c = ec_sender c + ec_paymaster c + ec_aggregator c + ec_factory c"

fun increment_entity_count :: "entity_counter \<Rightarrow> entity_type \<Rightarrow> entity_counter" where
  "increment_entity_count c Account = c\<lparr>ec_sender := saturating_add (ec_sender c) 1\<rparr>"
| "increment_entity_count c Paymaster = c\<lparr>ec_paymaster := saturating_add (ec_paymaster c) 1\<rparr>"
| "increment_entity_count c Aggregator = c\<lparr>ec_aggregator := saturating_add (ec_aggregator c) 1\<rparr>"
| "increment_entity_count c Factory = c\<lparr>ec_factory := saturating_add (ec_factory c) 1\<rparr>"

fun decrement_entity_count :: "entity_counter \<Rightarrow> entity_type \<Rightarrow> entity_counter" where
  "decrement_entity_count c Account = c\<lparr>ec_sender := saturating_sub (ec_sender c) 1\<rparr>"
| "decrement_entity_count c Paymaster = c\<lparr>ec_paymaster := saturating_sub (ec_paymaster c) 1\<rparr>"
| "decrement_entity_count c Aggregator = c\<lparr>ec_aggregator := saturating_sub (ec_aggregator c) 1\<rparr>"
| "decrement_entity_count c Factory = c\<lparr>ec_factory := saturating_sub (ec_factory c) 1\<rparr>"

definition includes_non_sender :: "entity_counter \<Rightarrow> bool" where
  "includes_non_sender c \<longleftrightarrow> ec_paymaster c + ec_aggregator c + ec_factory c > 0"

section \<open>Facts\<close>

lemma reputation_status_roundtrip:
  "reputation_status_deserialize (reputation_status_serialize s) = Inr s"
  by (cases s) (simp_all add: reputation_status_deserialize_def)

text \<open>The count of one kind of entity.\<close>

fun ec_count :: "entity_counter \<Rightarrow> entity_type \<Rightarrow> usize" where
  "ec_count c Account = ec_sender c"
| "ec_count c Paymaster = ec_paymaster c"
| "ec_count c Aggregator = ec_aggregator c"
| "ec_count c Factory = ec_factory c"

lemma ec_count_increment:
  "ec_count (increment_entity_count c t) t' =
     (if t = t' then saturating_add (ec_count c t) 1 else ec_count c t')"
  by (cases t; cases t') simp_all

lemma ec_count_decrement:
  "ec_count (decrement_entity_count c t) t' =
     (if t = t' then saturating_sub (ec_count c t) 1 else ec_count c t')"
  by (cases t; cases t') simp_all

lemma ec_count_default [simp]: "ec_count entity_counter_default t = 0"
  by (cases t) (simp_all add: entity_counter_default_def)

lemma ec_eqI: "(\<And>t. ec_count c t = ec_count d t) \<Longrightarrow> c = d" for c d :: entity_counter
proof -
  assume *: "\<And>t. ec_count c t = ec_count d t"
  from *[of Account] *[of Paymaster] *[of Aggregator] *[of Factory] show ?thesis by simp
qed

text \<open>With every count below \<open>2 ^ 62\<close> the sums of the counts do not wrap.\<close>

definition ec_small :: "entity_counter \<Rightarrow> bool" where
  "ec_small c \<longleftrightarrow> (\<forall>t. unat (ec_count c t) < 2 ^ 62)"

lemma ec_smallD: "ec_small c \<Longrightarrow> unat (ec_count c t) < 2 ^ 62"
  by (simp add: ec_small_def)

lemma unat_ec_total:
  assumes "ec_small c"
  shows "unat (ec_total c) =
           unat (ec_sender c) + unat (ec_paymaster c) + unat (ec_aggregator c) + unat (ec_factory c)"
  using ec_smallD [OF assms, of Account] ec_smallD [OF assms, of Paymaster]
    ec_smallD [OF assms, of Aggregator] ec_smallD [OF assms, of Factory]
  by (simp add: ec_total_def unat_word_ariths)

lemma ec_total_eq_0_iff: "ec_small c \<Longrightarrow> ec_total c = 0 \<longleftrightarrow> (\<forall>t. ec_count c t = 0)"
proof
  assume small: "ec_small c" and "ec_total c = 0"
  then have "unat (ec_total c) = 0" by simp
  then have "ec_sender c = 0" "ec_paymaster c = 0" "ec_aggregator c = 0" "ec_factory c = 0"
    using unat_ec_total [OF small] by (simp_all add: word_unat_eq_iff)
  then show "\<forall>t. ec_count c t = 0"
    by (auto elim: ec_count.elims intro: entity_type.induct [of "\<lambda>t. ec_count c t = 0"])
next
  assume "\<forall>t. ec_count c t = 0"
  then have "ec_count c Account = 0" "ec_count c Paymaster = 0"
    "ec_count c Aggregator = 0" "ec_count c Factory = 0" by blast+
  then show "ec_total c = 0" by (simp add: ec_total_def)
qed

lemma includes_non_sender_iff:
  assumes "ec_small c"
  shows "includes_non_sender c \<longleftrightarrow> (\<exists>t. t \<noteq> Account \<and> ec_count c t \<noteq> 0)"
proof -
  have "unat (ec_paymaster c + ec_aggregator c + ec_factory c) =
          unat (ec_paymaster c) + unat (ec_aggregator c) + unat (ec_factory c)"
    using ec_smallD [OF assms, of Paymaster] ec_smallD [OF assms, of Aggregator]
      ec_smallD [OF assms, of Factory] by (simp add: unat_word_ariths)
  then have "includes_non_sender c \<longleftrightarrow>
      ec_paymaster c \<noteq> 0 \<or> ec_aggregator c \<noteq> 0 \<or> ec_factory c \<noteq> 0"
    by (auto simp: includes_non_sender_def word_less_nat_alt word_unat_eq_iff)
  then show ?thesis
    by (metis ec_count.simps entity_type.distinct entity_type.exhaust)
qed

lemma set_po_entities:
  "e \<in> set (po_entities po) \<longleftrightarrow> contains_entity po e"
  by (cases e)
    (force simp: po_entities_def contains_entity_def set_entity_infos_entities entity_new_def
      split: option.splits)

lemma distinct_po_entities: "distinct (map ent_kind (po_entities po))"
proof -
  have "map ent_kind (po_entities po) = map fst (entity_infos_entities (po_entity_infos po))"
    by (simp add: po_entities_def entity_new_def o_def case_prod_beta)
  then show ?thesis by (simp add: distinct_entity_infos_entities)
qed

end
