(* ===== verification/BTree_Set.thy ===== *)
theory BTree_Set
  imports Prelude
begin

text \<open>
  The ordered sets of the standard library (\<open>BTreeSet\<close>) as lists in ascending order of the
  element type's \<open>Ord::cmp\<close>.  The comparison is an argument: two of the sets of the pool are ordered
  by comparisons that are not the equality of the model.
\<close>

datatype ordering = Less | Equal | Greater

fun then_with :: "ordering \<Rightarrow> ordering \<Rightarrow> ordering" where
  "then_with Equal o2 = o2"
| "then_with o1 _ = o1"

definition word_cmp :: "'a::len word \<Rightarrow> 'a word \<Rightarrow> ordering" where
  "word_cmp a b = (if a < b then Less else if a = b then Equal else Greater)"

text \<open>Inserting an element that compares equal to a present one leaves the set unchanged.\<close>

fun bts_insert :: "('a \<Rightarrow> 'a \<Rightarrow> ordering) \<Rightarrow> 'a \<Rightarrow> 'a list \<Rightarrow> 'a list" where
  "bts_insert cmp x [] = [x]"
| "bts_insert cmp x (y # ys) =
     (case cmp x y of
        Less \<Rightarrow> x # y # ys
      | Equal \<Rightarrow> y # ys
      | Greater \<Rightarrow> y # bts_insert cmp x ys)"

fun bts_remove :: "('a \<Rightarrow> 'a \<Rightarrow> ordering) \<Rightarrow> 'a \<Rightarrow> 'a list \<Rightarrow> 'a list" where
  "bts_remove cmp x [] = []"
| "bts_remove cmp x (y # ys) = (if cmp x y = Equal then ys else y # bts_remove cmp x ys)"

definition bts_first :: "'a list \<Rightarrow> 'a option" where
  "bts_first xs = (case xs of [] \<Rightarrow> None | x # _ \<Rightarrow> Some x)"

definition bts_pop_last :: "'a list \<Rightarrow> ('a list \<times> 'a) option" where
  "bts_pop_last xs = (if xs = [] then None else Some (butlast xs, last xs))"

definition bts_sorted :: "('a \<Rightarrow> 'a \<Rightarrow> ordering) \<Rightarrow> 'a list \<Rightarrow> bool" where
  "bts_sorted cmp xs \<longleftrightarrow> sorted_wrt (\<lambda>x y. cmp x y = Less) xs"

lemma bts_sorted_simps [simp]:
  "bts_sorted cmp []"
  "bts_sorted cmp (x # xs) \<longleftrightarrow> (\<forall>y\<in>set xs. cmp x y = Less) \<and> bts_sorted cmp xs"
  by (simp_all add: bts_sorted_def)

lemma bts_sorted_append:
  "bts_sorted cmp (xs @ ys) \<longleftrightarrow>
     bts_sorted cmp xs \<and> bts_sorted cmp ys \<and> (\<forall>x\<in>set xs. \<forall>y\<in>set ys. cmp x y = Less)"
  by (auto simp: bts_sorted_def sorted_wrt_append)

lemma bts_sorted_cong:
  "(\<And>x y. x \<in> set xs \<Longrightarrow> y \<in> set xs \<Longrightarrow> c x y = d x y) \<Longrightarrow> bts_sorted c xs = bts_sorted d xs"
  by (induction xs) auto

text \<open>The laws of a total order, as \<open>Ord\<close> asks for them.\<close>

locale total_cmp =
  fixes cmp :: "'a \<Rightarrow> 'a \<Rightarrow> ordering"
  assumes cmp_refl: "cmp x x = Equal"
    and cmp_swap: "cmp x y = Less \<longleftrightarrow> cmp y x = Greater"
    and cmp_less_trans: "cmp x y = Less \<Longrightarrow> cmp y z = Less \<Longrightarrow> cmp x z = Less"
    and cmp_eq_less: "cmp x y = Equal \<Longrightarrow> cmp y z = Less \<Longrightarrow> cmp x z = Less"
begin

lemma sorted_insert: "bts_sorted cmp xs \<Longrightarrow> bts_sorted cmp (bts_insert cmp x xs)"
proof (induction xs)
  case (Cons y ys)
  have set: "z \<in> set (bts_insert cmp x ys) \<Longrightarrow> z = x \<or> z \<in> set ys" for z
    by (induction ys) (auto split: ordering.splits)
  show ?case
  proof (cases "cmp x y")
    case Less
    then show ?thesis using Cons.prems by (auto intro: cmp_less_trans)
  next
    case Greater
    then have "cmp y x = Less" by (simp add: cmp_swap)
    then show ?thesis using Cons Greater by (auto dest: set)
  qed (use Cons.prems in simp)
qed simp

lemma set_insert_subset: "set (bts_insert cmp x xs) \<subseteq> insert x (set xs)"
  by (induction xs) (auto split: ordering.splits)

lemma set_subset_insert: "set xs \<subseteq> set (bts_insert cmp x xs)"
  by (induction xs) (auto split: ordering.splits)

lemma set_insert_new:
  "\<forall>y\<in>set xs. cmp x y \<noteq> Equal \<Longrightarrow> set (bts_insert cmp x xs) = insert x (set xs)"
  by (induction xs) (auto split: ordering.splits)

lemma sorted_remove: "bts_sorted cmp xs \<Longrightarrow> bts_sorted cmp (bts_remove cmp x xs)"
proof (induction xs)
  case (Cons y ys)
  have "set (bts_remove cmp x ys) \<subseteq> set ys" by (induction ys) auto
  then show ?case using Cons by auto
qed simp

lemma sorted_distinct: "bts_sorted cmp xs \<Longrightarrow> distinct xs"
  by (induction xs) (auto simp: cmp_refl)

lemma remove_absent: "\<forall>y\<in>set xs. cmp x y \<noteq> Equal \<Longrightarrow> bts_remove cmp x xs = xs"
  by (induction xs) auto

lemma remove_filter:
  "bts_sorted cmp xs \<Longrightarrow> bts_remove cmp x xs = filter (\<lambda>y. cmp x y \<noteq> Equal) xs"
proof (induction xs)
  case (Cons y ys)
  have "cmp x z \<noteq> Equal" if "cmp x y = Equal" "z \<in> set ys" for z
    using Cons.prems that cmp_eq_less by fastforce
  then show ?case using Cons by (auto simp: filter_id_conv [THEN iffD2])
qed simp

end

lemma bts_sorted_butlast:
  "bts_sorted cmp xs \<Longrightarrow> bts_sorted cmp (butlast xs)"
  by (induction xs) (auto dest: in_set_butlastD)

text \<open>Pairs of words, ordered lexicographically.\<close>

definition pair_cmp :: "'a::len word \<times> 'b::len word \<Rightarrow> 'a word \<times> 'b word \<Rightarrow> ordering" where
  "pair_cmp p q = then_with (word_cmp (fst p) (fst q)) (word_cmp (snd p) (snd q))"

interpretation pair: total_cmp pair_cmp
  by unfold_locales
    (auto simp: pair_cmp_def word_cmp_def split: if_splits)

lemma pair_cmp_Equal [simp]: "pair_cmp p q = Equal \<longleftrightarrow> p = q"
  by (auto simp: pair_cmp_def word_cmp_def prod_eq_iff split: if_splits)

lemma pair_insert_set [simp]: "set (bts_insert pair_cmp x xs) = insert x (set xs)"
proof (cases "x \<in> set xs")
  case True
  then show ?thesis
    using pair.set_insert_subset [of x xs] pair.set_subset_insert [of xs x] by auto
next
  case False
  then show ?thesis by (intro pair.set_insert_new) auto
qed

end
