(* ===== verification/Pool.thy ===== *)
theory Pool
  imports Pool_Types BTree_Set
begin

text \<open>
  The pool of user operations, \<open>PoolInner\<close> of \<open>crates/pool/src/mempool/pool.rs\<close>.

  An \<open>Arc<OrderedPoolOperation>\<close> is shared by the maps \<open>by_hash\<close> and \<open>by_id\<close> and by the set
  \<open>best\<close>, and three of its fields sit behind locks and change in place.  The model keeps the
  immutable part as a value with a location, and the three locked fields of every operation in a
  store from locations to cells, so that a change made through one reference is seen through all.

  The clock and the order in which a hash map is iterated are arguments.  Emitted events are
  appended to a log; metrics are left out.
\<close>

section \<open>State\<close>

record pool_inner_config =
  pc_chain_spec :: chain_spec
  pc_entry_point :: address
  pc_max_size_of_pool_bytes :: usize
  pc_min_replacement_fee_increase_percentage :: u32
  pc_throttled_entity_mempool_count :: u64
  pc_throttled_entity_live_blocks :: u64
  pc_da_gas_tracking_enabled :: bool
  pc_max_time_in_pool :: "duration option"
  pc_verification_gas_limit_efficiency_reject_threshold :: f64
  pc_type_sizes :: type_sizes

record time_to_mine_info =
  ttm_added_at_time :: instant
  ttm_added_at_block :: u64

definition time_to_mine_info_new :: "instant \<Rightarrow> u64 \<Rightarrow> time_to_mine_info" where
  "time_to_mine_info_new now block = \<lparr>ttm_added_at_time = now, ttm_added_at_block = block\<rparr>"

definition ttm_ttm :: "instant \<Rightarrow> time_to_mine_info \<Rightarrow> u64 \<Rightarrow> duration \<times> u64" where
  "ttm_ttm now t block_number =
     (now - ttm_added_at_time t, saturating_sub block_number (ttm_added_at_block t))"

text \<open>The fields of \<open>OrderedPoolOperation\<close> behind locks.\<close>

record op_cells =
  oc_eligible :: bool
  oc_gas_price :: u128
  oc_time_to_mine :: "time_to_mine_info option"

record ordered_pool_operation =
  oo_po :: pool_operation
  oo_submission_id :: u64
  oo_insertion_time :: instant
  oo_loc :: nat

type_synonym store = "nat \<Rightarrow> op_cells"

text \<open>\<open>DAGasOracleSync::calc_da_gas_sync\<close>; the oracle is a type parameter of the pool.\<close>

type_synonym da_gas_oracle = "da_gas_data \<Rightarrow> da_gas_block_data \<Rightarrow> u128 \<Rightarrow> usize \<Rightarrow> u128"

record mined_op =
  mo_hash :: b256
  mo_entry_point :: address
  mo_sender :: address
  mo_nonce :: u256
  mo_actual_gas_cost :: u256
  mo_paymaster :: "address option"

definition mo_id :: "mined_op \<Rightarrow> user_operation_id" where
  "mo_id m = \<lparr>id_sender = mo_sender m, id_nonce = mo_nonce m\<rparr>"

record pool_inner =
  pi_config :: pool_inner_config
  pi_da_gas_oracle :: "da_gas_oracle option"
  pi_by_hash :: "b256 \<rightharpoonup> ordered_pool_operation"
  pi_by_id :: "user_operation_id \<rightharpoonup> ordered_pool_operation"
  pi_best :: "ordered_pool_operation list"
  pi_time_to_mine :: "b256 \<rightharpoonup> time_to_mine_info"
  pi_mined_at_block_number_by_hash :: "b256 \<rightharpoonup> ordered_pool_operation \<times> u64"
  pi_mined_hashes_with_block_numbers :: "(u64 \<times> b256) list"
  pi_preconfirmed_uos_bundle_mapping :: "b256 \<rightharpoonup> b256"
  pi_preconfiemed_uos_at_block_number :: "u64 \<rightharpoonup> b256 list"
  pi_count_by_address :: "address \<rightharpoonup> entity_counter"
  pi_submission_id :: u64
  pi_pool_size :: size_tracker
  pi_cache_size :: size_tracker
  pi_prev_block_number :: u64
  pi_events :: "(address \<times> op_pool_event) list"
  pi_store :: store
  pi_next_loc :: nat

section \<open>Ordered pool operations\<close>

abbreviation oo_uo :: "ordered_pool_operation \<Rightarrow> user_operation_variant" where
  "oo_uo op \<equiv> po_uo (oo_po op)"

definition oo_mem_size :: "type_sizes \<Rightarrow> ordered_pool_operation \<Rightarrow> usize" where
  "oo_mem_size sz op = size_of_OrderedPoolOperation sz + po_mem_size sz (oo_po op)"

definition oo_cells_new :: "pool_operation \<Rightarrow> bool \<Rightarrow> u128 \<Rightarrow> u64 \<Rightarrow> instant \<Rightarrow> op_cells" where
  "oo_cells_new po eligible base_fee current_block_number now =
     \<lparr>oc_eligible = eligible, oc_gas_price = uo_gas_price (po_uo po) base_fee,
      oc_time_to_mine = Some (time_to_mine_info_new now current_block_number)\<rparr>"

definition oo_eligible :: "store \<Rightarrow> ordered_pool_operation \<Rightarrow> bool" where
  "oo_eligible st op = oc_eligible (st (oo_loc op))"

definition oo_gas_price :: "store \<Rightarrow> ordered_pool_operation \<Rightarrow> u128" where
  "oo_gas_price st op = oc_gas_price (st (oo_loc op))"

definition set_eligible :: "ordered_pool_operation \<Rightarrow> store \<Rightarrow> store" where
  "set_eligible op st = st(oo_loc op := (st (oo_loc op))\<lparr>oc_eligible := True\<rparr>)"

definition set_ineligible :: "ordered_pool_operation \<Rightarrow> store \<Rightarrow> store" where
  "set_ineligible op st =
     st(oo_loc op := (st (oo_loc op))\<lparr>oc_eligible := False, oc_time_to_mine := None\<rparr>)"

definition set_underpriced :: "ordered_pool_operation \<Rightarrow> store \<Rightarrow> store" where
  "set_underpriced op st = st(oo_loc op := (st (oo_loc op))\<lparr>oc_time_to_mine := None\<rparr>)"

definition oo_ttm :: "instant \<Rightarrow> store \<Rightarrow> ordered_pool_operation \<Rightarrow> u64 \<Rightarrow> (duration \<times> u64) option" where
  "oo_ttm now st op block_number =
     map_option (\<lambda>t. ttm_ttm now t block_number) (oc_time_to_mine (st (oo_loc op)))"

definition elapsed_time_in_pool :: "instant \<Rightarrow> ordered_pool_operation \<Rightarrow> duration" where
  "elapsed_time_in_pool now op = now - oo_insertion_time op"

definition update_gas_price :: "ordered_pool_operation \<Rightarrow> u128 \<Rightarrow> store \<Rightarrow> store" where
  "update_gas_price op base_fee st =
     st(oo_loc op := (st (oo_loc op))\<lparr>oc_gas_price := uo_gas_price (oo_uo op) base_fee\<rparr>)"

text \<open>By gas price descending, then by submission id ascending.\<close>

definition oo_cmp :: "store \<Rightarrow> ordered_pool_operation \<Rightarrow> ordered_pool_operation \<Rightarrow> ordering" where
  "oo_cmp st a b =
     then_with (word_cmp (oo_gas_price st b) (oo_gas_price st a))
       (word_cmp (oo_submission_id a) (oo_submission_id b))"

section \<open>Operations of the pool\<close>

definition pool_new :: "pool_inner_config \<Rightarrow> da_gas_oracle option \<Rightarrow> pool_inner" where
  "pool_new config oracle =
     \<lparr>pi_config = config, pi_da_gas_oracle = oracle, pi_by_hash = Map.empty, pi_by_id = Map.empty,
      pi_best = [], pi_time_to_mine = Map.empty, pi_mined_at_block_number_by_hash = Map.empty,
      pi_mined_hashes_with_block_numbers = [], pi_preconfirmed_uos_bundle_mapping = Map.empty,
      pi_preconfiemed_uos_at_block_number = Map.empty, pi_count_by_address = Map.empty,
      pi_submission_id = 0, pi_pool_size = 0, pi_cache_size = 0, pi_prev_block_number = 0,
      pi_events = [],
      pi_store = (\<lambda>_. \<lparr>oc_eligible = False, oc_gas_price = 0, oc_time_to_mine = None\<rparr>),
      pi_next_loc = 0\<rparr>"

definition pool_emit :: "pool_inner \<Rightarrow> op_pool_event \<Rightarrow> pool_inner" where
  "pool_emit p event = p\<lparr>pi_events := pi_events p @ [(pc_entry_point (pi_config p), event)]\<rparr>"

abbreviation pi_mem_size :: "pool_inner \<Rightarrow> ordered_pool_operation \<Rightarrow> usize" where
  "pi_mem_size p op \<equiv> oo_mem_size (pc_type_sizes (pi_config p)) op"

definition get_min_replacement_fees :: "pool_inner \<Rightarrow> user_operation_variant \<Rightarrow> u128 \<times> u128" where
  "get_min_replacement_fees p op =
     (increase_by_percent (uo_max_priority_fee_per_gas op)
        (pc_min_replacement_fee_increase_percentage (pi_config p)),
      increase_by_percent (uo_max_fee_per_gas op)
        (pc_min_replacement_fee_increase_percentage (pi_config p)))"

definition check_replacement ::
  "pool_inner \<Rightarrow> user_operation_variant \<Rightarrow> mempool_error + b256 option" where
  "check_replacement p op =
     (if pi_by_hash p (uo_hash op) \<noteq> None then Inl OperationAlreadyKnown
      else case pi_by_id p (uo_id op) of
        Some pool_op \<Rightarrow>
          (let (replacement_priority_fee, replacement_fee) =
                 get_min_replacement_fees p (oo_uo pool_op)
           in if uo_max_priority_fee_per_gas op < replacement_priority_fee
                 \<or> uo_max_fee_per_gas op < replacement_fee
              then Inl (ReplacementUnderpriced (uo_max_priority_fee_per_gas (oo_uo pool_op))
                          (uo_max_fee_per_gas (oo_uo pool_op)))
              else Inr (Some (uo_hash (oo_uo pool_op))))
      | None \<Rightarrow> Inr None)"

definition decrement_address_count ::
  "address \<Rightarrow> entity_type \<Rightarrow> (address \<rightharpoonup> entity_counter) \<Rightarrow> (address \<rightharpoonup> entity_counter)" where
  "decrement_address_count a t counts =
     (case counts a of
        Some c \<Rightarrow>
          (let c = decrement_entity_count c t
           in if ec_total c = 0 then counts(a := None) else counts(a \<mapsto> c))
      | None \<Rightarrow> counts)"

definition increment_address_count ::
  "address \<Rightarrow> entity_type \<Rightarrow> (address \<rightharpoonup> entity_counter) \<Rightarrow> (address \<rightharpoonup> entity_counter)" where
  "increment_address_count a t counts =
     (let c = (case counts a of Some c \<Rightarrow> c | None \<Rightarrow> entity_counter_default)
      in counts(a \<mapsto> increment_entity_count c t))"

definition remove_operation_internal ::
  "pool_inner \<Rightarrow> b256 \<Rightarrow> u64 option \<Rightarrow> pool_inner \<times> pool_operation option" where
  "remove_operation_internal p hash block_number =
     (case pi_by_hash p hash of
        None \<Rightarrow> (p, None)
      | Some op \<Rightarrow>
          (let p = p\<lparr>pi_by_hash := (pi_by_hash p)(hash := None),
                     pi_by_id := (pi_by_id p)(uo_id (oo_uo op) := None),
                     pi_best := bts_remove (oo_cmp (pi_store p)) op (pi_best p),
                     pi_time_to_mine := (pi_time_to_mine p)(hash := None)\<rparr>;
               p = (case block_number of
                      Some bn \<Rightarrow>
                        p\<lparr>pi_cache_size := size_add (pi_cache_size p) (pi_mem_size p op),
                          pi_mined_at_block_number_by_hash :=
                            (pi_mined_at_block_number_by_hash p)(hash \<mapsto> (op, bn)),
                          pi_mined_hashes_with_block_numbers :=
                            bts_insert pair_cmp (bn, hash) (pi_mined_hashes_with_block_numbers p)\<rparr>
                    | None \<Rightarrow> p);
               p = p\<lparr>pi_count_by_address :=
                       fold (\<lambda>e. decrement_address_count (ent_address e) (ent_kind e))
                         (po_entities (oo_po op)) (pi_count_by_address p),
                     pi_preconfirmed_uos_bundle_mapping :=
                       (pi_preconfirmed_uos_bundle_mapping p)(hash := None),
                     pi_pool_size := size_sub (pi_pool_size p) (pi_mem_size p op)\<rparr>
           in (p, Some (oo_po op))))"

definition remove_operation_by_hash :: "pool_inner \<Rightarrow> b256 \<Rightarrow> pool_inner \<times> pool_operation option" where
  "remove_operation_by_hash p hash = remove_operation_internal p hash None"

text \<open>
  The loop of \<open>enforce_size\<close>; the value \<open>None\<close> stands for a loop that does not end.
\<close>

partial_function (option) enforce_size_loop ::
  "pool_inner \<Rightarrow> b256 list \<Rightarrow> (pool_inner \<times> (string + b256 list)) option" where
  "enforce_size_loop p removed =
     (if size_gt (pi_pool_size p) (pc_max_size_of_pool_bytes (pi_config p))
      then case bts_pop_last (pi_best p) of
             None \<Rightarrow> enforce_size_loop p removed
           | Some (best, worst) \<Rightarrow>
               (let hash = uo_hash (oo_uo worst);
                    (p, res) = remove_operation_internal (p\<lparr>pi_best := best\<rparr>) hash None
                in case res of
                     None \<Rightarrow> Some (p, Inl ''should have removed the worst operation'')
                   | Some _ \<Rightarrow> enforce_size_loop p (removed @ [hash]))
      else Some (p, Inr removed))"

definition enforce_size :: "pool_inner \<Rightarrow> (pool_inner \<times> (string + b256 list)) option" where
  "enforce_size p = enforce_size_loop p []"

text \<open>The part of \<open>add_operation_internal\<close> that stores the operation.\<close>

definition insert_operation :: "pool_inner \<Rightarrow> ordered_pool_operation \<Rightarrow> pool_inner" where
  "insert_operation p pool_op =
     (let p = p\<lparr>pi_count_by_address :=
                  fold (\<lambda>e. increment_address_count (ent_address e) (ent_kind e))
                    (po_entities (oo_po pool_op)) (pi_count_by_address p)\<rparr>;
          p = p\<lparr>pi_pool_size := size_add (pi_pool_size p) (pi_mem_size p pool_op),
                pi_by_hash := (pi_by_hash p)(uo_hash (oo_uo pool_op) \<mapsto> pool_op),
                pi_by_id := (pi_by_id p)(uo_id (oo_uo pool_op) \<mapsto> pool_op)\<rparr>
      in if oo_eligible (pi_store p) pool_op
         then p\<lparr>pi_best := bts_insert (oo_cmp (pi_store p)) pool_op (pi_best p)\<rparr>
         else p)"

definition add_operation_internal ::
  "pool_inner \<Rightarrow> ordered_pool_operation \<Rightarrow> (pool_inner \<times> (mempool_error + b256)) option" where
  "add_operation_internal p pool_op =
     (case check_replacement p (oo_uo pool_op) of
        Inl e \<Rightarrow> Some (p, Inl e)
      | Inr replaced \<Rightarrow>
          (let p = (case replaced of
                      Some hash \<Rightarrow> fst (remove_operation_by_hash p hash) | None \<Rightarrow> p);
               p = insert_operation p pool_op;
               hash = uo_hash (oo_uo pool_op)
           in case enforce_size p of
                None \<Rightarrow> None
              | Some (p, Inl e) \<Rightarrow>
                  Some (p, Inl (Other ''should have succeeded in resizing the pool''))
              | Some (p, Inr removed) \<Rightarrow>
                  (let p = fold (\<lambda>h p. pool_emit p (RemovedOp h PoolSizeExceeded)) removed p
                   in if hash \<in> set removed then Some (p, Inl DiscardedOnInsert)
                      else Some (p, Inr hash))))"

definition next_submission_id :: "pool_inner \<Rightarrow> pool_inner \<times> u64" where
  "next_submission_id p = (p\<lparr>pi_submission_id := pi_submission_id p + 1\<rparr>, pi_submission_id p)"

text \<open>\<open>Arc::new(OrderedPoolOperation::new(..))\<close>: the locked fields get a new location.\<close>

definition ordered_pool_operation_new ::
  "pool_inner \<Rightarrow> pool_operation \<Rightarrow> u64 \<Rightarrow> bool \<Rightarrow> u128 \<Rightarrow> instant
     \<Rightarrow> pool_inner \<times> ordered_pool_operation" where
  "ordered_pool_operation_new p po submission_id eligible base_fee now =
     (p\<lparr>pi_store := (pi_store p)(pi_next_loc p :=
          oo_cells_new po eligible base_fee (pi_prev_block_number p) now),
        pi_next_loc := pi_next_loc p + 1\<rparr>,
      \<lparr>oo_po = po, oo_submission_id = submission_id, oo_insertion_time = now,
       oo_loc = pi_next_loc p\<rparr>)"

definition pool_add_operation ::
  "pool_inner \<Rightarrow> pool_operation \<Rightarrow> u128 \<Rightarrow> u128 \<Rightarrow> instant
     \<Rightarrow> (pool_inner \<times> (mempool_error + b256)) option" where
  "pool_add_operation p op base_fee required_pvg now =
     (let (p, is_eligible) =
            (if pc_da_gas_tracking_enabled (pi_config p) \<and> pi_da_gas_oracle p \<noteq> None
             then if uo_pre_verification_gas (po_uo op) < required_pvg
                  then (pool_emit p (UpdatedDAData (uo_hash (po_uo op)) False required_pvg
                          (uo_pre_verification_gas (po_uo op))), False)
                  else (p, True)
             else (p, True));
          (p, submission_id) = next_submission_id p;
          (p, pool_op) = ordered_pool_operation_new p op submission_id is_eligible base_fee now
      in add_operation_internal p pool_op)"

definition pool_best_operations :: "pool_inner \<Rightarrow> pool_operation list" where
  "pool_best_operations p = map oo_po (pi_best p)"

text \<open>\<open>order\<close> is the order in which the hash map is iterated.\<close>

definition pool_all_operations :: "pool_inner \<Rightarrow> b256 list \<Rightarrow> pool_operation list" where
  "pool_all_operations p order = List.map_filter (\<lambda>h. map_option oo_po (pi_by_hash p h)) order"

definition get_operation_by_hash :: "pool_inner \<Rightarrow> b256 \<Rightarrow> pool_operation option" where
  "get_operation_by_hash p hash = map_option oo_po (pi_by_hash p hash)"

definition get_operation_by_id :: "pool_inner \<Rightarrow> user_operation_id \<Rightarrow> pool_operation option" where
  "get_operation_by_id p i = map_option oo_po (pi_by_id p i)"

definition address_count :: "pool_inner \<Rightarrow> address \<Rightarrow> usize" where
  "address_count p a = (case pi_count_by_address p a of Some c \<Rightarrow> ec_total c | None \<Rightarrow> 0)"

definition preconfirm_txns :: "pool_inner \<Rightarrow> (b256 \<times> b256 list) list \<Rightarrow> pool_inner" where
  "preconfirm_txns p txn_to_uos =
     fold (\<lambda>(txn, uos) p.
       fold (\<lambda>uo p.
         if get_operation_by_hash p uo \<noteq> None
         then p\<lparr>pi_preconfirmed_uos_bundle_mapping :=
                  (pi_preconfirmed_uos_bundle_mapping p)(uo \<mapsto> txn)\<rparr>
         else p) uos p) txn_to_uos p"

definition preconfirm_txns_at_block_number ::
  "pool_inner \<Rightarrow> (b256 \<times> b256 list) list \<Rightarrow> u64 \<Rightarrow> pool_inner" where
  "preconfirm_txns_at_block_number p txn_to_uos block_number =
     p\<lparr>pi_preconfiemed_uos_at_block_number :=
         (pi_preconfiemed_uos_at_block_number p)(block_number \<mapsto> concat (map snd txn_to_uos))\<rparr>"

definition remove_out_of_date_preconfirmed_uos ::
  "pool_inner \<Rightarrow> u64 list \<Rightarrow> u64 \<Rightarrow> pool_inner" where
  "remove_out_of_date_preconfirmed_uos p order block_number =
     (let p = fold (\<lambda>bn p.
            case pi_preconfiemed_uos_at_block_number p bn of
              Some uos \<Rightarrow>
                if bn \<le> block_number
                then p\<lparr>pi_preconfirmed_uos_bundle_mapping :=
                         fold (\<lambda>uo m. m(uo := None)) uos
                           (pi_preconfirmed_uos_bundle_mapping p)\<rparr>
                else p
            | None \<Rightarrow> p) order p
      in p\<lparr>pi_preconfiemed_uos_at_block_number :=
             (\<lambda>bn. if bn > block_number then pi_preconfiemed_uos_at_block_number p bn else None)\<rparr>)"

definition get_pre_confirmed_uo :: "pool_inner \<Rightarrow> b256 \<Rightarrow> b256 option" where
  "get_pre_confirmed_uo p h = pi_preconfirmed_uos_bundle_mapping p h"

text \<open>The three reasons for which maintenance drops an operation, with the reported timestamp.\<close>

definition expired_at ::
  "pool_inner_config \<Rightarrow> instant \<Rightarrow> timestamp \<Rightarrow> ordered_pool_operation \<Rightarrow> timestamp option" where
  "expired_at config now block_timestamp op =
     (if valid_until (po_valid_time_range (oo_po op)) < block_timestamp
      then Some (valid_until (po_valid_time_range (oo_po op)))
      else if (case pc_max_time_in_pool config of
                 Some m \<Rightarrow> elapsed_time_in_pool now op > m | None \<Rightarrow> False)
      then Some block_timestamp
      else case perm_bundler_sponsorship (po_perms (oo_po op)) of
             Some s \<Rightarrow> if bs_valid_until s < block_timestamp then Some (bs_valid_until s) else None
           | None \<Rightarrow> None)"

definition maintenance_required_pvg ::
  "alloy \<Rightarrow> pool_inner_config \<Rightarrow> da_gas_oracle \<Rightarrow> da_gas_block_data \<Rightarrow> u128
     \<Rightarrow> ordered_pool_operation \<Rightarrow> u128" where
  "maintenance_required_pvg al config oracle block_da_data base_fee op =
     (let bundle_size = 1;
          required_da_gas = oracle (po_da_gas_data (oo_po op)) block_da_data
                              (uo_gas_price (oo_uo op) base_fee)
                              (uo_extra_data_len (oo_uo op) bundle_size);
          required_pvg = required_pre_verification_gas al (oo_uo op) (pc_chain_spec config)
                           bundle_size required_da_gas
                           (Some (pc_verification_gas_limit_efficiency_reject_threshold config))
      in case perm_underpriced_bundle_pct (po_perms (oo_po op)) of
           Some pct \<Rightarrow> percent_ceil required_pvg pct
         | None \<Rightarrow> required_pvg)"

text \<open>
  One turn of the loop of \<open>do_maintenance\<close>; the state is the pool, the expired hashes and the
  collected events.
\<close>

type_synonym maintenance_state = "pool_inner \<times> b256 list \<times> op_pool_event list"

definition maintain_best ::
  "gas_fees \<Rightarrow> ordered_pool_operation \<Rightarrow> pool_inner \<Rightarrow> pool_inner" where
  "maintain_best uo_fees op p =
     (let p = p\<lparr>pi_best := bts_insert (oo_cmp (pi_store p)) op (pi_best p)\<rparr>
      in if (uo_max_fee_per_gas (oo_uo op) < gf_max_fee_per_gas uo_fees
             \<or> uo_max_priority_fee_per_gas (oo_uo op) < gf_max_priority_fee_per_gas uo_fees)
            \<and> perm_bundler_sponsorship (po_perms (oo_po op)) = None
         then p\<lparr>pi_store := set_underpriced op (pi_store p)\<rparr>
         else p)"

definition maintain_op ::
  "alloy \<Rightarrow> instant \<Rightarrow> timestamp \<Rightarrow> da_gas_block_data option \<Rightarrow> gas_fees \<Rightarrow> u128
     \<Rightarrow> b256 \<Rightarrow> maintenance_state \<Rightarrow> maintenance_state" where
  "maintain_op al now block_timestamp block_da_data uo_fees base_fee hash s =
     (let (p, expired, events) = s
      in case pi_by_hash p hash of
           None \<Rightarrow> s
         | Some op \<Rightarrow>
             (let p = p\<lparr>pi_store := update_gas_price op base_fee (pi_store p)\<rparr>
              in case expired_at (pi_config p) now block_timestamp op of
                   Some t \<Rightarrow> (p, expired @ [hash], events @ [RemovedOp hash (Expired t)])
                 | None \<Rightarrow>
                     (case (pi_da_gas_oracle p, block_da_data,
                            perm_bundler_sponsorship (po_perms (oo_po op))) of
                        (Some oracle, Some data, None) \<Rightarrow>
                          (let required_pvg = maintenance_required_pvg al (pi_config p) oracle data
                                                base_fee op;
                               actual_pvg = uo_pre_verification_gas (oo_uo op)
                           in if actual_pvg < required_pvg
                              then if oo_eligible (pi_store p) op
                                   then (p\<lparr>pi_store := set_ineligible op (pi_store p)\<rparr>, expired,
                                         events @ [UpdatedDAData hash False required_pvg actual_pvg])
                                   else (p, expired, events)
                              else if \<not> oo_eligible (pi_store p) op
                              then (maintain_best uo_fees op
                                      (p\<lparr>pi_store := set_eligible op (pi_store p)\<rparr>), expired,
                                    events @ [UpdatedDAData hash True required_pvg actual_pvg])
                              else (maintain_best uo_fees op p, expired, events))
                      | _ \<Rightarrow> (maintain_best uo_fees op p, expired, events))))"

definition do_maintenance ::
  "alloy \<Rightarrow> pool_inner \<Rightarrow> b256 list \<Rightarrow> instant \<Rightarrow> u64 \<Rightarrow> timestamp \<Rightarrow> da_gas_block_data option
     \<Rightarrow> gas_fees \<Rightarrow> u128 \<Rightarrow> pool_inner" where
  "do_maintenance al p order now block_number block_timestamp block_da_data uo_fees base_fee =
     (let (p, expired, events) =
            fold (maintain_op al now block_timestamp block_da_data uo_fees base_fee) order
              (p\<lparr>pi_best := []\<rparr>, [], []);
          p = fold (\<lambda>h p. fst (remove_operation_by_hash p h)) expired p;
          p = fold (\<lambda>e p. pool_emit p e) events p
      in p\<lparr>pi_prev_block_number := block_number\<rparr>)"

definition check_multiple_roles_violation ::
  "pool_inner \<Rightarrow> user_operation_variant \<Rightarrow> mempool_error + unit" where
  "check_multiple_roles_violation p uo =
     (if (case pi_count_by_address p (uo_sender uo) of
            Some ec \<Rightarrow> includes_non_sender ec | None \<Rightarrow> False)
      then Inl (SenderAddressUsedAsAlternateEntity (uo_sender uo))
      else case List.find (\<lambda>e. ent_kind e \<in> {Factory, Paymaster, Aggregator} \<and>
                  (case pi_count_by_address p (ent_address e) of
                     Some ec \<Rightarrow> ec_sender ec > 0 | None \<Rightarrow> False)) (uo_entities uo) of
             Some e \<Rightarrow> Inl (MultipleRolesViolation e)
           | None \<Rightarrow> Inr ())"

definition check_associated_storage ::
  "pool_inner \<Rightarrow> address list \<Rightarrow> user_operation_variant \<Rightarrow> mempool_error + unit" where
  "check_associated_storage p accessed_storage uo =
     (if \<exists>a\<in>set accessed_storage.
           (case pi_count_by_address p a of
              Some ec \<Rightarrow> ec_sender ec > 0 \<and> a \<noteq> uo_sender uo
                \<and> (\<exists>e\<in>set (uo_entities uo). a = ent_address e)
            | None \<Rightarrow> False)
      then Inl AssociatedStorageIsAlternateSender else Inr ())"

definition check_eip7702 :: "alloy \<Rightarrow> pool_inner \<Rightarrow> user_operation_variant \<Rightarrow> mempool_error + unit" where
  "check_eip7702 al p uo =
     (case uo_authorization_tuple uo of
        Some auth \<Rightarrow>
          if supports_eip7702 (pc_chain_spec (pi_config p)) (pc_entry_point (pi_config p))
          then (case eip7702_validate al auth (uo_sender uo) of
                  Inl e \<Rightarrow> Inl (Invalid7702AuthSignature e) | Inr _ \<Rightarrow> Inr ())
          else Inl (EIPNotSupported ''EIP-7702'')
      | None \<Rightarrow> Inr ())"

definition mine_operation ::
  "pool_inner \<Rightarrow> mined_op \<Rightarrow> u64 \<Rightarrow> pool_inner \<times> pool_operation option" where
  "mine_operation p mined_op block_number =
     (case pi_by_id p (mo_id mined_op) of
        None \<Rightarrow> (p, None)
      | Some tx_in_pool \<Rightarrow>
          remove_operation_internal p (uo_hash (oo_uo tx_in_pool)) (Some block_number))"

definition unmine_operation ::
  "pool_inner \<Rightarrow> mined_op \<Rightarrow> (pool_inner \<times> pool_operation option) option" where
  "unmine_operation p mined_op =
     (let hash = mo_hash mined_op
      in case pi_mined_at_block_number_by_hash p hash of
           None \<Rightarrow> Some (p, None)
         | Some (op, block_number) \<Rightarrow>
             (let p = p\<lparr>pi_mined_at_block_number_by_hash :=
                          (pi_mined_at_block_number_by_hash p)(hash := None),
                        pi_mined_hashes_with_block_numbers :=
                          bts_remove pair_cmp (block_number, hash)
                            (pi_mined_hashes_with_block_numbers p)\<rparr>
              in map_option (\<lambda>(p, _). (p, Some (oo_po op))) (add_operation_internal p op)))"

text \<open>The closure of the filter in \<open>throttle_entity\<close>, with the number of operations still kept.\<close>

fun throttle_filter ::
  "pool_inner_config \<Rightarrow> entity \<Rightarrow> u64 \<Rightarrow> u64 \<Rightarrow> ordered_pool_operation list \<Rightarrow> b256 list" where
  "throttle_filter config entity current_block_number uos_kept [] = []"
| "throttle_filter config entity current_block_number uos_kept (o' # ops) =
     (if contains_entity (oo_po o') entity
      then if po_sim_block_number (oo_po o') + pc_throttled_entity_live_blocks config
                < current_block_number \<or> uos_kept = 0
           then uo_hash (oo_uo o') # throttle_filter config entity current_block_number uos_kept ops
           else throttle_filter config entity current_block_number (saturating_sub uos_kept 1) ops
      else throttle_filter config entity current_block_number uos_kept ops)"

definition pool_throttle_entity :: "pool_inner \<Rightarrow> entity \<Rightarrow> u64 \<Rightarrow> pool_inner \<times> b256 list" where
  "pool_throttle_entity p entity current_block_number =
     (let to_remove = throttle_filter (pi_config p) entity current_block_number
                        (pc_throttled_entity_mempool_count (pi_config p)) (pi_best p)
      in (fold (\<lambda>h p. fst (remove_operation_internal p h None)) to_remove p, to_remove))"

definition pool_remove_entity :: "pool_inner \<Rightarrow> b256 list \<Rightarrow> entity \<Rightarrow> pool_inner \<times> b256 list" where
  "pool_remove_entity p order entity =
     (let to_remove = filter (\<lambda>h. case pi_by_hash p h of
                                Some op \<Rightarrow> contains_entity (oo_po op) entity | None \<Rightarrow> False) order
      in (fold (\<lambda>h p. fst (remove_operation_internal p h None)) to_remove p, to_remove))"

function forget_mined_operations_before_block :: "pool_inner \<Rightarrow> u64 \<Rightarrow> pool_inner" where
  "forget_mined_operations_before_block p block_number =
     (case pi_mined_hashes_with_block_numbers p of
        (bn, hash) # rest \<Rightarrow>
          if bn < block_number
          then (let p = (case pi_mined_at_block_number_by_hash p hash of
                           Some (op, _) \<Rightarrow>
                             p\<lparr>pi_mined_at_block_number_by_hash :=
                                 (pi_mined_at_block_number_by_hash p)(hash := None),
                               pi_cache_size := size_sub (pi_cache_size p) (pi_mem_size p op)\<rparr>
                         | None \<Rightarrow> p)
                in forget_mined_operations_before_block
                     (p\<lparr>pi_mined_hashes_with_block_numbers :=
                          bts_remove pair_cmp (bn, hash) (pi_mined_hashes_with_block_numbers p)\<rparr>)
                     block_number)
          else p
      | [] \<Rightarrow> p)"
  by pat_completeness auto
termination
  by (relation "measure (\<lambda>(p, _). length (pi_mined_hashes_with_block_numbers p))")
    (auto split: option.splits)

definition pool_clear :: "pool_inner \<Rightarrow> pool_inner" where
  "pool_clear p =
     p\<lparr>pi_by_hash := Map.empty, pi_by_id := Map.empty, pi_best := [],
       pi_time_to_mine := Map.empty, pi_mined_at_block_number_by_hash := Map.empty,
       pi_mined_hashes_with_block_numbers := [], pi_count_by_address := Map.empty,
       pi_pool_size := 0, pi_cache_size := 0\<rparr>"

end
