(* ===== verification/Pool_Counts.thy ===== *)
theory Pool_Counts
  imports Pool
begin

text \<open>
  The entity counts of the pool: what \<open>increment_address_count\<close> and \<open>decrement_address_count\<close> do to
  the count of one kind of entity at one address, and that the counts are those of the stored
  operations.
\<close>

definition count_of :: "(address \<rightharpoonup> entity_counter) \<Rightarrow> address \<Rightarrow> entity_type \<Rightarrow> usize" where
  "count_of counts a t = (case counts a of None \<Rightarrow> 0 | Some c \<Rightarrow> ec_count c t)"

definition counts_small :: "(address \<rightharpoonup> entity_counter) \<Rightarrow> bool" where
  "counts_small counts \<longleftrightarrow> (\<forall>a t. unat (count_of counts a t) < 2 ^ 62)"

text \<open>No entry is kept for an address without a count.\<close>

definition counts_nonzero :: "(address \<rightharpoonup> entity_counter) \<Rightarrow> bool" where
  "counts_nonzero counts \<longleftrightarrow> (\<forall>a c. counts a = Some c \<longrightarrow> (\<exists>t. ec_count c t \<noteq> 0))"

text \<open>The number of operations of a map that use an address as a kind of entity.\<close>

definition uses :: "(b256 \<rightharpoonup> ordered_pool_operation) \<Rightarrow> address \<Rightarrow> entity_type \<Rightarrow> b256 set" where
  "uses m a t = {h. \<exists>op. m h = Some op \<and> contains_entity (oo_po op) (entity_new t a)}"

lemma count_of_empty [simp]: "count_of Map.empty a t = 0"
  by (simp add: count_of_def)

lemma count_of_increment:
  "count_of (increment_address_count a' t' counts) a t =
     (if a = a' \<and> t = t' then saturating_add (count_of counts a t) 1 else count_of counts a t)"
  by (auto simp: count_of_def increment_address_count_def ec_count_increment Let_def
      split: option.splits)

lemma count_of_decrement:
  assumes "counts_small counts"
  shows "count_of (decrement_address_count a' t' counts) a t =
     (if a = a' \<and> t = t' then saturating_sub (count_of counts a t) 1 else count_of counts a t)"
proof (cases "counts a'")
  case None
  then show ?thesis by (auto simp: count_of_def decrement_address_count_def saturating_sub_def)
next
  case (Some c)
  have le: "unat (ec_count (decrement_entity_count c t') k) \<le> unat (ec_count c k)" for k
    by (simp add: ec_count_decrement unat_simps)
  have "unat (count_of counts a' k) < 2 ^ 62" for k
    using assms by (simp add: counts_small_def)
  then have "unat (ec_count c k) < 2 ^ 62" for k
    using Some by (simp add: count_of_def)
  then have "ec_small (decrement_entity_count c t')"
    unfolding ec_small_def using le le_less_trans by blast
  note total = ec_total_eq_0_iff [OF this]
  show ?thesis
  proof (cases "ec_total (decrement_entity_count c t') = 0")
    case True
    then have "ec_count (decrement_entity_count c t') t = 0" using total by blast
    then show ?thesis
      using True Some
      by (auto simp: count_of_def decrement_address_count_def ec_count_decrement Let_def
          split: if_splits)
  next
    case False
    then show ?thesis
      using Some by (auto simp: count_of_def decrement_address_count_def ec_count_decrement Let_def)
  qed
qed

lemma counts_small_decrement:
  "counts_small counts \<Longrightarrow> counts_small (decrement_address_count a t counts)"
proof -
  assume small: "counts_small counts"
  have "unat (count_of counts b k) < 2 ^ 62" for b k
    using small by (simp add: counts_small_def)
  then show ?thesis
    unfolding counts_small_def
    by (auto simp: count_of_decrement [OF small] unat_simps less_imp_diff_less)
qed

lemma entity_eq_new_iff: "e = entity_new t a \<longleftrightarrow> ent_kind e = t \<and> ent_address e = a" for e :: entity
  by (cases e) (auto simp: entity_new_def)

lemma entity_new_notin:
  assumes "distinct (map ent_kind (e # es))"
  shows "entity_new (ent_kind e) a \<notin> set es"
proof
  assume "entity_new (ent_kind e) a \<in> set es"
  then have "ent_kind (entity_new (ent_kind e) a) \<in> ent_kind ` set es" by (rule imageI)
  then show False using assms by (simp add: entity_new_def)
qed

abbreviation increment_all ::
  "entity list \<Rightarrow> (address \<rightharpoonup> entity_counter) \<Rightarrow> (address \<rightharpoonup> entity_counter)" where
  "increment_all es \<equiv> fold (\<lambda>e. increment_address_count (ent_address e) (ent_kind e)) es"

abbreviation decrement_all ::
  "entity list \<Rightarrow> (address \<rightharpoonup> entity_counter) \<Rightarrow> (address \<rightharpoonup> entity_counter)" where
  "decrement_all es \<equiv> fold (\<lambda>e. decrement_address_count (ent_address e) (ent_kind e)) es"

lemma count_of_increment_all:
  "distinct (map ent_kind es) \<Longrightarrow>
   count_of (increment_all es counts) a t =
     (if entity_new t a \<in> set es then saturating_add (count_of counts a t) 1
      else count_of counts a t)"
proof (induction es arbitrary: counts)
  case (Cons e es)
  have "ent_kind e = t \<Longrightarrow> entity_new t a \<notin> set es"
    using entity_new_notin [OF Cons.prems(1)] by blast
  then show ?case
    using Cons by (auto simp: count_of_increment entity_eq_new_iff eq_commute [of "entity_new t a"])
qed simp

lemma count_of_decrement_all:
  "distinct (map ent_kind es) \<Longrightarrow> counts_small counts \<Longrightarrow>
   count_of (decrement_all es counts) a t =
     (if entity_new t a \<in> set es then saturating_sub (count_of counts a t) 1
      else count_of counts a t)"
proof (induction es arbitrary: counts)
  case (Cons e es)
  have "ent_kind e = t \<Longrightarrow> entity_new t a \<notin> set es"
    using entity_new_notin [OF Cons.prems(1)] by blast
  then show ?case
    using Cons
    by (auto simp: count_of_decrement counts_small_decrement entity_eq_new_iff
        eq_commute [of "entity_new t a"])
qed simp

lemma counts_nonzero_increment:
  "counts_nonzero counts \<Longrightarrow> counts_nonzero (increment_address_count a t counts)"
proof -
  have "saturating_add x 1 \<noteq> 0" for x :: usize
    using unat_saturating_add [of x 1] by (auto simp: unat_max_word)
  then show "counts_nonzero counts \<Longrightarrow> counts_nonzero (increment_address_count a t counts)"
    unfolding counts_nonzero_def increment_address_count_def Let_def
    by (auto simp: ec_count_increment intro!: exI [of _ t])
qed

lemma counts_nonzero_decrement:
  assumes "counts_nonzero counts"
  shows "counts_nonzero (decrement_address_count a t counts)"
proof -
  have "ec_total c \<noteq> 0 \<Longrightarrow> \<exists>t. ec_count c t \<noteq> 0" for c
    by (rule ccontr) (simp add: ec_total_def flip: ec_count.simps)
  then show ?thesis
    using assms
    by (auto simp: counts_nonzero_def decrement_address_count_def Let_def split: option.splits)
qed

lemma counts_nonzero_increment_all:
  "counts_nonzero counts \<Longrightarrow> counts_nonzero (increment_all es counts)"
  by (induction es arbitrary: counts) (simp_all add: counts_nonzero_increment)

lemma counts_nonzero_decrement_all:
  "counts_nonzero counts \<Longrightarrow> counts_nonzero (decrement_all es counts)"
  by (induction es arbitrary: counts) (simp_all add: counts_nonzero_decrement)

lemma uses_subset: "uses m a t \<subseteq> dom m"
  by (auto simp: uses_def)

lemma uses_insert:
  "m h = None \<Longrightarrow>
   uses (m(h \<mapsto> op)) a t =
     (if contains_entity (oo_po op) (entity_new t a) then insert h (uses m a t) else uses m a t)"
  by (auto simp: uses_def split: if_splits)

lemma uses_remove: "uses (m(h := None)) a t = uses m a t - {h}"
  by (auto simp: uses_def split: if_splits)

text \<open>The counts are those of the operations of the map.\<close>

definition counts_match ::
  "(address \<rightharpoonup> entity_counter) \<Rightarrow> (b256 \<rightharpoonup> ordered_pool_operation) \<Rightarrow> bool" where
  "counts_match counts m \<longleftrightarrow> (\<forall>a t. unat (count_of counts a t) = card (uses m a t))"

lemma counts_match_small:
  assumes "counts_match counts m" "finite (dom m)" "card (dom m) < 2 ^ 62"
  shows "counts_small counts"
  unfolding counts_small_def
proof (intro allI)
  fix a t
  have "card (uses m a t) \<le> card (dom m)" using assms(2) uses_subset by (rule card_mono)
  then show "unat (count_of counts a t) < 2 ^ 62"
    using assms(1,3) unfolding counts_match_def by (metis le_less_trans)
qed

lemma counts_match_insert:
  assumes "counts_match counts m" "m h = None" "finite (dom m)" "card (dom m) < 2 ^ 62"
  shows "counts_match (increment_all (po_entities (oo_po op)) counts) (m(h \<mapsto> op))"
  unfolding counts_match_def
proof (intro allI)
  fix a t
  have fin: "finite (uses m a t)" and notin: "h \<notin> uses m a t"
    using assms uses_subset [of m a t] by (auto intro: finite_subset)
  have "card (uses m a t) < 2 ^ 62"
    using card_mono [OF assms(3) uses_subset] assms(4) by (rule le_less_trans)
  then show "unat (count_of (increment_all (po_entities (oo_po op)) counts) a t) =
      card (uses (m(h \<mapsto> op)) a t)"
    using assms(1,2) fin notin
    by (simp add: count_of_increment_all distinct_po_entities set_po_entities uses_insert
        counts_match_def unat_simps)
qed

lemma counts_match_remove:
  assumes "counts_match counts m" "m h = Some op" "finite (dom m)" "card (dom m) < 2 ^ 62"
  shows "counts_match (decrement_all (po_entities (oo_po op)) counts) (m(h := None))"
  unfolding counts_match_def
proof (intro allI)
  fix a t
  have "h \<in> uses m a t \<longleftrightarrow> contains_entity (oo_po op) (entity_new t a)"
    using assms(2) by (auto simp: uses_def)
  moreover have "finite (uses m a t)"
    using assms(3) uses_subset by (auto intro: finite_subset)
  ultimately show "unat (count_of (decrement_all (po_entities (oo_po op)) counts) a t) =
      card (uses (m(h := None)) a t)"
    using assms counts_match_small [OF assms(1,3,4)]
    by (auto simp: count_of_decrement_all distinct_po_entities set_po_entities uses_remove
        counts_match_def unat_simps)
qed

end
