(* ===== verification/Pool_Invariant.thy ===== *)
theory Pool_Invariant
  imports Pool_Counts
begin

text \<open>
  The invariant of the pool and that storing, removing and evicting operations keep it: the two
  maps hold the same operations, \<open>best\<close> is sorted and holds every eligible operation, the entity
  counts and the pool size are those of the stored operations, and no two stored operations share a
  submission id or a location.
\<close>

interpretation best: total_cmp "oo_cmp st" for st
  by unfold_locales (auto simp: oo_cmp_def word_cmp_def split: if_splits)

lemma oo_cmp_Equal: "oo_cmp st a b = Equal \<Longrightarrow> oo_submission_id a = oo_submission_id b"
  by (auto simp: oo_cmp_def word_cmp_def split: if_splits)

lemma oo_cmp_cong:
  "st (oo_loc a) = st' (oo_loc a) \<Longrightarrow> st (oo_loc b) = st' (oo_loc b) \<Longrightarrow>
   oo_cmp st a b = oo_cmp st' a b"
  by (simp add: oo_cmp_def oo_gas_price_def)

section \<open>The invariant\<close>

definition maps_agree :: "pool_inner \<Rightarrow> bool" where
  "maps_agree p \<longleftrightarrow>
     (\<forall>h op. pi_by_hash p h = Some op \<longrightarrow>
        uo_hash (oo_uo op) = h \<and> pi_by_id p (uo_id (oo_uo op)) = Some op) \<and>
     (\<forall>i op. pi_by_id p i = Some op \<longrightarrow>
        uo_id (oo_uo op) = i \<and> pi_by_hash p (uo_hash (oo_uo op)) = Some op)"

text \<open>All operations the pool holds, those of mined blocks included.\<close>

definition pool_handles :: "pool_inner \<Rightarrow> ordered_pool_operation set" where
  "pool_handles p = ran (pi_by_hash p) \<union> fst ` ran (pi_mined_at_block_number_by_hash p)"

definition handles_ok :: "pool_inner \<Rightarrow> bool" where
  "handles_ok p \<longleftrightarrow>
     inj_on oo_submission_id (pool_handles p) \<and> inj_on oo_loc (pool_handles p) \<and>
     (\<forall>op\<in>pool_handles p. oo_submission_id op < pi_submission_id p \<and> oo_loc op < pi_next_loc p) \<and>
     unat (pi_submission_id p) < 2 ^ 62"

text \<open>The eligible operations outside of a set of exceptions are in \<open>best\<close>.\<close>

definition best_ok :: "ordered_pool_operation set \<Rightarrow> pool_inner \<Rightarrow> bool" where
  "best_ok X p \<longleftrightarrow>
     bts_sorted (oo_cmp (pi_store p)) (pi_best p) \<and>
     set (pi_best p) \<subseteq> ran (pi_by_hash p) \<and>
     (\<forall>op\<in>ran (pi_by_hash p) - X. oo_eligible (pi_store p) op \<longrightarrow> op \<in> set (pi_best p))"

definition size_ok :: "pool_inner \<Rightarrow> bool" where
  "size_ok p \<longleftrightarrow>
     pi_pool_size p = (\<Sum>h\<in>dom (pi_by_hash p). pi_mem_size p (the (pi_by_hash p h)))"

definition mined_ok :: "pool_inner \<Rightarrow> bool" where
  "mined_ok p \<longleftrightarrow>
     bts_sorted pair_cmp (pi_mined_hashes_with_block_numbers p) \<and>
     (\<forall>h op bn. pi_mined_at_block_number_by_hash p h = Some (op, bn) \<longrightarrow>
        uo_hash (oo_uo op) = h \<and> (bn, h) \<in> set (pi_mined_hashes_with_block_numbers p) \<and>
        op \<notin> ran (pi_by_hash p))"

definition pool_inv_except :: "ordered_pool_operation set \<Rightarrow> pool_inner \<Rightarrow> bool" where
  "pool_inv_except X p \<longleftrightarrow>
     maps_agree p \<and> finite (dom (pi_by_hash p)) \<and> handles_ok p \<and> best_ok X p \<and>
     counts_match (pi_count_by_address p) (pi_by_hash p) \<and>
     counts_nonzero (pi_count_by_address p) \<and> size_ok p \<and> mined_ok p"

definition pool_inv :: "pool_inner \<Rightarrow> bool" where
  "pool_inv p \<longleftrightarrow> pool_inv_except {} p"

lemma pool_inv_exceptI: "pool_inv p \<Longrightarrow> pool_inv_except X p"
  by (auto simp: pool_inv_def pool_inv_except_def best_ok_def)

lemmas pool_inv_defs = pool_inv_except_def maps_agree_def handles_ok_def best_ok_def size_ok_def
  mined_ok_def

lemma pool_invD:
  assumes "pool_inv_except X p"
  shows "maps_agree p" "finite (dom (pi_by_hash p))" "handles_ok p" "best_ok X p"
    "counts_match (pi_count_by_address p) (pi_by_hash p)"
    "counts_nonzero (pi_count_by_address p)" "size_ok p" "mined_ok p"
  using assms by (simp_all add: pool_inv_except_def)

lemma pool_inv_by_hash:
  assumes "pool_inv_except X p" "pi_by_hash p h = Some op"
  shows "uo_hash (oo_uo op) = h" "pi_by_id p (uo_id (oo_uo op)) = Some op"
  using pool_invD(1) [OF assms(1)] assms(2) by (simp_all add: maps_agree_def)

lemma pool_inv_by_id:
  assumes "pool_inv_except X p" "pi_by_id p i = Some op"
  shows "uo_id (oo_uo op) = i" "pi_by_hash p (uo_hash (oo_uo op)) = Some op"
  using pool_invD(1) [OF assms(1)] assms(2) by (simp_all add: maps_agree_def)

lemma ran_remove_by_hash:
  assumes "pool_inv_except X p" "pi_by_hash p h = Some op"
  shows "ran ((pi_by_hash p)(h := None)) = ran (pi_by_hash p) - {op}"
proof -
  have "a = h" if "pi_by_hash p a = Some op" for a
    using pool_inv_by_hash(1) [OF assms(1)] assms(2) that by blast
  moreover have "a \<noteq> h" if "pi_by_hash p a = Some x" "x \<noteq> op" for a x
    using assms(2) that by auto
  ultimately show ?thesis by (auto simp: ran_def)
qed

lemma handles_sid_eq:
  "handles_ok p \<Longrightarrow> a \<in> pool_handles p \<Longrightarrow> b \<in> pool_handles p \<Longrightarrow>
   oo_submission_id a = oo_submission_id b \<Longrightarrow> a = b"
  unfolding handles_ok_def by (blast dest: inj_onD)

lemma handles_loc_eq:
  "handles_ok p \<Longrightarrow> a \<in> pool_handles p \<Longrightarrow> b \<in> pool_handles p \<Longrightarrow> oo_loc a = oo_loc b \<Longrightarrow> a = b"
  unfolding handles_ok_def by (blast dest: inj_onD)

lemma by_hash_handles: "pi_by_hash p h = Some op \<Longrightarrow> op \<in> pool_handles p"
  by (simp add: pool_handles_def ranI)

lemma pool_inv_card:
  assumes "pool_inv_except X p"
  shows "card (dom (pi_by_hash p)) < 2 ^ 62"
proof -
  let ?f = "\<lambda>h. unat (oo_submission_id (the (pi_by_hash p h)))"
  note ok = pool_invD(3) [OF assms, unfolded handles_ok_def]
  have "inj_on ?f (dom (pi_by_hash p))"
  proof (rule inj_onI)
    fix h h'
    assume h: "h \<in> dom (pi_by_hash p)" "h' \<in> dom (pi_by_hash p)" and eq: "?f h = ?f h'"
    then obtain op op' where ops: "pi_by_hash p h = Some op" "pi_by_hash p h' = Some op'" by auto
    have "oo_submission_id op = oo_submission_id op'"
      using eq ops by (simp add: word_unat_eq_iff)
    moreover have "op \<in> pool_handles p" "op' \<in> pool_handles p"
      using ops by (simp_all add: pool_handles_def ranI)
    ultimately have "op = op'" using handles_sid_eq [OF pool_invD(3) [OF assms]] by blast
    then show "h = h'" using ops pool_inv_by_hash(1) [OF assms] by metis
  qed
  moreover have "?f ` dom (pi_by_hash p) \<subseteq> {..<unat (pi_submission_id p)}"
  proof (rule image_subsetI)
    fix h
    assume "h \<in> dom (pi_by_hash p)"
    then obtain op where "pi_by_hash p h = Some op" by auto
    then show "?f h \<in> {..<unat (pi_submission_id p)}"
      using ok by (simp add: pool_handles_def ranI word_less_nat_alt)
  qed
  ultimately have "card (dom (pi_by_hash p)) \<le> card {..<unat (pi_submission_id p)}"
    by (rule card_inj_on_le) simp
  then show ?thesis using ok by (simp add: le_less_trans)
qed

section \<open>Removing an operation\<close>

lemma remove_operation_internal_None [simp]:
  "pi_by_hash p h = None \<Longrightarrow> remove_operation_internal p h bn = (p, None)"
  by (simp add: remove_operation_internal_def)

lemma snd_remove_operation_internal [simp]:
  "snd (remove_operation_internal p h bn) = map_option oo_po (pi_by_hash p h)"
  by (simp add: remove_operation_internal_def Let_def split: option.splits)

lemma remove_operation_internal_keeps [simp]:
  "pi_config (fst (remove_operation_internal p h bn)) = pi_config p"
  "pi_da_gas_oracle (fst (remove_operation_internal p h bn)) = pi_da_gas_oracle p"
  "pi_store (fst (remove_operation_internal p h bn)) = pi_store p"
  "pi_next_loc (fst (remove_operation_internal p h bn)) = pi_next_loc p"
  "pi_submission_id (fst (remove_operation_internal p h bn)) = pi_submission_id p"
  "pi_events (fst (remove_operation_internal p h bn)) = pi_events p"
  "pi_prev_block_number (fst (remove_operation_internal p h bn)) = pi_prev_block_number p"
  by (simp_all add: remove_operation_internal_def Let_def split: option.splits)

lemma remove_operation_internal_by_hash [simp]:
  "pi_by_hash (fst (remove_operation_internal p h bn)) = (pi_by_hash p)(h := None)"
  by (auto simp: remove_operation_internal_def Let_def split: option.splits)

lemma remove_operation_internal_Some:
  fixes bn :: "u64 option"
  assumes "pi_by_hash p h = Some op"
  defines "p' \<equiv> fst (remove_operation_internal p h bn)"
  shows "pi_by_id p' = (pi_by_id p)(uo_id (oo_uo op) := None)"
    "pi_best p' = bts_remove (oo_cmp (pi_store p)) op (pi_best p)"
    "pi_count_by_address p' = decrement_all (po_entities (oo_po op)) (pi_count_by_address p)"
    "pi_pool_size p' = pi_pool_size p - pi_mem_size p op"
    "pi_mined_at_block_number_by_hash p' =
       (case bn of None \<Rightarrow> pi_mined_at_block_number_by_hash p
        | Some n \<Rightarrow> (pi_mined_at_block_number_by_hash p)(h \<mapsto> (op, n)))"
    "pi_mined_hashes_with_block_numbers p' =
       (case bn of None \<Rightarrow> pi_mined_hashes_with_block_numbers p
        | Some n \<Rightarrow> bts_insert pair_cmp (n, h) (pi_mined_hashes_with_block_numbers p))"
  using assms(1)
  by (simp_all add: p'_def remove_operation_internal_def Let_def size_sub_def split: option.splits)

lemma remove_best:
  assumes inv: "pool_inv_except X p" and op: "pi_by_hash p h = Some op"
  shows "bts_remove (oo_cmp (pi_store p)) op (pi_best p) = filter (\<lambda>x. x \<noteq> op) (pi_best p)"
proof -
  note bok = pool_invD(4) [OF inv, unfolded best_ok_def]
  have "oo_cmp (pi_store p) op x \<noteq> Equal \<longleftrightarrow> x \<noteq> op" if "x \<in> set (pi_best p)" for x
  proof
    assume "x \<noteq> op"
    moreover have "x \<in> pool_handles p" "op \<in> pool_handles p"
      using that bok op by (auto simp: pool_handles_def ranI)
    ultimately have "oo_submission_id op \<noteq> oo_submission_id x"
      using handles_sid_eq [OF pool_invD(3) [OF inv]] by blast
    then show "oo_cmp (pi_store p) op x \<noteq> Equal" using oo_cmp_Equal by blast
  qed (auto simp: best.cmp_refl)
  then show ?thesis using bok by (simp add: best.remove_filter cong: filter_cong)
qed

lemma remove_operation_internal_mined_subset:
  assumes "pi_by_hash p h = Some op"
  shows "pool_handles (fst (remove_operation_internal p h bn)) \<subseteq> pool_handles p"
proof -
  have "op \<in> ran (pi_by_hash p)" using assms by (rule ranI)
  moreover have "ran (m(k := None)) \<subseteq> ran m" for m :: "b256 \<rightharpoonup> ordered_pool_operation" and k
    by (auto simp: ran_def)
  moreover have "fst ` ran (pi_mined_at_block_number_by_hash (fst (remove_operation_internal p h bn)))
      \<subseteq> insert op (fst ` ran (pi_mined_at_block_number_by_hash p))"
  proof (cases bn)
    case None
    then show ?thesis using remove_operation_internal_Some(5) [OF assms, of bn] by auto
  next
    case (Some n)
    have "ran (m(h \<mapsto> x)) \<subseteq> insert x (ran m)" for m x
      by (auto simp: ran_def)
    then have "fst ` ran ((pi_mined_at_block_number_by_hash p)(h \<mapsto> (op, n)))
        \<subseteq> fst ` insert (op, n) (ran (pi_mined_at_block_number_by_hash p))"
      by (rule image_mono)
    then show ?thesis
      using remove_operation_internal_Some(5) [OF assms, of bn] Some by simp
  qed
  ultimately show ?thesis unfolding pool_handles_def remove_operation_internal_by_hash by blast
qed

lemma remove_maps_agree:
  assumes inv: "pool_inv_except X p" and op: "pi_by_hash p h = Some op"
  shows "maps_agree (fst (remove_operation_internal p h bn))"
  unfolding maps_agree_def
proof (intro conjI allI impI)
  note S = remove_operation_internal_Some(1) [OF op, of bn]
  fix g op'
  assume g: "pi_by_hash (fst (remove_operation_internal p h bn)) g = Some op'"
  then have "g \<noteq> h" and g': "pi_by_hash p g = Some op'" by (auto split: if_splits)
  note G = pool_inv_by_hash [OF inv g'] and H = pool_inv_by_hash [OF inv op]
  show "uo_hash (oo_uo op') = g" by (rule G)
  have "uo_id (oo_uo op') \<noteq> uo_id (oo_uo op)"
    using G H \<open>g \<noteq> h\<close> by (metis option.inject)
  then show "pi_by_id (fst (remove_operation_internal p h bn)) (uo_id (oo_uo op')) = Some op'"
    using S G by simp
next
  note S = remove_operation_internal_Some(1) [OF op, of bn]
  fix i op'
  assume "pi_by_id (fst (remove_operation_internal p h bn)) i = Some op'"
  then have "i \<noteq> uo_id (oo_uo op)" and i: "pi_by_id p i = Some op'"
    using S by (auto split: if_splits)
  note I = pool_inv_by_id [OF inv i] and H = pool_inv_by_hash [OF inv op]
  show "uo_id (oo_uo op') = i" by (rule I)
  have "uo_hash (oo_uo op') \<noteq> h"
    using I op \<open>i \<noteq> uo_id (oo_uo op)\<close> by (metis option.inject)
  then show "pi_by_hash (fst (remove_operation_internal p h bn)) (uo_hash (oo_uo op')) = Some op'"
    using I by simp
qed

lemma remove_size_ok:
  assumes inv: "pool_inv_except X p" and op: "pi_by_hash p h = Some op"
  shows "size_ok (fst (remove_operation_internal p h bn))"
proof -
  have "(\<Sum>g\<in>dom (pi_by_hash p) - {h}. pi_mem_size p (the (((pi_by_hash p)(h := None)) g))) =
      (\<Sum>g\<in>dom (pi_by_hash p) - {h}. pi_mem_size p (the (pi_by_hash p g)))"
    by (rule sum.cong) auto
  moreover have "h \<in> dom (pi_by_hash p)" using op by auto
  ultimately show ?thesis
    using pool_invD(2,7) [OF inv] op remove_operation_internal_Some(4) [OF op, of bn]
    by (simp add: size_ok_def sum.remove [of "dom (pi_by_hash p)" h])
qed

lemma remove_mined_ok:
  assumes inv: "pool_inv_except X p" and op: "pi_by_hash p h = Some op"
  shows "mined_ok (fst (remove_operation_internal p h bn))"
proof (cases bn)
  case None
  then show ?thesis
    using pool_invD(8) [OF inv] remove_operation_internal_Some(5,6) [OF op, of bn]
    by (simp add: mined_ok_def ran_remove_by_hash [OF inv op])
next
  case (Some n)
  have "bts_sorted pair_cmp (bts_insert pair_cmp (n, h) (pi_mined_hashes_with_block_numbers p))"
    using pool_invD(8) [OF inv] by (simp add: mined_ok_def pair.sorted_insert)
  then show ?thesis
    using pool_invD(8) [OF inv] remove_operation_internal_Some(5,6) [OF op, of bn] Some
      pool_inv_by_hash(1) [OF inv op]
    by (simp add: mined_ok_def ran_remove_by_hash [OF inv op])
qed

lemma remove_best_ok:
  assumes inv: "pool_inv_except X p" and op: "pi_by_hash p h = Some op"
  shows "best_ok (X - {op}) (fst (remove_operation_internal p h bn))"
proof -
  have "bts_sorted (oo_cmp (pi_store p)) (bts_remove (oo_cmp (pi_store p)) op (pi_best p))"
    using pool_invD(4) [OF inv] by (simp add: best_ok_def best.sorted_remove)
  then have "bts_sorted (oo_cmp (pi_store p)) (filter (\<lambda>x. x \<noteq> op) (pi_best p))"
    by (simp add: remove_best [OF inv op])
  then show ?thesis
    using pool_invD(4) [OF inv] remove_operation_internal_Some(2) [OF op, of bn]
    by (auto simp: best_ok_def ran_remove_by_hash [OF inv op] remove_best [OF inv op])
qed

lemma remove_inv_except:
  assumes inv: "pool_inv_except X p" and op: "pi_by_hash p h = Some op"
  shows "pool_inv_except (X - {op}) (fst (remove_operation_internal p h bn))"
    (is "pool_inv_except _ ?p")
proof -
  note D = pool_invD [OF inv] and S = remove_operation_internal_Some [OF op, of bn]
  have "handles_ok ?p"
    using D(3) remove_operation_internal_mined_subset [OF op, of bn]
    unfolding handles_ok_def by (auto intro: inj_on_subset)
  moreover have "counts_match (pi_count_by_address ?p) (pi_by_hash ?p)"
    using counts_match_remove [OF D(5) op D(2) pool_inv_card [OF inv]] S(3) by simp
  moreover have "counts_nonzero (pi_count_by_address ?p)"
    using D(6) S(3) by (simp add: counts_nonzero_decrement_all)
  ultimately show ?thesis
    using D(2) remove_maps_agree [OF inv op] remove_best_ok [OF inv op] remove_size_ok [OF inv op]
      remove_mined_ok [OF inv op]
    by (simp add: pool_inv_except_def)
qed

lemma pool_inv_except_mono:
  "pool_inv_except X p \<Longrightarrow> X \<inter> ran (pi_by_hash p) \<subseteq> Y \<Longrightarrow> pool_inv_except Y p"
  by (auto simp: pool_inv_except_def best_ok_def)

lemma remove_operation_internal_inv:
  assumes "pool_inv p"
  shows "pool_inv (fst (remove_operation_internal p h bn))"
proof (cases "pi_by_hash p h")
  case None
  then show ?thesis using assms by simp
next
  case (Some op)
  then show ?thesis
    using remove_inv_except [of "{}" p h op bn] assms by (simp add: pool_inv_def)
qed

lemma remove_all_inv:
  "pool_inv p \<Longrightarrow> pool_inv (fold (\<lambda>h p. fst (remove_operation_internal p h None)) hs p)"
  by (induction hs arbitrary: p) (simp_all add: remove_operation_internal_inv)

lemma remove_all_by_hash:
  "pi_by_hash (fold (\<lambda>h p. fst (remove_operation_internal p h None)) hs p) =
     (\<lambda>h. if h \<in> set hs then None else pi_by_hash p h)"
  by (induction hs arbitrary: p) (auto simp: fun_eq_iff)

text \<open>The fields the invariant does not speak of.\<close>

lemma pool_inv_frame [simp]:
  "pool_inv (p\<lparr>pi_events := es\<rparr>) = pool_inv p"
  "pool_inv (p\<lparr>pi_prev_block_number := n\<rparr>) = pool_inv p"
  "pool_inv (p\<lparr>pi_preconfirmed_uos_bundle_mapping := m\<rparr>) = pool_inv p"
  "pool_inv (p\<lparr>pi_preconfiemed_uos_at_block_number := mb\<rparr>) = pool_inv p"
  "pool_inv (p\<lparr>pi_time_to_mine := tm\<rparr>) = pool_inv p"
  "pool_inv (p\<lparr>pi_cache_size := c\<rparr>) = pool_inv p"
  by (simp_all add: pool_inv_def pool_inv_defs pool_handles_def)

end
