(* ===== verification/Pool_Insert.thy ===== *)
theory Pool_Insert
  imports Pool_Invariant
begin

text \<open>
  Storing an operation and evicting the worst ones: both keep the invariant of the pool; the eviction
  loop removes a tail of \<open>best\<close> and ends when every stored operation is in \<open>best\<close>.
\<close>

section \<open>Storing an operation\<close>

lemma insert_operation_fields:
  fixes p op
  defines "p' \<equiv> insert_operation p op"
  shows "pi_by_hash p' = (pi_by_hash p)(uo_hash (oo_uo op) \<mapsto> op)"
    "pi_by_id p' = (pi_by_id p)(uo_id (oo_uo op) \<mapsto> op)"
    "pi_best p' = (if oo_eligible (pi_store p) op
                   then bts_insert (oo_cmp (pi_store p)) op (pi_best p) else pi_best p)"
    "pi_count_by_address p' = increment_all (po_entities (oo_po op)) (pi_count_by_address p)"
    "pi_pool_size p' = pi_pool_size p + pi_mem_size p op"
    "pi_config p' = pi_config p" "pi_store p' = pi_store p"
    "pi_mined_at_block_number_by_hash p' = pi_mined_at_block_number_by_hash p"
    "pi_mined_hashes_with_block_numbers p' = pi_mined_hashes_with_block_numbers p"
    "pi_submission_id p' = pi_submission_id p" "pi_next_loc p' = pi_next_loc p"
    "pi_events p' = pi_events p" "pi_da_gas_oracle p' = pi_da_gas_oracle p"
  by (simp_all add: p'_def insert_operation_def Let_def size_add_def)

text \<open>An operation that is not in the pool and shares nothing with an operation of the pool.\<close>

definition fresh_op :: "pool_inner \<Rightarrow> ordered_pool_operation \<Rightarrow> bool" where
  "fresh_op p op \<longleftrightarrow>
     oo_submission_id op \<notin> oo_submission_id ` pool_handles p \<and>
     oo_loc op \<notin> oo_loc ` pool_handles p \<and>
     oo_submission_id op < pi_submission_id p \<and> oo_loc op < pi_next_loc p"

lemma ran_upd_None: "m k = None \<Longrightarrow> ran (m(k \<mapsto> x)) = insert x (ran m)"
  by (rule ran_map_upd)

lemma insert_maps_agree:
  assumes "maps_agree p" "pi_by_hash p (uo_hash (oo_uo op)) = None"
    "pi_by_id p (uo_id (oo_uo op)) = None"
  shows "maps_agree (insert_operation p op)"
proof -
  have "uo_id (oo_uo op') \<noteq> uo_id (oo_uo op)" if "pi_by_hash p h = Some op'" for h op'
    using assms(1,3) that unfolding maps_agree_def by (metis option.distinct(1))
  moreover have "uo_hash (oo_uo op') \<noteq> uo_hash (oo_uo op)" if "pi_by_id p i = Some op'" for i op'
    using assms(1,2) that unfolding maps_agree_def by (metis option.distinct(1))
  ultimately show ?thesis
    using assms(1) unfolding maps_agree_def insert_operation_fields by (auto split: if_splits)
qed

lemma insert_best_ok:
  assumes inv: "pool_inv p" and fresh: "fresh_op p op"
    and new: "pi_by_hash p (uo_hash (oo_uo op)) = None"
  shows "best_ok {} (insert_operation p op)"
proof -
  note B = pool_invD(4) [OF inv [unfolded pool_inv_def], unfolded best_ok_def]
  have "oo_cmp (pi_store p) op x \<noteq> Equal" if "x \<in> set (pi_best p)" for x
  proof -
    have "x \<in> pool_handles p" using that B by (auto simp: pool_handles_def)
    then have "oo_submission_id op \<noteq> oo_submission_id x"
      using fresh by (auto simp: fresh_op_def)
    then show ?thesis using oo_cmp_Equal by blast
  qed
  then have "set (bts_insert (oo_cmp (pi_store p)) op (pi_best p)) = insert op (set (pi_best p))"
    by (simp add: best.set_insert_new)
  moreover have "bts_sorted (oo_cmp (pi_store p)) (bts_insert (oo_cmp (pi_store p)) op (pi_best p))"
    using B by (simp add: best.sorted_insert)
  ultimately show ?thesis
    using B unfolding best_ok_def insert_operation_fields ran_upd_None [of "pi_by_hash p", OF new] by auto
qed

lemma insert_size_ok:
  assumes "size_ok p" "finite (dom (pi_by_hash p))" "pi_by_hash p (uo_hash (oo_uo op)) = None"
  shows "size_ok (insert_operation p op)"
proof -
  have "(\<Sum>h\<in>dom (pi_by_hash p).
          pi_mem_size p (the (((pi_by_hash p)(uo_hash (oo_uo op) \<mapsto> op)) h))) =
        (\<Sum>h\<in>dom (pi_by_hash p). pi_mem_size p (the (pi_by_hash p h)))"
    using assms(3) by (intro sum.cong) auto
  moreover have "uo_hash (oo_uo op) \<notin> dom (pi_by_hash p)" using assms(3) by auto
  ultimately show ?thesis
    using assms(1,2) unfolding size_ok_def insert_operation_fields by (simp add: add.commute)
qed

lemma insert_handles_ok:
  assumes "handles_ok p" "fresh_op p op" "pi_by_hash p (uo_hash (oo_uo op)) = None"
  shows "handles_ok (insert_operation p op)"
proof -
  have "pool_handles (insert_operation p op) = insert op (pool_handles p)"
    by (simp add: pool_handles_def insert_operation_fields ran_upd_None [of "pi_by_hash p", OF assms(3)])
  moreover have "op \<notin> pool_handles p" using assms(2) by (auto simp: fresh_op_def)
  ultimately show ?thesis
    using assms(1,2) unfolding handles_ok_def fresh_op_def insert_operation_fields
    by (auto simp: inj_on_insert)
qed

lemma insert_operation_inv:
  assumes inv: "pool_inv p" and fresh: "fresh_op p op"
    and new: "pi_by_hash p (uo_hash (oo_uo op)) = None" "pi_by_id p (uo_id (oo_uo op)) = None"
  shows "pool_inv (insert_operation p op)"
proof -
  note I = inv [unfolded pool_inv_def] note D = pool_invD [OF I]
  have "counts_match (pi_count_by_address (insert_operation p op))
      (pi_by_hash (insert_operation p op))"
    unfolding insert_operation_fields
    using counts_match_insert [OF D(5) new(1) D(2) pool_inv_card [OF I]] .
  moreover have "counts_nonzero (pi_count_by_address (insert_operation p op))"
    unfolding insert_operation_fields using D(6) by (rule counts_nonzero_increment_all)
  moreover have "mined_ok (insert_operation p op)"
  proof -
    have "op' \<noteq> op" if "pi_mined_at_block_number_by_hash p h = Some (op', bn)" for h op' bn
    proof -
      have "op' \<in> pool_handles p" using that by (force simp: pool_handles_def ran_def)
      then show ?thesis using fresh by (auto simp: fresh_op_def)
    qed
    then show ?thesis
      using D(8)
      unfolding mined_ok_def insert_operation_fields ran_upd_None [of "pi_by_hash p", OF new(1)]
      by auto
  qed
  moreover have "finite (dom (pi_by_hash (insert_operation p op)))"
    using D(2) by (simp add: insert_operation_fields)
  ultimately show ?thesis
    using insert_maps_agree [OF D(1) new] insert_best_ok [OF inv fresh new(1)]
      insert_size_ok [OF D(7,2) new(1)] insert_handles_ok [OF D(3) fresh new(1)]
    by (simp add: pool_inv_def pool_inv_except_def)
qed

section \<open>Evicting the worst operations\<close>

abbreviation over_size :: "pool_inner \<Rightarrow> bool" where
  "over_size p \<equiv> size_gt (pi_pool_size p) (pc_max_size_of_pool_bytes (pi_config p))"

text \<open>One turn of the loop: the worst operation leaves the pool.\<close>

definition evict_last :: "pool_inner \<Rightarrow> pool_inner" where
  "evict_last p =
     fst (remove_operation_internal (p\<lparr>pi_best := butlast (pi_best p)\<rparr>)
       (uo_hash (oo_uo (last (pi_best p)))) None)"

lemma pool_inv_except_butlast:
  assumes inv: "pool_inv p" and ne: "pi_best p \<noteq> []"
  shows "pool_inv_except {last (pi_best p)} (p\<lparr>pi_best := butlast (pi_best p)\<rparr>)"
proof -
  have "set (pi_best p) = insert (last (pi_best p)) (set (butlast (pi_best p)))"
    using ne by (metis append_butlast_last_id list.simps(15) rotate1.simps(2) set_rotate1)
  moreover have "bts_sorted (oo_cmp (pi_store p)) (butlast (pi_best p))"
    using inv by (simp add: pool_inv_def pool_inv_except_def best_ok_def bts_sorted_butlast)
  ultimately show ?thesis
    using inv
    by (auto simp: pool_inv_def pool_inv_except_def best_ok_def maps_agree_def handles_ok_def
        pool_handles_def size_ok_def mined_ok_def)
qed

lemma last_best_by_hash:
  assumes inv: "pool_inv p" and ne: "pi_best p \<noteq> []"
  shows "pi_by_hash p (uo_hash (oo_uo (last (pi_best p)))) = Some (last (pi_best p))"
proof -
  have "last (pi_best p) \<in> ran (pi_by_hash p)"
    using inv ne by (auto simp: pool_inv_def pool_inv_except_def best_ok_def)
  then obtain h where "pi_by_hash p h = Some (last (pi_best p))" by (auto simp: ran_def)
  then show ?thesis using inv pool_inv_by_hash(1) by (auto simp: pool_inv_def)
qed

lemma evict_last_inv:
  assumes inv: "pool_inv p" and ne: "pi_best p \<noteq> []"
  shows "pool_inv (evict_last p)"
proof -
  have "pi_by_hash (p\<lparr>pi_best := butlast (pi_best p)\<rparr>) (uo_hash (oo_uo (last (pi_best p)))) =
      Some (last (pi_best p))"
    using last_best_by_hash [OF assms] by simp
  from remove_inv_except [OF pool_inv_except_butlast [OF assms] this, of None]
  show ?thesis by (simp add: evict_last_def pool_inv_def)
qed

lemma evict_last_best:
  assumes inv: "pool_inv p" and ne: "pi_best p \<noteq> []"
  shows "pi_best (evict_last p) = butlast (pi_best p)"
proof -
  let ?w = "last (pi_best p)" and ?q = "p\<lparr>pi_best := butlast (pi_best p)\<rparr>"
  have q: "pi_by_hash ?q (uo_hash (oo_uo ?w)) = Some ?w"
    using last_best_by_hash [OF assms] by simp
  have "distinct (pi_best p)"
    using inv by (auto simp: pool_inv_def pool_inv_except_def best_ok_def
        intro: best.sorted_distinct)
  then have "?w \<notin> set (butlast (pi_best p))"
    using ne by (metis append_butlast_last_id distinct_butlast not_distinct_conv_prefix)
  then have "filter (\<lambda>x. x \<noteq> ?w) (butlast (pi_best p)) = butlast (pi_best p)"
    by (auto simp: filter_id_conv)
  then show ?thesis
    using remove_operation_internal_Some(2) [OF q, of None]
      remove_best [OF pool_inv_except_butlast [OF assms] q]
    by (simp add: evict_last_def)
qed

lemma evict_last_keeps [simp]:
  "pi_config (evict_last p) = pi_config p" "pi_da_gas_oracle (evict_last p) = pi_da_gas_oracle p"
  "pi_store (evict_last p) = pi_store p"
  "pi_submission_id (evict_last p) = pi_submission_id p"
  "pi_next_loc (evict_last p) = pi_next_loc p" "pi_events (evict_last p) = pi_events p"
  "pi_by_hash (evict_last p) = (pi_by_hash p)(uo_hash (oo_uo (last (pi_best p))) := None)"
  by (simp_all add: evict_last_def)

lemma evict_last_mined:
  "pi_mined_at_block_number_by_hash (evict_last p) = pi_mined_at_block_number_by_hash p"
  by (simp add: evict_last_def remove_operation_internal_def Let_def split: option.splits)

lemma remove_last_eq:
  assumes "pool_inv p" "pi_best p \<noteq> []"
  shows "remove_operation_internal (p\<lparr>pi_best := butlast (pi_best p)\<rparr>)
           (uo_hash (oo_uo (last (pi_best p)))) None
         = (evict_last p, Some (oo_po (last (pi_best p))))"
  using last_best_by_hash [OF assms] by (simp add: prod_eq_iff evict_last_def)

lemma enforce_size_loop_step:
  assumes inv: "pool_inv p" and "over_size p" and ne: "pi_best p \<noteq> []"
  shows "enforce_size_loop p removed =
           enforce_size_loop (evict_last p) (removed @ [uo_hash (oo_uo (last (pi_best p)))])"
  using assms(2,3)
  by (subst enforce_size_loop.simps)
    (simp add: bts_pop_last_def Let_def remove_last_eq [OF inv ne])

lemma enforce_size_loop_done: "\<not> over_size p \<Longrightarrow> enforce_size_loop p removed = Some (p, Inr removed)"
  by (subst enforce_size_loop.simps) simp

text \<open>
  What a run of the loop that returns has done: it evicted a tail of \<open>best\<close>, worst first.
\<close>

definition evicted :: "pool_inner \<Rightarrow> pool_inner \<Rightarrow> b256 list \<Rightarrow> bool" where
  "evicted p p' removed \<longleftrightarrow>
     (\<exists>k \<le> length (pi_best p).
        pi_best p' = take k (pi_best p) \<and>
        removed = map (\<lambda>op. uo_hash (oo_uo op)) (rev (drop k (pi_best p)))) \<and>
     pi_by_hash p' = (\<lambda>h. if h \<in> set removed then None else pi_by_hash p h) \<and>
     pi_config p' = pi_config p \<and> pi_da_gas_oracle p' = pi_da_gas_oracle p \<and>
     pi_store p' = pi_store p \<and>
     pi_mined_at_block_number_by_hash p' = pi_mined_at_block_number_by_hash p \<and>
     pi_submission_id p' = pi_submission_id p \<and> pi_next_loc p' = pi_next_loc p \<and>
     pi_events p' = pi_events p"

lemma evicted_refl: "evicted p p []"
  by (auto simp: evicted_def intro!: exI [of _ "length (pi_best p)"])

lemma evicted_step:
  assumes inv: "pool_inv p" and ne: "pi_best p \<noteq> []" and ev: "evicted (evict_last p) p' removed"
  shows "evicted p p' (uo_hash (oo_uo (last (pi_best p))) # removed)"
proof -
  from ev obtain k where k: "k \<le> length (butlast (pi_best p))"
      "pi_best p' = take k (butlast (pi_best p))"
      "removed = map (\<lambda>op. uo_hash (oo_uo op)) (rev (drop k (butlast (pi_best p))))"
    unfolding evicted_def evict_last_best [OF inv ne] by blast
  obtain bs w where bs: "pi_best p = bs @ [w]" using ne by (metis append_butlast_last_id)
  have "\<exists>k \<le> length (pi_best p). pi_best p' = take k (pi_best p) \<and>
      uo_hash (oo_uo (last (pi_best p))) # removed =
        map (\<lambda>op. uo_hash (oo_uo op)) (rev (drop k (pi_best p)))"
    using k by (intro exI [of _ k]) (simp add: bs)
  then show ?thesis
    using ev by (auto simp: evicted_def evict_last_mined fun_eq_iff)
qed

lemma enforce_size_loop_result:
  assumes "enforce_size_loop p removed = Some (p', res)" "pool_inv p"
  shows "pool_inv p' \<and> \<not> over_size p' \<and> (\<exists>r. res = Inr (removed @ r) \<and> evicted p p' r)"
proof -
  let ?P = "\<lambda>p removed y. pool_inv p \<longrightarrow> pool_inv (fst y) \<and> \<not> over_size (fst y) \<and>
      (\<exists>r. snd y = Inr (removed @ r) \<and> evicted p (fst y) r)"
  have "?P p removed (p', res)"
  proof (rule enforce_size_loop.raw_induct [where P = ?P, OF _ assms(1)], goal_cases)
    case (1 loop p removed y)
    show ?case
    proof (intro impI)
      assume inv: "pool_inv p"
      consider "\<not> over_size p" | "over_size p" "pi_best p = []" | "over_size p" "pi_best p \<noteq> []"
        by blast
      then show "pool_inv (fst y) \<and> \<not> over_size (fst y) \<and>
          (\<exists>r. snd y = Inr (removed @ r) \<and> evicted p (fst y) r)"
      proof cases
        assume "\<not> over_size p"
        then show ?thesis using 1(2) inv evicted_refl by auto
      next
        assume "over_size p" "pi_best p = []"
        then show ?thesis using 1(2) inv 1(1) [of p removed y] by (simp add: bts_pop_last_def)
      next
        assume big: "over_size p" and ne: "pi_best p \<noteq> []"
        let ?h = "uo_hash (oo_uo (last (pi_best p)))"
        have "loop (evict_last p) (removed @ [?h]) = Some y"
          using 1(2) big ne by (simp add: bts_pop_last_def Let_def remove_last_eq [OF inv ne])
        from 1(1) [OF this] evict_last_inv [OF inv ne]
        obtain r where "pool_inv (fst y)" "\<not> over_size (fst y)"
            "snd y = Inr (removed @ ?h # r)" "evicted (evict_last p) (fst y) r"
          by auto
        then show ?thesis using evicted_step [OF inv ne] by blast
      qed
    qed
  qed
  then show ?thesis using assms(2) by simp
qed

lemma enforce_size_loop_returns:
  assumes "pool_inv p" "ran (pi_by_hash p) \<subseteq> set (pi_best p)"
    "0 \<le> sint (pc_max_size_of_pool_bytes (pi_config p))"
  shows "\<exists>p' res. enforce_size_loop p removed = Some (p', res)"
  using assms
proof (induction "length (pi_best p)" arbitrary: p removed)
  case 0
  then have "ran (pi_by_hash p) = {}" by simp
  then have "pi_by_hash p = Map.empty" by (intro ext) (metis empty_iff not_None_eq ranI)
  then have "pi_pool_size p = 0"
    using 0 by (simp add: pool_inv_def pool_inv_except_def size_ok_def)
  then have "\<not> over_size p" using 0 by (simp add: size_gt_def)
  then show ?case by (simp add: enforce_size_loop_done)
next
  case (Suc n)
  then have ne: "pi_best p \<noteq> []" by auto
  show ?case
  proof (cases "over_size p")
    case False
    then show ?thesis by (simp add: enforce_size_loop_done)
  next
    case True
    have "ran (pi_by_hash (evict_last p)) = ran (pi_by_hash p) - {last (pi_best p)}"
      using ran_remove_by_hash last_best_by_hash [OF Suc.prems(1) ne] Suc.prems(1)
      by (simp add: pool_inv_def)
    moreover have "set (pi_best p) - {last (pi_best p)} \<subseteq> set (butlast (pi_best p))"
      using ne by (metis Diff_subset_conv append_butlast_last_id insert_is_Un list.simps(15)
          rotate1.simps(2) set_rotate1 subset_refl)
    ultimately have "ran (pi_by_hash (evict_last p)) \<subseteq> set (pi_best (evict_last p))"
      using Suc.prems(2) evict_last_best [OF Suc.prems(1) ne] by auto
    then show ?thesis
      using Suc.hyps(2) Suc.prems enforce_size_loop_step [OF Suc.prems(1) True ne]
        evict_last_inv [OF Suc.prems(1) ne] evict_last_best [OF Suc.prems(1) ne]
      by (simp add: Suc.hyps(1))
  qed
qed

text \<open>
  The loop does not return once \<open>best\<close> is empty and the pool is still too large.
\<close>

lemma enforce_size_loop_stuck:
  assumes "pi_best p = []" "over_size p"
  shows "enforce_size_loop p removed = None"
proof -
  have "\<not> (pi_best p = [] \<and> over_size p)" if "enforce_size_loop p removed = Some y" for y
    by (rule enforce_size_loop.raw_induct
        [where P = "\<lambda>p removed y. \<not> (pi_best p = [] \<and> over_size p)", OF _ that])
      (auto simp: bts_pop_last_def split: if_splits)
  then show ?thesis using assms by (cases "enforce_size_loop p removed") auto
qed

end
