(* ===== verification/Pool_Maintenance.thy ===== *)
theory Pool_Maintenance
  imports Pool_Insert
begin

text \<open>
  Maintenance of the pool after a new block: every operation is priced anew, \<open>best\<close> is rebuilt, and
  the expired operations are dropped.
\<close>

text \<open>Two stores that differ at the location of one operation only.\<close>

definition differ_at :: "ordered_pool_operation \<Rightarrow> store \<Rightarrow> store \<Rightarrow> bool" where
  "differ_at op st st' \<longleftrightarrow> (\<forall>l. l \<noteq> oo_loc op \<longrightarrow> st' l = st l)"

lemma differ_at_simps [simp]:
  "differ_at op st st"
  "differ_at op st (update_gas_price op f st') = differ_at op st st'"
  "differ_at op st (set_eligible op st') = differ_at op st st'"
  "differ_at op st (set_ineligible op st') = differ_at op st st'"
  "differ_at op st (set_underpriced op st') = differ_at op st st'"
  by (auto simp: differ_at_def update_gas_price_def set_eligible_def set_ineligible_def
      set_underpriced_def)

lemma differ_at_sorted:
  assumes "differ_at op st st'" "\<forall>x\<in>set b. oo_loc x \<noteq> oo_loc op" "bts_sorted (oo_cmp st) b"
  shows "bts_sorted (oo_cmp st') b"
proof -
  have "oo_cmp st x y = oo_cmp st' x y" if "x \<in> set b" "y \<in> set b" for x y
    using assms that by (intro oo_cmp_cong) (auto simp: differ_at_def)
  then show ?thesis using assms(3) bts_sorted_cong by blast
qed

lemma differ_at_eligible:
  "differ_at op st st' \<Longrightarrow> oo_loc x \<noteq> oo_loc op \<Longrightarrow> oo_eligible st' x = oo_eligible st x"
  by (simp add: differ_at_def oo_eligible_def)

lemma differ_at_gas_price:
  "differ_at op st st' \<Longrightarrow> oo_loc x \<noteq> oo_loc op \<Longrightarrow> oo_gas_price st' x = oo_gas_price st x"
  by (simp add: differ_at_def oo_gas_price_def)

lemma set_gas_price [simp]:
  "oo_gas_price (set_underpriced op st) = oo_gas_price st"
  "oo_gas_price (set_eligible op st) = oo_gas_price st"
  "oo_gas_price (set_ineligible op st) = oo_gas_price st"
  by (auto simp: oo_gas_price_def set_underpriced_def set_eligible_def set_ineligible_def
      fun_eq_iff)

lemma set_underpriced_eligible [simp]: "oo_eligible (set_underpriced op st) = oo_eligible st"
  by (auto simp: oo_eligible_def set_underpriced_def fun_eq_iff)

lemma set_underpriced_cmp [simp]: "oo_cmp (set_underpriced op st) = oo_cmp st"
  by (simp add: oo_cmp_def fun_eq_iff)

lemma update_gas_price_at [simp]:
  "oo_gas_price (update_gas_price op f st) op = uo_gas_price (oo_uo op) f"
  by (simp add: oo_gas_price_def update_gas_price_def)

lemma set_ineligible_at [simp]: "\<not> oo_eligible (set_ineligible op st) op"
  by (simp add: oo_eligible_def set_ineligible_def)

section \<open>The state of the loop\<close>

text \<open>
  After the operations with hashes \<open>visited\<close>: only \<open>best\<close> and the cells changed, the visited
  operations have their new gas price, \<open>best\<close> holds visited operations in order, and every visited
  operation that is eligible and not expired is in it.
\<close>

definition maintained ::
  "pool_inner \<Rightarrow> u128 \<Rightarrow> b256 set \<Rightarrow> (ordered_pool_operation \<Rightarrow> bool) \<Rightarrow> maintenance_state \<Rightarrow> bool" where
  "maintained p0 base_fee visited dead s \<longleftrightarrow>
     (case s of (p, expired, events) \<Rightarrow>
        p = p0\<lparr>pi_best := pi_best p, pi_store := pi_store p\<rparr> \<and>
        bts_sorted (oo_cmp (pi_store p)) (pi_best p) \<and>
        set (pi_best p) \<subseteq> {op. pi_by_hash p0 (uo_hash (oo_uo op)) = Some op \<and>
                              uo_hash (oo_uo op) \<in> visited \<and> \<not> dead op} \<and>
        set expired = {h\<in>visited. \<exists>op. pi_by_hash p0 h = Some op \<and> dead op} \<and>
        (\<forall>h op. pi_by_hash p0 h = Some op \<and> h \<in> visited \<longrightarrow>
           oo_gas_price (pi_store p) op = uo_gas_price (oo_uo op) base_fee \<and>
           (\<not> dead op \<and> oo_eligible (pi_store p) op \<longrightarrow> op \<in> set (pi_best p))))"

lemma maintained_start: "maintained p0 base_fee {} dead (p0\<lparr>pi_best := []\<rparr>, [], [])"
  by (simp add: maintained_def)

text \<open>
  What one turn may do to the state: the operation is priced and either expires, is left out as
  ineligible, or enters \<open>best\<close>.
\<close>

definition entered ::
  "pool_inner \<Rightarrow> u128 \<Rightarrow> ordered_pool_operation \<Rightarrow> pool_inner \<Rightarrow> bool" where
  "entered p base_fee op p' \<longleftrightarrow>
     (\<exists>st. differ_at op (pi_store p) st \<and>
        oo_gas_price st op = uo_gas_price (oo_uo op) base_fee \<and>
        (p' = p\<lparr>pi_store := st\<rparr> \<and> \<not> oo_eligible st op \<or>
         p' = p\<lparr>pi_store := st, pi_best := bts_insert (oo_cmp st) op (pi_best p)\<rparr>))"

lemma entered_best:
  assumes "differ_at op (pi_store p) st" "oo_gas_price st op = uo_gas_price (oo_uo op) base_fee"
  shows "entered p base_fee op (maintain_best f op (p\<lparr>pi_store := st\<rparr>))"
proof -
  define st' where "st' = (if (uo_max_fee_per_gas (oo_uo op) < gf_max_fee_per_gas f
        \<or> uo_max_priority_fee_per_gas (oo_uo op) < gf_max_priority_fee_per_gas f)
        \<and> perm_bundler_sponsorship (po_perms (oo_po op)) = None
      then set_underpriced op st else st)"
  have "maintain_best f op (p\<lparr>pi_store := st\<rparr>) =
      p\<lparr>pi_store := st', pi_best := bts_insert (oo_cmp st') op (pi_best p)\<rparr>"
    by (simp add: st'_def maintain_best_def Let_def)
  moreover have "differ_at op (pi_store p) st'"
    "oo_gas_price st' op = uo_gas_price (oo_uo op) base_fee"
    using assms by (simp_all add: st'_def)
  ultimately show ?thesis unfolding entered_def by blast
qed

lemma entered_left_out:
  assumes "differ_at op (pi_store p) st" "oo_gas_price st op = uo_gas_price (oo_uo op) base_fee"
    "\<not> oo_eligible st op"
  shows "entered p base_fee op (p\<lparr>pi_store := st\<rparr>)"
  using assms by (auto simp: entered_def)

lemma maintain_op_expired:
  assumes "pi_by_hash p h = Some op" "expired_at (pi_config p) now ts op = Some t"
  shows "maintain_op al now ts data fees base_fee h (p, expired, events) =
     (p\<lparr>pi_store := update_gas_price op base_fee (pi_store p)\<rparr>, expired @ [h],
      events @ [RemovedOp h (Expired t)])"
  using assms by (simp add: maintain_op_def)

lemma maintain_op_entered:
  assumes "pi_by_hash p h = Some op" "expired_at (pi_config p) now ts op = None"
  shows "\<exists>p' events'. maintain_op al now ts data fees base_fee h (p, expired, events) =
     (p', expired, events') \<and> entered p base_fee op p'"
proof -
  let ?st = "update_gas_price op base_fee (pi_store p)"
  have st: "differ_at op (pi_store p) ?st"
    "oo_gas_price ?st op = uo_gas_price (oo_uo op) base_fee" by simp_all
  note best = entered_best [OF st] and best_e = entered_best [of op p "set_eligible op ?st"]
  note out = entered_left_out [OF st] and out_i = entered_left_out [of op p "set_ineligible op ?st"]
  show ?thesis
    using assms best best_e out out_i
    by (auto simp: maintain_op_def Let_def split: option.splits)
qed

lemma maintained_step:
  assumes inv: "pool_inv p0" and h: "pi_by_hash p0 h = Some op" "h \<notin> visited"
    and s: "maintained p0 base_fee visited dead s"
    and dead: "\<And>op. dead op \<longleftrightarrow> expired_at (pi_config p0) now ts op \<noteq> None"
  shows "maintained p0 base_fee (insert h visited) dead
           (maintain_op al now ts data fees base_fee h s)"
proof -
  obtain p expired events where s_eq: "s = (p, expired, events)" by (cases s) auto
  note M = s [unfolded maintained_def s_eq prod.case]
  have p: "p = p0\<lparr>pi_best := pi_best p, pi_store := pi_store p\<rparr>" using M by blast
  have same: "pi_by_hash p = pi_by_hash p0" "pi_config p = pi_config p0"
    by (subst p, simp)+
  note I = inv [unfolded pool_inv_def]
  have hash: "uo_hash (oo_uo op) = h" by (rule pool_inv_by_hash(1) [OF I h(1)])
  have loc: "oo_loc x \<noteq> oo_loc op" and sid: "oo_submission_id x \<noteq> oo_submission_id op"
    if "pi_by_hash p0 g = Some x" "g \<noteq> h" for g x
    using that h pool_invD(3) [OF I] by_hash_handles [of p0] handles_loc_eq handles_sid_eq
      pool_inv_by_hash(1) [OF I] by metis+
  have best: "\<forall>x\<in>set (pi_best p). oo_loc x \<noteq> oo_loc op \<and> oo_submission_id x \<noteq> oo_submission_id op"
    using M loc sid h(2) by blast
  have vis: "oo_gas_price st x = uo_gas_price (oo_uo x) base_fee \<and>
      (\<not> dead x \<and> oo_eligible st x \<longrightarrow> x \<in> set (pi_best p))"
    if "differ_at op (pi_store p) st" "pi_by_hash p0 g = Some x" "g \<in> visited" for st g x
  proof -
    have "g \<noteq> h" using that h(2) by blast
    then show ?thesis
      using M that loc [OF that(2)] differ_at_eligible [OF that(1)] differ_at_gas_price [OF that(1)]
      by simp
  qed
  show ?thesis
  proof (cases "expired_at (pi_config p) now ts op")
    case (Some t)
    then have "dead op" using dead same by simp
    let ?st = "update_gas_price op base_fee (pi_store p)"
    have D: "differ_at op (pi_store p) ?st" by simp
    have "bts_sorted (oo_cmp ?st) (pi_best p)"
      using differ_at_sorted [OF D] best M by blast
    moreover have "p\<lparr>pi_store := ?st\<rparr> = p0\<lparr>pi_best := pi_best p, pi_store := ?st\<rparr>"
      by (subst (1) p) simp
    ultimately show ?thesis
      using M h same Some \<open>dead op\<close> vis [OF D]
      by (auto simp: s_eq maintain_op_expired maintained_def)
  next
    case None
    then have "\<not> dead op" using dead same by simp
    obtain p' events' where E: "maintain_op al now ts data fees base_fee h s = (p', expired, events')"
        "entered p base_fee op p'"
      using maintain_op_entered [of p h op now ts] None h same unfolding s_eq by metis
    then obtain st where D: "differ_at op (pi_store p) st"
        "oo_gas_price st op = uo_gas_price (oo_uo op) base_fee"
        and p': "p' = p\<lparr>pi_store := st\<rparr> \<and> \<not> oo_eligible st op \<or>
          p' = p\<lparr>pi_store := st, pi_best := bts_insert (oo_cmp st) op (pi_best p)\<rparr>"
      unfolding entered_def by blast
    have srt: "bts_sorted (oo_cmp st) (pi_best p)"
      using differ_at_sorted [OF D(1)] best M by blast
    have "oo_cmp st op x \<noteq> Equal" if "x \<in> set (pi_best p)" for x
      using best that oo_cmp_Equal by metis
    then have ins: "set (bts_insert (oo_cmp st) op (pi_best p)) = insert op (set (pi_best p))"
      by (simp add: best.set_insert_new)
    have "maintained p0 base_fee (insert h visited) dead (p', expired, events')"
      using p'
    proof (elim disjE conjE)
      assume q: "p' = p\<lparr>pi_store := st\<rparr>" "\<not> oo_eligible st op"
      have "p' = p0\<lparr>pi_best := pi_best p, pi_store := st\<rparr>" unfolding q(1) by (subst (1) p) simp
      then show ?thesis
        using M h srt \<open>\<not> dead op\<close> D(2) q(2) vis [OF D(1)]
        by (auto simp: maintained_def)
    next
      assume q: "p' = p\<lparr>pi_store := st, pi_best := bts_insert (oo_cmp st) op (pi_best p)\<rparr>"
      have "p' = p0\<lparr>pi_best := bts_insert (oo_cmp st) op (pi_best p), pi_store := st\<rparr>"
        unfolding q by (subst (1) p) simp
      then show ?thesis
        using M h hash best.sorted_insert [OF srt] \<open>\<not> dead op\<close> D(2) ins vis [OF D(1)]
        by (auto simp: maintained_def)
    qed
    then show ?thesis by (simp add: E(1))
  qed
qed

section \<open>The whole of maintenance\<close>

lemma maintained_fold:
  assumes "pool_inv p0" "distinct order" "set order \<subseteq> dom (pi_by_hash p0)"
    "visited \<inter> set order = {}" "maintained p0 base_fee visited dead s"
    "\<And>op. dead op \<longleftrightarrow> expired_at (pi_config p0) now ts op \<noteq> None"
  shows "maintained p0 base_fee (visited \<union> set order) dead
           (fold (maintain_op al now ts data fees base_fee) order s)"
  using assms(2-5)
proof (induction order arbitrary: visited s)
  case (Cons h order)
  then obtain op where h: "pi_by_hash p0 h = Some op" "h \<notin> visited" by auto
  from maintained_step [OF assms(1) h Cons.prems(4) assms(6)]
  have "maintained p0 base_fee (insert h visited) dead (maintain_op al now ts data fees base_fee h s)" .
  from Cons.IH [OF _ _ _ this] Cons.prems show ?case by auto
qed simp

lemma remove_all_except:
  assumes "pool_inv_except X p" "\<forall>op\<in>X \<inter> ran (pi_by_hash p). uo_hash (oo_uo op) \<in> set hs"
  shows "pool_inv (fold (\<lambda>h p. fst (remove_operation_internal p h None)) hs p)"
  using assms
proof (induction hs arbitrary: X p)
  case Nil
  then have "X \<inter> ran (pi_by_hash p) = {}" by auto
  then show ?case using Nil pool_inv_except_mono [of X p "{}"] by (simp add: pool_inv_def)
next
  case (Cons h hs)
  show ?case
  proof (cases "pi_by_hash p h")
    case None
    have "uo_hash (oo_uo op) \<noteq> h" if "op \<in> ran (pi_by_hash p)" for op
      using that None pool_inv_by_hash(1) [OF Cons.prems(1)] by (auto simp: ran_def)
    then show ?thesis using Cons None by fastforce
  next
    case (Some op)
    have "op' = op" if "op' \<in> ran (pi_by_hash p)" "uo_hash (oo_uo op') = h" for op'
      using that Some pool_inv_by_hash(1) [OF Cons.prems(1)] by (auto simp: ran_def)
    then have "\<forall>op'\<in>(X - {op}) \<inter> ran (pi_by_hash (fst (remove_operation_internal p h None))).
        uo_hash (oo_uo op') \<in> set hs"
      using Cons.prems(2) ran_remove_by_hash [OF Cons.prems(1) Some] by auto
    from Cons.IH [OF remove_inv_except [OF Cons.prems(1) Some] this] show ?thesis by simp
  qed
qed

lemma emit_all:
  "fold (\<lambda>e p. pool_emit p e) es p =
     p\<lparr>pi_events := pi_events p @ map (Pair (pc_entry_point (pi_config p))) es\<rparr>"
  by (induction es arbitrary: p) (simp_all add: pool_emit_def)

lemma maintained_inv_except:
  assumes "pool_inv p0" "maintained p0 base_fee (dom (pi_by_hash p0)) dead (p, expired, events)"
  shows "pool_inv_except {op. dead op} p"
proof -
  note M = assms(2) [unfolded maintained_def prod.case]
  define b st where bst: "b = pi_best p" "st = pi_store p"
  have p: "p = p0\<lparr>pi_best := b, pi_store := st\<rparr>" using M bst by blast
  have "set b \<subseteq> ran (pi_by_hash p0)" using M bst by (auto intro: ranI)
  moreover have "op \<in> set b" if "op \<in> ran (pi_by_hash p0)" "\<not> dead op" "oo_eligible st op" for op
  proof -
    from that(1) obtain h where "pi_by_hash p0 h = Some op" by (auto simp: ran_def)
    then show ?thesis using M bst that by (metis domI)
  qed
  moreover have "bts_sorted (oo_cmp st) b" using M bst by blast
  ultimately have "best_ok {op. dead op} p" unfolding p best_ok_def by simp
  then show ?thesis
    using assms(1) unfolding p by (simp add: pool_inv_def pool_inv_defs pool_handles_def)
qed

lemma maintainedD:
  assumes "maintained p0 base_fee visited dead (p, expired, events)"
  shows "p = p0\<lparr>pi_best := pi_best p, pi_store := pi_store p\<rparr>"
    "set expired = {h\<in>visited. \<exists>op. pi_by_hash p0 h = Some op \<and> dead op}"
    "pi_by_hash p0 h = Some op \<Longrightarrow> h \<in> visited \<Longrightarrow>
     oo_gas_price (pi_store p) op = uo_gas_price (oo_uo op) base_fee"
  using assms unfolding maintained_def prod.case by blast+

text \<open>
  What maintenance does when the hash map is iterated once over each of its keys.
\<close>

lemma do_maintenance_result:
  fixes al p order now n ts data fees base_fee
  assumes inv: "pool_inv p" and order: "distinct order" "set order = dom (pi_by_hash p)"
  defines "p' \<equiv> do_maintenance al p order now n ts data fees base_fee"
  shows "pool_inv p'"
    "pi_by_hash p' = (\<lambda>h. case pi_by_hash p h of
       Some op \<Rightarrow> if expired_at (pi_config p) now ts op = None then Some op else None
     | None \<Rightarrow> None)"
    "\<forall>op\<in>set (pi_best p'). oo_gas_price (pi_store p') op = uo_gas_price (oo_uo op) base_fee"
proof -
  let ?dead = "\<lambda>op. expired_at (pi_config p) now ts op \<noteq> None"
  obtain q expired events where q: "fold (maintain_op al now ts data fees base_fee) order
      (p\<lparr>pi_best := []\<rparr>, [], []) = (q, expired, events)" by (metis prod_cases3)
  have M: "maintained p base_fee (dom (pi_by_hash p)) ?dead (q, expired, events)"
  proof -
    have "maintained p base_fee ({} \<union> set order) ?dead
        (fold (maintain_op al now ts data fees base_fee) order (p\<lparr>pi_best := []\<rparr>, [], []))"
      by (rule maintained_fold [OF inv order(1) _ _ maintained_start]) (use order in auto)
    then show ?thesis by (simp add: q order)
  qed
  let ?r = "fold (\<lambda>h p. fst (remove_operation_internal p h None)) expired q"
  have p': "p' = ?r\<lparr>pi_events := pi_events ?r @ map (Pair (pc_entry_point (pi_config ?r))) events,
                    pi_prev_block_number := n\<rparr>"
    by (simp add: p'_def do_maintenance_def q emit_all remove_operation_by_hash_def Let_def)
  note M' = maintainedD [OF M]
  have "pi_by_hash q = pi_by_hash (p\<lparr>pi_best := pi_best q, pi_store := pi_store q\<rparr>)"
    by (rule arg_cong [OF M'(1)])
  then have qh: "pi_by_hash q = pi_by_hash p" by simp
  have exp: "h \<in> set expired \<longleftrightarrow> (\<exists>op. pi_by_hash p h = Some op \<and> ?dead op)" for h
    using M'(2) by auto
  have price: "oo_gas_price (pi_store q) op = uo_gas_price (oo_uo op) base_fee"
    if "op \<in> ran (pi_by_hash p)" for op
    using M'(3) that by (auto simp: ran_def)
  have "uo_hash (oo_uo op) \<in> set expired" if "?dead op" "op \<in> ran (pi_by_hash q)" for op
  proof -
    from that(2) obtain h where "pi_by_hash p h = Some op" unfolding qh ran_def by blast
    then show ?thesis
      using that(1) exp pool_inv_by_hash(1) [OF inv [unfolded pool_inv_def]] by blast
  qed
  then have "\<forall>op\<in>{op. ?dead op} \<inter> ran (pi_by_hash q). uo_hash (oo_uo op) \<in> set expired"
    by blast
  then have "pool_inv ?r" by (rule remove_all_except [OF maintained_inv_except [OF inv M]])
  then show "pool_inv p'" by (simp add: p')
  show "pi_by_hash p' = (\<lambda>h. case pi_by_hash p h of
       Some op \<Rightarrow> if expired_at (pi_config p) now ts op = None then Some op else None
     | None \<Rightarrow> None)"
    by (auto simp: p' remove_all_by_hash qh exp fun_eq_iff split: option.splits)
  have "set (pi_best ?r) \<subseteq> ran (pi_by_hash ?r)"
    using \<open>pool_inv ?r\<close> by (simp add: pool_inv_def pool_inv_except_def best_ok_def)
  also have "\<dots> \<subseteq> ran (pi_by_hash p)"
    by (auto simp: remove_all_by_hash qh ran_def split: if_splits)
  finally have "\<forall>op\<in>set (pi_best ?r). oo_gas_price (pi_store q) op = uo_gas_price (oo_uo op) base_fee"
    using price by blast
  moreover have "pi_store ?r = pi_store q" by (induction expired arbitrary: q) simp_all
  ultimately show "\<forall>op\<in>set (pi_best p').
      oo_gas_price (pi_store p') op = uo_gas_price (oo_uo op) base_fee"
    by (simp add: p')
qed

end
