(* ===== verification/Pool_Steps.thy ===== *)
theory Pool_Steps
  imports Pool_Maintenance
begin

text \<open>
  Every operation of the pool keeps the invariant; the pools that the operations can reach from
  the new one, as an inductive relation.
\<close>

section \<open>Adding an operation\<close>

lemma pool_handles_frame [simp]:
  "pool_handles (p\<lparr>pi_events := es\<rparr>) = pool_handles p"
  by (simp add: pool_handles_def)

lemma emit_removed:
  "fold (\<lambda>h p. pool_emit p (RemovedOp h r)) hs p =
     p\<lparr>pi_events := pi_events p @ map (\<lambda>h. (pc_entry_point (pi_config p), RemovedOp h r)) hs\<rparr>"
  by (induction hs arbitrary: p) (simp_all add: pool_emit_def)

lemma check_replacement_Inr:
  assumes "check_replacement p op = Inr r"
  shows "pi_by_hash p (uo_hash op) = None"
    "r = map_option (\<lambda>o'. uo_hash (oo_uo o')) (pi_by_id p (uo_id op))"
  using assms
  by (auto simp: check_replacement_def Let_def split: if_splits option.splits prod.splits)

text \<open>The pool after the operation with the same id, if any, is gone.\<close>

definition replaced :: "pool_inner \<Rightarrow> user_operation_id \<Rightarrow> pool_inner" where
  "replaced p i =
     (case pi_by_id p i of
        Some op \<Rightarrow> fst (remove_operation_by_hash p (uo_hash (oo_uo op))) | None \<Rightarrow> p)"

lemma replaced_inv: "pool_inv p \<Longrightarrow> pool_inv (replaced p i)"
  by (simp add: replaced_def remove_operation_by_hash_def remove_operation_internal_inv
      split: option.splits)

lemma replaced_keeps [simp]:
  "pi_config (replaced p i) = pi_config p" "pi_da_gas_oracle (replaced p i) = pi_da_gas_oracle p"
  "pi_store (replaced p i) = pi_store p"
  "pi_submission_id (replaced p i) = pi_submission_id p"
  "pi_next_loc (replaced p i) = pi_next_loc p" "pi_events (replaced p i) = pi_events p"
  by (simp_all add: replaced_def remove_operation_by_hash_def split: option.splits)

lemma replaced_by_hash:
  assumes "pool_inv p"
  shows "pi_by_hash (replaced p i) =
    (\<lambda>h. case pi_by_hash p h of
       Some op \<Rightarrow> if uo_id (oo_uo op) = i then None else Some op | None \<Rightarrow> None)"
proof (cases "pi_by_id p i")
  case None
  have "uo_id (oo_uo op) \<noteq> i" if "pi_by_hash p h = Some op" for h op
    using None pool_inv_by_hash(2) [OF assms [unfolded pool_inv_def] that] by auto
  then show ?thesis using None by (auto simp: replaced_def fun_eq_iff split: option.splits)
next
  case (Some op)
  note I = pool_inv_by_id [OF assms [unfolded pool_inv_def] Some]
  have other: "uo_id (oo_uo op') \<noteq> i"
    if "pi_by_hash p h = Some op'" "h \<noteq> uo_hash (oo_uo op)" for h op'
    using Some that pool_inv_by_hash [OF assms [unfolded pool_inv_def] that(1)] by auto
  have R: "pi_by_hash (replaced p i) = (pi_by_hash p)(uo_hash (oo_uo op) := None)"
    by (simp add: replaced_def Some remove_operation_by_hash_def)
  show ?thesis
  proof (rule ext)
    fix h
    show "pi_by_hash (replaced p i) h = (case pi_by_hash p h of
        Some op \<Rightarrow> if uo_id (oo_uo op) = i then None else Some op | None \<Rightarrow> None)"
      using I other [of h] by (cases "h = uo_hash (oo_uo op)"; cases "pi_by_hash p h") (simp_all add: R)
  qed
qed

lemma replaced_by_id:
  assumes "pool_inv p"
  shows "pi_by_id (replaced p i) i = None"
proof (cases "pi_by_id p i")
  case (Some op)
  note I = pool_inv_by_id [OF assms [unfolded pool_inv_def] Some]
  then show ?thesis
    using Some remove_operation_internal_Some(1) [OF I(2), of None]
    by (simp add: replaced_def remove_operation_by_hash_def)
qed (simp add: replaced_def)

lemma replaced_handles: "pool_inv p \<Longrightarrow> pool_handles (replaced p i) \<subseteq> pool_handles p"
  using remove_operation_internal_mined_subset pool_inv_by_id(2)
  by (fastforce simp: replaced_def remove_operation_by_hash_def pool_inv_def split: option.splits)

lemma fresh_replaced: "pool_inv p \<Longrightarrow> fresh_op p op \<Longrightarrow> fresh_op (replaced p i) op"
  using replaced_handles [of p i] by (auto simp: fresh_op_def)

text \<open>
  Storing the operation and evicting: the outcome of \<open>add_operation_internal\<close> on every branch.
\<close>

lemma add_operation_internal_cases:
  assumes add: "add_operation_internal p op = Some (p', res)" and inv: "pool_inv p"
    and fresh: "fresh_op p op"
  obtains (rejected) e where "check_replacement p (oo_uo op) = Inl e" "p' = p" "res = Inl e"
  | (stored) r q removed where
      "check_replacement p (oo_uo op) = Inr r"
      "q = insert_operation (replaced p (uo_id (oo_uo op))) op" "pool_inv q"
      "pool_inv p'" "\<not> over_size p'" "evicted q (p'\<lparr>pi_events := pi_events p\<rparr>) removed"
      "res = (if uo_hash (oo_uo op) \<in> set removed then Inl DiscardedOnInsert
              else Inr (uo_hash (oo_uo op)))"
proof (cases "check_replacement p (oo_uo op)")
  case (Inl e)
  have "p' = p" "res = Inl e" using add by (simp_all add: add_operation_internal_def Inl)
  then show ?thesis by (rule rejected [OF Inl])
next
  case (Inr r)
  note C = check_replacement_Inr [OF Inr]
  let ?q = "insert_operation (replaced p (uo_id (oo_uo op))) op"
  have q: "pool_inv ?q"
    using C(1) inv fresh
    by (intro insert_operation_inv replaced_inv fresh_replaced)
      (simp_all add: replaced_by_id replaced_by_hash)
  have p: "(case r of Some hash \<Rightarrow> fst (remove_operation_by_hash p hash) | None \<Rightarrow> p) =
      replaced p (uo_id (oo_uo op))"
    using C(2) by (simp add: replaced_def split: option.splits)
  note unf = add_operation_internal_def Inr p enforce_size_def Let_def
  obtain z es where z: "enforce_size_loop ?q [] = Some (z, es)"
    using add by (cases "enforce_size_loop ?q []") (auto simp: unf)
  from enforce_size_loop_result [OF z q] obtain removed where
    R: "pool_inv z" "\<not> over_size z" "es = Inr removed" "evicted ?q z removed" by auto
  have ev: "pi_events z = pi_events p"
    using R(4) by (simp add: evicted_def insert_operation_fields)
  obtain log where p': "p' = z\<lparr>pi_events := log\<rparr>"
    and res: "res = (if uo_hash (oo_uo op) \<in> set removed
      then Inl DiscardedOnInsert else Inr (uo_hash (oo_uo op)))"
    using add by (auto simp: unf emit_removed z R(3) split: if_splits)
  show ?thesis
  proof (rule stored [OF Inr refl q])
    show "pool_inv p'" using R(1) by (simp add: p')
    show "\<not> over_size p'" using R(2) by (simp add: p')
    have "p'\<lparr>pi_events := pi_events p\<rparr> = z" unfolding p' by (simp add: ev [symmetric])
    then show "evicted ?q (p'\<lparr>pi_events := pi_events p\<rparr>) removed" using R(4) by simp
  qed (rule res)
qed

lemma add_operation_internal_inv:
  assumes "add_operation_internal p op = Some (p', res)" "pool_inv p" "fresh_op p op"
  shows "pool_inv p'"
  using assms by (cases rule: add_operation_internal_cases) (use assms in simp_all)

text \<open>The pool once the new operation has its id and its location.\<close>

definition prepared ::
  "pool_inner \<Rightarrow> pool_operation \<Rightarrow> u128 \<Rightarrow> u128 \<Rightarrow> instant \<Rightarrow> pool_inner \<times> ordered_pool_operation" where
  "prepared p po base_fee required_pvg now =
     (let eligible = \<not> (pc_da_gas_tracking_enabled (pi_config p) \<and> pi_da_gas_oracle p \<noteq> None
                         \<and> uo_pre_verification_gas (po_uo po) < required_pvg)
      in (p\<lparr>pi_events := pi_events p @ (if eligible then [] else
              [(pc_entry_point (pi_config p), UpdatedDAData (uo_hash (po_uo po)) False required_pvg
                  (uo_pre_verification_gas (po_uo po)))]),
            pi_submission_id := pi_submission_id p + 1,
            pi_store := (pi_store p)(pi_next_loc p :=
              oo_cells_new po eligible base_fee (pi_prev_block_number p) now),
            pi_next_loc := pi_next_loc p + 1\<rparr>,
          \<lparr>oo_po = po, oo_submission_id = pi_submission_id p, oo_insertion_time = now,
           oo_loc = pi_next_loc p\<rparr>))"

lemma pool_add_operation_prepared:
  "pool_add_operation p po base_fee required_pvg now =
     (case prepared p po base_fee required_pvg now of (q, op) \<Rightarrow> add_operation_internal q op)"
  by (cases "pi_da_gas_oracle p")
    (simp_all add: pool_add_operation_def prepared_def next_submission_id_def
      ordered_pool_operation_new_def pool_emit_def Let_def)

lemma prepared_inv:
  assumes inv: "pool_inv p" and small: "unat (pi_submission_id p) + 1 < 2 ^ 62"
    and q: "prepared p po base_fee required_pvg now = (q, op)"
  shows "pool_inv q" "fresh_op q op"
proof -
  have id: "unat (pi_submission_id p + 1) = unat (pi_submission_id p) + 1"
    using small by (simp add: unat_word_ariths)
  note D = pool_invD [OF inv [unfolded pool_inv_def]]
  note H = D(3) [unfolded handles_ok_def]
  have same: "pool_handles q = pool_handles p" "pi_submission_id q = pi_submission_id p + 1"
    "pi_next_loc q = pi_next_loc p + 1" "oo_submission_id op = pi_submission_id p"
    "oo_loc op = pi_next_loc p"
    using q by (auto simp: prepared_def Let_def pool_handles_def)
  have lt: "oo_submission_id x < pi_submission_id p + 1" if "x \<in> pool_handles p" for x
  proof -
    have "oo_submission_id x < pi_submission_id p" using H that by blast
    then show ?thesis using id by (simp add: word_less_nat_alt)
  qed
  have "handles_ok q"
    using H lt small id unfolding handles_ok_def same by (auto simp: less_SucI)
  moreover have "best_ok {} q"
  proof -
    obtain c where st: "pi_store q = (pi_store p)(pi_next_loc p := c)"
      and b: "pi_best q = pi_best p" "pi_by_hash q = pi_by_hash p"
      using q by (auto simp: prepared_def Let_def)
    have loc: "oo_loc x \<noteq> pi_next_loc p" if "x \<in> ran (pi_by_hash p)" for x
    proof -
      have "x \<in> pool_handles p" using that by (simp add: pool_handles_def)
      then have "oo_loc x < pi_next_loc p" using H by blast
      then show ?thesis by simp
    qed
    have "bts_sorted (oo_cmp (pi_store q)) (pi_best p) = bts_sorted (oo_cmp (pi_store p)) (pi_best p)"
      using D(4) loc unfolding best_ok_def st
      by (intro bts_sorted_cong oo_cmp_cong) (auto simp: subset_iff)
    moreover have "oo_eligible (pi_store q) x = oo_eligible (pi_store p) x"
      if "x \<in> ran (pi_by_hash p)" for x
      using loc [OF that] by (simp add: oo_eligible_def st)
    ultimately show ?thesis using D(4) by (simp add: best_ok_def b)
  qed
  ultimately show "pool_inv q"
    using D q by (auto simp: pool_inv_def pool_inv_except_def prepared_def Let_def maps_agree_def
        size_ok_def mined_ok_def)
  have "pi_submission_id p < pi_submission_id p + 1" using id by (simp add: word_less_nat_alt)
  then show "fresh_op q op" using H unfolding fresh_op_def same by auto
qed

lemma pool_add_operation_inv:
  assumes "pool_add_operation p po base_fee required_pvg now = Some (p', res)" "pool_inv p"
    "unat (pi_submission_id p) + 1 < 2 ^ 62"
  shows "pool_inv p'"
proof -
  obtain q op where q: "prepared p po base_fee required_pvg now = (q, op)" by (cases "prepared p po base_fee required_pvg now")
  show ?thesis
    using assms(1) prepared_inv [OF assms(2,3) q] add_operation_internal_inv
    by (simp add: pool_add_operation_prepared q)
qed

end
