(* ===== verification/Pool_Reach.thy ===== *)
theory Pool_Reach
  imports Pool_Steps
begin

text \<open>
  Mining, unmining and forgetting operations, and the step relation of the pool with its reachable
  states.
\<close>

declare forget_mined_operations_before_block.simps [simp del]

section \<open>Mined operations\<close>

lemma mine_operation_inv: "pool_inv p \<Longrightarrow> pool_inv (fst (mine_operation p m n))"
  by (simp add: mine_operation_def remove_operation_internal_inv split: option.splits)

text \<open>The pool once an operation has left the cache of mined ones.\<close>

definition uncached :: "pool_inner \<Rightarrow> b256 \<Rightarrow> u64 \<Rightarrow> pool_inner" where
  "uncached p h n =
     p\<lparr>pi_mined_at_block_number_by_hash := (pi_mined_at_block_number_by_hash p)(h := None),
       pi_mined_hashes_with_block_numbers :=
         bts_remove pair_cmp (n, h) (pi_mined_hashes_with_block_numbers p)\<rparr>"

lemma set_pair_remove:
  "bts_sorted pair_cmp xs \<Longrightarrow> set (bts_remove pair_cmp x xs) = set xs - {x}"
  by (auto simp: pair.remove_filter)

lemma uncached_inv:
  assumes inv: "pool_inv p"
  shows "pool_inv (uncached p h n)"
proof -
  note D = pool_invD [OF inv [unfolded pool_inv_def]]
  have sub: "pool_handles (uncached p h n) \<subseteq> pool_handles p"
    by (auto simp: pool_handles_def uncached_def ran_def)
  have "handles_ok (uncached p h n)"
    using D(3) sub unfolding handles_ok_def
    by (auto simp: uncached_def intro: inj_on_subset)
  moreover have "mined_ok (uncached p h n)"
    using D(8) unfolding mined_ok_def
    by (simp add: uncached_def pair.sorted_remove set_pair_remove)
  ultimately show ?thesis
    using D by (simp add: pool_inv_def pool_inv_except_def uncached_def maps_agree_def best_ok_def
        size_ok_def)
qed

lemma uncached_fresh:
  assumes inv: "pool_inv p" and m: "pi_mined_at_block_number_by_hash p h = Some (op, n)"
  shows "fresh_op (uncached p h n) op"
proof -
  note D = pool_invD [OF inv [unfolded pool_inv_def]]
  have op: "op \<in> pool_handles p" using m by (force simp: pool_handles_def ran_def)
  have "op \<notin> ran (pi_by_hash p)" and h: "uo_hash (oo_uo op) = h"
    using D(8) m by (auto simp: mined_ok_def)
  moreover have "op \<notin> fst ` ran ((pi_mined_at_block_number_by_hash p)(h := None))"
    using D(8) h by (auto simp: mined_ok_def ran_def split: if_splits)
  ultimately have out: "op \<notin> pool_handles (uncached p h n)"
    by (simp add: pool_handles_def uncached_def)
  have sub: "pool_handles (uncached p h n) \<subseteq> pool_handles p"
    by (auto simp: pool_handles_def uncached_def ran_def)
  have "oo_submission_id op \<notin> oo_submission_id ` pool_handles (uncached p h n)"
    using handles_sid_eq [OF D(3) op] out sub by auto
  moreover have "oo_loc op \<notin> oo_loc ` pool_handles (uncached p h n)"
    using handles_loc_eq [OF D(3) op] out sub by auto
  moreover have "oo_submission_id op < pi_submission_id p" "oo_loc op < pi_next_loc p"
    using D(3) op by (auto simp: handles_ok_def)
  ultimately show ?thesis by (simp add: fresh_op_def uncached_def)
qed

lemma unmine_operation_cases:
  assumes "unmine_operation p m = Some (p', r)"
  obtains (unknown) "pi_mined_at_block_number_by_hash p (mo_hash m) = None" "p' = p" "r = None"
  | (known) op n res where "pi_mined_at_block_number_by_hash p (mo_hash m) = Some (op, n)"
      "add_operation_internal (uncached p (mo_hash m) n) op = Some (p', res)" "r = Some (oo_po op)"
  using assms by (auto simp: unmine_operation_def uncached_def Let_def split: option.splits)

lemma unmine_operation_inv:
  assumes "unmine_operation p m = Some (p', r)" "pool_inv p"
  shows "pool_inv p'"
  using assms(1)
proof (cases rule: unmine_operation_cases)
  case (known op n res)
  then show ?thesis
    using add_operation_internal_inv uncached_inv [OF assms(2)] uncached_fresh [OF assms(2)] by blast
qed (simp add: assms(2))

text \<open>One turn of the loop that forgets mined operations.\<close>

definition forget_first :: "pool_inner \<Rightarrow> u64 \<Rightarrow> b256 \<Rightarrow> pool_inner" where
  "forget_first p n h =
     (uncached p h n)\<lparr>pi_cache_size :=
        (case pi_mined_at_block_number_by_hash p h of
           Some (op, _) \<Rightarrow> size_sub (pi_cache_size p) (pi_mem_size p op)
         | None \<Rightarrow> pi_cache_size p)\<rparr>"

lemma forget_unfold:
  "forget_mined_operations_before_block p n =
     (case pi_mined_hashes_with_block_numbers p of
        (bn, h) # rest \<Rightarrow>
          if bn < n then forget_mined_operations_before_block (forget_first p bn h) n else p
      | [] \<Rightarrow> p)"
proof -
  have "(case pi_mined_at_block_number_by_hash p h of
        Some (op, _) \<Rightarrow> p\<lparr>pi_mined_at_block_number_by_hash :=
              (pi_mined_at_block_number_by_hash p)(h := None),
            pi_cache_size := size_sub (pi_cache_size p) (pi_mem_size p op)\<rparr>
      | None \<Rightarrow> p)\<lparr>pi_mined_hashes_with_block_numbers :=
          bts_remove pair_cmp (bn, h) (pi_mined_hashes_with_block_numbers
            (case pi_mined_at_block_number_by_hash p h of
               Some (op, _) \<Rightarrow> p\<lparr>pi_mined_at_block_number_by_hash :=
                     (pi_mined_at_block_number_by_hash p)(h := None),
                   pi_cache_size := size_sub (pi_cache_size p) (pi_mem_size p op)\<rparr>
             | None \<Rightarrow> p))\<rparr> = forget_first p bn h" for bn h
    by (rule pool_inner.equality)
      (auto simp: forget_first_def uncached_def fun_upd_idem split: option.splits)
  then show ?thesis
    by (subst forget_mined_operations_before_block.simps) (simp add: Let_def split: list.splits)
qed

lemma forget_first_inv: "pool_inv p \<Longrightarrow> pool_inv (forget_first p n h)"
  by (simp add: forget_first_def uncached_inv)

lemma forget_first_hashes:
  "pi_mined_hashes_with_block_numbers p = (n, h) # rest \<Longrightarrow>
   pi_mined_hashes_with_block_numbers (forget_first p n h) = rest"
  by (simp add: forget_first_def uncached_def)

lemma forget_first_keeps [simp]:
  "pi_by_hash (forget_first p n h) = pi_by_hash p"
  "pi_mined_at_block_number_by_hash (forget_first p n h) =
     (pi_mined_at_block_number_by_hash p)(h := None)"
  by (simp_all add: forget_first_def uncached_def)

text \<open>
  Forgetting keeps the invariant; what is left in the cache was mined at or after the given block.
\<close>

lemma forget_mined_result:
  fixes n :: u64
  assumes "pool_inv p"
  defines "p' \<equiv> \<lambda>p. forget_mined_operations_before_block p n"
  shows "pool_inv (p' p)" "pi_by_hash (p' p) = pi_by_hash p"
    "\<forall>(bn, h)\<in>set (pi_mined_hashes_with_block_numbers (p' p)). n \<le> bn"
proof -
  have "pool_inv (p' p) \<and> pi_by_hash (p' p) = pi_by_hash p \<and>
      (\<forall>(bn, h)\<in>set (pi_mined_hashes_with_block_numbers (p' p)). n \<le> bn)"
    using assms(1)
  proof (induction "length (pi_mined_hashes_with_block_numbers p)" arbitrary: p rule: less_induct)
    case less
    show ?case
    proof (cases "pi_mined_hashes_with_block_numbers p")
      case Nil
      then show ?thesis using less.prems by (simp add: p'_def forget_unfold [of p])
    next
      case (Cons x rest)
      obtain bn h where x: "x = (bn, h)" by (cases x)
      show ?thesis
      proof (cases "bn < n")
        case True
        have "length (pi_mined_hashes_with_block_numbers (forget_first p bn h))
            < length (pi_mined_hashes_with_block_numbers p)"
          using Cons x by (simp add: forget_first_hashes)
        from less.hyps [OF this forget_first_inv [OF less.prems]] show ?thesis
          using True Cons x by (simp add: p'_def forget_unfold [of p])
      next
        case False
        have "bts_sorted pair_cmp ((bn, h) # rest)"
          using less.prems Cons x by (simp add: pool_inv_def pool_inv_except_def mined_ok_def)
        then have "\<forall>(m, g)\<in>set rest. bn \<le> m"
          by (auto simp: pair_cmp_def word_cmp_def split: if_splits)
        then show ?thesis
          using False Cons x less.prems by (auto simp: p'_def forget_unfold [of p])
      qed
    qed
  qed
  then show "pool_inv (p' p)" "pi_by_hash (p' p) = pi_by_hash p"
    "\<forall>(bn, h)\<in>set (pi_mined_hashes_with_block_numbers (p' p)). n \<le> bn" by blast+
qed

section \<open>Reachable pools\<close>

lemma pool_new_inv: "pool_inv (pool_new config oracle)"
  by (simp add: pool_inv_def pool_inv_defs pool_handles_def pool_new_def counts_match_def
      counts_nonzero_def uses_def)

lemma pool_clear_inv: "pool_inv p \<Longrightarrow> pool_inv (pool_clear p)"
  by (simp add: pool_inv_def pool_inv_defs pool_handles_def pool_clear_def counts_match_def
      counts_nonzero_def uses_def)

lemma fold_inv: "(\<And>x s. P s \<Longrightarrow> P (f x s)) \<Longrightarrow> P s \<Longrightarrow> P (fold f xs s)"
  by (induction xs arbitrary: s) auto

lemma preconfirm_txns_inv: "pool_inv p \<Longrightarrow> pool_inv (preconfirm_txns p txns)"
  unfolding preconfirm_txns_def
  by (rule fold_inv [of pool_inv]) (auto intro!: fold_inv [of pool_inv])

lemma remove_out_of_date_inv:
  "pool_inv p \<Longrightarrow> pool_inv (remove_out_of_date_preconfirmed_uos p order n)"
  unfolding remove_out_of_date_preconfirmed_uos_def Let_def pool_inv_frame
  by (rule fold_inv [of pool_inv]) (auto split: option.splits)

text \<open>
  The steps of the pool, one rule per public operation.  An operation is added while fewer than
  \<open>2 ^ 62\<close> operations were added before, so that the submission ids and counts do not wrap; a call
  that does not return is no step.  The last rule is an event that the owner of the pool sends
  through the same channel.  \<open>Q\<close> restricts the operations that are added.
\<close>

inductive pool_step :: "(pool_operation \<Rightarrow> bool) \<Rightarrow> pool_inner \<Rightarrow> pool_inner \<Rightarrow> bool"
  for Q :: "pool_operation \<Rightarrow> bool" where
  add: "pool_add_operation p po base_fee required_pvg now = Some (p', res) \<Longrightarrow>
        unat (pi_submission_id p) + 1 < 2 ^ 62 \<Longrightarrow> Q po \<Longrightarrow> pool_step Q p p'"
| remove: "pool_step Q p (fst (remove_operation_by_hash p h))"
| mine: "pool_step Q p (fst (mine_operation p m n))"
| unmine: "unmine_operation p m = Some (p', r) \<Longrightarrow> pool_step Q p p'"
| throttle: "pool_step Q p (fst (pool_throttle_entity p e n))"
| remove_entity: "pool_step Q p (fst (pool_remove_entity p order e))"
| forget: "pool_step Q p (forget_mined_operations_before_block p n)"
| clear: "pool_step Q p (pool_clear p)"
| preconfirm: "pool_step Q p (preconfirm_txns p txns)"
| preconfirm_at: "pool_step Q p (preconfirm_txns_at_block_number p txns n)"
| outdated: "pool_step Q p (remove_out_of_date_preconfirmed_uos p border n)"
| maintain: "distinct order \<Longrightarrow> set order = dom (pi_by_hash p) \<Longrightarrow>
        pool_step Q p (do_maintenance al p order now n ts data fees base_fee)"
| send: "pool_step Q p (p\<lparr>pi_events := pi_events p @ es\<rparr>)"

inductive pool_reachable :: "pool_inner_config \<Rightarrow> da_gas_oracle option \<Rightarrow> pool_inner \<Rightarrow> bool"
  for cfg :: pool_inner_config and da :: "da_gas_oracle option" where
  new: "pool_reachable cfg da (pool_new cfg da)"
| step: "pool_reachable cfg da p \<Longrightarrow> pool_step (\<lambda>_. True) p p' \<Longrightarrow> pool_reachable cfg da p'"

lemma pool_step_inv: "pool_step Q p p' \<Longrightarrow> pool_inv p \<Longrightarrow> pool_inv p'"
proof (induction rule: pool_step.induct)
  case (add p po base_fee required_pvg now p' res)
  then show ?case using pool_add_operation_inv by blast
next
  case (unmine p m p' r)
  then show ?case by (rule unmine_operation_inv)
next
  case (maintain order p al now n ts data fees base_fee)
  then show ?case by (intro do_maintenance_result(1))
qed (simp_all add: remove_operation_by_hash_def remove_operation_internal_inv mine_operation_inv
    pool_throttle_entity_def pool_remove_entity_def remove_all_inv forget_mined_result(1)
    pool_clear_inv preconfirm_txns_inv preconfirm_txns_at_block_number_def remove_out_of_date_inv
    Let_def)

lemma pool_reachable_inv: "pool_reachable cfg da p \<Longrightarrow> pool_inv p"
  by (induction rule: pool_reachable.induct) (simp_all add: pool_new_inv pool_step_inv)

end
