(* ===== verification/Pool_Properties.thy ===== *)
theory Pool_Properties
  imports Pool_Reach
begin

text \<open>
  What the pool promises to its callers, stated over its operations.
\<close>

section \<open>Lemmas\<close>

lemma remove_all_best:
  "pool_inv p \<Longrightarrow>
   pi_best (fold (\<lambda>h p. fst (remove_operation_internal p h None)) hs p) =
     filter (\<lambda>op. uo_hash (oo_uo op) \<notin> set hs) (pi_best p)"
proof (induction hs arbitrary: p)
  case (Cons h hs)
  have one: "pi_best (fst (remove_operation_internal p h None)) =
      filter (\<lambda>op. uo_hash (oo_uo op) \<noteq> h) (pi_best p)"
  proof -
    note I = Cons.prems [unfolded pool_inv_def]
    have in_map: "pi_by_hash p (uo_hash (oo_uo x)) = Some x" if "x \<in> set (pi_best p)" for x
    proof -
      have "x \<in> ran (pi_by_hash p)" using pool_invD(4) [OF I] that by (auto simp: best_ok_def)
      then show ?thesis using pool_inv_by_hash(1) [OF I] by (auto simp: ran_def)
    qed
    show ?thesis
    proof (cases "pi_by_hash p h")
      case None
      then have "\<forall>x\<in>set (pi_best p). uo_hash (oo_uo x) \<noteq> h" using in_map by auto
      then show ?thesis using None by (simp add: filter_id_conv [THEN iffD2])
    next
      case (Some op)
      have "x \<noteq> op \<longleftrightarrow> uo_hash (oo_uo x) \<noteq> h" if "x \<in> set (pi_best p)" for x
        using in_map [OF that] Some pool_inv_by_hash(1) [OF I Some] by (metis option.inject)
      then show ?thesis
        using remove_operation_internal_Some(2) [OF Some, of None] remove_best [OF I Some]
        by (simp cong: filter_cong)
    qed
  qed
  show ?case
    using Cons.IH [OF remove_operation_internal_inv [OF Cons.prems]]
    by (simp add: one conj_commute)
qed simp

text \<open>The operations the throttling of an entity keeps.\<close>

abbreviation throttle_old :: "pool_inner_config \<Rightarrow> u64 \<Rightarrow> ordered_pool_operation \<Rightarrow> bool" where
  "throttle_old cfg n op \<equiv>
     po_sim_block_number (oo_po op) + pc_throttled_entity_live_blocks cfg < n"

lemma throttle_filter_subset:
  "set (throttle_filter cfg e n k ops) \<subseteq>
     (\<lambda>op. uo_hash (oo_uo op)) ` {op\<in>set ops. contains_entity (oo_po op) e}"
  by (induction cfg e n k ops rule: throttle_filter.induct) auto

lemma throttle_filter_old:
  "op \<in> set ops \<Longrightarrow> contains_entity (oo_po op) e \<Longrightarrow> throttle_old cfg n op \<Longrightarrow>
   uo_hash (oo_uo op) \<in> set (throttle_filter cfg e n k ops)"
  by (induction cfg e n k ops rule: throttle_filter.induct) auto

lemma throttle_filter_kept:
  assumes "distinct (map (\<lambda>op. uo_hash (oo_uo op)) ops)"
  shows "length (filter (\<lambda>op. contains_entity (oo_po op) e \<and>
           uo_hash (oo_uo op) \<notin> set (throttle_filter cfg e n k ops)) ops) \<le> unat k"
  using assms
proof (induction cfg e n k ops rule: throttle_filter.induct)
  case (2 cfg e n k x ops)
  let ?hash = "\<lambda>op. uo_hash (oo_uo op)"
  have notin: "?hash x \<notin> set (throttle_filter cfg e n j ops)" for j
    using "2.prems" throttle_filter_subset [of cfg e n j ops] by auto
  have other: "?hash op \<noteq> ?hash x" if "op \<in> set ops" for op
    using "2.prems" that by (auto simp: image_iff)
  show ?case
  proof (cases "contains_entity (oo_po x) e")
    case False
    then show ?thesis using 2(3) "2.prems" by simp
  next
    case True
    show ?thesis
    proof (cases "throttle_old cfg n x \<or> k = 0")
      case drop: True
      have "filter (\<lambda>op. contains_entity (oo_po op) e \<and> ?hash op \<noteq> ?hash x \<and>
          ?hash op \<notin> set (throttle_filter cfg e n k ops)) ops =
        filter (\<lambda>op. contains_entity (oo_po op) e \<and>
          ?hash op \<notin> set (throttle_filter cfg e n k ops)) ops"
        using other by (auto intro: filter_cong)
      then show ?thesis using 2(1) True drop "2.prems" by simp
    next
      case keep: False
      then have "unat (saturating_sub k 1) + 1 \<le> unat k"
        by (simp add: unat_simps Suc_leI unat_gt_0)
      then show ?thesis using 2(2) True keep "2.prems" notin by auto
    qed
  qed
qed simp

lemma best_distinct_hashes:
  assumes "pool_inv p"
  shows "distinct (map (\<lambda>op. uo_hash (oo_uo op)) (pi_best p))"
proof -
  note I = assms [unfolded pool_inv_def] note B = pool_invD(4) [OF I, unfolded best_ok_def]
  have in_map: "pi_by_hash p (uo_hash (oo_uo x)) = Some x" if "x \<in> set (pi_best p)" for x
    using B that pool_inv_by_hash(1) [OF I] by (fastforce simp: ran_def)
  have "inj_on (\<lambda>op. uo_hash (oo_uo op)) (set (pi_best p))"
    using in_map by (intro inj_onI) (metis option.inject)
  then show ?thesis using B best.sorted_distinct by (auto simp: distinct_map)
qed

lemma nth_best_less:
  assumes "pool_inv p" "i < j" "j < length (pi_best p)"
  shows "oo_cmp (pi_store p) (pi_best p ! i) (pi_best p ! j) = Less"
  using assms
  by (auto simp: pool_inv_def pool_inv_except_def best_ok_def bts_sorted_def sorted_wrt_iff_nth_less)

lemma oo_cmp_Less:
  "oo_cmp st a b = Less \<longleftrightarrow>
     oo_gas_price st b < oo_gas_price st a \<or>
     oo_gas_price st a = oo_gas_price st b \<and> oo_submission_id a < oo_submission_id b"
  by (auto simp: oo_cmp_def word_cmp_def)


lemma address_count_uses:
  assumes "counts_match (pi_count_by_address p) m"
  shows "address_count p a = of_nat (\<Sum>t\<leftarrow>entity_type_iter. card (uses m a t))"
proof -
  have "of_nat (card (uses m a t)) = count_of (pi_count_by_address p) a t" for t
  proof -
    have "unat (count_of (pi_count_by_address p) a t) = card (uses m a t)"
      using assms by (simp add: counts_match_def)
    then have "(of_nat (card (uses m a t)) :: usize) =
        of_nat (unat (count_of (pi_count_by_address p) a t))" by simp
    then show ?thesis by simp
  qed
  then show ?thesis
    by (simp add: address_count_def entity_type_iter_def count_of_def ec_total_def
        split: option.splits)
qed

section \<open>Adding\<close>

text \<open>What is in the pool after an operation was added.\<close>

lemma add_operation_result:
  assumes inv: "pool_inv p" and small: "unat (pi_submission_id p) + 1 < 2 ^ 62"
    and add: "pool_add_operation p po base_fee required_pvg now = Some (p', Inr h)"
  obtains op removed r where "oo_po op = po" "h = uo_hash (po_uo po)" "pool_inv p'"
    "\<not> over_size p'" "check_replacement p (po_uo po) = Inr r"
    "h \<notin> set removed"
    "pi_by_hash p' = (\<lambda>h'. if h' \<in> set removed then None
                          else ((pi_by_hash (replaced p (uo_id (po_uo po))))(h \<mapsto> op)) h')"
proof -
  obtain q op where q: "prepared p po base_fee required_pvg now = (q, op)"
    by (cases "prepared p po base_fee required_pvg now")
  have op: "oo_po op = po" "pi_by_hash q = pi_by_hash p" "pi_by_id q = pi_by_id p"
      "pi_config q = pi_config p"
    using q by (auto simp: prepared_def Let_def)
  have add': "add_operation_internal q op = Some (p', Inr h)"
    using add by (simp add: pool_add_operation_prepared q)
  note P = prepared_inv [OF inv small q]
  have "get_min_replacement_fees q = get_min_replacement_fees p"
    by (simp add: fun_eq_iff get_min_replacement_fees_def op)
  then have same: "check_replacement q (po_uo po) = check_replacement p (po_uo po)"
    by (simp only: check_replacement_def op)
  from add' P show thesis
  proof (cases rule: add_operation_internal_cases)
    case (stored r q' removed)
    have h: "h = uo_hash (po_uo po)" "h \<notin> set removed"
      using stored(7) op by (auto split: if_splits)
    have "pi_by_hash (p'\<lparr>pi_events := pi_events q\<rparr>) =
        (\<lambda>h. if h \<in> set removed then None else pi_by_hash q' h)"
      using stored(6) unfolding evicted_def by blast
    moreover have "pi_by_hash (replaced q i) = pi_by_hash (replaced p i)" for i
      by (simp add: replaced_by_hash P inv op)
    then have "pi_by_hash q' = (pi_by_hash (replaced p (uo_id (po_uo po))))(h \<mapsto> op)"
      by (simp add: stored(2) insert_operation_fields op h)
    ultimately have "pi_by_hash p' = (\<lambda>h'. if h' \<in> set removed then None
        else ((pi_by_hash (replaced p (uo_id (po_uo po))))(h \<mapsto> op)) h')"
      by (simp cong: if_cong)
    then show thesis
      using that [OF op(1) h(1) stored(4,5) _ h(2)] stored(1) same op by simp
  qed simp
qed

lemma check_replacement_fees:
  assumes "check_replacement p uo = Inr r" "pi_by_id p (uo_id uo) = Some old"
  shows "increase_by_percent (uo_max_fee_per_gas (oo_uo old))
           (pc_min_replacement_fee_increase_percentage (pi_config p)) \<le> uo_max_fee_per_gas uo"
    "increase_by_percent (uo_max_priority_fee_per_gas (oo_uo old))
       (pc_min_replacement_fee_increase_percentage (pi_config p))
       \<le> uo_max_priority_fee_per_gas uo"
  using assms
  by (auto simp: check_replacement_def get_min_replacement_fees_def split: if_splits)

end
