(* ===== verification/Types_Theorems.thy ===== *)
theory Types_Theorems
  imports User_Operation
begin

text \<open>
  The theorems about fees, validity ranges and the user operations of version 0.7.
\<close>

section \<open>Fees\<close>

text \<open>
  Where the multiplication does not overflow, bumping fees by a percentage raises both of them
  by at least that percentage, as nodes ask of a replacement transaction.
\<close>

theorem fee_bump_covers:
  assumes "fees_fit f pct"
  shows "unat (gf_max_fee_per_gas f) * (100 + unat pct)
           \<le> 100 * unat (gf_max_fee_per_gas (gas_fees_increase_by_percent f pct)) \<and>
         unat (gf_max_priority_fee_per_gas f) * (100 + unat pct)
           \<le> 100 * unat (gf_max_priority_fee_per_gas (gas_fees_increase_by_percent f pct))"
proof -
  have "n \<le> 100 * ((n + 99) div 100)" for n :: nat by linarith
  then show ?thesis
    using assms
    by (simp add: fees_fit_def gas_fees_increase_by_percent_def unat_increase_by_percent_ceil)
qed

theorem fee_bump_covers_witness:
  "unat (33 :: u128) * 110 \<le>
     100 * unat (gf_max_fee_per_gas (gas_fees_increase_by_percent
       \<lparr>gf_max_fee_per_gas = 33, gf_max_priority_fee_per_gas = 7\<rparr> 10))"
  using fee_bump_covers [of "\<lparr>gf_max_fee_per_gas = 33, gf_max_priority_fee_per_gas = 7\<rparr>" 10]
  by (simp add: fees_fit_def percent_fits_def)

text \<open>
  The effective gas price of an operation is the one of its fee pair as long as base fee and
  priority fee add up without overflow; the two definitions differ only in how they overflow.
\<close>

theorem gas_price_agrees:
  assumes "unat base_fee + unat (uo_max_priority_fee_per_gas uo) < 2 ^ 128"
  shows "uo_gas_price uo base_fee =
    gas_fees_gas_price \<lparr>gf_max_fee_per_gas = uo_max_fee_per_gas uo,
      gf_max_priority_fee_per_gas = uo_max_priority_fee_per_gas uo\<rparr> base_fee"
  using assms by (simp add: uo_gas_price_def gas_fees_gas_price_def saturating_add_def)

section \<open>Validity ranges\<close>

text \<open>
  The intersection of two validity ranges contains exactly the times both of them contain,
  with the same buffer.
\<close>

theorem intersect_contains:
  "range_contains (intersect r s) t buffer \<longleftrightarrow>
     range_contains r t buffer \<and> range_contains s t buffer"
  by (auto simp: range_contains_def intersect_def)

section \<open>Packed operations of version 0.7\<close>

lemma builder7_build_repacked:
  assumes "b7_packed_uo b = None"
  shows "builder7_build al ((builder7_from_uo (builder7_build al b) (b7_chain_spec b))
           \<lparr>b7_packed_uo := Some (pack_user_operation (builder7_build al b)),
            b7_authorization_tuple := None, b7_aggregator := None\<rparr>) =
         (builder7_build al b)\<lparr>u7_authorization_tuple := None, u7_aggregator := None\<rparr>"
  using assms
  by (simp add: builder7_build_def builder7_from_uo_def pack_user_operation_def Let_def
      split: prod.splits cong: option.case_cong)

text \<open>
  C28: an operation that was built from its fields survives the way over its packed on-chain form.
  Let its builder set no factory data without a factory and no paymaster field without a paymaster.
  Then decoding the packed form of the built operation neither panics nor fails, and building the
  result gives the operation back: the same fields, the same cached packed form, the same hash and
  the same calldata costs.  Only the authorization tuple and the aggregator are lost, which the
  packed form does not hold.
\<close>

theorem unpack_pack:
  assumes "b7_packed_uo b = None" "uo7_grouped (builder7_build al b)"
  shows "\<exists>b'. builder7_from_packed (pack_user_operation (builder7_build al b)) (b7_chain_spec b) =
           Some (Inr b') \<and>
         builder7_build al b' =
           (builder7_build al b)\<lparr>u7_authorization_tuple := None, u7_aggregator := None\<rparr>"
  using builder7_from_packed_pack [OF assms(2)] builder7_build_repacked [OF assms(1)] by blast

text \<open>
  Decoding panics instead of returning an error when the init code is not empty and shorter
  than an address, or the paymaster data is not empty and shorter than its fixed part, although
  every other field is well formed.
\<close>

theorem from_packed_panics:
  assumes "length (puo_accountGasLimits puo) = 32" "length (puo_gasFees puo) = 32"
    "unat (puo_preVerificationGas puo) < 2 ^ 128"
    "length (puo_initCode puo) \<in> {1..<20} \<or> length (puo_paymasterAndData puo) \<in> {1..<52}"
  shows "builder7_from_packed puo cs = None"
  using assms
  by (auto simp: builder7_from_packed_def u128_from_be_slice_def u128_try_from_def Let_def)

section \<open>Aggregated signatures\<close>

text \<open>
  An operation that was built and transformed for an aggregator gets back its signature, its
  packed form, its hash and its calldata costs when the original signature is restored.
\<close>

theorem original_signature_restored:
  assumes "b7_packed_uo b = None"
  shows "uo7_with_original_signature
           (uo7_transform_for_aggregator al (builder7_build al b) cs a costs s) =
         (builder7_build al b)
           \<lparr>u7_aggregator := Some a, u7_aggregator_costs := costs,
            u7_original_signature := u7_signature (builder7_build al b),
            u7_original_calldata_cost := u7_calldata_gas_cost (builder7_build al b),
            u7_original_calldata_floor_limit :=
              u7_calldata_floor_gas_limit (builder7_build al b)\<rparr>"
  by (rule uo7_with_original_signature_transform [OF uo7_cached_build [OF assms]])

section \<open>Applications\<close>

definition sample_builder :: builder_v0_7 where
  "sample_builder =
     (builder7_new chain_spec_default
       \<lparr>rf7_sender = 1, rf7_nonce = 2, rf7_call_data = [3], rf7_call_gas_limit = 4,
        rf7_verification_gas_limit = 5, rf7_pre_verification_gas = 6,
        rf7_max_priority_fee_per_gas = 7, rf7_max_fee_per_gas = 8, rf7_signature = [9]\<rparr>)"

definition null_alloy :: alloy where
  "null_alloy =
     \<lparr>abi_encode_cuo = (\<lambda>_. []), abi_encode_puo = (\<lambda>_. []), abi_encode_pfh6 = (\<lambda>_. []),
      abi_encode_pfh7 = (\<lambda>_. []), abi_encode_uhe = (\<lambda>_. []),
      keccak256 = (\<lambda>bs. of_nat (length bs)), recover_authority = (\<lambda>_. Inl ''none''),
      PER_AUTH_BASE_COST = 12500, PER_EMPTY_ACCOUNT_COST = 25000\<rparr>"

lemma sample_built:
  "b7_packed_uo sample_builder = None"
  "u7_max_fee_per_gas (builder7_build al sample_builder) = 8"
  "u7_max_priority_fee_per_gas (builder7_build al sample_builder) = 7"
  "u7_signature (builder7_build al sample_builder) = [9]"
  "uo7_grouped (builder7_build al sample_builder)"
  by (simp_all add: builder7_build_def sample_builder_def builder7_new_def uo7_grouped_def Let_def
      split: prod.splits)

theorem gas_price_agrees_witness:
  "uo_gas_price (V0_7 (builder7_build null_alloy sample_builder)) 100 =
    gas_fees_gas_price \<lparr>gf_max_fee_per_gas = 8, gf_max_priority_fee_per_gas = 7\<rparr> 100"
  using gas_price_agrees [of 100 "V0_7 (builder7_build null_alloy sample_builder)"]
  by (simp add: sample_built)

definition deploying_builder :: builder_v0_7 where
  "deploying_builder =
     builder7_paymaster (builder7_factory sample_builder 11 [12, 13]) 14 15 16 [17]"

lemma deploying_built:
  "b7_packed_uo deploying_builder = None"
  "b7_chain_spec deploying_builder = chain_spec_default"
  "uo7_grouped (builder7_build al deploying_builder)"
  "(builder7_build al deploying_builder)\<lparr>u7_authorization_tuple := None, u7_aggregator := None\<rparr> =
     builder7_build al deploying_builder"
  "u7_factory (builder7_build al deploying_builder) = Some 11"
  "u7_paymaster (builder7_build al deploying_builder) = Some 14"
  by (simp_all add: builder7_build_def deploying_builder_def sample_builder_def builder7_new_def
      builder7_factory_def builder7_paymaster_def uo7_grouped_def Let_def split: prod.splits)

theorem unpack_pack_witness:
  "(\<exists>b'. builder7_from_packed (pack_user_operation (builder7_build null_alloy deploying_builder))
           chain_spec_default = Some (Inr b') \<and>
         builder7_build null_alloy b' = builder7_build null_alloy deploying_builder) \<and>
   u7_factory (builder7_build null_alloy deploying_builder) = Some 11 \<and>
   u7_paymaster (builder7_build null_alloy deploying_builder) = Some 14"
  using unpack_pack [of deploying_builder null_alloy] by (simp add: deploying_built)

theorem from_packed_panics_witness:
  "builder7_from_packed
     \<lparr>puo_sender = 1, puo_nonce = 2, puo_initCode = [1, 2, 3], puo_callData = [],
      puo_accountGasLimits = replicate 32 0, puo_preVerificationGas = 6,
      puo_gasFees = replicate 32 0, puo_paymasterAndData = [], puo_signature = []\<rparr>
     chain_spec_default = None"
  by (rule from_packed_panics) simp_all

theorem original_signature_restored_witness:
  "u7_signature (uo7_with_original_signature
     (uo7_transform_for_aggregator null_alloy (builder7_build null_alloy sample_builder)
        chain_spec_default 5
        \<lparr>execution_fixed_gas = 0, execution_variable_gas = 0, sig_fixed_length = 0,
         sig_variable_length = 0\<rparr> [])) = [9]"
  using original_signature_restored [of sample_builder null_alloy chain_spec_default 5
      "\<lparr>execution_fixed_gas = 0, execution_variable_gas = 0, sig_fixed_length = 0,
        sig_variable_length = 0\<rparr>" "[]"]
  by (simp add: sample_built)

end
