(* ===== verification/Pool_Samples.thy ===== *)
theory Pool_Samples
  imports Pool_Properties Types_Theorems
begin

text \<open>
  Concrete operations and pools, at which the theorems about the pool are applied.
\<close>

definition sample_uo :: "address \<Rightarrow> u256 \<Rightarrow> b256 \<Rightarrow> u128 \<Rightarrow> user_operation_v0_6" where
  "sample_uo sender nonce hash fee =
     \<lparr>u6_sender = sender, u6_nonce = nonce, u6_init_code = [], u6_call_data = [1, 0, 2],
      u6_call_gas_limit = 1000, u6_verification_gas_limit = 2000, u6_pre_verification_gas = 100,
      u6_max_fee_per_gas = fee, u6_max_priority_fee_per_gas = fee, u6_paymaster_and_data = [],
      u6_signature = [], u6_calldata_gas_cost = 0, u6_calldata_floor_gas_limit = 0,
      u6_authorization_tuple = None, u6_aggregator = None, u6_original_signature = [],
      u6_original_calldata_cost = 0, u6_original_calldata_floor_limit = 0,
      u6_aggregator_costs = \<lparr>execution_fixed_gas = 0, execution_variable_gas = 0,
        sig_fixed_length = 0, sig_variable_length = 0\<rparr>,
      u6_hash = hash, u6_entry_point = 99, u6_chain_id = 1\<rparr>"

definition sample_po :: "address \<Rightarrow> u256 \<Rightarrow> b256 \<Rightarrow> u128 \<Rightarrow> pool_operation" where
  "sample_po sender nonce hash fee =
     \<lparr>po_uo = V0_6 (sample_uo sender nonce hash fee), po_entry_point = 99, po_aggregator = None,
      po_valid_time_range = \<lparr>valid_after = 0, valid_until = 500\<rparr>, po_expected_code_hash = 0,
      po_sim_block_hash = 0, po_sim_block_number = 10, po_account_is_staked = False,
      po_entity_infos =
        \<lparr>eis_factory = None,
         eis_sender = \<lparr>ei_entity = \<lparr>ent_kind = Account, ent_address = sender\<rparr>,
                       ei_is_staked = False\<rparr>,
         eis_paymaster = None, eis_aggregator = None\<rparr>,
      po_da_gas_data = DAEmpty, po_filter_id = None, po_perms = permissions_default\<rparr>"

text \<open>A pool with room for two of the sample operations, which take 60 bytes and 3 of data each.\<close>

definition sample_config :: pool_inner_config where
  "sample_config =
     \<lparr>pc_chain_spec = chain_spec_default, pc_entry_point = 99, pc_max_size_of_pool_bytes = 130,
      pc_min_replacement_fee_increase_percentage = 10, pc_throttled_entity_mempool_count = 1,
      pc_throttled_entity_live_blocks = 5, pc_da_gas_tracking_enabled = False,
      pc_max_time_in_pool = None,
      pc_verification_gas_limit_efficiency_reject_threshold = Fin 0,
      pc_type_sizes = \<lparr>size_of_PoolOperation = 50, size_of_OrderedPoolOperation = 10\<rparr>\<rparr>"

lemma sample_po_simps [simp]:
  "uo_hash (po_uo (sample_po s n h f)) = h"
  "uo_id (po_uo (sample_po s n h f)) = \<lparr>id_sender = s, id_nonce = n\<rparr>"
  "uo_max_fee_per_gas (po_uo (sample_po s n h f)) = f"
  "uo_max_priority_fee_per_gas (po_uo (sample_po s n h f)) = f"
  "uo_gas_price (po_uo (sample_po s n h f)) 0 = f"
  "po_entities (sample_po s n h f) = [\<lparr>ent_kind = Account, ent_address = s\<rparr>]"
  "po_mem_size sz (sample_po s n h f) = size_of_PoolOperation sz + 3"
  by (simp_all add: sample_po_def sample_uo_def uo6_id_def uo_gas_price_def po_entities_def
      entity_infos_entities_def entity_type_iter_def map_filter_simps
      entity_new_def po_mem_size_def uo6_heap_size_def byte_len_def)

definition sample_handle :: "pool_operation \<Rightarrow> u64 \<Rightarrow> nat \<Rightarrow> ordered_pool_operation" where
  "sample_handle po sid loc =
     \<lparr>oo_po = po, oo_submission_id = sid, oo_insertion_time = 0, oo_loc = loc\<rparr>"

definition sample_add :: "pool_inner \<Rightarrow> pool_operation \<Rightarrow> pool_inner" where
  "sample_add p po = fst (the (pool_add_operation p po 0 0 0))"

definition pool0 :: pool_inner where "pool0 = pool_new sample_config None"
definition pool1 :: pool_inner where "pool1 = sample_add pool0 (sample_po 1 0 7 100)"
definition pool2 :: pool_inner where "pool2 = sample_add pool1 (sample_po 2 0 8 200)"

lemmas pool_eval = pool_add_operation_prepared prepared_def pool_new_def sample_config_def
  add_operation_internal_def check_replacement_def insert_operation_def enforce_size_def
  enforce_size_loop_done size_gt_def size_add_def size_sub_def oo_mem_size_def oo_eligible_def
  oo_cells_new_def oo_cmp_def oo_gas_price_def word_cmp_def Let_def

lemma add_pool0: "pool_add_operation pool0 (sample_po 1 0 7 100) 0 0 0 = Some (pool1, Inr 7)"
  by (simp add: pool1_def sample_add_def pool0_def pool_eval)

lemma pool1_simps [simp]:
  "pi_config pool1 = sample_config" "pi_prev_block_number pool1 = 0" "pi_da_gas_oracle pool1 = None"
  "pi_best pool1 = [sample_handle (sample_po 1 0 7 100) 0 0]"
  "pi_by_hash pool1 = [7 \<mapsto> sample_handle (sample_po 1 0 7 100) 0 0]"
  "pi_by_id pool1 = [\<lparr>id_sender = 1, id_nonce = 0\<rparr> \<mapsto> sample_handle (sample_po 1 0 7 100) 0 0]"
  "pi_submission_id pool1 = 1" "pi_next_loc pool1 = 1" "pi_pool_size pool1 = 63"
  "pi_store pool1 0 = oo_cells_new (sample_po 1 0 7 100) True 0 0 0"
  "pi_mined_at_block_number_by_hash pool1 = Map.empty"
  "pi_mined_hashes_with_block_numbers pool1 = []"
  "pi_count_by_address pool1 = [1 \<mapsto> entity_counter_default\<lparr>ec_sender := 1\<rparr>]"
  by (simp_all add: increment_address_count_def entity_counter_default_def saturating_add_def
      pool1_def sample_add_def pool0_def pool_eval sample_handle_def)

lemma add_pool1: "pool_add_operation pool1 (sample_po 2 0 8 200) 0 0 0 = Some (pool2, Inr 8)"
  by (simp add: pool2_def sample_add_def pool_eval sample_handle_def)

lemma pool2_simps [simp]:
  "pi_config pool2 = sample_config" "pi_prev_block_number pool2 = 0" "pi_da_gas_oracle pool2 = None"
  "pi_best pool2 = [sample_handle (sample_po 2 0 8 200) 1 1, sample_handle (sample_po 1 0 7 100) 0 0]"
  "pi_by_hash pool2 = [7 \<mapsto> sample_handle (sample_po 1 0 7 100) 0 0,
                       8 \<mapsto> sample_handle (sample_po 2 0 8 200) 1 1]"
  "pi_by_id pool2 = [\<lparr>id_sender = 1, id_nonce = 0\<rparr> \<mapsto> sample_handle (sample_po 1 0 7 100) 0 0,
                     \<lparr>id_sender = 2, id_nonce = 0\<rparr> \<mapsto> sample_handle (sample_po 2 0 8 200) 1 1]"
  "pi_submission_id pool2 = 2" "pi_next_loc pool2 = 2" "pi_pool_size pool2 = 126"
  "pi_store pool2 0 = oo_cells_new (sample_po 1 0 7 100) True 0 0 0"
  "pi_store pool2 (Suc 0) = oo_cells_new (sample_po 2 0 8 200) True 0 0 0"
  "pi_mined_at_block_number_by_hash pool2 = Map.empty"
  "pi_mined_hashes_with_block_numbers pool2 = []"
  "pi_count_by_address pool2 = [1 \<mapsto> entity_counter_default\<lparr>ec_sender := 1\<rparr>,
                                2 \<mapsto> entity_counter_default\<lparr>ec_sender := 1\<rparr>]"
  by (simp_all add: increment_address_count_def entity_counter_default_def saturating_add_def
      pool2_def sample_add_def pool_eval sample_handle_def)

lemma add_pool2_replace:
  "pool_add_operation pool2 (sample_po 2 0 9 220) 0 0 0 =
     Some (sample_add pool2 (sample_po 2 0 9 220), Inr 9)"
  by (simp add: sample_add_def pool_eval sample_handle_def get_min_replacement_fees_def
      increase_by_percent_def remove_operation_by_hash_def remove_operation_internal_def)

end
