(* ===== verification/Pool_Liveness.thy ===== *)
theory Pool_Liveness
  imports Pool_Reach
begin

text \<open>
  Without a DA gas oracle no operation is ever ineligible, so all stored operations are in \<open>best\<close>
  and the loop that evicts operations ends: adding an operation returns.
\<close>

definition all_eligible :: "pool_inner \<Rightarrow> bool" where
  "all_eligible p \<longleftrightarrow>
     pi_da_gas_oracle p = None \<and> (\<forall>op\<in>pool_handles p. oo_eligible (pi_store p) op)"

lemma all_eligible_best:
  assumes "pool_inv p" "all_eligible p"
  shows "ran (pi_by_hash p) \<subseteq> set (pi_best p)"
  using assms
  by (auto simp: all_eligible_def pool_handles_def pool_inv_def pool_inv_except_def best_ok_def)

lemma all_eligible_mono:
  assumes "all_eligible p" "pool_handles p' \<subseteq> pool_handles p" "pi_store p' = pi_store p"
    "pi_da_gas_oracle p' = pi_da_gas_oracle p"
  shows "all_eligible p'"
  using assms by (auto simp: all_eligible_def)

lemma all_eligible_remove:
  assumes "all_eligible p"
  shows "all_eligible (fst (remove_operation_internal p h bn))"
proof (cases "pi_by_hash p h")
  case (Some op)
  then show ?thesis
    using all_eligible_mono [OF assms remove_operation_internal_mined_subset [OF Some]] by simp
qed (simp add: assms)

lemma all_eligible_remove_all:
  "all_eligible p \<Longrightarrow>
   all_eligible (fold (\<lambda>h p. fst (remove_operation_internal p h None)) hs p)"
  by (induction hs arbitrary: p) (simp_all add: all_eligible_remove)

lemma all_eligible_frame [simp]:
  "all_eligible (p\<lparr>pi_events := es\<rparr>) = all_eligible p"
  "all_eligible (p\<lparr>pi_prev_block_number := n\<rparr>) = all_eligible p"
  "all_eligible (p\<lparr>pi_preconfirmed_uos_bundle_mapping := m\<rparr>) = all_eligible p"
  "all_eligible (p\<lparr>pi_preconfiemed_uos_at_block_number := mb\<rparr>) = all_eligible p"
  "all_eligible (p\<lparr>pi_cache_size := c\<rparr>) = all_eligible p"
  "all_eligible (p\<lparr>pi_best := b\<rparr>) = all_eligible p"
  by (simp_all add: all_eligible_def pool_handles_def)

lemma all_eligible_uncached: "all_eligible p \<Longrightarrow> all_eligible (uncached p h n)"
  by (rule all_eligible_mono) (auto simp: uncached_def pool_handles_def ran_def)

section \<open>Adding\<close>

lemma insert_handles:
  "pool_handles (insert_operation p op) \<subseteq> insert op (pool_handles p)"
  by (auto simp: pool_handles_def insert_operation_fields ran_def)

lemma all_eligible_insert:
  "all_eligible p \<Longrightarrow> oo_eligible (pi_store p) op \<Longrightarrow> all_eligible (insert_operation p op)"
  using insert_handles [of p op] by (auto simp: all_eligible_def insert_operation_fields)

lemma all_eligible_replaced: "all_eligible p \<Longrightarrow> all_eligible (replaced p i)"
  by (simp add: replaced_def remove_operation_by_hash_def all_eligible_remove split: option.splits)

lemma all_eligible_evicted:
  assumes "evicted p p' removed" "all_eligible p"
  shows "all_eligible p'"
proof (rule all_eligible_mono [OF assms(2)])
  show "pool_handles p' \<subseteq> pool_handles p"
    using assms(1) by (auto simp: evicted_def pool_handles_def ran_def split: if_splits)
qed (use assms(1) in \<open>simp_all add: evicted_def\<close>)

lemma add_internal_all_eligible:
  assumes "add_operation_internal p op = Some (p', res)" "pool_inv p" "fresh_op p op"
    "all_eligible p" "oo_eligible (pi_store p) op"
  shows "all_eligible p'"
  using assms(1-3)
proof (cases rule: add_operation_internal_cases)
  case (stored r q removed)
  have "all_eligible q"
    using assms(4,5) by (simp add: stored(2) all_eligible_insert all_eligible_replaced)
  then show ?thesis using all_eligible_evicted [OF stored(6)] by simp
qed (use assms in simp)

lemma prepared_eligible:
  assumes "pool_inv p" "all_eligible p" "prepared p po base_fee required_pvg now = (q, op)"
  shows "all_eligible q" "oo_eligible (pi_store q) op"
proof -
  have q: "q = p\<lparr>pi_submission_id := pi_submission_id p + 1,
      pi_store := (pi_store p)(pi_next_loc p :=
        oo_cells_new po True base_fee (pi_prev_block_number p) now),
      pi_next_loc := pi_next_loc p + 1\<rparr>" and op: "oo_loc op = pi_next_loc p"
    using assms(2,3) by (auto simp: prepared_def all_eligible_def Let_def)
  show "oo_eligible (pi_store q) op" by (simp add: oo_eligible_def q op oo_cells_new_def)
  have "oo_loc x \<noteq> pi_next_loc p" if "x \<in> pool_handles p" for x
    using that pool_invD(3) [OF assms(1) [unfolded pool_inv_def]] by (auto simp: handles_ok_def)
  then show "all_eligible q"
    using assms(2) by (simp add: all_eligible_def q oo_eligible_def pool_handles_def)
qed

lemma add_internal_returns:
  assumes "pool_inv p" "fresh_op p op" "all_eligible p" "oo_eligible (pi_store p) op"
    "0 \<le> sint (pc_max_size_of_pool_bytes (pi_config p))"
  shows "\<exists>p' res. add_operation_internal p op = Some (p', res)"
proof (cases "check_replacement p (oo_uo op)")
  case (Inr r)
  note C = check_replacement_Inr [OF Inr]
  let ?q = "insert_operation (replaced p (uo_id (oo_uo op))) op"
  have q: "pool_inv ?q"
    using C(1) assms(1,2)
    by (intro insert_operation_inv replaced_inv fresh_replaced)
      (simp_all add: replaced_by_id replaced_by_hash)
  have "all_eligible ?q" using assms(3,4) by (simp add: all_eligible_insert all_eligible_replaced)
  from enforce_size_loop_returns [OF q all_eligible_best [OF q this], of "[]"]
  obtain p' es where "enforce_size_loop ?q [] = Some (p', es)"
    using assms(5) by (auto simp: insert_operation_fields)
  moreover have "(case r of Some hash \<Rightarrow> fst (remove_operation_by_hash p hash) | None \<Rightarrow> p) =
      replaced p (uo_id (oo_uo op))"
    using C(2) by (simp add: replaced_def split: option.splits)
  ultimately show ?thesis
    by (cases es) (simp_all add: add_operation_internal_def Inr enforce_size_def Let_def)
qed (simp add: add_operation_internal_def)

section \<open>Maintenance\<close>

definition same_eligible :: "pool_inner \<Rightarrow> maintenance_state \<Rightarrow> bool" where
  "same_eligible p s \<longleftrightarrow>
     pi_da_gas_oracle (fst s) = None \<and> pool_handles (fst s) = pool_handles p \<and>
     oo_eligible (pi_store (fst s)) = oo_eligible (pi_store p)"

lemma update_gas_price_eligible [simp]: "oo_eligible (update_gas_price op bf st) = oo_eligible st"
  by (auto simp: fun_eq_iff oo_eligible_def update_gas_price_def)

lemma set_underpriced_eligible' [simp]: "oo_eligible (set_underpriced op st) = oo_eligible st"
  by (auto simp: fun_eq_iff oo_eligible_def set_underpriced_def)

lemma pool_handles_upd [simp]:
  "pool_handles (p\<lparr>pi_best := b\<rparr>) = pool_handles p"
  "pool_handles (p\<lparr>pi_store := st\<rparr>) = pool_handles p"
  by (simp_all add: pool_handles_def)

lemma maintain_best_eligible [simp]:
  "pi_da_gas_oracle (maintain_best fees op p) = pi_da_gas_oracle p"
  "pool_handles (maintain_best fees op p) = pool_handles p"
  "oo_eligible (pi_store (maintain_best fees op p)) = oo_eligible (pi_store p)"
  by (simp_all add: maintain_best_def Let_def)

lemma same_eligible_step:
  assumes "same_eligible p s"
  shows "same_eligible p (maintain_op al now ts data fees base_fee h s)"
proof -
  obtain q expired events where s: "s = (q, expired, events)" by (metis prod_cases3)
  note S = assms [unfolded same_eligible_def s fst_conv]
  show ?thesis
  proof (cases "pi_by_hash q h")
    case (Some op)
    show ?thesis
      using S Some
      by (cases "expired_at (pi_config q) now ts op")
        (simp_all add: same_eligible_def maintain_op_def s)
  qed (use S in \<open>simp add: same_eligible_def maintain_op_def s\<close>)
qed

lemma same_eligible_fold:
  "same_eligible p s \<Longrightarrow> same_eligible p (fold (maintain_op al now ts data fees base_fee) hs s)"
  by (induction hs arbitrary: s) (simp_all add: same_eligible_step)

lemma all_eligible_maintenance:
  assumes "all_eligible p"
  shows "all_eligible (do_maintenance al p order now n ts data fees base_fee)"
proof -
  obtain q expired events where q: "fold (maintain_op al now ts data fees base_fee) order
      (p\<lparr>pi_best := []\<rparr>, [], []) = (q, expired, events)" by (metis prod_cases3)
  have "same_eligible p (p\<lparr>pi_best := []\<rparr>, [], [])"
    using assms by (simp add: same_eligible_def all_eligible_def)
  from same_eligible_fold [OF this, of al now ts data fees base_fee order]
  have "all_eligible q" using assms by (simp add: q same_eligible_def all_eligible_def)
  then have "all_eligible (fold (\<lambda>h p. fst (remove_operation_internal p h None)) expired q)"
    by (rule all_eligible_remove_all)
  then show ?thesis
    by (simp add: do_maintenance_def q emit_all remove_operation_by_hash_def Let_def)
qed

section \<open>Reachable pools\<close>

lemma all_eligible_forget:
  "all_eligible p \<Longrightarrow> all_eligible (forget_mined_operations_before_block p n)"
proof (induction "length (pi_mined_hashes_with_block_numbers p)" arbitrary: p rule: less_induct)
  case less
  have "all_eligible (forget_mined_operations_before_block (forget_first p bn h) n)"
    if "pi_mined_hashes_with_block_numbers p = (bn, h) # rest" for bn h rest
    by (rule less.hyps)
      (use that less.prems in \<open>simp_all add: forget_first_hashes forget_first_def
        all_eligible_uncached\<close>, simp add: uncached_def)
  then show ?case using less.prems by (auto simp: forget_unfold [of p] split: list.splits)
qed

lemma all_eligible_preconfirm: "all_eligible p \<Longrightarrow> all_eligible (preconfirm_txns p txns)"
  unfolding preconfirm_txns_def
  by (rule fold_inv [of all_eligible]) (auto intro!: fold_inv [of all_eligible])

lemma all_eligible_outdated:
  "all_eligible p \<Longrightarrow> all_eligible (remove_out_of_date_preconfirmed_uos p order n)"
  unfolding remove_out_of_date_preconfirmed_uos_def Let_def all_eligible_frame
  by (rule fold_inv [of all_eligible]) (auto split: option.splits)

lemma pool_step_all_eligible:
  "pool_step Q p p' \<Longrightarrow> pool_inv p \<Longrightarrow> all_eligible p \<Longrightarrow> all_eligible p'"
proof (induction rule: pool_step.induct)
  case (add p po base_fee required_pvg now p' res)
  obtain q op where q: "prepared p po base_fee required_pvg now = (q, op)"
    by (cases "prepared p po base_fee required_pvg now")
  show ?case
    using add add_internal_all_eligible prepared_inv [OF add(4,2) q] prepared_eligible [OF add(4,5) q]
    by (simp add: pool_add_operation_prepared q)
next
  case (unmine p m p' r)
  from unmine(1) show ?case
  proof (cases rule: unmine_operation_cases)
    case (known op n res)
    then have "op \<in> pool_handles p" by (force simp: pool_handles_def ran_def)
    then have "oo_eligible (pi_store (uncached p (mo_hash m) n)) op"
      using unmine(3) by (simp add: all_eligible_def uncached_def)
    then show ?thesis
      using add_internal_all_eligible [OF known(2)] uncached_inv uncached_fresh known(1) unmine(2,3)
        all_eligible_uncached by blast
  qed (simp add: unmine)
qed (simp_all add: remove_operation_by_hash_def all_eligible_remove mine_operation_def
    pool_throttle_entity_def pool_remove_entity_def all_eligible_remove_all all_eligible_forget
    all_eligible_preconfirm preconfirm_txns_at_block_number_def all_eligible_outdated
    all_eligible_maintenance Let_def split: option.splits,
   simp add: all_eligible_def pool_clear_def pool_handles_def)

lemma reachable_all_eligible: "pool_reachable cfg None p \<Longrightarrow> all_eligible p"
proof (induction rule: pool_reachable.induct)
  case new
  show ?case by (simp add: all_eligible_def pool_new_def pool_handles_def)
next
  case (step p p')
  then show ?case using pool_step_all_eligible pool_reachable_inv by blast
qed

end
