(* ===== verification/Pool_Theorems.thy ===== *)
theory Pool_Theorems
  imports Pool_Samples Pool_Liveness
begin

text \<open>
  The theorems about the pool, each followed by its application to concrete pools.
\<close>

section \<open>Reachable sample pools\<close>

lemma pool0_reachable: "pool_reachable sample_config None pool0"
  unfolding pool0_def by (rule pool_reachable.new)

lemma pool1_reachable: "pool_reachable sample_config None pool1"
  by (rule pool_reachable.step [OF pool0_reachable], rule pool_step.add [OF add_pool0])
    (simp_all add: pool0_def pool_new_def)

lemma pool2_reachable: "pool_reachable sample_config None pool2"
  by (rule pool_reachable.step [OF pool1_reachable], rule pool_step.add [OF add_pool1]) simp_all

lemmas pool1_inv = pool_reachable_inv [OF pool1_reachable]
lemmas pool2_inv = pool_reachable_inv [OF pool2_reachable]

section \<open>The invariant\<close>

text \<open>
  C1: in every pool that the public operations reach from a new one, \<open>by_hash\<close> and \<open>by_id\<close> hold the
  same operations under their own hash and id, \<open>best\<close> is sorted and holds only stored operations
  and every eligible one, the entity counts and the pool size are those of the stored operations,
  submission ids are unique, and the cache of mined operations agrees with its index by block.
\<close>

theorem reachable_pool_invariant: "pool_reachable cfg da p \<Longrightarrow> pool_inv p"
  by (rule pool_reachable_inv)

theorem reachable_pool_invariant_witness: "pool_inv pool2"
  by (rule reachable_pool_invariant [OF pool2_reachable])

text \<open>
  In a reachable pool the lookup by hash and the lookup by sender and nonce give the same
  operation.
\<close>

theorem reachable_lookups_agree:
  assumes "pool_reachable cfg da p"
  shows "get_operation_by_hash p (uo_hash (po_uo po)) = Some po \<longleftrightarrow>
         get_operation_by_id p (uo_id (po_uo po)) = Some po"
  using pool_inv_by_hash(2) [OF pool_reachable_inv [OF assms, unfolded pool_inv_def]]
    pool_inv_by_id(2) [OF pool_reachable_inv [OF assms, unfolded pool_inv_def]]
  by (fastforce simp: get_operation_by_hash_def get_operation_by_id_def)

theorem reachable_lookups_agree_witness:
  "get_operation_by_id pool2 \<lparr>id_sender = 2, id_nonce = 0\<rparr> = Some (sample_po 2 0 8 200)"
  using reachable_lookups_agree [OF pool2_reachable, of "sample_po 2 0 8 200"]
  by (simp add: get_operation_by_hash_def sample_handle_def)

text \<open>
  In a reachable pool the count of an address is the number of stored operations that use it,
  counted once per role (sender, paymaster, aggregator, factory).
\<close>

theorem reachable_address_count:
  assumes "pool_reachable cfg da p"
  shows "address_count p a =
    of_nat (\<Sum>t\<leftarrow>entity_type_iter.
      card {h. \<exists>op. pi_by_hash p h = Some op \<and> contains_entity (oo_po op) (entity_new t a)})"
  using pool_invD(5) [OF pool_reachable_inv [OF assms, unfolded pool_inv_def]]
  by (rule address_count_uses [unfolded uses_def])

theorem reachable_address_count_witness:
  "address_count pool2 1 = 1 \<and>
   (of_nat (\<Sum>t\<leftarrow>entity_type_iter.
      card {h. \<exists>op. pi_by_hash pool2 h = Some op \<and>
                   contains_entity (oo_po op) (entity_new t 1)}) :: usize) = 1"
  unfolding reachable_address_count [OF pool2_reachable, of 1, symmetric]
  by (simp add: address_count_def ec_total_def entity_counter_default_def)

text \<open>
  C4: \<open>best_operations\<close> of a reachable pool lists operations by descending gas price, and among
  equal gas prices by ascending submission id.
\<close>

theorem best_operations_order:
  assumes "pool_reachable cfg da p" "i < j" "j < length (pi_best p)"
  shows "oo_gas_price (pi_store p) (pi_best p ! j) < oo_gas_price (pi_store p) (pi_best p ! i) \<or>
         oo_gas_price (pi_store p) (pi_best p ! i) = oo_gas_price (pi_store p) (pi_best p ! j) \<and>
         oo_submission_id (pi_best p ! i) < oo_submission_id (pi_best p ! j)"
  using nth_best_less [OF pool_reachable_inv [OF assms(1)] assms(2,3)] by (simp add: oo_cmp_Less)

theorem best_operations_order_witness:
  "length (pi_best pool2) = 2 \<and>
   oo_gas_price (pi_store pool2) (pi_best pool2 ! 1) < oo_gas_price (pi_store pool2) (pi_best pool2 ! 0)"
  using best_operations_order [OF pool2_reachable, of 0 1] by (simp add: sample_handle_def)

section \<open>Adding an operation\<close>

text \<open>
  C21: when adding an operation succeeds, the answer is its hash, both lookups find it, the pool
  respects its size limit, and every other operation of the pool was there before with another
  sender or nonce.
\<close>

theorem add_operation_ok:
  assumes "pool_reachable cfg da p" "unat (pi_submission_id p) + 1 < 2 ^ 62"
    "pool_add_operation p po base_fee required_pvg now = Some (p', Inr h)"
  shows "h = uo_hash (po_uo po) \<and> get_operation_by_hash p' h = Some po \<and>
    get_operation_by_id p' (uo_id (po_uo po)) = Some po \<and>
    \<not> size_gt (pi_pool_size p') (pc_max_size_of_pool_bytes (pi_config p')) \<and>
    (\<forall>h' po'. h' \<noteq> h \<and> get_operation_by_hash p' h' = Some po' \<longrightarrow>
       get_operation_by_hash p h' = Some po' \<and> uo_id (po_uo po') \<noteq> uo_id (po_uo po))"
proof -
  note inv = pool_reachable_inv [OF assms(1)]
  obtain op removed r where R: "oo_po op = po" "h = uo_hash (po_uo po)" "pool_inv p'"
    "\<not> over_size p'" "check_replacement p (po_uo po) = Inr r" "h \<notin> set removed"
    "pi_by_hash p' = (\<lambda>h'. if h' \<in> set removed then None
                          else ((pi_by_hash (replaced p (uo_id (po_uo po))))(h \<mapsto> op)) h')"
    by (rule add_operation_result [OF inv assms(2,3)])
  have h: "pi_by_hash p' h = Some op" using R(6,7) by simp
  have "pi_by_id p' (uo_id (po_uo po)) = Some op"
    using pool_inv_by_hash(2) [OF R(3) [unfolded pool_inv_def] h] R(1) by simp
  moreover have "get_operation_by_hash p h' = Some po' \<and> uo_id (po_uo po') \<noteq> uo_id (po_uo po)"
    if "h' \<noteq> h" "get_operation_by_hash p' h' = Some po'" for h' po'
    using that R(7) by (auto simp: get_operation_by_hash_def replaced_by_hash [OF inv]
        split: if_splits option.splits)
  ultimately show ?thesis
    using h R(1,2,4) by (auto simp: get_operation_by_hash_def get_operation_by_id_def)
qed

theorem add_operation_ok_witness:
  "get_operation_by_hash pool2 8 = Some (sample_po 2 0 8 200) \<and>
   get_operation_by_id pool2 \<lparr>id_sender = 2, id_nonce = 0\<rparr> = Some (sample_po 2 0 8 200)"
  using add_operation_ok [OF pool1_reachable _ add_pool1] by simp

text \<open>
  C22: when adding an operation succeeds although the pool held an operation of the same sender and
  nonce, both fees of the new one are at least those of the old one raised by the configured
  percentage (rounded down), and the old one is gone.
\<close>

theorem add_operation_replaces:
  assumes "pool_reachable cfg da p" "unat (pi_submission_id p) + 1 < 2 ^ 62"
    "pool_add_operation p po base_fee required_pvg now = Some (p', Inr h)"
    "get_operation_by_id p (uo_id (po_uo po)) = Some old"
    "percent_fits (uo_max_fee_per_gas (po_uo old))
       (pc_min_replacement_fee_increase_percentage (pi_config p))"
    "percent_fits (uo_max_priority_fee_per_gas (po_uo old))
       (pc_min_replacement_fee_increase_percentage (pi_config p))"
  shows "unat (uo_max_fee_per_gas (po_uo old)) *
           (100 + unat (pc_min_replacement_fee_increase_percentage (pi_config p))) div 100
           \<le> unat (uo_max_fee_per_gas (po_uo po)) \<and>
         unat (uo_max_priority_fee_per_gas (po_uo old)) *
           (100 + unat (pc_min_replacement_fee_increase_percentage (pi_config p))) div 100
           \<le> unat (uo_max_priority_fee_per_gas (po_uo po)) \<and>
         uo_hash (po_uo old) \<noteq> uo_hash (po_uo po) \<and>
         get_operation_by_hash p' (uo_hash (po_uo old)) = None"
proof -
  note inv = pool_reachable_inv [OF assms(1)]
  obtain o' where o': "pi_by_id p (uo_id (po_uo po)) = Some o'" "oo_po o' = old"
    using assms(4) by (auto simp: get_operation_by_id_def)
  note O = pool_inv_by_id [OF inv [unfolded pool_inv_def] o'(1)]
  obtain r where r: "check_replacement p (po_uo po) = Inr r"
    by (rule add_operation_result [OF inv assms(2,3)])
  note fees = check_replacement_fees [OF r o'(1)] and new = check_replacement_Inr(1) [OF r]
  have ne: "uo_hash (po_uo old) \<noteq> uo_hash (po_uo po)" using new O(2) o'(2) by auto
  have "pi_by_hash p' (uo_hash (po_uo old)) = None"
    by (rule add_operation_result [OF inv assms(2,3)])
      (use ne O o'(2) in \<open>simp add: replaced_by_hash [OF inv]\<close>)
  then show ?thesis
    using fees ne o'(2) assms(5,6)
    by (simp add: word_le_nat_alt unat_increase_by_percent get_operation_by_hash_def)
qed

theorem add_operation_replaces_witness:
  "get_operation_by_hash (sample_add pool2 (sample_po 2 0 9 220)) 8 = None"
  using add_operation_replaces [OF pool2_reachable _ add_pool2_replace, of "sample_po 2 0 8 200"]
  by (simp add: get_operation_by_id_def sample_handle_def percent_fits_def sample_config_def)

end
