(* ===== verification/Pool_Upkeep.thy ===== *)
theory Pool_Upkeep
  imports Pool_Theorems
begin

text \<open>
  The theorems about evicting, maintaining, throttling, mining and forgetting operations.
\<close>

section \<open>Lemmas\<close>

lemma bts_insert_other: "x \<noteq> y \<Longrightarrow> x \<in> set (bts_insert c y xs) \<longleftrightarrow> x \<in> set xs"
  by (induction xs) (auto split: ordering.splits)

lemma sorted_same_set:
  assumes "bts_sorted (oo_cmp st) xs" "bts_sorted (oo_cmp st) ys" "set xs = set ys"
  shows "xs = ys"
proof -
  have asym: "\<not> (oo_cmp st a b = Less \<and> oo_cmp st b a = Less)" for a b
    by (auto simp: oo_cmp_Less)
  show ?thesis
    using assms
  proof (induction xs arbitrary: ys)
    case (Cons x xs)
    then obtain y ys' where ys: "ys = y # ys'" by (cases ys) auto
    have "x = y"
    proof (rule ccontr)
      assume "x \<noteq> y"
      then have "x \<in> set ys'" "y \<in> set xs" using Cons.prems(3) ys by auto
      then show False using Cons.prems(1,2) ys asym by auto
    qed
    have "x \<notin> set xs" "y \<notin> set ys'"
      using best.sorted_distinct [OF Cons.prems(1)] best.sorted_distinct [OF Cons.prems(2)] ys by auto
    then have "set xs = set ys'" using Cons.prems(3) ys \<open>x = y\<close> by (simp add: insert_ident)
    then have "xs = ys'" using Cons.IH Cons.prems(1,2) ys by simp
    then show ?case using ys \<open>x = y\<close> by simp
  qed simp
qed

lemma in_best_by_hash:
  assumes "pool_inv p" "op \<in> set (pi_best p)"
  shows "pi_by_hash p (uo_hash (oo_uo op)) = Some op"
proof -
  note I = assms(1) [unfolded pool_inv_def]
  obtain h where "pi_by_hash p h = Some op"
    using pool_invD(4) [OF I] assms(2) by (auto simp: best_ok_def ran_def)
  then show ?thesis using pool_inv_by_hash(1) [OF I] by metis
qed

text \<open>The pool after an operation was mined and unmined: what is stored is what was stored.\<close>

lemma mine_unmine:
  fixes n :: u64
  assumes inv: "pool_inv p" and op: "pi_by_id p (mo_id m) = Some op"
    and hash: "mo_hash m = uo_hash (oo_uo op)" and size: "\<not> over_size p"
  defines "q \<equiv> insert_operation
      (uncached (fst (mine_operation p m n)) (mo_hash m) n) op"
  shows "unmine_operation (fst (mine_operation p m n)) m = Some (q, Some (oo_po op))"
    "pi_by_hash q = pi_by_hash p" "pi_by_id q = pi_by_id p" "pi_pool_size q = pi_pool_size p"
    "pool_inv q" "pi_store q = pi_store p" "pi_config q = pi_config p"
proof -
  note I = inv [unfolded pool_inv_def]
  note O = pool_inv_by_id [OF I op]
  let ?h = "uo_hash (oo_uo op)"
  let ?p1 = "fst (mine_operation p m n)" and ?p2 = "uncached (fst (mine_operation p m n)) ?h n"
  have p1: "?p1 = fst (remove_operation_internal p ?h (Some n))"
    by (simp add: mine_operation_def op)
  note S = remove_operation_internal_Some [OF O(2), of "Some n"]
  have inv1: "pool_inv ?p1" by (rule mine_operation_inv [OF inv])
  have m1: "pi_mined_at_block_number_by_hash ?p1 ?h = Some (op, n)" using S(5) by (simp add: p1)
  have p2: "pi_by_hash ?p2 = (pi_by_hash p)(?h := None)"
      "pi_by_id ?p2 = (pi_by_id p)(uo_id (oo_uo op) := None)"
      "pi_pool_size ?p2 = pi_pool_size p - pi_mem_size p op" "pi_config ?p2 = pi_config p"
      "pi_store ?p2 = pi_store p"
    using S by (simp_all add: uncached_def p1)
  have none: "check_replacement ?p2 (oo_uo op) = Inr None"
    using p2 by (simp add: check_replacement_def)
  have q: "q = insert_operation ?p2 op" by (simp add: q_def hash)
  show fields: "pi_by_hash q = pi_by_hash p" "pi_by_id q = pi_by_id p"
      "pi_pool_size q = pi_pool_size p" "pi_store q = pi_store p" "pi_config q = pi_config p"
    using p2 O by (auto simp: q insert_operation_fields fun_eq_iff op)
  show "pool_inv q"
    unfolding q using uncached_inv [OF inv1] uncached_fresh [OF inv1 m1] p2
    by (intro insert_operation_inv) simp_all
  have "add_operation_internal ?p2 op = Some (q, Inr ?h)"
    using size fields
    by (simp add: add_operation_internal_def none enforce_size_def enforce_size_loop_done
        flip: q)
  then show "unmine_operation ?p1 m = Some (q, Some (oo_po op))"
    using m1 by (simp add: unmine_operation_def hash Let_def uncached_def)
qed

lemma counts_determined:
  assumes "counts_match c m" "counts_match d m" "counts_nonzero c" "counts_nonzero d"
  shows "c = d"
proof
  fix a
  have same: "count_of c a t = count_of d a t" for t
    using assms(1,2) by (simp add: counts_match_def word_unat_eq_iff)
  show "c a = d a"
  proof (cases "c a")
    case None
    then have "count_of d a t = 0" for t using same [of t] by (simp add: count_of_def)
    then show ?thesis
      using assms(4) None by (cases "d a") (auto simp: counts_nonzero_def count_of_def)
  next
    case (Some x)
    then obtain t where "ec_count x t \<noteq> 0" using assms(3) by (auto simp: counts_nonzero_def)
    then have "count_of d a t \<noteq> 0" using same [of t] Some by (simp add: count_of_def)
    then obtain y where y: "d a = Some y" by (cases "d a") (auto simp: count_of_def)
    have "ec_count x t = ec_count y t" for t using same [of t] Some y by (simp add: count_of_def)
    from this [of Account] this [of Paymaster] this [of Aggregator] this [of Factory]
    show ?thesis using Some y by simp
  qed
qed

section \<open>Evicting\<close>

text \<open>Evicting stops at the first pool within the limit.\<close>

lemma evict_last_pool_size:
  assumes "pool_inv p" "pi_best p \<noteq> []"
  shows "pi_pool_size (evict_last p) = pi_pool_size p - pi_mem_size p (last (pi_best p))"
  using remove_operation_internal_Some [of "p\<lparr>pi_best := butlast (pi_best p)\<rparr>"
      "uo_hash (oo_uo (last (pi_best p)))" "last (pi_best p)" None] last_best_by_hash [OF assms]
  by (simp add: evict_last_def)

lemma enforce_size_loop_minimal:
  assumes "enforce_size_loop p removed = Some (p', res)" "pool_inv p" "over_size p"
  shows "length (pi_best p') < length (pi_best p) \<and>
    size_gt (pi_pool_size p' + pi_mem_size p (pi_best p ! length (pi_best p')))
      (pc_max_size_of_pool_bytes (pi_config p))"
  using assms
proof (induction "length (pi_best p)" arbitrary: p removed)
  case 0
  then show ?case by (simp add: enforce_size_loop_stuck)
next
  case (Suc n)
  then have ne: "pi_best p \<noteq> []" by auto
  let ?q = "evict_last p"
  have best: "pi_best ?q = butlast (pi_best p)" by (rule evict_last_best [OF Suc.prems(2) ne])
  have loop: "enforce_size_loop ?q (removed @ [uo_hash (oo_uo (last (pi_best p)))]) = Some (p', res)"
    using Suc.prems enforce_size_loop_step [OF Suc.prems(2,3) ne] by simp
  show ?case
  proof (cases "over_size ?q")
    case True
    have "n = length (pi_best ?q)" using Suc.hyps(2) best by simp
    from Suc.hyps(1) [OF this loop evict_last_inv [OF Suc.prems(2) ne] True] show ?thesis
      by (auto simp: best nth_butlast)
  next
    case False
    then have "p' = ?q" using loop by (simp add: enforce_size_loop_done)
    then show ?thesis
      using Suc.prems(3) ne by (simp add: best evict_last_pool_size [OF Suc.prems(2) ne] last_conv_nth)
  qed
qed

text \<open>
  C8: adding an operation to a reachable pool always returns: the eviction loop ends.  This needs
  a pool without a DA gas oracle, in which every operation is eligible, fewer than \<open>2 ^ 62\<close> operations
  submitted so far, and a size limit that is not negative as a signed number.
\<close>

theorem add_operation_returns:
  assumes "pool_reachable cfg None p" "unat (pi_submission_id p) + 1 < 2 ^ 62"
    "0 \<le> sint (pc_max_size_of_pool_bytes (pi_config p))"
  shows "\<exists>p' res. pool_add_operation p po base_fee required_pvg now = Some (p', res)"
proof -
  obtain q op where q: "prepared p po base_fee required_pvg now = (q, op)"
    by (cases "prepared p po base_fee required_pvg now")
  note inv = pool_reachable_inv [OF assms(1)] and el = reachable_all_eligible [OF assms(1)]
  have "pi_config q = pi_config p" using q by (auto simp: prepared_def Let_def)
  then have "\<exists>p' res. add_operation_internal q op = Some (p', res)"
    using add_internal_returns [OF prepared_inv [OF inv assms(2) q] prepared_eligible [OF inv el q]]
      assms(3) by simp
  then show ?thesis by (simp add: pool_add_operation_prepared q)
qed

theorem add_operation_returns_witness:
  "\<exists>p' res. pool_add_operation pool2 (sample_po 3 0 9 150) 0 0 0 = Some (p', res)"
  using add_operation_returns [OF pool2_reachable] by (simp add: sample_config_def)

text \<open>
  C35: when no operation is eligible, an ineligible operation that takes the pool over its size
  limit makes the eviction loop run forever: adding it does not return.
\<close>

theorem add_ineligible_does_not_return:
  assumes "pi_best p = []" "pc_da_gas_tracking_enabled (pi_config p)" "pi_da_gas_oracle p \<noteq> None"
    "uo_pre_verification_gas (po_uo po) < required_pvg"
    "check_replacement p (po_uo po) = Inr None"
    "size_gt (pi_pool_size p + (size_of_OrderedPoolOperation (pc_type_sizes (pi_config p)) +
        po_mem_size (pc_type_sizes (pi_config p)) po)) (pc_max_size_of_pool_bytes (pi_config p))"
  shows "pool_add_operation p po base_fee required_pvg now = None"
proof -
  obtain q op where q: "prepared p po base_fee required_pvg now = (q, op)"
    by (cases "prepared p po base_fee required_pvg now")
  have f: "pi_best q = []" "pi_config q = pi_config p" "pi_pool_size q = pi_pool_size p"
      "pi_by_hash q = pi_by_hash p" "pi_by_id q = pi_by_id p" "oo_po op = po"
      "\<not> oo_eligible (pi_store q) op"
    using q assms(1-4) by (auto simp: prepared_def Let_def oo_eligible_def oo_cells_new_def)
  have "get_min_replacement_fees q = get_min_replacement_fees p"
    by (simp add: fun_eq_iff get_min_replacement_fees_def f)
  then have c: "check_replacement q (po_uo po) = Inr None"
    using assms(5) by (simp only: check_replacement_def f)
  have "enforce_size_loop (insert_operation q op) [] = None"
    by (rule enforce_size_loop_stuck)
      (use assms(6) in \<open>simp_all add: insert_operation_fields f oo_mem_size_def\<close>)
  then show ?thesis
    by (simp add: pool_add_operation_prepared q add_operation_internal_def f c enforce_size_def Let_def)
qed

theorem add_ineligible_does_not_return_witness:
  "pool_add_operation
     (pool_new (sample_config\<lparr>pc_da_gas_tracking_enabled := True,
                             pc_max_size_of_pool_bytes := 50\<rparr>) (Some (\<lambda>_ _ _ _. 0)))
     (sample_po 1 0 7 100) 0 101 0 = None"
  by (rule add_ineligible_does_not_return)
    (simp_all add: pool_new_def sample_config_def sample_po_def sample_uo_def check_replacement_def
      size_gt_def po_mem_size_def uo6_heap_size_def byte_len_def)

text \<open>
  C23: an eviction that returns leaves the pool within its limit.  It has evicted a tail of the best
  operations, the lowest ranked one first, so that every evicted operation ranks after every one
  that stays among the best, and nothing else was removed from the pool.  It evicts no more than
  needed: with the last operation it evicted the pool would still be over its limit.
\<close>

theorem enforce_size_evicts_worst:
  assumes "pool_inv p" "enforce_size p = Some (p', res)"
  shows "\<exists>removed k. res = Inr removed \<and>
    \<not> size_gt (pi_pool_size p') (pc_max_size_of_pool_bytes (pi_config p')) \<and>
    pi_best p' = take k (pi_best p) \<and>
    removed = map (\<lambda>op. uo_hash (oo_uo op)) (rev (drop k (pi_best p))) \<and>
    (\<forall>x y. x \<in> set (pi_best p') \<and> y \<in> set (pi_best p) \<and> uo_hash (oo_uo y) \<in> set removed \<longrightarrow>
       oo_cmp (pi_store p) x y = Less) \<and>
    pi_by_hash p' = (\<lambda>h. if h \<in> set removed then None else pi_by_hash p h) \<and>
    (removed \<noteq> [] \<longrightarrow>
       size_gt (pi_pool_size p' +
           oo_mem_size (pc_type_sizes (pi_config p)) (pi_best p ! length (pi_best p')))
         (pc_max_size_of_pool_bytes (pi_config p)))"
proof -
  note loop = assms(2) [unfolded enforce_size_def]
  from enforce_size_loop_result [OF loop assms(1)]
  obtain removed where R: "pool_inv p'" "\<not> over_size p'" "res = Inr removed" "evicted p p' removed"
    by auto
  from R(4) obtain k where k: "pi_best p' = take k (pi_best p)"
      "removed = map (\<lambda>op. uo_hash (oo_uo op)) (rev (drop k (pi_best p)))"
      "pi_by_hash p' = (\<lambda>h. if h \<in> set removed then None else pi_by_hash p h)"
    unfolding evicted_def by blast
  have sorted: "bts_sorted (oo_cmp (pi_store p)) (take k (pi_best p) @ drop k (pi_best p))"
    using assms(1) by (simp add: pool_inv_def pool_inv_except_def best_ok_def)
  have "oo_cmp (pi_store p) x y = Less"
    if x: "x \<in> set (pi_best p')" and y: "y \<in> set (pi_best p)" "uo_hash (oo_uo y) \<in> set removed"
    for x y
  proof -
    obtain z where z: "z \<in> set (drop k (pi_best p))" "uo_hash (oo_uo z) = uo_hash (oo_uo y)"
      using y(2) k(2) by auto
    have "z = y"
      using in_best_by_hash [OF assms(1) in_set_dropD [OF z(1)]] in_best_by_hash [OF assms(1) y(1)] z(2)
      by (metis option.inject)
    then show ?thesis using sorted x z(1) k(1) unfolding bts_sorted_append by metis
  qed
  moreover have "over_size p" if "removed \<noteq> []"
    using that enforce_size_loop_done [of p "[]"] loop R(3) by auto
  ultimately show ?thesis
    using R(2,3) k enforce_size_loop_minimal [OF loop assms(1)] by blast
qed

definition tight_pool :: pool_inner where
  "tight_pool = pool2\<lparr>pi_config := sample_config\<lparr>pc_max_size_of_pool_bytes := 100\<rparr>\<rparr>"

lemma tight_pool_inv: "pool_inv tight_pool"
  using pool2_inv
  by (simp add: tight_pool_def pool_inv_def pool_inv_defs pool_handles_def del: pool2_simps(4-))

lemma tight_pool_evicts: "enforce_size tight_pool = Some (evict_last tight_pool, Inr [7])"
proof -
  have over: "over_size tight_pool" "pi_best tight_pool \<noteq> []"
    by (simp_all add: tight_pool_def size_gt_def)
  have "\<not> over_size (evict_last tight_pool)"
    by (simp add: evict_last_pool_size [OF tight_pool_inv over(2)])
      (simp add: tight_pool_def sample_handle_def oo_mem_size_def size_gt_def sample_config_def
        sample_po_def sample_uo_def po_mem_size_def uo6_heap_size_def byte_len_def)
  then show ?thesis
    using enforce_size_loop_step [OF tight_pool_inv over]
    by (simp add: enforce_size_def enforce_size_loop_done)
      (simp add: tight_pool_def sample_handle_def)
qed

theorem enforce_size_evicts_worst_witness:
  "enforce_size tight_pool = Some (evict_last tight_pool, Inr [7]) \<and>
   pi_by_hash (evict_last tight_pool) 7 = None \<and> pi_by_hash (evict_last tight_pool) 8 \<noteq> None"
proof -
  from enforce_size_evicts_worst [OF tight_pool_inv tight_pool_evicts]
  have "pi_by_hash (evict_last tight_pool) = (\<lambda>h. if h \<in> set [7] then None else pi_by_hash tight_pool h)"
    by (elim exE conjE) (simp del: evict_last_keeps)
  then show ?thesis using tight_pool_evicts by (simp del: evict_last_keeps) (simp add: tight_pool_def)
qed

section \<open>Maintenance\<close>

text \<open>
  Maintenance that visits every stored operation once keeps exactly those whose validity, time
  in the pool and sponsorship have not run out, and reprices the best ones with the new base fee.
\<close>

theorem do_maintenance_keeps_live:
  assumes "pool_reachable cfg da p" "distinct order" "set order = dom (pi_by_hash p)"
  shows "pi_by_hash (do_maintenance al p order now n ts data fees base_fee) =
      (\<lambda>h. case pi_by_hash p h of
         Some op \<Rightarrow> if expired_at (pi_config p) now ts op = None then Some op else None
       | None \<Rightarrow> None) \<and>
    (\<forall>op. op \<in> set (pi_best (do_maintenance al p order now n ts data fees base_fee)) \<longrightarrow>
       oo_gas_price (pi_store (do_maintenance al p order now n ts data fees base_fee)) op =
         uo_gas_price (oo_uo op) base_fee)"
  using do_maintenance_result(2,3) [OF pool_reachable_inv [OF assms(1)] assms(2,3)] by blast

theorem do_maintenance_keeps_live_witness:
  "pi_by_hash (do_maintenance null_alloy pool2 [7, 8] 0 1 501 None
     \<lparr>gf_max_fee_per_gas = 0, gf_max_priority_fee_per_gas = 0\<rparr> 0) 7 = None"
proof -
  have "distinct [7, 8 :: b256]" "set [7, 8] = dom (pi_by_hash pool2)" by auto
  from do_maintenance_keeps_live [OF pool2_reachable this, THEN conjunct1] show ?thesis
    by (simp add: expired_at_def sample_handle_def sample_po_def)
qed

section \<open>Throttling and removing entities\<close>

text \<open>
  After an entity was throttled, at most the configured number of its operations are left
  among the best ones, none of them older than the configured number of blocks, and no operation
  without the entity was removed from there.
\<close>

theorem throttle_entity_bounds:
  assumes "pool_inv p" "pool_throttle_entity p e n = (p', removed)"
  shows "length (filter (\<lambda>op. contains_entity (oo_po op) e) (pi_best p'))
           \<le> unat (pc_throttled_entity_mempool_count (pi_config p)) \<and>
         (\<forall>op. op \<in> set (pi_best p') \<and> contains_entity (oo_po op) e \<longrightarrow>
            \<not> po_sim_block_number (oo_po op) + pc_throttled_entity_live_blocks (pi_config p) < n) \<and>
         filter (\<lambda>op. \<not> contains_entity (oo_po op) e) (pi_best p') =
           filter (\<lambda>op. \<not> contains_entity (oo_po op) e) (pi_best p)"
proof -
  let ?k = "pc_throttled_entity_mempool_count (pi_config p)"
  have removed: "removed = throttle_filter (pi_config p) e n ?k (pi_best p)"
    and best: "pi_best p' = filter (\<lambda>op. uo_hash (oo_uo op) \<notin> set removed) (pi_best p)"
    using assms(2) remove_all_best [OF assms(1)] by (auto simp: pool_throttle_entity_def Let_def)
  have "length (filter (\<lambda>op. contains_entity (oo_po op) e) (pi_best p')) \<le> unat ?k"
    using throttle_filter_kept [OF best_distinct_hashes [OF assms(1)]]
    by (simp add: best removed conj_commute)
  moreover have "contains_entity (oo_po op) e"
    if op: "op \<in> set (pi_best p)" and r: "uo_hash (oo_uo op) \<in> set removed" for op
  proof -
    obtain x where x: "x \<in> set (pi_best p)" "contains_entity (oo_po x) e"
        "uo_hash (oo_uo op) = uo_hash (oo_uo x)"
      using r throttle_filter_subset [of "pi_config p" e n ?k "pi_best p"] by (auto simp: removed)
    then have "x = op"
      using in_best_by_hash [OF assms(1) x(1)] in_best_by_hash [OF assms(1) op]
      by (metis option.inject)
    then show ?thesis using x(2) by simp
  qed
  ultimately show ?thesis
    using throttle_filter_old [of _ "pi_best p" e "pi_config p" n ?k]
    by (auto simp: best removed intro!: filter_cong)
qed

theorem throttle_entity_bounds_witness:
  "length (filter (\<lambda>op. contains_entity (oo_po op) (entity_new Account 1))
     (pi_best (fst (pool_throttle_entity pool2 (entity_new Account 1) 16)))) \<le> 1 \<and>
   filter (\<lambda>op. \<not> contains_entity (oo_po op) (entity_new Account 1))
     (pi_best (fst (pool_throttle_entity pool2 (entity_new Account 1) 16))) =
   filter (\<lambda>op. \<not> contains_entity (oo_po op) (entity_new Account 1)) (pi_best pool2)"
proof -
  have "unat (pc_throttled_entity_mempool_count (pi_config pool2)) = 1"
    by (simp add: sample_config_def)
  then show ?thesis
    using throttle_entity_bounds [OF pool2_inv surjective_pairing, of "entity_new Account 1" 16]
    by metis
qed

text \<open>
  Removing an entity removes exactly the operations that use it, when the hash map is iterated
  over all of its keys.
\<close>

theorem remove_entity_removes_all:
  assumes "set order = dom (pi_by_hash p)"
  shows "get_operation_by_hash (fst (pool_remove_entity p order e)) h =
    (case get_operation_by_hash p h of
       Some po \<Rightarrow> if contains_entity po e then None else Some po | None \<Rightarrow> None)"
  using assms
  by (auto simp: pool_remove_entity_def get_operation_by_hash_def remove_all_by_hash Let_def
      split: option.splits)

theorem remove_entity_removes_all_witness:
  "get_operation_by_hash (fst (pool_remove_entity pool2 [8, 7] (entity_new Account 1))) 7 = None"
  using remove_entity_removes_all [of "[8, 7]" pool2 "entity_new Account 1" 7]
  by (auto simp: get_operation_by_hash_def sample_handle_def sample_po_def contains_entity_def
      entity_new_def)

section \<open>Mining\<close>

text \<open>
  C26: mining a stored operation and then undoing that block gives back the operation and restores
  the stored operations under hash and id, the counts by address, the size and the order of the
  best ones.  This needs an operation that is eligible when it is mined, since the pool would
  otherwise put it back among the best ones as well, and a pool within its size limit, since
  putting the operation back would otherwise evict.
\<close>

theorem mine_unmine_restores:
  assumes "pool_reachable cfg da p" "pi_by_id p (mo_id m) = Some op"
    "mo_hash m = uo_hash (oo_uo op)"
    "\<not> size_gt (pi_pool_size p) (pc_max_size_of_pool_bytes (pi_config p))"
    "oo_eligible (pi_store p) op"
  shows "\<exists>q. unmine_operation (fst (mine_operation p m n)) m = Some (q, Some (oo_po op)) \<and>
    pi_by_hash q = pi_by_hash p \<and> pi_by_id q = pi_by_id p \<and>
    pi_count_by_address q = pi_count_by_address p \<and> pi_pool_size q = pi_pool_size p \<and>
    pi_best q = pi_best p"
proof -
  note inv = pool_reachable_inv [OF assms(1)]
  let ?q = "insert_operation (uncached (fst (mine_operation p m n)) (mo_hash m) n) op"
  note M = mine_unmine [OF inv assms(2-4), of n]
  note B = pool_invD(4) [OF inv [unfolded pool_inv_def]] pool_invD(4) [OF M(5) [unfolded pool_inv_def]]
  have op: "op \<in> ran (pi_by_hash p)"
    using pool_inv_by_id(2) [OF inv [unfolded pool_inv_def] assms(2)] by (rule ranI)
  have "op \<in> set (pi_best p)" "op \<in> set (pi_best ?q)"
    using B op assms(5) M(2,6) by (auto simp: best_ok_def)
  moreover have "x \<in> set (pi_best ?q) \<longleftrightarrow> x \<in> set (pi_best p)" if "x \<noteq> op" for x
  proof -
    let ?b = "filter (\<lambda>x. x \<noteq> op) (pi_best p)"
    have h: "pi_by_hash p (uo_hash (oo_uo op)) = Some op"
      by (rule pool_inv_by_id(2) [OF inv [unfolded pool_inv_def] assms(2)])
    have "pi_best ?q = bts_insert (oo_cmp (pi_store p)) op ?b"
      using remove_best [OF inv [unfolded pool_inv_def] h] assms(5)
        remove_operation_internal_Some(2) [OF h, of "Some n"]
      by (simp add: insert_operation_fields uncached_def mine_operation_def assms(2))
    then show ?thesis using that by (simp add: bts_insert_other)
  qed
  ultimately have "set (pi_best ?q) = set (pi_best p)" by (intro set_eqI) metis
  then have "pi_best ?q = pi_best p"
    using B M(6) by (intro sorted_same_set [of "pi_store p"]) (auto simp: best_ok_def)
  moreover have "pi_count_by_address ?q = pi_count_by_address p"
    using pool_invD(5,6) [OF inv [unfolded pool_inv_def]]
      pool_invD(5,6) [OF M(5) [unfolded pool_inv_def]] M(2)
    by (intro counts_determined [of _ "pi_by_hash p"]) simp_all
  ultimately show ?thesis using M by blast
qed

theorem mine_unmine_restores_witness:
  "\<exists>q. unmine_operation (fst (mine_operation pool2
       \<lparr>mo_hash = 7, mo_entry_point = 99, mo_sender = 1, mo_nonce = 0, mo_actual_gas_cost = 5,
        mo_paymaster = None\<rparr> 12))
       \<lparr>mo_hash = 7, mo_entry_point = 99, mo_sender = 1, mo_nonce = 0, mo_actual_gas_cost = 5,
        mo_paymaster = None\<rparr> = Some (q, Some (sample_po 1 0 7 100)) \<and>
     pi_count_by_address q = pi_count_by_address pool2 \<and> pi_best q = pi_best pool2"
  using mine_unmine_restores [OF pool2_reachable, of
      "\<lparr>mo_hash = 7, mo_entry_point = 99, mo_sender = 1, mo_nonce = 0, mo_actual_gas_cost = 5,
        mo_paymaster = None\<rparr>" "sample_handle (sample_po 1 0 7 100) 0 0" 12]
  by (auto simp: mo_id_def sample_handle_def size_gt_def sample_config_def oo_eligible_def
      oo_cells_new_def)

text \<open>
  Forgetting the operations mined before a block keeps the stored operations, and every
  operation still in the cache of mined ones was mined at that block or later.
\<close>

theorem forget_mined_keeps_recent:
  assumes "pool_reachable cfg da p"
  shows "pi_by_hash (forget_mined_operations_before_block p n) = pi_by_hash p \<and>
    (\<forall>h op bn. pi_mined_at_block_number_by_hash (forget_mined_operations_before_block p n) h =
        Some (op, bn) \<longrightarrow> n \<le> bn)"
proof -
  note R = forget_mined_result [OF pool_reachable_inv [OF assms], of n]
  note M = pool_invD(8) [OF R(1) [unfolded pool_inv_def], unfolded mined_ok_def]
  show ?thesis using R(2,3) M by fastforce
qed

theorem forget_mined_keeps_recent_witness:
  "pi_by_hash (forget_mined_operations_before_block pool2 5) = pi_by_hash pool2"
  using forget_mined_keeps_recent [OF pool2_reachable, of 5] by blast

section \<open>Roles of an address\<close>

text \<open>An address has a role in a stored operation.\<close>

definition has_role :: "pool_inner \<Rightarrow> entity_type \<Rightarrow> address \<Rightarrow> bool" where
  "has_role p t a \<longleftrightarrow> (\<exists>h op. pi_by_hash p h = Some op \<and> contains_entity (oo_po op) (entity_new t a))"

lemma has_role_count:
  assumes "pool_inv p"
  shows "count_of (pi_count_by_address p) a t \<noteq> 0 \<longleftrightarrow> has_role p t a"
proof -
  note D = pool_invD [OF assms [unfolded pool_inv_def]]
  have "finite (uses (pi_by_hash p) a t)"
    by (rule finite_subset [OF _ D(2)]) (auto simp: uses_def)
  then have "card (uses (pi_by_hash p) a t) = 0 \<longleftrightarrow> uses (pi_by_hash p) a t = {}" by simp
  moreover have "unat (count_of (pi_count_by_address p) a t) = card (uses (pi_by_hash p) a t)"
    using D(5) by (simp add: counts_match_def)
  ultimately have "count_of (pi_count_by_address p) a t = 0 \<longleftrightarrow> uses (pi_by_hash p) a t = {}"
    by (metis unat_eq_zero)
  then show ?thesis by (auto simp: has_role_def uses_def)
qed

lemma roles_of_counter:
  assumes "pool_inv p" "pi_count_by_address p a = Some c"
  shows "includes_non_sender c \<longleftrightarrow> (\<exists>t. t \<noteq> Account \<and> has_role p t a)"
    "ec_sender c > 0 \<longleftrightarrow> has_role p Account a"
proof -
  note D = pool_invD [OF assms(1) [unfolded pool_inv_def]]
  have "counts_small (pi_count_by_address p)"
    by (rule counts_match_small [OF D(5,2) pool_inv_card [OF assms(1) [unfolded pool_inv_def]]])
  then have small: "ec_small c"
    using assms(2) by (auto simp: counts_small_def ec_small_def count_of_def dest: spec [of _ a])
  have count: "ec_count c t \<noteq> 0 \<longleftrightarrow> has_role p t a" for t
    using has_role_count [OF assms(1), of a t] assms(2) by (simp add: count_of_def)
  show "includes_non_sender c \<longleftrightarrow> (\<exists>t. t \<noteq> Account \<and> has_role p t a)"
    unfolding includes_non_sender_iff [OF small] count ..
  show "ec_sender c > 0 \<longleftrightarrow> has_role p Account a"
    using count [of Account] by (simp add: word_gt_0)
qed

lemma no_counter_no_role: "pool_inv p \<Longrightarrow> pi_count_by_address p a = None \<Longrightarrow> \<not> has_role p t a"
  using has_role_count [of p a t] by (simp add: count_of_def)

text \<open>
  C27: an operation passes the check for multiple roles exactly when its sender is no paymaster,
  factory or aggregator of a stored operation, and none of its paymaster, factory and aggregator is
  the sender of a stored one (rule STO-040).
\<close>

theorem multiple_roles_check:
  assumes "pool_reachable cfg da p"
  shows "check_multiple_roles_violation p uo = Inr () \<longleftrightarrow>
    (\<forall>t. t \<noteq> Account \<longrightarrow> \<not> has_role p t (uo_sender uo)) \<and>
    (\<forall>e. e \<in> set (uo_entities uo) \<and> ent_kind e \<noteq> Account \<longrightarrow> \<not> has_role p Account (ent_address e))"
proof -
  note inv = pool_reachable_inv [OF assms]
  have s: "(case pi_count_by_address p a of Some ec \<Rightarrow> includes_non_sender ec | None \<Rightarrow> False) \<longleftrightarrow>
      (\<exists>t. t \<noteq> Account \<and> has_role p t a)" for a
    using roles_of_counter(1) [OF inv] no_counter_no_role [OF inv] by (auto split: option.splits)
  have o: "(case pi_count_by_address p a of Some ec \<Rightarrow> ec_sender ec > 0 | None \<Rightarrow> False) \<longleftrightarrow>
      has_role p Account a" for a
    using roles_of_counter(2) [OF inv] no_counter_no_role [OF inv] by (auto split: option.splits)
  have k: "t \<in> {Factory, Paymaster, Aggregator} \<longleftrightarrow> t \<noteq> Account" for t by (cases t) auto
  show ?thesis
    unfolding check_multiple_roles_violation_def s o k
    by (auto simp: find_None_iff find_Some_iff split: option.splits dest: nth_mem)
qed

theorem multiple_roles_check_witness:
  "check_multiple_roles_violation pool2 (V0_6 (sample_uo 1 1 9 50)) = Inr () \<and>
   \<not> has_role pool2 Paymaster 1"
proof -
  have e: "uo_entities (V0_6 (sample_uo 1 1 9 50)) = [\<lparr>ent_kind = Account, ent_address = 1\<rparr>]"
    by (simp add: sample_uo_def uo6_entities_def uo6_paymaster_def uo6_factory_def
        get_address_from_field_def entity_type_iter_def map_filter_simps entity_new_def)
  have "check_multiple_roles_violation pool2 (V0_6 (sample_uo 1 1 9 50)) = Inr ()"
    by (simp only: check_multiple_roles_violation_def e)
      (simp add: sample_uo_def includes_non_sender_def entity_counter_default_def)
  with multiple_roles_check [OF pool2_reachable, of "V0_6 (sample_uo 1 1 9 50)"] show ?thesis
    by (auto simp: sample_uo_def)
qed

end
