(* ===== verification/Reputation.thy ===== *)
theory Reputation
  imports Pool_Types
begin

text \<open>
  The reputation of addresses, \<open>crates/pool/src/mempool/reputation.rs\<close>: how many operations of an
  address were seen and included, and the status that follows from it.  The lock around the state
  makes every method one step; the hourly task calls \<open>update\<close>.
\<close>

section \<open>State\<close>

record reputation_params =
  rp_bundle_invalidation_ops_seen_staked_penalty :: u64
  rp_bundle_invalidation_ops_seen_unstaked_penalty :: u64
  rp_same_unstaked_entity_mempool_count :: u64
  rp_min_inclusion_rate_denominator :: u64
  rp_inclusion_rate_factor :: u64
  rp_throttling_slack :: u64
  rp_ban_slack :: u64
  rp_tracking_enabled :: bool
  rp_decay_interval_secs :: u64
  rp_decay_factor :: u64

definition reputation_params_default :: reputation_params where
  "reputation_params_default =
     \<lparr>rp_bundle_invalidation_ops_seen_staked_penalty = 10000,
      rp_bundle_invalidation_ops_seen_unstaked_penalty = 1000,
      rp_same_unstaked_entity_mempool_count = 10,
      rp_min_inclusion_rate_denominator = 10,
      rp_inclusion_rate_factor = 10,
      rp_throttling_slack = 10,
      rp_ban_slack = 50,
      rp_tracking_enabled = True,
      rp_decay_interval_secs = 3600,
      rp_decay_factor = 24\<rparr>"

definition reputation_params_new :: "bool \<Rightarrow> reputation_params" where
  "reputation_params_new tracking_enabled =
     reputation_params_default\<lparr>rp_tracking_enabled := tracking_enabled\<rparr>"

definition bundler_default :: reputation_params where
  "bundler_default = reputation_params_default"

definition client_default :: reputation_params where
  "client_default = reputation_params_default\<lparr>rp_min_inclusion_rate_denominator := 100\<rparr>"

record address_count_entry =
  ac_ops_seen :: u64
  ac_ops_included :: u64

definition address_count_default :: address_count_entry where
  "address_count_default = \<lparr>ac_ops_seen = 0, ac_ops_included = 0\<rparr>"

record address_reputation =
  ar_blocklist :: "address set"
  ar_allowlist :: "address set"
  ar_counts :: "address \<rightharpoonup> address_count_entry"
  ar_params :: reputation_params

section \<open>Operations\<close>

definition address_reputation_inner_new :: "reputation_params \<Rightarrow> address_reputation" where
  "address_reputation_inner_new params =
     \<lparr>ar_blocklist = {}, ar_allowlist = {}, ar_counts = Map.empty, ar_params = params\<rparr>"

definition with_blocklist :: "address_reputation \<Rightarrow> address set \<Rightarrow> address_reputation" where
  "with_blocklist r blocklist = r\<lparr>ar_blocklist := blocklist\<rparr>"

definition with_allowlist :: "address_reputation \<Rightarrow> address set \<Rightarrow> address_reputation" where
  "with_allowlist r allowlist = r\<lparr>ar_allowlist := allowlist\<rparr>"

definition address_reputation_new ::
  "reputation_params \<Rightarrow> address set \<Rightarrow> address set \<Rightarrow> address_reputation" where
  "address_reputation_new params blocklist allowlist =
     with_allowlist (with_blocklist (address_reputation_inner_new params) blocklist) allowlist"

text \<open>The divisors come from \<open>ReputationParams\<close>, whose constructors never set them to zero.\<close>

definition rep_status :: "address_reputation \<Rightarrow> address \<Rightarrow> reputation_status" where
  "rep_status r a =
     (if a \<in> ar_blocklist r then Banned
      else if a \<in> ar_allowlist r then Ok
      else if \<not> rp_tracking_enabled (ar_params r) then Ok
      else case ar_counts r a of
             None \<Rightarrow> Ok
           | Some count \<Rightarrow>
               (let min_expected_included =
                      ac_ops_seen count div rp_min_inclusion_rate_denominator (ar_params r)
                in if min_expected_included \<le> ac_ops_included count + rp_throttling_slack (ar_params r)
                   then Ok
                   else if min_expected_included \<le> ac_ops_included count + rp_ban_slack (ar_params r)
                   then Throttled
                   else Banned))"

text \<open>\<open>counts.entry(address).or_default()\<close> followed by a change of the entry.\<close>

definition change_count ::
  "address \<Rightarrow> (address_count_entry \<Rightarrow> address_count_entry) \<Rightarrow> address_reputation
     \<Rightarrow> address_reputation" where
  "change_count a f r =
     r\<lparr>ar_counts := (ar_counts r)(a \<mapsto>
         f (case ar_counts r a of Some c \<Rightarrow> c | None \<Rightarrow> address_count_default))\<rparr>"

definition add_seen :: "address_reputation \<Rightarrow> address \<Rightarrow> address_reputation" where
  "add_seen r a = change_count a (\<lambda>c. c\<lparr>ac_ops_seen := ac_ops_seen c + 1\<rparr>) r"

definition dec_seen :: "address_reputation \<Rightarrow> address \<Rightarrow> address_reputation" where
  "dec_seen r a = change_count a (\<lambda>c. c\<lparr>ac_ops_seen := saturating_sub (ac_ops_seen c) 1\<rparr>) r"

definition handle_urep_030_penalty :: "address_reputation \<Rightarrow> address \<Rightarrow> address_reputation" where
  "handle_urep_030_penalty r a =
     change_count a (\<lambda>c. c\<lparr>ac_ops_seen :=
       ac_ops_seen c + rp_bundle_invalidation_ops_seen_unstaked_penalty (ar_params r)\<rparr>) r"

definition handle_srep_050_penalty :: "address_reputation \<Rightarrow> address \<Rightarrow> address_reputation" where
  "handle_srep_050_penalty r a =
     change_count a (\<lambda>c. c\<lparr>ac_ops_seen :=
       rp_bundle_invalidation_ops_seen_staked_penalty (ar_params r)\<rparr>) r"

definition handle_erep_015_amendment ::
  "address_reputation \<Rightarrow> address \<Rightarrow> u64 \<Rightarrow> address_reputation" where
  "handle_erep_015_amendment r a value =
     change_count a (\<lambda>c. c\<lparr>ac_ops_seen := saturating_sub (ac_ops_seen c) value\<rparr>) r"

text \<open>\<open>order\<close> is the order in which the hash map is iterated.\<close>

definition dump_reputation :: "address_reputation \<Rightarrow> address list \<Rightarrow> reputation list" where
  "dump_reputation r order =
     List.map_filter (\<lambda>a. map_option (\<lambda>c. \<lparr>rep_address = a, rep_ops_seen = ac_ops_seen c,
       rep_ops_included = ac_ops_included c\<rparr>) (ar_counts r a)) order"

definition add_included :: "address_reputation \<Rightarrow> address \<Rightarrow> address_reputation" where
  "add_included r a = change_count a (\<lambda>c. c\<lparr>ac_ops_included := ac_ops_included c + 1\<rparr>) r"

definition dec_included :: "address_reputation \<Rightarrow> address \<Rightarrow> address_reputation" where
  "dec_included r a =
     change_count a (\<lambda>c. c\<lparr>ac_ops_included := saturating_sub (ac_ops_included c) 1\<rparr>) r"

definition set_reputation ::
  "address_reputation \<Rightarrow> address \<Rightarrow> u64 \<Rightarrow> u64 \<Rightarrow> address_reputation" where
  "set_reputation r a ops_seen ops_included =
     change_count a (\<lambda>c. c\<lparr>ac_ops_seen := ops_seen, ac_ops_included := ops_included\<rparr>) r"

definition get_ops_allowed :: "address_reputation \<Rightarrow> address \<Rightarrow> u64" where
  "get_ops_allowed r a =
     (let (seen, included) =
            (case ar_counts r a of
               Some c \<Rightarrow> (ac_ops_seen c, ac_ops_included c) | None \<Rightarrow> (0, 0));
          inclusion_based_count =
            (if seen = 0 then 0
             else rp_inclusion_rate_factor (ar_params r) * included div seen + min included 10000)
      in rp_same_unstaked_entity_mempool_count (ar_params r) + inclusion_based_count)"

definition rep_update :: "address_reputation \<Rightarrow> address_reputation" where
  "rep_update r =
     (let decay = (\<lambda>x. x - x div rp_decay_factor (ar_params r));
          counts = (\<lambda>a. map_option (\<lambda>c. \<lparr>ac_ops_seen = decay (ac_ops_seen c),
                                        ac_ops_included = decay (ac_ops_included c)\<rparr>) (ar_counts r a))
      in r\<lparr>ar_counts := (\<lambda>a. case counts a of
             Some c \<Rightarrow> if ac_ops_seen c > 0 \<or> ac_ops_included c > 0 then Some c else None
           | None \<Rightarrow> None)\<rparr>)"

definition rep_clear :: "address_reputation \<Rightarrow> address_reputation" where
  "rep_clear r = r\<lparr>ar_counts := Map.empty\<rparr>"

definition set_tracking :: "address_reputation \<Rightarrow> bool \<Rightarrow> address_reputation" where
  "set_tracking r tracking_enabled =
     r\<lparr>ar_params := (ar_params r)\<lparr>rp_tracking_enabled := tracking_enabled\<rparr>\<rparr>"

end
