(* ===== verification/Reputation_Theorems.thy ===== *)
theory Reputation_Theorems
  imports Reputation
begin

text \<open>
  What the reputation promises: the severity of a status, the states reachable from a new one, and
  the theorems about status, penalties, quota and decay.
\<close>

section \<open>Severity of a status\<close>

instantiation reputation_status :: linorder
begin

fun severity :: "reputation_status \<Rightarrow> nat" where
  "severity Ok = 0"
| "severity Throttled = 1"
| "severity Banned = 2"

definition less_eq_reputation_status :: "reputation_status \<Rightarrow> reputation_status \<Rightarrow> bool" where
  "less_eq_reputation_status s t \<longleftrightarrow> severity s \<le> severity t"

definition less_reputation_status :: "reputation_status \<Rightarrow> reputation_status \<Rightarrow> bool" where
  "less_reputation_status s t \<longleftrightarrow> severity s < severity t"

instance
proof
  fix s t :: reputation_status
  show "s \<le> t \<Longrightarrow> t \<le> s \<Longrightarrow> s = t"
    by (cases s; cases t) (simp_all add: less_eq_reputation_status_def)
qed (auto simp: less_eq_reputation_status_def less_reputation_status_def)

end

lemma status_le [simp]: "Ok \<le> s" "s \<le> Banned" for s :: reputation_status
  by (cases s; simp add: less_eq_reputation_status_def)+

section \<open>Reachable states\<close>

inductive rep_step :: "address_reputation \<Rightarrow> address_reputation \<Rightarrow> bool" where
  "rep_step r (add_seen r a)"
| "rep_step r (dec_seen r a)"
| "rep_step r (handle_urep_030_penalty r a)"
| "rep_step r (handle_srep_050_penalty r a)"
| "rep_step r (handle_erep_015_amendment r a v)"
| "rep_step r (add_included r a)"
| "rep_step r (dec_included r a)"
| "rep_step r (set_reputation r a s i)"
| "rep_step r (rep_update r)"
| "rep_step r (rep_clear r)"
| "rep_step r (set_tracking r t)"

text \<open>The parameters are private to the module and made by one of its constructors.\<close>

inductive rep_reachable :: "address_reputation \<Rightarrow> bool" where
  "params \<in> {reputation_params_new t, bundler_default, client_default} \<Longrightarrow>
   rep_reachable (address_reputation_new params blocklist allowlist)"
| "rep_reachable r \<Longrightarrow> rep_step r r' \<Longrightarrow> rep_reachable r'"

definition params_ok :: "reputation_params \<Rightarrow> bool" where
  "params_ok p \<longleftrightarrow>
     rp_bundle_invalidation_ops_seen_staked_penalty p = 10000 \<and>
     rp_same_unstaked_entity_mempool_count p = 10 \<and> rp_inclusion_rate_factor p = 10 \<and>
     rp_min_inclusion_rate_denominator p \<in> {10, 100} \<and>
     rp_throttling_slack p = 10 \<and> rp_ban_slack p = 50 \<and> rp_decay_factor p = 24"

lemmas reputation_ops = add_seen_def dec_seen_def handle_urep_030_penalty_def
  handle_srep_050_penalty_def handle_erep_015_amendment_def add_included_def dec_included_def
  set_reputation_def

lemma rep_step_params: "rep_step r r' \<Longrightarrow> params_ok (ar_params r) \<Longrightarrow> params_ok (ar_params r')"
  by (induction rule: rep_step.induct)
    (simp_all add: reputation_ops change_count_def rep_update_def rep_clear_def set_tracking_def
      params_ok_def Let_def)

lemma rep_reachable_params: "rep_reachable r \<Longrightarrow> params_ok (ar_params r)"
proof (induction rule: rep_reachable.induct)
  case (1 params t blocklist allowlist)
  then show ?case
    by (auto simp: params_ok_def address_reputation_new_def with_allowlist_def with_blocklist_def
        address_reputation_inner_new_def reputation_params_new_def bundler_default_def
        client_default_def reputation_params_default_def)
next
  case (2 r r')
  then show ?case by (blast intro: rep_step_params)
qed

lemma rep_reachableD:
  assumes "rep_reachable r"
  shows "rp_throttling_slack (ar_params r) = 10" "rp_ban_slack (ar_params r) = 50"
    "rp_decay_factor (ar_params r) = 24" "rp_inclusion_rate_factor (ar_params r) = 10"
    "rp_same_unstaked_entity_mempool_count (ar_params r) = 10"
    "rp_bundle_invalidation_ops_seen_staked_penalty (ar_params r) = 10000"
    "rp_min_inclusion_rate_denominator (ar_params r) \<in> {10, 100}"
  using rep_reachable_params [OF assms] by (simp_all add: params_ok_def)

definition sample_rep :: address_reputation where
  "sample_rep = set_reputation (address_reputation_new (reputation_params_new True) {} {}) 5 30 20"

lemma sample_rep_reachable: "rep_reachable sample_rep"
  unfolding sample_rep_def
  by (rule rep_reachable.intros(2) [OF rep_reachable.intros(1) rep_step.intros(8)]) blast

lemma sample_rep_simps [simp]:
  "ar_counts sample_rep 5 = Some \<lparr>ac_ops_seen = 30, ac_ops_included = 20\<rparr>"
  "ar_allowlist sample_rep = {}" "ar_params sample_rep = reputation_params_new True"
  by (simp_all add: sample_rep_def set_reputation_def change_count_def address_reputation_new_def
      with_allowlist_def with_blocklist_def address_reputation_inner_new_def address_count_default_def)

section \<open>Status\<close>

lemma word_div_mono: "x \<le> y \<Longrightarrow> x div d \<le> y div d" for x y d :: "'a::len word"
  by (simp add: word_le_nat_alt unat_div div_le_mono)

text \<open>
  More operations seen and fewer included never improve the status of an address, as long as
  the included count is more than the largest slack away from overflow.
\<close>

theorem status_monotone:
  assumes "rep_reachable r" "s \<le> s'" "i' \<le> i" "unat i + 50 < 2 ^ 64"
  shows "rep_status (set_reputation r a s i) a \<le> rep_status (set_reputation r a s' i') a"
proof -
  note R = rep_reachableD(1,2) [OF assms(1)]
  let ?d = "rp_min_inclusion_rate_denominator (ar_params r)"
  have add: "unat (j + 10) = unat j + 10" "unat (j + 50) = unat j + 50" if "j \<le> i" for j
    using that assms(4) by (simp_all add: unat_word_ariths word_le_nat_alt)
  have le: "i' + 10 \<le> i + 10" "i' + 50 \<le> i + 50" "i' + 10 \<le> i' + 50" "i + 10 \<le> i + 50"
    using add [OF assms(3)] add [of i] assms(3) by (simp_all add: word_le_nat_alt)
  have "s div ?d \<le> s' div ?d" using assms(2) by (rule word_div_mono)
  then show ?thesis
    using le R
    by (auto simp: rep_status_def set_reputation_def change_count_def Let_def
        less_eq_reputation_status_def)
qed

theorem status_monotone_witness:
  "rep_status (set_reputation sample_rep 5 100 3) 5 \<le> rep_status (set_reputation sample_rep 5 2000 3) 5"
  by (rule status_monotone [OF sample_rep_reachable]) simp_all

text \<open>
  After the penalty SREP-050, an address that is not on the allowlist and has fewer than 50
  included operations is not in good standing while tracking is enabled, and is banned with the
  parameters of a bundler.
\<close>

theorem srep_050_penalty_bans:
  assumes "rep_reachable r" "a \<notin> ar_allowlist r" "rp_tracking_enabled (ar_params r)"
    "ar_counts r a = Some c" "ac_ops_included c < 50"
  shows "rep_status (handle_srep_050_penalty r a) a \<ge> Throttled \<and>
    (rp_min_inclusion_rate_denominator (ar_params r) = 10 \<longrightarrow>
       rep_status (handle_srep_050_penalty r a) a = Banned)"
proof -
  note R = rep_reachableD [OF assms(1)]
  have inc: "unat (ac_ops_included c) < 50" using assms(5) by (simp add: word_less_nat_alt)
  then have n: "unat (ac_ops_included c + 10) < 60" "unat (ac_ops_included c + 50) < 100"
    by (simp_all add: unat_word_ariths)
  have "\<not> (100 :: u64) \<le> ac_ops_included c + 10" "\<not> (1000 :: u64) \<le> ac_ops_included c + 10"
    "\<not> (100 :: u64) \<le> ac_ops_included c + 50" "\<not> (1000 :: u64) \<le> ac_ops_included c + 50"
    using n by (simp_all add: word_le_nat_alt)
  then show ?thesis
    using R assms
    by (auto simp: rep_status_def handle_srep_050_penalty_def change_count_def Let_def)
qed

theorem srep_050_penalty_bans_witness:
  "rep_status (handle_srep_050_penalty sample_rep 5) 5 = Banned"
  using srep_050_penalty_bans [OF sample_rep_reachable, of 5]
  by (simp add: reputation_params_new_def reputation_params_default_def)

section \<open>Quota\<close>

text \<open>
  An unstaked entity that has not been included more often than seen may have at least 10 and
  at most 10020 operations in the pool (UREP-020).
\<close>

theorem ops_allowed_bounds:
  assumes "rep_reachable r" "ar_counts r a = Some c" "ac_ops_included c \<le> ac_ops_seen c"
    "unat (ac_ops_included c) * 10 < 2 ^ 64"
  shows "10 \<le> get_ops_allowed r a \<and> get_ops_allowed r a \<le> 10020"
proof -
  note R = rep_reachableD(4,5) [OF assms(1)]
  let ?i = "ac_ops_included c" and ?s = "ac_ops_seen c"
  have "unat (10 * ?i) = 10 * unat ?i" using assms(4) by (simp add: unat_word_ariths mult.commute)
  moreover have "unat ?i \<le> unat ?s" using assms(3) by (simp add: word_le_nat_alt)
  then have "10 * unat ?i div unat ?s \<le> 10 * unat ?s div unat ?s" by (intro div_le_mono) simp
  then have "10 * unat ?i div unat ?s \<le> 10" by (simp split: if_splits)
  ultimately have "unat (10 * ?i div ?s) \<le> 10" by (simp add: unat_div)
  moreover have "unat (min ?i 10000) \<le> 10000" by (simp add: min_def word_le_nat_alt)
  ultimately show ?thesis
    using R assms(2)
    by (auto simp: get_ops_allowed_def word_le_nat_alt unat_word_ariths Let_def)
qed

theorem ops_allowed_bounds_witness:
  "10 \<le> get_ops_allowed sample_rep 5 \<and> get_ops_allowed sample_rep 5 \<le> 10020"
  using ops_allowed_bounds [OF sample_rep_reachable, of 5] by simp

section \<open>Decay\<close>

text \<open>
  Decay lowers no positive count to zero, and leaves a count below 24 as it is; so an address
  once seen is never dropped by the decay.
\<close>

theorem decay_keeps_positive:
  assumes "rep_reachable r" "ar_counts r a = Some c" "0 < ac_ops_seen c"
  shows "\<exists>c'. ar_counts (rep_update r) a = Some c' \<and> 0 < ac_ops_seen c' \<and>
    ac_ops_seen c' \<le> ac_ops_seen c \<and> (ac_ops_seen c < 24 \<longrightarrow> ac_ops_seen c' = ac_ops_seen c)"
proof -
  let ?x = "ac_ops_seen c"
  have u: "unat (?x - ?x div 24) = unat ?x - unat ?x div 24"
    by (simp add: unat_sub_if' unat_div)
  have "0 < unat ?x" using assms(3) by (simp add: word_less_nat_alt)
  then have "0 < unat ?x - unat ?x div 24" by simp
  then have "0 < ?x - ?x div 24" "?x - ?x div 24 \<le> ?x"
    using u by (simp_all add: word_less_nat_alt word_le_nat_alt)
  moreover have "?x - ?x div 24 = ?x" if "?x < 24"
  proof -
    have "unat ?x < 24" using that by (simp add: word_less_nat_alt)
    then have "unat (?x - ?x div 24) = unat ?x" using u by simp
    then show ?thesis by (simp only: word_unat_eq_iff)
  qed
  ultimately show ?thesis
    using assms(2) rep_reachableD(3) [OF assms(1)] by (simp add: rep_update_def Let_def)
qed

theorem decay_keeps_positive_witness:
  "\<exists>c'. ar_counts (rep_update sample_rep) 5 = Some c' \<and> 0 < ac_ops_seen c'"
  using decay_keeps_positive [OF sample_rep_reachable, of 5] by auto

end
