(* ===== verification/Lru.thy ===== *)
theory Lru
  imports Prelude
begin

text \<open>
  The bounded map \<open>LruMap\<close> (\<open>crates/utils/src/cache.rs\<close>, a wrapper around the package
  \<open>schnellru\<close>) as the trackers use it.  Its operations are the fields of a record that the model
  takes as an argument; the laws are those the package documents.  A change made through the
  reference that \<open>get\<close> returns is one operation, \<open>lru_update\<close>.
\<close>

record ('l, 'k, 'v) lru_ops =
  lru_new :: "u32 \<Rightarrow> 'l"
  lru_peek :: "'l \<Rightarrow> 'k \<Rightarrow> 'v option"
  lru_update :: "'l \<Rightarrow> 'k \<Rightarrow> ('v \<Rightarrow> 'v) \<Rightarrow> 'l"
  lru_insert :: "'l \<Rightarrow> 'k \<Rightarrow> 'v \<Rightarrow> 'l"
  lru_iter :: "'l \<Rightarrow> ('k \<times> 'v) list"
  lru_clear :: "'l \<Rightarrow> 'l"
  lru_max_length :: "'l \<Rightarrow> nat"

locale lru_map =
  fixes ops :: "('l, 'k, 'v) lru_ops" and invar :: "'l \<Rightarrow> bool"
  assumes invar_ops:
      "invar (lru_new ops n)" "invar l \<Longrightarrow> invar (lru_update ops l k f)"
      "invar l \<Longrightarrow> invar (lru_insert ops l k v)" "invar l \<Longrightarrow> invar (lru_clear ops l)"
    and max_length_ops:
      "lru_max_length ops (lru_new ops n) = unat n"
      "invar l \<Longrightarrow> lru_max_length ops (lru_update ops l k f) = lru_max_length ops l"
      "invar l \<Longrightarrow> lru_max_length ops (lru_insert ops l k v) = lru_max_length ops l"
      "invar l \<Longrightarrow> lru_max_length ops (lru_clear ops l) = lru_max_length ops l"
    and iter_new: "lru_iter ops (lru_new ops n) = []"
    and iter_clear: "invar l \<Longrightarrow> lru_iter ops (lru_clear ops l) = []"
    and iter_distinct: "invar l \<Longrightarrow> distinct (map fst (lru_iter ops l))"
    and iter_length: "invar l \<Longrightarrow> length (lru_iter ops l) \<le> lru_max_length ops l"
    and peek_iter: "invar l \<Longrightarrow> lru_peek ops l k = map_of (lru_iter ops l) k"
    and peek_update: "invar l \<Longrightarrow> lru_peek ops (lru_update ops l k f) k' =
      (if k' = k then map_option f (lru_peek ops l k) else lru_peek ops l k')"
    and peek_insert: "invar l \<Longrightarrow> 0 < lru_max_length ops l \<Longrightarrow>
      lru_peek ops (lru_insert ops l k v) k = Some v"
    and peek_insert_other: "invar l \<Longrightarrow> k' \<noteq> k \<Longrightarrow>
      lru_peek ops (lru_insert ops l k v) k' \<in> {None, lru_peek ops l k'}"
    and peek_insert_fits: "invar l \<Longrightarrow> k' \<noteq> k \<Longrightarrow>
      lru_peek ops l k \<noteq> None \<or> length (lru_iter ops l) < lru_max_length ops l \<Longrightarrow>
      lru_peek ops (lru_insert ops l k v) k' = lru_peek ops l k'"
begin

lemma peek_new: "lru_peek ops (lru_new ops n) k = None"
  by (simp add: peek_iter invar_ops iter_new)

lemma peek_clear: "invar l \<Longrightarrow> lru_peek ops (lru_clear ops l) k = None"
  by (simp add: peek_iter invar_ops iter_clear)

text \<open>An operation of the map never makes up an entry.\<close>

lemma peek_update_None_iff:
  "invar l \<Longrightarrow> lru_peek ops (lru_update ops l k f) k' = None \<longleftrightarrow> lru_peek ops l k' = None"
  by (auto simp: peek_update)

lemma dom_peek: "invar l \<Longrightarrow> dom (lru_peek ops l) = fst ` set (lru_iter ops l)"
proof -
  assume "invar l"
  then have "lru_peek ops l = map_of (lru_iter ops l)" by (simp add: fun_eq_iff peek_iter)
  then show ?thesis by (simp add: dom_map_of_conv_image_fst)
qed

lemma finite_dom_peek: "invar l \<Longrightarrow> finite (dom (lru_peek ops l))"
  by (simp add: dom_peek)

lemma card_dom_peek: "invar l \<Longrightarrow> card (dom (lru_peek ops l)) = length (lru_iter ops l)"
  using iter_distinct by (simp add: dom_peek distinct_card flip: set_map)

lemma iter_map_of:
  "invar l \<Longrightarrow> (k, v) \<in> set (lru_iter ops l) \<longleftrightarrow> lru_peek ops l k = Some v"
  by (simp add: peek_iter iter_distinct)

end

section \<open>A list as the map\<close>

text \<open>
  The entries from the most to the least recently used one, with the limit.
\<close>

record ('k, 'v) lru_list =
  ll_max_length :: nat
  ll_entries :: "('k \<times> 'v) list"

definition ll_without :: "'k \<Rightarrow> ('k \<times> 'v) list \<Rightarrow> ('k \<times> 'v) list" where
  "ll_without k xs = filter (\<lambda>x. fst x \<noteq> k) xs"

definition ll_new :: "u32 \<Rightarrow> ('k, 'v) lru_list" where
  "ll_new n = \<lparr>ll_max_length = unat n, ll_entries = []\<rparr>"

definition ll_peek :: "('k, 'v) lru_list \<Rightarrow> 'k \<Rightarrow> 'v option" where
  "ll_peek l k = map_of (ll_entries l) k"

definition ll_update :: "('k, 'v) lru_list \<Rightarrow> 'k \<Rightarrow> ('v \<Rightarrow> 'v) \<Rightarrow> ('k, 'v) lru_list" where
  "ll_update l k f =
     (case ll_peek l k of
        None \<Rightarrow> l
      | Some v \<Rightarrow> l\<lparr>ll_entries := (k, f v) # ll_without k (ll_entries l)\<rparr>)"

definition ll_insert :: "('k, 'v) lru_list \<Rightarrow> 'k \<Rightarrow> 'v \<Rightarrow> ('k, 'v) lru_list" where
  "ll_insert l k v =
     l\<lparr>ll_entries := take (ll_max_length l) ((k, v) # ll_without k (ll_entries l))\<rparr>"

definition ll_clear :: "('k, 'v) lru_list \<Rightarrow> ('k, 'v) lru_list" where
  "ll_clear l = l\<lparr>ll_entries := []\<rparr>"

definition ll_ops :: "(('k, 'v) lru_list, 'k, 'v) lru_ops" where
  "ll_ops = \<lparr>lru_new = ll_new, lru_peek = ll_peek, lru_update = ll_update, lru_insert = ll_insert,
             lru_iter = ll_entries, lru_clear = ll_clear, lru_max_length = ll_max_length\<rparr>"

lemma ll_ops_simps [simp]:
  "lru_new ll_ops = ll_new" "lru_peek ll_ops = ll_peek" "lru_update ll_ops = ll_update"
  "lru_insert ll_ops = ll_insert" "lru_iter ll_ops = ll_entries" "lru_clear ll_ops = ll_clear"
  "lru_max_length ll_ops = ll_max_length"
  by (simp_all add: ll_ops_def)

definition ll_invar :: "('k, 'v) lru_list \<Rightarrow> bool" where
  "ll_invar l \<longleftrightarrow> distinct (map fst (ll_entries l)) \<and> length (ll_entries l) \<le> ll_max_length l"

lemma map_of_without: "map_of (ll_without k xs) k' = (if k' = k then None else map_of xs k')"
  by (induction xs) (auto simp: ll_without_def)

lemma fst_without: "map fst (ll_without k xs) = filter (\<lambda>x. x \<noteq> k) (map fst xs)"
  by (induction xs) (simp_all add: ll_without_def)

lemma length_without:
  assumes "map_of xs k \<noteq> None"
  shows "length (ll_without k xs) < length xs"
proof -
  from assms obtain v where "(k, v) \<in> set xs" by (auto dest: map_of_SomeD)
  then show ?thesis unfolding ll_without_def by (intro length_filter_less) auto
qed

lemma map_of_take: "distinct (map fst xs) \<Longrightarrow> map_of (take n xs) k \<in> {None, map_of xs k}"
proof (induction xs arbitrary: n)
  case (Cons x xs)
  then show ?case by (cases n) (use Cons in auto)
qed simp

lemma ll_max_length_simps [simp]:
  "ll_max_length (ll_new n) = unat n" "ll_max_length (ll_update l k f) = ll_max_length l"
  "ll_max_length (ll_insert l k v) = ll_max_length l" "ll_max_length (ll_clear l) = ll_max_length l"
  "ll_entries (ll_new n) = []" "ll_entries (ll_clear l) = []"
  by (simp_all add: ll_new_def ll_update_def ll_insert_def ll_clear_def split: option.splits)

lemma ll_invar_new: "ll_invar (ll_new n)"
  by (simp add: ll_invar_def ll_new_def)

lemma ll_invar_update:
  assumes "ll_invar l"
  shows "ll_invar (ll_update l k f)"
proof (cases "ll_peek l k")
  case (Some v)
  then have "length (ll_without k (ll_entries l)) < length (ll_entries l)"
    by (intro length_without) (simp add: ll_peek_def)
  then show ?thesis
    using assms Some by (auto simp: ll_invar_def ll_update_def fst_without)
qed (simp add: assms ll_update_def)

lemma ll_invar_insert: "ll_invar l \<Longrightarrow> ll_invar (ll_insert l k v)"
  by (auto simp: ll_invar_def ll_insert_def fst_without take_map [symmetric] distinct_take)

lemma ll_peek_update:
  "ll_peek (ll_update l k f) k' = (if k' = k then map_option f (ll_peek l k) else ll_peek l k')"
  by (auto simp: ll_update_def ll_peek_def map_of_without split: option.splits)

lemma ll_peek_insert_fits:
  assumes "k' \<noteq> k" "ll_invar l"
    "ll_peek l k \<noteq> None \<or> length (ll_entries l) < ll_max_length l"
  shows "ll_peek (ll_insert l k v) k' = ll_peek l k'"
proof -
  have "length (ll_without k (ll_entries l)) \<le> length (ll_entries l)"
    by (simp add: ll_without_def)
  then have "Suc (length (ll_without k (ll_entries l))) \<le> ll_max_length l"
    using assms(2,3) length_without [of "ll_entries l" k]
    unfolding ll_invar_def ll_peek_def by linarith
  then show ?thesis using assms(1) by (simp add: ll_peek_def ll_insert_def map_of_without)
qed

lemma ll_peek_insert: "0 < ll_max_length l \<Longrightarrow> ll_peek (ll_insert l k v) k = Some v"
  by (cases "ll_max_length l") (simp_all add: ll_peek_def ll_insert_def)

lemma ll_peek_insert_other:
  assumes "ll_invar l" "k' \<noteq> k"
  shows "ll_peek (ll_insert l k v) k' \<in> {None, ll_peek l k'}"
proof -
  have "distinct (map fst ((k, v) # ll_without k (ll_entries l)))"
    using assms(1) by (simp add: ll_invar_def fst_without)
  from map_of_take [OF this, of "ll_max_length l" k'] show ?thesis
    using assms(2) by (simp add: ll_peek_def ll_insert_def map_of_without)
qed

lemma ll_invarD: "ll_invar l \<Longrightarrow> distinct (map fst (ll_entries l))"
  "ll_invar l \<Longrightarrow> length (ll_entries l) \<le> ll_max_length l" "ll_invar (ll_clear l)"
  by (simp_all add: ll_invar_def)

interpretation lru_list: lru_map ll_ops ll_invar
  by unfold_locales
    (simp_all add: ll_invar_new ll_invar_update ll_invar_insert ll_peek_update ll_peek_insert
      ll_peek_insert_fits ll_peek_insert_other [simplified] ll_invarD ll_peek_def [symmetric])

end
