(* ===== verification/Paymaster.thy ===== *)
theory Paymaster
  imports Pool Lru
begin

text \<open>
  The tracker of paymaster balances, \<open>crates/pool/src/mempool/paymaster.rs\<close>.  The bounded map of
  balances is the argument \<open>ops\<close> (theory \<open>Lru\<close>), the entry point contract is the argument
  \<open>ep\<close>: its answers are values or provider errors.  Every method takes the lock once or twice; the
  model runs a method as one step.
\<close>

section \<open>State\<close>

record user_op_fees =
  uof_paymaster :: address
  uof_max_op_cost :: u256

record paymaster_balance =
  pb_pending :: u256
  pb_confirmed :: u256

definition paymaster_balance_new :: "u256 \<Rightarrow> u256 \<Rightarrow> paymaster_balance" where
  "paymaster_balance_new confirmed pending = \<lparr>pb_pending = pending, pb_confirmed = confirmed\<rparr>"

definition pending_balance :: "paymaster_balance \<Rightarrow> u256" where
  "pending_balance b = saturating_sub (pb_confirmed b) (pb_pending b)"

record paymaster_config =
  pmc_min_stake_value :: u256
  pmc_min_unstake_delay :: u32
  pmc_tracker_enabled :: bool
  pmc_cache_length :: u32

record 'l paymaster_tracker_inner =
  pt_user_op_fees :: "user_operation_id \<rightharpoonup> user_op_fees"
  pt_paymaster_balances :: 'l
  pt_tracker_enabled :: bool

record deposit_info =
  di_deposit :: u256
  di_staked :: bool
  di_stake :: u256
  di_unstake_delay_sec :: u32
  di_withdraw_time :: u64

text \<open>The calls to the entry point contract the tracker makes.\<close>

record entry_point =
  ep_get_deposit_info :: "address \<Rightarrow> string + deposit_info"
  ep_balance_of :: "address \<Rightarrow> string + u256"
  ep_get_balances :: "address list \<Rightarrow> string + u256 list"

type_synonym 'l balances_ops = "('l, address, paymaster_balance) lru_ops"

section \<open>Operations under the lock\<close>

definition paymaster_tracker_inner_new ::
  "'l balances_ops \<Rightarrow> bool \<Rightarrow> u32 \<Rightarrow> 'l paymaster_tracker_inner" where
  "paymaster_tracker_inner_new ops tracker_enabled cache_size =
     \<lparr>pt_user_op_fees = Map.empty, pt_paymaster_balances = lru_new ops cache_size,
      pt_tracker_enabled = tracker_enabled\<rparr>"

definition paymaster_exists :: "'l balances_ops \<Rightarrow> 'l paymaster_tracker_inner \<Rightarrow> address \<Rightarrow> bool" where
  "paymaster_exists ops t paymaster \<longleftrightarrow> lru_peek ops (pt_paymaster_balances t) paymaster \<noteq> None"

definition pt_set_tracking :: "'l paymaster_tracker_inner \<Rightarrow> bool \<Rightarrow> 'l paymaster_tracker_inner" where
  "pt_set_tracking t tracking_enabled = t\<lparr>pt_tracker_enabled := tracking_enabled\<rparr>"

definition inner_check_operation_cost ::
  "'l paymaster_tracker_inner \<Rightarrow> user_operation_variant \<Rightarrow> paymaster_metadata
     \<Rightarrow> mempool_error + unit" where
  "inner_check_operation_cost t op metadata =
     (let max_op_cost = uo_max_gas_cost op
      in case pt_user_op_fees t (uo_id op) of
           Some prev \<Rightarrow>
             (let reset_balance = saturating_add (pm_pending_balance metadata) (uof_max_op_cost prev)
              in if reset_balance < max_op_cost \<and> pt_tracker_enabled t
                 then Inl (PaymasterBalanceTooLow max_op_cost reset_balance) else Inr ())
         | None \<Rightarrow>
             if pm_pending_balance metadata < max_op_cost \<and> pt_tracker_enabled t
             then Inl (PaymasterBalanceTooLow max_op_cost (pm_pending_balance metadata)) else Inr ())"

definition pt_clear :: "'l balances_ops \<Rightarrow> 'l paymaster_tracker_inner \<Rightarrow> 'l paymaster_tracker_inner" where
  "pt_clear ops t =
     t\<lparr>pt_user_op_fees := Map.empty,
       pt_paymaster_balances := lru_clear ops (pt_paymaster_balances t)\<rparr>"

text \<open>The loop over the addresses; \<open>None\<close> where indexing the balances panics.\<close>

fun set_confimed_from ::
  "'l balances_ops \<Rightarrow> 'l \<Rightarrow> nat \<Rightarrow> address list \<Rightarrow> u256 list \<Rightarrow> 'l option" where
  "set_confimed_from ops l i [] balances = Some l"
| "set_confimed_from ops l i (a # as) balances =
     (if lru_peek ops l a \<noteq> None
      then if i < length balances
           then set_confimed_from ops (lru_update ops l a (\<lambda>b. b\<lparr>pb_confirmed := balances ! i\<rparr>))
                  (Suc i) as balances
           else None
      else set_confimed_from ops l (Suc i) as balances)"

definition set_confimed_balances ::
  "'l balances_ops \<Rightarrow> 'l paymaster_tracker_inner \<Rightarrow> address list \<Rightarrow> u256 list
     \<Rightarrow> 'l paymaster_tracker_inner option" where
  "set_confimed_balances ops t addresses balances =
     map_option (\<lambda>l. t\<lparr>pt_paymaster_balances := l\<rparr>)
       (set_confimed_from ops (pt_paymaster_balances t) 0 addresses balances)"

definition update_paymaster_balance_from_mined_op ::
  "'l balances_ops \<Rightarrow> 'l paymaster_tracker_inner \<Rightarrow> mined_op \<Rightarrow> 'l paymaster_tracker_inner" where
  "update_paymaster_balance_from_mined_op ops t m =
     (let uid = mo_id m
      in case pt_user_op_fees t uid of
           Some op_fee \<Rightarrow>
             t\<lparr>pt_paymaster_balances :=
                 lru_update ops (pt_paymaster_balances t) (uof_paymaster op_fee)
                   (\<lambda>b. b\<lparr>pb_confirmed := saturating_sub (pb_confirmed b) (mo_actual_gas_cost m),
                          pb_pending := saturating_sub (pb_pending b) (uof_max_op_cost op_fee)\<rparr>),
               pt_user_op_fees := (pt_user_op_fees t)(uid := None)\<rparr>
         | None \<Rightarrow> t)"

definition pt_remove_operation ::
  "'l balances_ops \<Rightarrow> 'l paymaster_tracker_inner \<Rightarrow> user_operation_id
     \<Rightarrow> 'l paymaster_tracker_inner" where
  "pt_remove_operation ops t uid =
     (case pt_user_op_fees t uid of
        Some op_fee \<Rightarrow>
          t\<lparr>pt_paymaster_balances :=
              lru_update ops (pt_paymaster_balances t) (uof_paymaster op_fee)
                (\<lambda>b. b\<lparr>pb_pending := saturating_sub (pb_pending b) (uof_max_op_cost op_fee)\<rparr>),
            pt_user_op_fees := (pt_user_op_fees t)(uid := None)\<rparr>
      | None \<Rightarrow> t)"

definition paymaster_addresses :: "'l balances_ops \<Rightarrow> 'l paymaster_tracker_inner \<Rightarrow> address list" where
  "paymaster_addresses ops t = map fst (lru_iter ops (pt_paymaster_balances t))"

definition balance_metadata :: "address \<Rightarrow> paymaster_balance \<Rightarrow> paymaster_metadata" where
  "balance_metadata a b =
     \<lparr>pm_address = a, pm_confirmed_balance = pb_confirmed b, pm_pending_balance = pending_balance b\<rparr>"

definition tracked_metadata ::
  "'l balances_ops \<Rightarrow> 'l paymaster_tracker_inner \<Rightarrow> address \<Rightarrow> paymaster_metadata option" where
  "tracked_metadata ops t paymaster =
     map_option (balance_metadata paymaster) (lru_peek ops (pt_paymaster_balances t) paymaster)"

definition dump_paymaster_metadata ::
  "'l balances_ops \<Rightarrow> 'l paymaster_tracker_inner \<Rightarrow> paymaster_metadata list" where
  "dump_paymaster_metadata ops t =
     map (\<lambda>(a, b). balance_metadata a b) (lru_iter ops (pt_paymaster_balances t))"

definition unmine_actual_cost ::
  "'l balances_ops \<Rightarrow> 'l paymaster_tracker_inner \<Rightarrow> address \<Rightarrow> u256 \<Rightarrow> 'l paymaster_tracker_inner" where
  "unmine_actual_cost ops t paymaster actual_cost =
     t\<lparr>pt_paymaster_balances :=
         lru_update ops (pt_paymaster_balances t) paymaster
           (\<lambda>b. b\<lparr>pb_confirmed := saturating_add (pb_confirmed b) actual_cost\<rparr>)\<rparr>"

definition is_user_op_replacement :: "'l paymaster_tracker_inner \<Rightarrow> user_operation_id \<Rightarrow> bool" where
  "is_user_op_replacement t uid \<longleftrightarrow> pt_user_op_fees t uid \<noteq> None"

definition decrement_previous_paymaster_balance ::
  "'l balances_ops \<Rightarrow> 'l paymaster_tracker_inner \<Rightarrow> address \<Rightarrow> u256 \<Rightarrow> 'l paymaster_tracker_inner" where
  "decrement_previous_paymaster_balance ops t paymaster previous_max_op_cost =
     t\<lparr>pt_paymaster_balances :=
         lru_update ops (pt_paymaster_balances t) paymaster
           (\<lambda>b. b\<lparr>pb_pending := saturating_sub (pb_pending b) previous_max_op_cost\<rparr>)\<rparr>"

definition add_new_paymaster ::
  "'l balances_ops \<Rightarrow> 'l paymaster_tracker_inner \<Rightarrow> address \<Rightarrow> u256 \<Rightarrow> u256
     \<Rightarrow> 'l paymaster_tracker_inner" where
  "add_new_paymaster ops t a confirmed_balance inital_pending_balance =
     t\<lparr>pt_paymaster_balances :=
         lru_insert ops (pt_paymaster_balances t) a
           (paymaster_balance_new confirmed_balance inital_pending_balance)\<rparr>"

definition replace_existing_user_op ::
  "'l balances_ops \<Rightarrow> 'l paymaster_tracker_inner \<Rightarrow> user_operation_id \<Rightarrow> paymaster_metadata \<Rightarrow> u256
     \<Rightarrow> mempool_error + 'l paymaster_tracker_inner" where
  "replace_existing_user_op ops t uid metadata max_op_cost =
     (case pt_user_op_fees t uid of
        None \<Rightarrow> Inl (Other ''User op must exist to replace values '')
      | Some existing \<Rightarrow>
          (let prev_max_op_cost = uof_max_op_cost existing; prev_paymaster = uof_paymaster existing;
               a = pm_address metadata;
               t = t\<lparr>pt_user_op_fees := (pt_user_op_fees t)(uid \<mapsto>
                       \<lparr>uof_paymaster = a, uof_max_op_cost = max_op_cost\<rparr>)\<rparr>
           in if lru_peek ops (pt_paymaster_balances t) a \<noteq> None
              then if prev_paymaster \<noteq> a
                   then Inr (decrement_previous_paymaster_balance ops
                          (t\<lparr>pt_paymaster_balances :=
                              lru_update ops (pt_paymaster_balances t) a
                                (\<lambda>b. b\<lparr>pb_pending := saturating_add (pb_pending b) max_op_cost\<rparr>)\<rparr>)
                          prev_paymaster prev_max_op_cost)
                   else Inr (t\<lparr>pt_paymaster_balances :=
                              lru_update ops (pt_paymaster_balances t) a
                                (\<lambda>b. b\<lparr>pb_pending := saturating_add
                                   (saturating_sub (pb_pending b) prev_max_op_cost) max_op_cost\<rparr>)\<rparr>)
              else (let t = (if prev_paymaster \<noteq> a
                             then decrement_previous_paymaster_balance ops t prev_paymaster
                                    prev_max_op_cost
                             else t)
                    in Inr (add_new_paymaster ops t a (pm_confirmed_balance metadata) max_op_cost))))"

definition add_new_user_op ::
  "'l balances_ops \<Rightarrow> 'l paymaster_tracker_inner \<Rightarrow> user_operation_id \<Rightarrow> paymaster_metadata \<Rightarrow> u256
     \<Rightarrow> 'l paymaster_tracker_inner" where
  "add_new_user_op ops t uid metadata max_op_cost =
     (let a = pm_address metadata;
          t = t\<lparr>pt_user_op_fees := (pt_user_op_fees t)(uid \<mapsto>
                  \<lparr>uof_paymaster = a, uof_max_op_cost = max_op_cost\<rparr>)\<rparr>
      in if lru_peek ops (pt_paymaster_balances t) a \<noteq> None
         then t\<lparr>pt_paymaster_balances :=
                  lru_update ops (pt_paymaster_balances t) a
                    (\<lambda>b. b\<lparr>pb_pending := saturating_add (pb_pending b) max_op_cost\<rparr>)\<rparr>
         else add_new_paymaster ops t a (pm_confirmed_balance metadata) max_op_cost)"

definition inner_add_or_update_balance ::
  "'l balances_ops \<Rightarrow> 'l paymaster_tracker_inner \<Rightarrow> pool_operation \<Rightarrow> paymaster_metadata
     \<Rightarrow> mempool_error + 'l paymaster_tracker_inner" where
  "inner_add_or_update_balance ops t po metadata =
     (let uid = uo_id (po_uo po); max_op_cost = uo_max_gas_cost (po_uo po)
      in if pm_pending_balance metadata < max_op_cost \<and> pt_tracker_enabled t
         then Inl (PaymasterBalanceTooLow max_op_cost (pm_pending_balance metadata))
         else if is_user_op_replacement t uid
         then replace_existing_user_op ops t uid metadata max_op_cost
         else Inr (add_new_user_op ops t uid metadata max_op_cost))"

section \<open>Operations of the tracker\<close>

definition get_stake_status ::
  "entry_point \<Rightarrow> paymaster_config \<Rightarrow> address \<Rightarrow> mempool_error + stake_status" where
  "get_stake_status ep config a =
     (case ep_get_deposit_info ep a of
        Inl _ \<Rightarrow> Inl (Other ''provider error'')
      | Inr deposit_info \<Rightarrow>
          Inr \<lparr>ss_is_staked = (di_stake deposit_info \<ge> pmc_min_stake_value config
                              \<and> di_unstake_delay_sec deposit_info \<ge> pmc_min_unstake_delay config),
               ss_stake_info = \<lparr>si_stake = di_stake deposit_info,
                                si_unstake_delay_sec = di_unstake_delay_sec deposit_info\<rparr>\<rparr>)"

definition lookup_paymaster_balance ::
  "'l balances_ops \<Rightarrow> entry_point \<Rightarrow> 'l paymaster_tracker_inner \<Rightarrow> address
     \<Rightarrow> 'l paymaster_tracker_inner \<times> (mempool_error + paymaster_metadata)" where
  "lookup_paymaster_balance ops ep t paymaster =
     (if paymaster_exists ops t paymaster
      then (t, case tracked_metadata ops t paymaster of
                 Some meta \<Rightarrow> Inr meta
               | None \<Rightarrow> Inl (Other ''Paymaster balance should not be empty if address exists in pool''))
      else case ep_balance_of ep paymaster of
             Inl _ \<Rightarrow>
               (t, Inl (Other ''Paymaster balance should not be empty if address exists in pool''))
           | Inr balance \<Rightarrow>
               (add_new_paymaster ops t paymaster balance 0,
                Inr \<lparr>pm_address = paymaster, pm_confirmed_balance = balance,
                     pm_pending_balance = balance\<rparr>))"

definition check_operation_cost ::
  "'l balances_ops \<Rightarrow> entry_point \<Rightarrow> 'l paymaster_tracker_inner \<Rightarrow> user_operation_variant
     \<Rightarrow> 'l paymaster_tracker_inner \<times> (mempool_error + unit)" where
  "check_operation_cost ops ep t op =
     (case uo_paymaster op of
        None \<Rightarrow> (t, Inr ())
      | Some paymaster \<Rightarrow>
          (case lookup_paymaster_balance ops ep t paymaster of
             (t, Inl e) \<Rightarrow> (t, Inl e)
           | (t, Inr balance) \<Rightarrow> (t, inner_check_operation_cost t op balance)))"

definition add_or_update_balance ::
  "'l balances_ops \<Rightarrow> entry_point \<Rightarrow> 'l paymaster_tracker_inner \<Rightarrow> pool_operation
     \<Rightarrow> 'l paymaster_tracker_inner \<times> (mempool_error + unit)" where
  "add_or_update_balance ops ep t po =
     (case uo_paymaster (po_uo po) of
        None \<Rightarrow> (t, Inr ())
      | Some paymaster \<Rightarrow>
          (case lookup_paymaster_balance ops ep t paymaster of
             (t, Inl e) \<Rightarrow> (t, Inl e)
           | (t, Inr metadata) \<Rightarrow>
               (case inner_add_or_update_balance ops t po metadata of
                  Inl e \<Rightarrow> (t, Inl e) | Inr t \<Rightarrow> (t, Inr ()))))"

definition reset_confirmed_balances_for ::
  "'l balances_ops \<Rightarrow> entry_point \<Rightarrow> 'l paymaster_tracker_inner \<Rightarrow> address list
     \<Rightarrow> ('l paymaster_tracker_inner \<times> (mempool_error + unit)) option" where
  "reset_confirmed_balances_for ops ep t addresses =
     (case ep_get_balances ep addresses of
        Inl _ \<Rightarrow> Some (t, Inl (Other ''provider error''))
      | Inr balances \<Rightarrow> map_option (\<lambda>t. (t, Inr ())) (set_confimed_balances ops t addresses balances))"

definition reset_confirmed_balances ::
  "'l balances_ops \<Rightarrow> entry_point \<Rightarrow> 'l paymaster_tracker_inner
     \<Rightarrow> ('l paymaster_tracker_inner \<times> (mempool_error + unit)) option" where
  "reset_confirmed_balances ops ep t =
     reset_confirmed_balances_for ops ep t (paymaster_addresses ops t)"

end
