(* ===== verification/Paymaster_Invariant.thy ===== *)
theory Paymaster_Invariant
  imports Paymaster
begin

text \<open>
  The invariant of the paymaster tracker: as long as no paymaster is evicted from the bounded map,
  the pending amount of a tracked paymaster is the sum of the maximal costs of its operations.  It
  is proved for every map that keeps the laws of \<open>lru_map\<close>.
\<close>

section \<open>What a paymaster owes\<close>

definition fee_share :: "address \<Rightarrow> user_op_fees option \<Rightarrow> nat" where
  "fee_share a f = (case f of Some f \<Rightarrow> if uof_paymaster f = a then unat (uof_max_op_cost f) else 0
                            | None \<Rightarrow> 0)"

lemma fee_share_simps [simp]:
  "fee_share a None = 0"
  "fee_share a (Some f) = (if uof_paymaster f = a then unat (uof_max_op_cost f) else 0)"
  by (simp_all add: fee_share_def)

definition owed :: "(user_operation_id \<rightharpoonup> user_op_fees) \<Rightarrow> address \<Rightarrow> nat" where
  "owed fees a = (\<Sum>uid\<in>dom fees. fee_share a (fees uid))"

lemma owed_empty [simp]: "owed Map.empty a = 0"
  by (simp add: owed_def)

lemma owed_without:
  assumes "finite (dom fees)"
  shows "owed fees a = owed (fees(uid := None)) a + fee_share a (fees uid)"
proof (cases "uid \<in> dom fees")
  case True
  have "owed fees a = fee_share a (fees uid) + (\<Sum>u\<in>dom fees - {uid}. fee_share a (fees u))"
    unfolding owed_def by (rule sum.remove [OF assms True])
  also have "(\<Sum>u\<in>dom fees - {uid}. fee_share a (fees u)) = owed (fees(uid := None)) a"
    unfolding owed_def by (rule sum.cong) auto
  finally show ?thesis by simp
next
  case False
  then have "fees(uid := None) = fees" "fees uid = None" by (auto simp: fun_eq_iff)
  then show ?thesis by simp
qed

lemma owed_update:
  assumes "finite (dom fees)"
  shows "owed (fees(uid \<mapsto> f)) a = owed (fees(uid := None)) a + fee_share a (Some f)"
  using owed_without [of "fees(uid \<mapsto> f)" a uid] assms by simp

lemma owed_none:
  "\<forall>uid f. fees uid = Some f \<longrightarrow> uof_paymaster f \<noteq> a \<Longrightarrow> owed fees a = 0"
  unfolding owed_def by (rule sum.neutral) auto

section \<open>The invariant\<close>

definition tracker_inv :: "'l balances_ops \<Rightarrow> ('l \<Rightarrow> bool) \<Rightarrow> 'l paymaster_tracker_inner \<Rightarrow> bool" where
  "tracker_inv ops invar t \<longleftrightarrow>
     invar (pt_paymaster_balances t) \<and> finite (dom (pt_user_op_fees t)) \<and>
     (\<forall>a b. lru_peek ops (pt_paymaster_balances t) a = Some b \<longrightarrow>
        unat (pb_pending b) = owed (pt_user_op_fees t) a) \<and>
     (\<forall>uid f. pt_user_op_fees t uid = Some f \<longrightarrow>
        lru_peek ops (pt_paymaster_balances t) (uof_paymaster f) \<noteq> None)"

text \<open>The map has an entry for the paymaster or room for one more.\<close>

definition has_room :: "'l balances_ops \<Rightarrow> 'l paymaster_tracker_inner \<Rightarrow> address \<Rightarrow> bool" where
  "has_room ops t a \<longleftrightarrow> lru_peek ops (pt_paymaster_balances t) a \<noteq> None \<or>
     length (lru_iter ops (pt_paymaster_balances t)) < lru_max_length ops (pt_paymaster_balances t)"

locale balance_map = lru_map ops invar
  for ops :: "'l balances_ops" and invar :: "'l \<Rightarrow> bool"
begin

lemma inv_invar: "tracker_inv ops invar t \<Longrightarrow> invar (pt_paymaster_balances t)"
  by (simp add: tracker_inv_def)

lemma inv_new: "tracker_inv ops invar (paymaster_tracker_inner_new ops e n)"
  by (simp add: tracker_inv_def paymaster_tracker_inner_new_def invar_ops peek_new)

lemma inv_clear: "tracker_inv ops invar t \<Longrightarrow> tracker_inv ops invar (pt_clear ops t)"
  by (simp add: tracker_inv_def pt_clear_def invar_ops peek_clear)

lemma inv_set_tracking: "tracker_inv ops invar t \<Longrightarrow> tracker_inv ops invar (pt_set_tracking t e)"
  by (simp add: tracker_inv_def pt_set_tracking_def)

text \<open>Changing the confirmed amount of an entry.\<close>

lemma inv_confirmed:
  assumes "tracker_inv ops invar t" "\<And>b. pb_pending (f b) = pb_pending b"
  shows "tracker_inv ops invar
    (t\<lparr>pt_paymaster_balances := lru_update ops (pt_paymaster_balances t) a f\<rparr>)"
  using assms by (auto simp: tracker_inv_def invar_ops peek_update peek_update_None_iff)

lemma inv_unmine: "tracker_inv ops invar t \<Longrightarrow> tracker_inv ops invar (unmine_actual_cost ops t a c)"
  unfolding unmine_actual_cost_def by (rule inv_confirmed) simp_all

lemma inv_set_confimed_from:
  assumes "set_confimed_from ops (pt_paymaster_balances t) i as balances = Some l"
    "tracker_inv ops invar t"
  shows "tracker_inv ops invar (t\<lparr>pt_paymaster_balances := l\<rparr>)"
  using assms
proof (induction as arbitrary: t i)
  case (Cons a as)
  let ?u = "lru_update ops (pt_paymaster_balances t) a (\<lambda>b. b\<lparr>pb_confirmed := balances ! i\<rparr>)"
  show ?case
  proof (cases "lru_peek ops (pt_paymaster_balances t) a")
    case None
    then show ?thesis using Cons by auto
  next
    case (Some b)
    then have "set_confimed_from ops (pt_paymaster_balances (t\<lparr>pt_paymaster_balances := ?u\<rparr>))
        (Suc i) as balances = Some l"
      using Cons.prems(1) by (auto split: if_splits)
    moreover have "tracker_inv ops invar (t\<lparr>pt_paymaster_balances := ?u\<rparr>)"
      by (rule inv_confirmed [OF Cons.prems(2)]) simp
    ultimately show ?thesis using Cons.IH by fastforce
  qed
qed (simp add: tracker_inv_def)

text \<open>Dropping an operation and releasing its cost.\<close>

lemma inv_release:
  assumes inv: "tracker_inv ops invar t" and f: "pt_user_op_fees t uid = Some f"
    and g: "\<And>b. pb_pending (g b) = saturating_sub (pb_pending b) (uof_max_op_cost f)"
  shows "tracker_inv ops invar
    (t\<lparr>pt_paymaster_balances := lru_update ops (pt_paymaster_balances t) (uof_paymaster f) g,
       pt_user_op_fees := (pt_user_op_fees t)(uid := None)\<rparr>)"
proof -
  have "unat (saturating_sub (pb_pending b) (uof_max_op_cost f)) =
      owed ((pt_user_op_fees t)(uid := None)) (uof_paymaster f)"
    if "lru_peek ops (pt_paymaster_balances t) (uof_paymaster f) = Some b" for b
    using inv that f owed_without [of "pt_user_op_fees t" "uof_paymaster f" uid]
    by (auto simp: tracker_inv_def unat_simps)
  moreover have "owed ((pt_user_op_fees t)(uid := None)) a = owed (pt_user_op_fees t) a"
    if "a \<noteq> uof_paymaster f" for a
    using inv f that owed_without [of "pt_user_op_fees t" a uid] by (auto simp: tracker_inv_def)
  moreover have "lru_peek ops (pt_paymaster_balances t) (uof_paymaster f) \<noteq> None"
    using inv f by (auto simp: tracker_inv_def)
  ultimately show ?thesis
    using inv g by (auto simp: tracker_inv_def invar_ops peek_update peek_update_None_iff
        split: if_splits)
qed

lemma inv_remove: "tracker_inv ops invar t \<Longrightarrow> tracker_inv ops invar (pt_remove_operation ops t uid)"
  unfolding pt_remove_operation_def by (auto split: option.splits intro!: inv_release)

lemma inv_mined:
  "tracker_inv ops invar t \<Longrightarrow>
   tracker_inv ops invar (update_paymaster_balance_from_mined_op ops t m)"
  unfolding update_paymaster_balance_from_mined_op_def Let_def
  by (auto split: option.splits intro!: inv_release)

text \<open>A paymaster that is not in the map owes nothing.\<close>

lemma owed_untracked:
  "tracker_inv ops invar t \<Longrightarrow> lru_peek ops (pt_paymaster_balances t) a = None \<Longrightarrow>
   owed (pt_user_op_fees t) a = 0"
  by (rule owed_none) (metis tracker_inv_def)

lemma peek_insert_room:
  assumes "tracker_inv ops invar t" "lru_peek ops (pt_paymaster_balances t) a = None" "has_room ops t a"
  shows "lru_peek ops (lru_insert ops (pt_paymaster_balances t) a v) k =
    (if k = a then Some v else lru_peek ops (pt_paymaster_balances t) k)"
  using assms peek_insert peek_insert_fits by (auto simp: has_room_def tracker_inv_def)

lemma inv_add_new_paymaster:
  assumes "tracker_inv ops invar t" "lru_peek ops (pt_paymaster_balances t) a = None" "has_room ops t a"
  shows "tracker_inv ops invar (add_new_paymaster ops t a c 0)"
  using assms owed_untracked [OF assms(1,2)]
  by (auto simp: tracker_inv_def add_new_paymaster_def invar_ops peek_insert_room [OF assms]
      paymaster_balance_new_def)

lemma inv_lookup:
  assumes "tracker_inv ops invar t" "has_room ops t a" "lookup_paymaster_balance ops ep t a = (t', r)"
  shows "tracker_inv ops invar t'"
  using assms inv_add_new_paymaster [of t a]
  by (auto simp: lookup_paymaster_balance_def paymaster_exists_def split: if_splits sum.splits)

text \<open>After a lookup that succeeds, the metadata is that of the tracked entry.\<close>

lemma lookup_tracked:
  assumes "tracker_inv ops invar t" "has_room ops t a"
    "lookup_paymaster_balance ops ep t a = (t', Inr meta)"
  obtains b where "lru_peek ops (pt_paymaster_balances t') a = Some b" "meta = balance_metadata a b"
    "pt_user_op_fees t' = pt_user_op_fees t" "pt_tracker_enabled t' = pt_tracker_enabled t"
proof (cases "lru_peek ops (pt_paymaster_balances t) a")
  case None
  then obtain c where c: "ep_balance_of ep a = Inr c"
      "t' = add_new_paymaster ops t a c 0"
      "meta = balance_metadata a (paymaster_balance_new c 0)"
    using assms(3) by (auto simp: lookup_paymaster_balance_def paymaster_exists_def
        paymaster_balance_new_def balance_metadata_def pending_balance_def saturating_sub_def
        split: sum.splits)
  show thesis
    by (rule that [of "paymaster_balance_new c 0"])
      (use c peek_insert_room [OF assms(1) None assms(2)] in \<open>simp_all add: add_new_paymaster_def\<close>)
next
  case (Some b)
  then show thesis
    using that assms(3) by (simp add: lookup_paymaster_balance_def paymaster_exists_def
        tracked_metadata_def)
qed

text \<open>Charging the cost of a new operation.\<close>

lemma inv_charge:
  assumes inv: "tracker_inv ops invar t" and new: "pt_user_op_fees t uid = None"
    and b: "lru_peek ops (pt_paymaster_balances t) a = Some b"
    and fits: "owed (pt_user_op_fees t) a + unat cost < 2 ^ 256"
  shows "tracker_inv ops invar
    (t\<lparr>pt_paymaster_balances := lru_update ops (pt_paymaster_balances t) a
          (\<lambda>b. b\<lparr>pb_pending := saturating_add (pb_pending b) cost\<rparr>),
       pt_user_op_fees := (pt_user_op_fees t)(uid \<mapsto>
          \<lparr>uof_paymaster = a, uof_max_op_cost = cost\<rparr>)\<rparr>)"
proof -
  have same: "(pt_user_op_fees t)(uid := None) = pt_user_op_fees t" using new by (auto simp: fun_eq_iff)
  have o: "owed ((pt_user_op_fees t)(uid \<mapsto> \<lparr>uof_paymaster = a, uof_max_op_cost = cost\<rparr>)) k =
      owed (pt_user_op_fees t) k + (if k = a then unat cost else 0)" for k
    using owed_update [of "pt_user_op_fees t" uid "\<lparr>uof_paymaster = a, uof_max_op_cost = cost\<rparr>" k]
      inv by (simp add: tracker_inv_def same)
  have "unat (saturating_add (pb_pending b) cost) = owed (pt_user_op_fees t) a + unat cost"
    using inv b fits by (simp add: tracker_inv_def unat_simps)
  then show ?thesis
    using inv b o by (auto simp: tracker_inv_def invar_ops peek_update peek_update_None_iff
        split: if_splits)
qed

lemma inv_peek_cong:
  assumes "tracker_inv ops invar t" "invar (pt_paymaster_balances t')"
    "\<And>k. lru_peek ops (pt_paymaster_balances t') k = lru_peek ops (pt_paymaster_balances t) k"
    "pt_user_op_fees t' = pt_user_op_fees t"
  shows "tracker_inv ops invar t'"
  using assms by (simp add: tracker_inv_def)

lemma inv_replace:
  assumes inv: "tracker_inv ops invar t" and f: "pt_user_op_fees t uid = Some f"
    and b: "lru_peek ops (pt_paymaster_balances t) (pm_address meta) = Some b"
    and fits: "owed (pt_user_op_fees t) (pm_address meta) + unat cost < 2 ^ 256"
    and r: "replace_existing_user_op ops t uid meta cost = Inr t'"
  shows "tracker_inv ops invar t'"
proof -
  let ?a = "pm_address meta"
  let ?g = "\<lambda>b. b\<lparr>pb_pending := saturating_sub (pb_pending b) (uof_max_op_cost f)\<rparr>"
  let ?h = "\<lambda>b. b\<lparr>pb_pending := saturating_add (pb_pending b) cost\<rparr>"
  define t1 where "t1 = t\<lparr>pt_paymaster_balances :=
      lru_update ops (pt_paymaster_balances t) (uof_paymaster f) ?g,
    pt_user_op_fees := (pt_user_op_fees t)(uid := None)\<rparr>"
  have inv1: "tracker_inv ops invar t1" unfolding t1_def by (rule inv_release [OF inv f]) simp
  have i: "invar (pt_paymaster_balances t)" using inv by (rule inv_invar)
  obtain b' where b': "lru_peek ops (pt_paymaster_balances t1) ?a = Some b'"
    using b by (cases "?a = uof_paymaster f") (auto simp: t1_def peek_update i)
  have "owed (pt_user_op_fees t1) ?a \<le> owed (pt_user_op_fees t) ?a"
    using owed_without [of "pt_user_op_fees t" ?a uid] inv by (simp add: t1_def tracker_inv_def)
  with fits have fits1: "owed (pt_user_op_fees t1) ?a + unat cost < 2 ^ 256" by linarith
  have "pt_user_op_fees t1 uid = None" by (simp add: t1_def)
  from inv_charge [OF inv1 this b' fits1] show ?thesis
    by (rule inv_peek_cong)
      (use r f b in \<open>auto simp: replace_existing_user_op_def decrement_previous_paymaster_balance_def
        Let_def t1_def peek_update invar_ops i option.map_comp o_def split: if_splits\<close>)
qed

text \<open>The check that precedes a charge keeps the sum below the confirmed balance.\<close>

lemma checked_fits:
  assumes inv: "tracker_inv ops invar t"
    and b: "lru_peek ops (pt_paymaster_balances t) a = Some b"
    and ok: "\<not> pending_balance b < cost"
  shows "owed (pt_user_op_fees t) a + unat cost < 2 ^ 256"
    "cost \<noteq> 0 \<Longrightarrow> owed (pt_user_op_fees t) a + unat cost \<le> unat (pb_confirmed b)"
proof -
  have p: "unat (pb_pending b) = owed (pt_user_op_fees t) a" using inv b by (simp add: tracker_inv_def)
  have c: "unat cost \<le> unat (pb_confirmed b) - owed (pt_user_op_fees t) a"
    using ok by (simp add: pending_balance_def word_less_nat_alt unat_simps p not_less)
  show le: "cost \<noteq> 0 \<Longrightarrow> owed (pt_user_op_fees t) a + unat cost \<le> unat (pb_confirmed b)"
    using c by (simp add: word_unat_eq_iff)
  have "unat (pb_confirmed b) < 2 ^ 256" "unat (pb_pending b) < 2 ^ 256"
    using unsigned_less [of "pb_confirmed b"] unsigned_less [of "pb_pending b"] by simp_all
  then show "owed (pt_user_op_fees t) a + unat cost < 2 ^ 256"
    using le p by (cases "cost = 0") auto
qed

lemma inv_add_or_update:
  assumes inv: "tracker_inv ops invar t" and po: "uo_paymaster (po_uo po) = Some a"
    and room: "has_room ops t a" and en: "pt_tracker_enabled t"
    and add: "add_or_update_balance ops ep t po = (t', Inr ())"
  obtains t1 b where "tracker_inv ops invar t'" "tracker_inv ops invar t1"
    "lru_peek ops (pt_paymaster_balances t1) a = Some b"
    "pt_user_op_fees t1 = pt_user_op_fees t"
    "\<not> pending_balance b < uo_max_gas_cost (po_uo po)"
    "pt_user_op_fees t' = (pt_user_op_fees t)(uo_id (po_uo po) \<mapsto>
       \<lparr>uof_paymaster = a, uof_max_op_cost = uo_max_gas_cost (po_uo po)\<rparr>)"
    "map_option pb_confirmed (lru_peek ops (pt_paymaster_balances t') a) = Some (pb_confirmed b)"
proof -
  obtain t1 m where l: "lookup_paymaster_balance ops ep t a = (t1, Inr m)"
    using add po by (auto simp: add_or_update_balance_def split: prod.splits sum.splits)
  from lookup_tracked [OF inv room l] obtain b where
    b: "lru_peek ops (pt_paymaster_balances t1) a = Some b" "m = balance_metadata a b"
      "pt_user_op_fees t1 = pt_user_op_fees t" "pt_tracker_enabled t1 = pt_tracker_enabled t"
    by blast
  note inv1 = inv_lookup [OF inv room l]
  have r: "inner_add_or_update_balance ops t1 po m = Inr t'"
    using add po l by (auto simp: add_or_update_balance_def split: sum.splits)
  have ok: "\<not> pending_balance b < uo_max_gas_cost (po_uo po)"
    using r en b by (auto simp: inner_add_or_update_balance_def balance_metadata_def Let_def
        split: if_splits)
  note fits = checked_fits(1) [OF inv1 b(1) ok]
  have m: "pm_address m = a" using b(2) by (simp add: balance_metadata_def)
  have i: "invar (pt_paymaster_balances t1)" by (rule inv_invar [OF inv1])
  show thesis
  proof (cases "pt_user_op_fees t1 (uo_id (po_uo po))")
    case None
    have t': "t' = t1\<lparr>pt_paymaster_balances := lru_update ops (pt_paymaster_balances t1) a
          (\<lambda>b. b\<lparr>pb_pending := saturating_add (pb_pending b) (uo_max_gas_cost (po_uo po))\<rparr>),
        pt_user_op_fees := (pt_user_op_fees t1)(uo_id (po_uo po) \<mapsto>
          \<lparr>uof_paymaster = a, uof_max_op_cost = uo_max_gas_cost (po_uo po)\<rparr>)\<rparr>"
      using r None b(1) m by (auto simp: inner_add_or_update_balance_def is_user_op_replacement_def
          add_new_user_op_def Let_def split: if_splits)
    show thesis
      by (rule that [OF _ inv1 b(1,3) ok])
        (use inv_charge [OF inv1 None b(1) fits] b(1,3) i in
          \<open>simp_all add: t' peek_update\<close>)
  next
    case (Some f)
    have rep: "replace_existing_user_op ops t1 (uo_id (po_uo po)) m (uo_max_gas_cost (po_uo po)) = Inr t'"
      using r Some by (auto simp: inner_add_or_update_balance_def is_user_op_replacement_def Let_def
          split: if_splits)
    show thesis
      by (rule that [OF inv_replace [OF inv1 Some _ _ rep] inv1 b(1,3) ok])
        (use rep Some b(1,3) m fits i in \<open>auto simp: replace_existing_user_op_def
          decrement_previous_paymaster_balance_def peek_update invar_ops Let_def
          split: if_splits\<close>)
  qed
qed

end

interpretation tracked: balance_map ll_ops ll_invar
  by unfold_locales

end
