(* ===== verification/Paymaster_Theorems.thy ===== *)
theory Paymaster_Theorems
  imports Paymaster_Invariant Pool_Samples
begin

text \<open>
  The states the paymaster tracker reaches while no paymaster is evicted, and the theorems about
  them for every bounded map that keeps the laws of \<open>lru_map\<close>.
\<close>

section \<open>Reachable trackers\<close>

text \<open>
  The steps of the tracker.  An operation is charged while tracking is enabled (otherwise the
  amounts may saturate) and while the map has room for its paymaster; a panic is no step.
\<close>

inductive tracker_step ::
  "'l balances_ops \<Rightarrow> entry_point \<Rightarrow> 'l paymaster_tracker_inner \<Rightarrow> 'l paymaster_tracker_inner \<Rightarrow> bool"
  for ops :: "'l balances_ops" and ep :: entry_point where
  add: "uo_paymaster (po_uo po) = Some a \<Longrightarrow> has_room ops t a \<Longrightarrow> pt_tracker_enabled t \<Longrightarrow>
        add_or_update_balance ops ep t po = (t', r) \<Longrightarrow> tracker_step ops ep t t'"
| check: "uo_paymaster op = Some a \<Longrightarrow> has_room ops t a \<Longrightarrow>
        check_operation_cost ops ep t op = (t', r) \<Longrightarrow> tracker_step ops ep t t'"
| remove: "tracker_step ops ep t (pt_remove_operation ops t uid)"
| mined: "tracker_step ops ep t (update_paymaster_balance_from_mined_op ops t m)"
| unmined: "tracker_step ops ep t (unmine_actual_cost ops t a c)"
| reset: "reset_confirmed_balances_for ops ep t as = Some (t', r) \<Longrightarrow> tracker_step ops ep t t'"
| clear: "tracker_step ops ep t (pt_clear ops t)"
| set_tracking: "tracker_step ops ep t (pt_set_tracking t e)"

inductive tracker_reachable ::
  "'l balances_ops \<Rightarrow> entry_point \<Rightarrow> 'l paymaster_tracker_inner \<Rightarrow> bool"
  for ops :: "'l balances_ops" and ep :: entry_point where
  new: "tracker_reachable ops ep (paymaster_tracker_inner_new ops e n)"
| step: "tracker_reachable ops ep t \<Longrightarrow> tracker_step ops ep t t' \<Longrightarrow> tracker_reachable ops ep t'"

context balance_map
begin

lemma inv_add_any:
  assumes "uo_paymaster (po_uo po) = Some a" "has_room ops t a" "pt_tracker_enabled t"
    "add_or_update_balance ops ep t po = (t', r)" "tracker_inv ops invar t"
  shows "tracker_inv ops invar t'"
proof (cases r)
  case (Inr u)
  then have "add_or_update_balance ops ep t po = (t', Inr ())" using assms(4) by simp
  then show ?thesis by (rule inv_add_or_update [OF assms(5,1,2,3)])
next
  case (Inl e)
  obtain t1 m where l: "lookup_paymaster_balance ops ep t a = (t1, m)"
    by (cases "lookup_paymaster_balance ops ep t a")
  have "t' = t1"
    using assms(1,4) Inl l by (auto simp: add_or_update_balance_def split: sum.splits)
  then show ?thesis using inv_lookup [OF assms(5,2) l] by simp
qed

lemma step_inv: "tracker_step ops ep t t' \<Longrightarrow> tracker_inv ops invar t \<Longrightarrow> tracker_inv ops invar t'"
proof (induction rule: tracker_step.induct)
  case (add po a t t' r)
  then show ?case by (rule inv_add_any)
next
  case (check op a t t' r)
  obtain t1 m where l: "lookup_paymaster_balance ops ep t a = (t1, m)"
    by (cases "lookup_paymaster_balance ops ep t a")
  then have "t' = t1" using check(1,3) by (auto simp: check_operation_cost_def split: sum.splits)
  then show ?case using inv_lookup [OF check(4,2) l] by simp
next
  case (reset t as t' r)
  then show ?case
    using inv_set_confimed_from
    by (auto simp: reset_confirmed_balances_for_def set_confimed_balances_def split: sum.splits)
qed (simp_all add: inv_remove inv_mined inv_unmine inv_clear inv_set_tracking)

lemma reachable_inv: "tracker_reachable ops ep t \<Longrightarrow> tracker_inv ops invar t"
  by (induction rule: tracker_reachable.induct) (auto intro: inv_new step_inv)

end

section \<open>Sample trackers\<close>

definition sample_ep :: entry_point where
  "sample_ep =
     \<lparr>ep_get_deposit_info = (\<lambda>_. Inl ''none''), ep_balance_of = (\<lambda>_. Inr 1000000),
      ep_get_balances = (\<lambda>as. Inr (map (\<lambda>_. 1000000) as))\<rparr>"

definition sponsored :: "pool_operation \<Rightarrow> pool_operation" where
  "sponsored po = po\<lparr>po_uo := (case po_uo po of
     V0_6 op \<Rightarrow> V0_6 (op\<lparr>u6_paymaster_and_data := be_bytes 20 (5 :: address)\<rparr>) | V0_7 op \<Rightarrow> V0_7 op)\<rparr>"

definition tracker0 :: "(address, paymaster_balance) lru_list paymaster_tracker_inner" where
  "tracker0 = paymaster_tracker_inner_new ll_ops True 2"

lemma sponsored_simps [simp]:
  "uo_paymaster (po_uo (sponsored (sample_po s n h f))) = Some 5"
  "uo_id (po_uo (sponsored (sample_po s n h f))) = \<lparr>id_sender = s, id_nonce = n\<rparr>"
  "uo_max_gas_cost (po_uo (sponsored (sample_po s n h f))) = ucast (f * 7100)"
  by (simp_all add: sponsored_def sample_po_def sample_uo_def uo6_paymaster_def uo6_id_def
      get_address_from_field_def uo6_max_gas_cost_def)

definition tracker1 :: "(address, paymaster_balance) lru_list paymaster_tracker_inner" where
  "tracker1 = fst (add_or_update_balance ll_ops sample_ep tracker0 (sponsored (sample_po 1 0 7 100)))"

lemmas tracker_eval = tracker0_def paymaster_tracker_inner_new_def add_or_update_balance_def
  lookup_paymaster_balance_def paymaster_exists_def inner_add_or_update_balance_def
  is_user_op_replacement_def add_new_user_op_def add_new_paymaster_def sample_ep_def ll_new_def
  ll_peek_def ll_insert_def ll_update_def ll_without_def paymaster_balance_new_def saturating_add_def Let_def

lemma add_tracker0:
  "add_or_update_balance ll_ops sample_ep tracker0 (sponsored (sample_po 1 0 7 100)) =
     (tracker1, Inr ())"
  by (simp add: tracker1_def tracker_eval)

lemma tracker1_simps [simp]:
  "pt_user_op_fees tracker1 =
     [\<lparr>id_sender = 1, id_nonce = 0\<rparr> \<mapsto> \<lparr>uof_paymaster = 5, uof_max_op_cost = 710000\<rparr>]"
  "pt_paymaster_balances tracker1 = \<lparr>ll_max_length = 2,
     ll_entries = [(5, \<lparr>pb_pending = 710000, pb_confirmed = 1000000\<rparr>)]\<rparr>"
  "pt_tracker_enabled tracker1"
  by (simp_all add: tracker1_def tracker_eval)

lemma tracker1_reachable: "tracker_reachable ll_ops sample_ep tracker1"
proof (rule tracker_reachable.step [OF tracker_reachable.new tracker_step.add])
  show "add_or_update_balance ll_ops sample_ep (paymaster_tracker_inner_new ll_ops True 2)
      (sponsored (sample_po 1 0 7 100)) = (tracker1, Inr ())"
    using add_tracker0 by (simp add: tracker0_def)
qed (simp_all add: has_room_def paymaster_tracker_inner_new_def ll_new_def)

section \<open>Theorems\<close>

text \<open>
  C13: the pending amount of a tracked paymaster is the sum of the maximal costs of its operations.
  This holds for every bounded map with the documented laws, in every state that was reached while
  operations were charged only with tracking enabled and while no paymaster was evicted from the
  map.  Where one was, the sum is lost, as the last theorem below shows.
\<close>

theorem pending_is_sum_of_costs:
  assumes "lru_map ops invar" "tracker_reachable ops ep t"
    "lru_peek ops (pt_paymaster_balances t) a = Some b"
  shows "unat (pb_pending b) =
    (\<Sum>uid\<in>dom (pt_user_op_fees t). fee_share a (pt_user_op_fees t uid))"
proof -
  have "balance_map ops invar" using assms(1) by (rule balance_map.intro)
  from balance_map.reachable_inv [OF this assms(2)] show ?thesis
    using assms(3) by (simp add: tracker_inv_def owed_def)
qed

theorem pending_is_sum_of_costs_witness:
  "unat (710000 :: u256) =
    (\<Sum>uid\<in>dom (pt_user_op_fees tracker1). fee_share 5 (pt_user_op_fees tracker1 uid))"
  using pending_is_sum_of_costs [OF lru_list.lru_map_axioms tracker1_reachable,
      of 5 "\<lparr>pb_pending = 710000, pb_confirmed = 1000000\<rparr>"]
  by (simp add: ll_peek_def)

text \<open>
  C20: when an operation is charged to its paymaster, the maximal costs of all operations the
  tracker holds for that paymaster, the replaced one still included, and the new one together are
  covered by the confirmed balance.  The operation has a positive maximal cost, tracking is enabled,
  no paymaster was evicted before and the map has room for this one.  The call of
  \<open>add_or_update_balance\<close> is one step here; of two calls that look up the balance before either of
  them updates it, the theorem says nothing.
\<close>

theorem accepted_is_covered:
  assumes "lru_map ops invar" "tracker_reachable ops ep t" "pt_tracker_enabled t"
    "uo_paymaster (po_uo po) = Some a" "has_room ops t a" "uo_max_gas_cost (po_uo po) \<noteq> 0"
    "add_or_update_balance ops ep t po = (t', Inr ())"
  shows "\<exists>b. lru_peek ops (pt_paymaster_balances t') a = Some b \<and>
    owed (pt_user_op_fees t) a + unat (uo_max_gas_cost (po_uo po)) \<le> unat (pb_confirmed b)"
proof -
  have bm: "balance_map ops invar" using assms(1) by (rule balance_map.intro)
  note inv = balance_map.reachable_inv [OF bm assms(2)]
  show ?thesis
  proof (rule balance_map.inv_add_or_update [OF bm inv assms(4,5,3,7)])
    fix t1 b
    assume t1: "tracker_inv ops invar t1" "lru_peek ops (pt_paymaster_balances t1) a = Some b"
      "pt_user_op_fees t1 = pt_user_op_fees t" "\<not> pending_balance b < uo_max_gas_cost (po_uo po)"
      and c: "map_option pb_confirmed (lru_peek ops (pt_paymaster_balances t') a) = Some (pb_confirmed b)"
    show ?thesis
      using balance_map.checked_fits(2) [OF bm t1(1,2,4) assms(6)] t1(3) c by auto
  qed
qed

theorem accepted_is_covered_witness:
  "\<exists>b. lru_peek ll_ops (pt_paymaster_balances tracker1) 5 = Some b \<and>
    owed (pt_user_op_fees tracker0) 5 + 710000 \<le> unat (pb_confirmed b)"
proof -
  have "tracker_reachable ll_ops sample_ep tracker0"
    unfolding tracker0_def by (rule tracker_reachable.new)
  from accepted_is_covered [OF lru_list.lru_map_axioms this _ _ _ _ add_tracker0] show ?thesis
    by (simp add: tracker0_def paymaster_tracker_inner_new_def has_room_def ll_new_def ll_peek_def)
qed

text \<open>
  Removing an operation right after it was added restores the tracked operations and the
  pending amount of every paymaster that was tracked before.
\<close>

theorem add_remove_restores:
  assumes "lru_map ops invar" "tracker_reachable ops ep t" "pt_tracker_enabled t"
    "uo_paymaster (po_uo po) = Some a" "has_room ops t a"
    "pt_user_op_fees t (uo_id (po_uo po)) = None"
    "add_or_update_balance ops ep t po = (t', Inr ())"
  shows "pt_user_op_fees (pt_remove_operation ops t' (uo_id (po_uo po))) = pt_user_op_fees t \<and>
    (\<forall>k b b'. lru_peek ops (pt_paymaster_balances t) k = Some b \<and>
       lru_peek ops (pt_paymaster_balances (pt_remove_operation ops t' (uo_id (po_uo po)))) k = Some b'
       \<longrightarrow> pb_pending b' = pb_pending b)"
proof -
  have bm: "balance_map ops invar" using assms(1) by (rule balance_map.intro)
  note inv = balance_map.reachable_inv [OF bm assms(2)]
  let ?t = "pt_remove_operation ops t' (uo_id (po_uo po))"
  show ?thesis
  proof (rule balance_map.inv_add_or_update [OF bm inv assms(4,5,3,7)])
    assume inv': "tracker_inv ops invar t'"
      and f: "pt_user_op_fees t' = (pt_user_op_fees t)(uo_id (po_uo po) \<mapsto>
        \<lparr>uof_paymaster = a, uof_max_op_cost = uo_max_gas_cost (po_uo po)\<rparr>)"
    have fees: "pt_user_op_fees ?t = pt_user_op_fees t"
      using f assms(6) by (auto simp: pt_remove_operation_def fun_eq_iff)
    have "unat (pb_pending b') = unat (pb_pending b)"
      if "lru_peek ops (pt_paymaster_balances t) k = Some b"
        "lru_peek ops (pt_paymaster_balances ?t) k = Some b'" for k b b'
      using inv balance_map.inv_remove [OF bm inv', of "uo_id (po_uo po)"] that fees
      by (simp add: tracker_inv_def)
    then show ?thesis using fees unfolding word_unat_eq_iff by blast
  qed
qed

theorem add_remove_restores_witness:
  "pt_user_op_fees (pt_remove_operation ll_ops tracker1 \<lparr>id_sender = 1, id_nonce = 0\<rparr>) = Map.empty"
proof -
  have "tracker_reachable ll_ops sample_ep tracker0"
    unfolding tracker0_def by (rule tracker_reachable.new)
  from add_remove_restores [OF lru_list.lru_map_axioms this _ _ _ _ add_tracker0] show ?thesis
    by (simp add: tracker0_def paymaster_tracker_inner_new_def has_room_def ll_new_def)
qed

text \<open>
  C37: let tracking be enabled, let an operation replace one of the same sender and nonce, and let
  its paymaster be tracked.  If the cost of the replacement exceeds the pending balance of the
  paymaster but not the pending balance with the cost of the replaced operation given back, then it
  passes the check of its cost and is afterwards refused when the balance is updated.
\<close>

theorem replacement_checked_then_refused:
  assumes "pt_tracker_enabled t" "uo_paymaster (po_uo po) = Some a"
    "lru_peek ops (pt_paymaster_balances t) a = Some b"
    "pt_user_op_fees t (uo_id (po_uo po)) = Some prev"
    "pending_balance b < uo_max_gas_cost (po_uo po)"
    "uo_max_gas_cost (po_uo po) \<le> saturating_add (pending_balance b) (uof_max_op_cost prev)"
  shows "check_operation_cost ops ep t (po_uo po) = (t, Inr ()) \<and>
    add_or_update_balance ops ep t po =
      (t, Inl (PaymasterBalanceTooLow (uo_max_gas_cost (po_uo po)) (pending_balance b)))"
  using assms
  by (simp add: check_operation_cost_def add_or_update_balance_def lookup_paymaster_balance_def
      paymaster_exists_def tracked_metadata_def balance_metadata_def inner_check_operation_cost_def
      inner_add_or_update_balance_def Let_def not_less)

theorem replacement_checked_then_refused_witness:
  "check_operation_cost ll_ops sample_ep tracker1 (po_uo (sponsored (sample_po 1 0 8 110))) =
     (tracker1, Inr ()) \<and>
   add_or_update_balance ll_ops sample_ep tracker1 (sponsored (sample_po 1 0 8 110)) =
     (tracker1, Inl (PaymasterBalanceTooLow 781000 290000))"
  using replacement_checked_then_refused [of tracker1 "sponsored (sample_po 1 0 8 110)" 5 ll_ops
      "\<lparr>pb_pending = 710000, pb_confirmed = 1000000\<rparr>"
      "\<lparr>uof_paymaster = 5, uof_max_op_cost = 710000\<rparr>" sample_ep]
  by (simp add: ll_peek_def pending_balance_def saturating_sub_def saturating_add_def)

text \<open>
  C40: the tracker forgets what a paymaster owes when the bounded map has evicted it.  Let operations
  of the paymaster still be recorded, but let the map no longer hold it.  The next operation that
  its deposit covers by itself is then charged, and afterwards the pending amount is the cost of
  this operation alone: it falls short of the sum of the recorded costs by all that was owed before.
\<close>

theorem eviction_forgets_costs:
  assumes "lru_map ops invar" "invar (pt_paymaster_balances t)"
    "0 < lru_max_length ops (pt_paymaster_balances t)" "finite (dom (pt_user_op_fees t))"
    "uo_paymaster (po_uo po) = Some a" "lru_peek ops (pt_paymaster_balances t) a = None"
    "ep_balance_of ep a = Inr balance" "uo_max_gas_cost (po_uo po) \<le> balance"
    "pt_user_op_fees t (uo_id (po_uo po)) = None"
  shows "\<exists>t' b. add_or_update_balance ops ep t po = (t', Inr ()) \<and>
    lru_peek ops (pt_paymaster_balances t') a = Some b \<and> pb_confirmed b = balance \<and>
    pb_pending b = uo_max_gas_cost (po_uo po) \<and>
    owed (pt_user_op_fees t') a = owed (pt_user_op_fees t) a + unat (pb_pending b)"
proof -
  note L = lru_map.peek_insert [OF assms(1-3)] lru_map.invar_ops(3) [OF assms(1,2)]
  have "(pt_user_op_fees t)(uo_id (po_uo po) := None) = pt_user_op_fees t"
    using assms(9) by (auto simp: fun_eq_iff)
  then show ?thesis
    using assms(5-9) L owed_update [OF assms(4), of "uo_id (po_uo po)" _ a]
    by (simp add: add_or_update_balance_def lookup_paymaster_balance_def paymaster_exists_def
        add_new_paymaster_def paymaster_balance_new_def inner_add_or_update_balance_def not_less
        is_user_op_replacement_def add_new_user_op_def lru_map.peek_update [OF assms(1)] Let_def)
qed

definition sponsored_by :: "address \<Rightarrow> pool_operation \<Rightarrow> pool_operation" where
  "sponsored_by a po = po\<lparr>po_uo := (case po_uo po of
     V0_6 op \<Rightarrow> V0_6 (op\<lparr>u6_paymaster_and_data := be_bytes 20 a\<rparr>) | V0_7 op \<Rightarrow> V0_7 op)\<rparr>"

lemma sponsored_by_simps [simp]:
  "uo_paymaster (po_uo (sponsored_by a (sample_po s n h f))) = Some a"
  "uo_id (po_uo (sponsored_by a (sample_po s n h f))) = \<lparr>id_sender = s, id_nonce = n\<rparr>"
  "uo_max_gas_cost (po_uo (sponsored_by a (sample_po s n h f))) = ucast (f * 7100)"
  by (simp_all add: sponsored_by_def sample_po_def sample_uo_def uo6_paymaster_def uo6_id_def
      get_address_from_field_def uo6_max_gas_cost_def)

text \<open>A map with room for one paymaster: charging paymaster 6 evicts paymaster 5.\<close>

definition small_tracker :: "(address, paymaster_balance) lru_list paymaster_tracker_inner" where
  "small_tracker =
     (let t = paymaster_tracker_inner_new ll_ops True 1;
          t = fst (add_or_update_balance ll_ops sample_ep t (sponsored_by 5 (sample_po 1 0 7 100)))
      in fst (add_or_update_balance ll_ops sample_ep t (sponsored_by 6 (sample_po 2 0 8 100))))"

lemma small_tracker_simps:
  "pt_user_op_fees small_tracker =
     [\<lparr>id_sender = 1, id_nonce = 0\<rparr> \<mapsto> \<lparr>uof_paymaster = 5, uof_max_op_cost = 710000\<rparr>,
      \<lparr>id_sender = 2, id_nonce = 0\<rparr> \<mapsto> \<lparr>uof_paymaster = 6, uof_max_op_cost = 710000\<rparr>]"
  "pt_paymaster_balances small_tracker = \<lparr>ll_max_length = 1,
     ll_entries = [(6, \<lparr>pb_pending = 710000, pb_confirmed = 1000000\<rparr>)]\<rparr>"
  by (simp_all add: small_tracker_def tracker_eval)

theorem eviction_forgets_costs_witness:
  "\<exists>t' b. add_or_update_balance ll_ops sample_ep small_tracker (sponsored_by 5 (sample_po 3 0 9 100)) =
       (t', Inr ()) \<and>
     lru_peek ll_ops (pt_paymaster_balances t') 5 = Some b \<and> pb_pending b = 710000 \<and>
     pb_confirmed b = 1000000 \<and> owed (pt_user_op_fees t') 5 = 1420000"
proof -
  have "owed (pt_user_op_fees small_tracker) 5 = 710000"
    by (simp add: small_tracker_simps owed_def)
  then show ?thesis
    using eviction_forgets_costs [OF lru_list.lru_map_axioms, of small_tracker
        "sponsored_by 5 (sample_po 3 0 9 100)" 5 sample_ep 1000000]
    by (auto simp: small_tracker_simps ll_peek_def ll_invar_def sample_ep_def)
qed

end
