(* ===== verification/Mempool_Filter.thy ===== *)
theory Mempool_Filter
  imports Pool_Types
begin

text \<open>
  The configuration of the mempools, \<open>crates/sim/src/simulation/mempool.rs\<close>: filters that tag
  operations, and allowlists that excuse violations found by simulation.
\<close>

section \<open>Data\<close>

datatype allow_entity = AnyEntity | Type entity_type | Address address

definition allow_entity_from_str ::
  "(string \<Rightarrow> string + address) \<Rightarrow> string \<Rightarrow> string + allow_entity" where
  "allow_entity_from_str parse s =
     (if s = ''*'' then Inr AnyEntity
      else if s = ''account'' then Inr (Type Account)
      else if s = ''paymaster'' then Inr (Type Paymaster)
      else if s = ''aggregator'' then Inr (Type Aggregator)
      else if s = ''factory'' then Inr (Type Factory)
      else case parse s of Inl e \<Rightarrow> Inl e | Inr a \<Rightarrow> Inr (Address a))"

fun entity_is_allowed :: "allow_entity \<Rightarrow> entity \<Rightarrow> bool" where
  "entity_is_allowed AnyEntity e = True"
| "entity_is_allowed (Type kind) e = (ent_kind e = kind)"
| "entity_is_allowed (Address a) e = (ent_address e = a)"

datatype filter_kind = FilterAggregator address

record mempool_filter =
  mf_id :: string
  mf_filter :: filter_kind

definition filter_apply :: "mempool_filter \<Rightarrow> user_operation_variant \<Rightarrow> bool" where
  "filter_apply f operation =
     (case mf_filter f of FilterAggregator a \<Rightarrow> uo_aggregator operation = Some a)"

datatype allow_rule =
  ForbiddenOpcode address u8
  | ForbiddenPrecompile address address
  | AllowInvalidStorageAccess address u256
  | CallWithValue
  | AllowNotStaked

record allowlist_entry =
  ale_entity :: allow_entity
  ale_rule :: allow_rule

record mempool_config =
  mpc_entry_point :: address
  mpc_allowlist :: "allowlist_entry list"
  mpc_filters :: "mempool_filter list"

section \<open>Operations\<close>

definition match_filter :: "mempool_config \<Rightarrow> user_operation_variant \<Rightarrow> string option" where
  "match_filter c operation =
     map_option mf_id (List.find (\<lambda>f. filter_apply f operation) (mpc_filters c))"

definition get_for_entry_point ::
  "(b256 \<rightharpoonup> mempool_config) \<Rightarrow> address \<Rightarrow> (b256 \<rightharpoonup> mempool_config)" where
  "get_for_entry_point configs entry_point =
     (\<lambda>i. case configs i of
            Some c \<Rightarrow> if mpc_entry_point c = entry_point then Some c else None
          | None \<Rightarrow> None)"

definition entry_is_allowed :: "allowlist_entry \<Rightarrow> simulation_violation \<Rightarrow> bool" where
  "entry_is_allowed e violation =
     (case (ale_rule e, violation) of
        (ForbiddenOpcode contract opcode, UsedForbiddenOpcode ve vc vo) \<Rightarrow>
          entity_is_allowed (ale_entity e) ve \<and> contract = vc \<and> opcode = vo
      | (ForbiddenPrecompile contract precompile, UsedForbiddenPrecompile ve vc va) \<Rightarrow>
          entity_is_allowed (ale_entity e) ve \<and> contract = vc \<and> precompile = va
      | (AllowInvalidStorageAccess contract slot, InvalidStorageAccess ve vs) \<Rightarrow>
          entity_is_allowed (ale_entity e) ve \<and> contract = slot_address vs \<and> slot = slot_slot vs
      | (CallWithValue, CallHadValue ve) \<Rightarrow> entity_is_allowed (ale_entity e) ve
      | (AllowNotStaked, NotStaked stake_data) \<Rightarrow>
          entity_is_allowed (ale_entity e) (nsi_needs_stake stake_data)
      | _ \<Rightarrow> False)"

datatype mempool_match_result = Matches "b256 list" | NoMatch usize

text \<open>
  The keys of the hash map are the argument \<open>keys\<close>, in iteration order.  The candidates are keys,
  so the indexing \<open>mempools[p]\<close> does not panic.
\<close>

definition allows :: "(b256 \<rightharpoonup> mempool_config) \<Rightarrow> simulation_violation \<Rightarrow> b256 \<Rightarrow> bool" where
  "allows mempools violation p =
     (case mempools p of
        Some c \<Rightarrow> list_ex (\<lambda>r. entry_is_allowed r violation) (mpc_allowlist c)
      | None \<Rightarrow> False)"

fun match_from ::
  "(b256 \<rightharpoonup> mempool_config) \<Rightarrow> b256 list \<Rightarrow> usize \<Rightarrow> simulation_violation list \<Rightarrow> mempool_match_result" where
  "match_from mempools candidate_pools i [] = Matches candidate_pools"
| "match_from mempools candidate_pools i (violation # rest) =
     (let candidate_pools = filter (allows mempools violation) candidate_pools
      in if candidate_pools = [] then NoMatch i
         else match_from mempools candidate_pools (i + 1) rest)"

definition match_mempools ::
  "(b256 \<rightharpoonup> mempool_config) \<Rightarrow> b256 list \<Rightarrow> simulation_violation list \<Rightarrow> mempool_match_result" where
  "match_mempools mempools keys violations = match_from mempools keys 0 violations"

section \<open>Facts\<close>

lemma match_from_result:
  assumes "unat i + length vs < 2 ^ 64"
  shows "case match_from ms ps i vs of
      Matches qs \<Rightarrow> qs = filter (\<lambda>p. \<forall>v\<in>set vs. allows ms v p) ps \<and> (vs = [] \<or> qs \<noteq> [])
    | NoMatch j \<Rightarrow>
        \<exists>n < length vs. unat j = unat i + n
          \<and> filter (\<lambda>p. \<forall>v\<in>set (take (Suc n) vs). allows ms v p) ps = []
          \<and> (n = 0 \<or> filter (\<lambda>p. \<forall>v\<in>set (take n vs). allows ms v p) ps \<noteq> [])"
  using assms
proof (induction vs arbitrary: ps i)
  case (Cons v vs)
  let ?qs = "filter (allows ms v) ps"
  show ?case
  proof (cases "?qs = []")
    case True
    then show ?thesis by (auto intro!: exI [of _ 0])
  next
    case False
    have i: "unat (i + 1) = Suc (unat i)" using Cons.prems by (simp add: unat_word_ariths)
    have *: "filter P ?qs = filter (\<lambda>p. allows ms v p \<and> P p) ps" for P
      by (simp add: conj_commute)
    note IH = Cons.IH [of "i + 1" ?qs, unfolded i *]
    show ?thesis
    proof (cases "match_from ms ?qs (i + 1) vs")
      case (Matches qs)
      with IH Cons.prems False show ?thesis by (auto simp: Let_def)
    next
      case (NoMatch j)
      with IH Cons.prems False obtain n where
        "n < length vs" "unat j = Suc (unat i) + n"
        "filter (\<lambda>p. allows ms v p \<and> (\<forall>v\<in>set (take (Suc n) vs). allows ms v p)) ps = []"
        "n = 0 \<or> filter (\<lambda>p. allows ms v p \<and> (\<forall>v\<in>set (take n vs). allows ms v p)) ps \<noteq> []"
        by auto
      with NoMatch False show ?thesis
        by (simp add: Let_def) (elim disjE, simp_all)
    qed
  qed
qed simp

section \<open>Theorem\<close>

text \<open>
  Matching returns exactly the mempools whose allowlists excuse every violation.  When none is
  left it returns the index of the first violation that no remaining mempool excuses.
\<close>

theorem match_mempools_result:
  assumes "length violations < 2 ^ 64"
  shows "case match_mempools mempools keys violations of
      Matches ids \<Rightarrow>
        set ids = {p \<in> set keys. \<forall>v\<in>set violations. allows mempools v p} \<and>
        (violations = [] \<or> ids \<noteq> [])
    | NoMatch i \<Rightarrow>
        unat i < length violations \<and>
        (\<forall>p\<in>set keys. \<exists>v\<in>set (take (Suc (unat i)) violations). \<not> allows mempools v p) \<and>
        (i = 0 \<or> (\<exists>p\<in>set keys. \<forall>v\<in>set (take (unat i) violations). allows mempools v p))"
proof (cases "match_mempools mempools keys violations")
  case (Matches ids)
  with match_from_result [of 0 violations mempools keys] assms show ?thesis
    by (auto simp: match_mempools_def)
next
  case (NoMatch i)
  with match_from_result [of 0 violations mempools keys] assms show ?thesis
    by (auto simp: match_mempools_def filter_empty_conv unat_eq_zero)
qed

definition sample_mempools :: "b256 \<rightharpoonup> mempool_config" where
  "sample_mempools = [1 \<mapsto> \<lparr>mpc_entry_point = 7, mpc_allowlist =
       [\<lparr>ale_entity = Type Paymaster, ale_rule = CallWithValue\<rparr>], mpc_filters = []\<rparr>,
     2 \<mapsto> \<lparr>mpc_entry_point = 7, mpc_allowlist = [], mpc_filters = []\<rparr>]"

theorem match_mempools_result_witness:
  "match_mempools sample_mempools [1, 2] [CallHadValue (entity_paymaster 5)] = Matches [1] \<and>
   allows sample_mempools (CallHadValue (entity_paymaster 5)) 1 \<and>
   \<not> allows sample_mempools (CallHadValue (entity_paymaster 5)) 2"
  using match_mempools_result [of "[CallHadValue (entity_paymaster 5)]" "[1, 2]" sample_mempools]
  by (simp add: match_mempools_def allows_def sample_mempools_def entry_is_allowed_def
      entity_paymaster_def entity_new_def)

end
