(* ===== verification/BTree_Map.thy ===== *)
theory BTree_Map
  imports Prelude
begin

text \<open>
  The ordered maps of the standard library (\<open>BTreeMap\<close>) as association lists in ascending order of
  the keys; a lookup is \<open>map_of\<close>.
\<close>

type_synonym ('k, 'v) btree_map = "('k \<times> 'v) list"

fun btm_insert :: "'k::linorder \<Rightarrow> 'v \<Rightarrow> ('k, 'v) btree_map \<Rightarrow> ('k, 'v) btree_map" where
  "btm_insert k v [] = [(k, v)]"
| "btm_insert k v ((k', v') # m) =
     (if k < k' then (k, v) # (k', v') # m
      else if k = k' then (k, v) # m
      else (k', v') # btm_insert k v m)"

definition btm_remove :: "'k \<Rightarrow> ('k, 'v) btree_map \<Rightarrow> ('k, 'v) btree_map" where
  "btm_remove k m = filter (\<lambda>(k', _). k' \<noteq> k) m"

text \<open>\<open>entry(k).or_default()\<close>.\<close>

definition btm_or_default :: "'k::linorder \<Rightarrow> 'v \<Rightarrow> ('k, 'v) btree_map \<Rightarrow> ('k, 'v) btree_map" where
  "btm_or_default k d m = (case map_of m k of None \<Rightarrow> btm_insert k d m | Some _ \<Rightarrow> m)"

definition btm_get_or :: "'v \<Rightarrow> ('k, 'v) btree_map \<Rightarrow> 'k \<Rightarrow> 'v" where
  "btm_get_or d m k = (case map_of m k of None \<Rightarrow> d | Some v \<Rightarrow> v)"

definition btm_sorted :: "('k::linorder, 'v) btree_map \<Rightarrow> bool" where
  "btm_sorted m \<longleftrightarrow> sorted_wrt (<) (map fst m)"

lemma map_of_btm_insert [simp]: "map_of (btm_insert k v m) = (map_of m)(k \<mapsto> v)"
  by (induction m) (auto simp: fun_eq_iff)

lemma map_of_btm_remove [simp]: "map_of (btm_remove k m) = (map_of m)(k := None)"
  by (induction m) (auto simp: btm_remove_def fun_eq_iff)

lemma map_of_btm_or_default [simp]:
  "map_of (btm_or_default k d m) = (map_of m)(k \<mapsto> btm_get_or d m k)"
  by (auto simp: btm_or_default_def btm_get_or_def fun_upd_idem split: option.split)

lemma btm_get_or_simps [simp]:
  "btm_get_or d (btm_insert k v m) k' = (if k' = k then v else btm_get_or d m k')"
  "btm_get_or d (btm_or_default k d m) k' = btm_get_or d m k'"
  "btm_get_or d (btm_remove k m) k' = (if k' = k then d else btm_get_or d m k')"
  by (simp_all add: btm_get_or_def)

lemma set_btm_insert [simp]: "set (map fst (btm_insert k v m)) = insert k (set (map fst m))"
  by (induction k v m rule: btm_insert.induct) (simp_all add: insert_commute)

lemma btm_sorted_simps [simp]:
  "btm_sorted []"
  "btm_sorted (kv # m) \<longleftrightarrow> (\<forall>k\<in>set (map fst m). fst kv < k) \<and> btm_sorted m"
  by (simp_all add: btm_sorted_def)

lemma btm_sorted_insert: "btm_sorted m \<Longrightarrow> btm_sorted (btm_insert k v m)"
proof (induction m)
  case (Cons kv m)
  obtain k' v' where [simp]: "kv = (k', v')" by (cases kv)
  show ?case
  proof (cases "k < k'")
    case True
    with Cons.prems show ?thesis by (auto intro: less_trans)
  next
    case False
    with Cons have "btm_sorted (btm_insert k v m)" by simp
    with False Cons.prems show ?thesis
      using set_btm_insert [of k v m] by (simp del: set_map set_btm_insert) auto
  qed
qed simp

lemma btm_sorted_remove: "btm_sorted m \<Longrightarrow> btm_sorted (btm_remove k m)"
  by (induction m) (auto simp: btm_remove_def)

lemma btm_sorted_distinct: "btm_sorted m \<Longrightarrow> distinct (map fst m)"
  by (induction m) auto

end
