(* ===== verification/Storage.thy ===== *)
theory Storage
  imports BTree_Map
begin

text \<open>
  The storage values validation relies on, \<open>crates/types/src/storage.rs\<close>: the values one operation
  expects, and the values a bundle expects together with how many operations expect each of them.
\<close>

section \<open>Data and operations\<close>

type_synonym expected_storage = "(address, (b256, b256) btree_map) btree_map"

definition es_insert :: "expected_storage \<Rightarrow> address \<Rightarrow> u256 \<Rightarrow> u256 \<Rightarrow> expected_storage" where
  "es_insert es a slot value = btm_insert a (btm_insert slot value (btm_get_or [] es a)) es"

definition num_slots :: "expected_storage \<Rightarrow> usize" where
  "num_slots es = sum_list (map (\<lambda>(_, slots). of_nat (length slots)) es)"

record bundle_expected_storage =
  bes_inner :: expected_storage
  bes_counts :: "(address, (b256, usize) btree_map) btree_map"

definition bes_default :: bundle_expected_storage where
  "bes_default = \<lparr>bes_inner = [], bes_counts = []\<rparr>"

definition change_slot_count ::
  "(usize \<Rightarrow> usize) \<Rightarrow> address \<Rightarrow> b256 \<Rightarrow> (address, (b256, usize) btree_map) btree_map
     \<Rightarrow> (address, (b256, usize) btree_map) btree_map" where
  "change_slot_count f a slot counts =
     (let m = btm_get_or [] counts a in btm_insert a (btm_insert slot (f (btm_get_or 0 m slot)) m) counts)"

text \<open>The inner loop of \<open>add\<close>, over the slots of one address.\<close>

fun bes_add_slots ::
  "address \<Rightarrow> (b256, b256) btree_map \<Rightarrow> bundle_expected_storage \<Rightarrow> string + bundle_expected_storage" where
  "bes_add_slots a [] b = Inr b"
| "bes_add_slots a ((slot, value) # rest) b =
     (let values_by_slot = btm_get_or [] (bes_inner b) a
      in case map_of values_by_slot slot of
           Some v \<Rightarrow>
             if v \<noteq> value
             then Inl ''a storage slot was read with a different value from multiple ops''
             else bes_add_slots a rest
                    \<lparr>bes_inner = btm_insert a (btm_insert slot value values_by_slot) (bes_inner b),
                     bes_counts = change_slot_count (\<lambda>c. c + 1) a slot (bes_counts b)\<rparr>
         | None \<Rightarrow>
             bes_add_slots a rest
               \<lparr>bes_inner = btm_insert a (btm_insert slot value values_by_slot) (bes_inner b),
                bes_counts = change_slot_count (\<lambda>c. c + 1) a slot (bes_counts b)\<rparr>)"

fun bes_add :: "bundle_expected_storage \<Rightarrow> expected_storage \<Rightarrow> string + bundle_expected_storage" where
  "bes_add b [] = Inr b"
| "bes_add b ((a, other_values_by_slot) # rest) =
     (case bes_add_slots a other_values_by_slot
             (b\<lparr>bes_inner := btm_or_default a [] (bes_inner b)\<rparr>) of
        Inl e \<Rightarrow> Inl e
      | Inr b \<Rightarrow> bes_add b rest)"

text \<open>The inner loop of \<open>remove\<close>; the counts of the slots are left behind when they reach zero.\<close>

definition bes_remove_slot ::
  "address \<Rightarrow> b256 \<times> b256 \<Rightarrow> bundle_expected_storage \<Rightarrow> bundle_expected_storage" where
  "bes_remove_slot a s b =
     (let slot = fst s;
          counts = change_slot_count (\<lambda>c. c - 1) a slot (bes_counts b);
          values_by_slot = btm_get_or [] (bes_inner b) a
      in \<lparr>bes_inner =
            (if btm_get_or 0 (btm_get_or [] counts a) slot = 0
             then btm_insert a (btm_remove slot values_by_slot) (bes_inner b) else bes_inner b),
          bes_counts = counts\<rparr>)"

definition bes_remove_address ::
  "address \<times> (b256, b256) btree_map \<Rightarrow> bundle_expected_storage \<Rightarrow> bundle_expected_storage" where
  "bes_remove_address e b =
     (let a = fst e;
          b = fold (bes_remove_slot a) (snd e)
                (b\<lparr>bes_inner := btm_or_default a [] (bes_inner b)\<rparr>)
      in if btm_get_or [] (bes_inner b) a = []
         then b\<lparr>bes_inner := btm_remove a (bes_inner b)\<rparr> else b)"

definition bes_remove :: "bundle_expected_storage \<Rightarrow> expected_storage \<Rightarrow> bundle_expected_storage" where
  "bes_remove b to_remove = fold bes_remove_address to_remove b"

section \<open>The value and the count of a slot\<close>

definition slot_value :: "expected_storage \<Rightarrow> address \<Rightarrow> b256 \<Rightarrow> b256 option" where
  "slot_value es a slot = map_of (btm_get_or [] es a) slot"

definition slot_count :: "bundle_expected_storage \<Rightarrow> address \<Rightarrow> b256 \<Rightarrow> usize" where
  "slot_count b a slot = btm_get_or 0 (btm_get_or [] (bes_counts b) a) slot"

text \<open>A slot has a value exactly when some operation of the bundle expects it.\<close>

definition bes_inv :: "bundle_expected_storage \<Rightarrow> bool" where
  "bes_inv b \<longleftrightarrow> (\<forall>a slot. slot_value (bes_inner b) a slot = None \<longleftrightarrow> slot_count b a slot = 0)"

definition es_sorted :: "expected_storage \<Rightarrow> bool" where
  "es_sorted es \<longleftrightarrow> btm_sorted es \<and> (\<forall>(a, slots)\<in>set es. btm_sorted slots)"

lemma slot_value_insert [simp]:
  "slot_value (es_insert es a slot v) a' slot' =
     (if a' = a \<and> slot' = slot then Some v else slot_value es a' slot')"
  by (simp add: slot_value_def es_insert_def)

lemma change_slot_count_count [simp]:
  "btm_get_or 0 (btm_get_or [] (change_slot_count f a slot counts) a') slot' =
     (if a' = a \<and> slot' = slot then f (btm_get_or 0 (btm_get_or [] counts a) slot)
      else btm_get_or 0 (btm_get_or [] counts a') slot')"
  by (simp add: change_slot_count_def Let_def)

text \<open>The slots an operation expects, with their addresses.\<close>

definition slots_of :: "expected_storage \<Rightarrow> ((address \<times> b256) \<times> b256) list" where
  "slots_of es = concat (map (\<lambda>(a, slots). map (\<lambda>(slot, v). ((a, slot), v)) slots) es)"

lemma slots_of_simps [simp]:
  "slots_of [] = []"
  "slots_of ((a, slots) # es) = map (\<lambda>(slot, v). ((a, slot), v)) slots @ slots_of es"
  by (simp_all add: slots_of_def)

lemma slots_of_address: "((a, slot), v) \<in> set (slots_of es) \<Longrightarrow> a \<in> set (map fst es)"
  by (induction es) auto

lemma distinct_slots_of: "es_sorted es \<Longrightarrow> distinct (map fst (slots_of es))"
proof (induction es)
  case (Cons e es)
  obtain a slots where [simp]: "e = (a, slots)" by (cases e)
  have "distinct (map fst slots)" "es_sorted es" "a \<notin> set (map fst es)"
    using Cons.prems by (auto simp: es_sorted_def btm_sorted_distinct)
  moreover from this(1) have "distinct (map fst (map (\<lambda>(slot, v). ((a, slot), v)) slots))"
    by (induction slots) force+
  ultimately show ?case
    using Cons.IH slots_of_address [of a] by fastforce
qed simp

text \<open>What the two operations do to the value and the count of every slot.\<close>

definition slot_at :: "bundle_expected_storage \<Rightarrow> address \<times> b256 \<Rightarrow> b256 option" where
  "slot_at b k = slot_value (bes_inner b) (fst k) (snd k)"

definition count_at :: "bundle_expected_storage \<Rightarrow> address \<times> b256 \<Rightarrow> usize" where
  "count_at b k = slot_count b (fst k) (snd k)"

definition slots_added ::
  "((address \<times> b256) \<times> b256) list \<Rightarrow> bundle_expected_storage \<Rightarrow> bundle_expected_storage \<Rightarrow> bool" where
  "slots_added xs b b' \<longleftrightarrow> (\<forall>k.
     (case map_of xs k of
        None \<Rightarrow> slot_at b' k = slot_at b k \<and> count_at b' k = count_at b k
      | Some v \<Rightarrow> slot_at b k \<in> {None, Some v} \<and> slot_at b' k = Some v
          \<and> count_at b' k = count_at b k + 1))"

definition slots_removed ::
  "(address \<times> b256) list \<Rightarrow> bundle_expected_storage \<Rightarrow> bundle_expected_storage \<Rightarrow> bool" where
  "slots_removed ks b b' \<longleftrightarrow> (\<forall>k.
     if k \<in> set ks
     then count_at b' k = count_at b k - 1
       \<and> slot_at b' k = (if count_at b' k = 0 then None else slot_at b k)
     else slot_at b' k = slot_at b k \<and> count_at b' k = count_at b k)"

lemma slots_added_trans:
  assumes "slots_added xs b c" "slots_added ys c d" "set (map fst xs) \<inter> set (map fst ys) = {}"
  shows "slots_added (xs @ ys) b d"
  unfolding slots_added_def
proof
  fix k
  have "map_of xs k = None \<or> map_of ys k = None"
    using assms(3) by (auto simp: map_of_eq_None_iff)
  moreover note assms(1,2) [unfolded slots_added_def, rule_format, of k]
  ultimately show "case map_of (xs @ ys) k of
        None \<Rightarrow> slot_at d k = slot_at b k \<and> count_at d k = count_at b k
      | Some v \<Rightarrow> slot_at b k \<in> {None, Some v} \<and> slot_at d k = Some v
          \<and> count_at d k = count_at b k + 1"
    by (auto simp: map_add_def split: option.splits)
qed

lemma slots_removed_trans:
  assumes "slots_removed xs b c" "slots_removed ys c d" "set xs \<inter> set ys = {}"
  shows "slots_removed (xs @ ys) b d"
  unfolding slots_removed_def
proof
  fix k
  note assms(1,2) [unfolded slots_removed_def, rule_format, of k]
  with assms(3) show "if k \<in> set (xs @ ys)
     then count_at d k = count_at b k - 1
       \<and> slot_at d k = (if count_at d k = 0 then None else slot_at b k)
     else slot_at d k = slot_at b k \<and> count_at d k = count_at b k"
    by (auto split: if_splits)
qed

lemma slots_added_frame:
  "slots_added xs b c \<Longrightarrow> slot_at b' = slot_at b \<Longrightarrow> count_at b' = count_at b \<Longrightarrow> slots_added xs b' c"
  unfolding slots_added_def by presburger

lemma slots_removed_frame:
  "slots_removed ks b c \<Longrightarrow> slot_at b' = slot_at b \<Longrightarrow> count_at b' = count_at b \<Longrightarrow>
     slot_at c' = slot_at c \<Longrightarrow> count_at c' = count_at c \<Longrightarrow> slots_removed ks b' c'"
  by (simp add: slots_removed_def)

lemma at_or_default [simp]:
  "slot_at (b\<lparr>bes_inner := btm_or_default a [] (bes_inner b)\<rparr>) = slot_at b"
  "count_at (b\<lparr>bes_inner := i\<rparr>) = count_at b"
  by (simp_all add: fun_eq_iff slot_at_def count_at_def slot_value_def slot_count_def)

lemma slot_at_remove_empty [simp]:
  "btm_get_or [] (bes_inner b) a = [] \<Longrightarrow>
     slot_at (b\<lparr>bes_inner := btm_remove a (bes_inner b)\<rparr>) = slot_at b"
  by (simp add: fun_eq_iff slot_at_def slot_value_def)

lemma bes_add_slots_added:
  "bes_add_slots a slots b = Inr b' \<Longrightarrow> distinct (map fst slots) \<Longrightarrow>
     slots_added (map (\<lambda>(slot, v). ((a, slot), v)) slots) b b'"
proof (induction slots arbitrary: b)
  case (Cons sv rest)
  obtain slot v where [simp]: "sv = (slot, v)" by (cases sv)
  let ?b = "\<lparr>bes_inner = btm_insert a (btm_insert slot v (btm_get_or [] (bes_inner b) a)) (bes_inner b),
             bes_counts = change_slot_count (\<lambda>c. c + 1) a slot (bes_counts b)\<rparr>"
  have "bes_add_slots a rest ?b = Inr b'" "slot_at b (a, slot) \<in> {None, Some v}"
    using Cons.prems(1)
    by (auto simp: slot_at_def slot_value_def Let_def split: option.splits if_splits)
  moreover from this(2) have "slots_added [((a, slot), v)] b ?b"
    by (auto simp: slots_added_def slot_at_def count_at_def slot_value_def slot_count_def)
  ultimately have "slots_added ([((a, slot), v)] @ map (\<lambda>(slot, v). ((a, slot), v)) rest) b b'"
    using Cons.prems(2) by (intro slots_added_trans Cons.IH) (auto simp: image_iff)
  then show ?case by simp
qed (simp add: slots_added_def)

lemma bes_add_added:
  "bes_add b es = Inr b' \<Longrightarrow> distinct (map fst (slots_of es)) \<Longrightarrow> slots_added (slots_of es) b b'"
proof (induction b es rule: bes_add.induct)
  case (2 b a slots rest)
  let ?b = "b\<lparr>bes_inner := btm_or_default a [] (bes_inner b)\<rparr>"
  obtain c where c: "bes_add_slots a slots ?b = Inr c" "bes_add c rest = Inr b'"
    using "2.prems"(1) by (auto split: sum.splits)
  have d: "distinct (map fst slots)" "distinct (map fst (slots_of rest))"
    "set (map fst (map (\<lambda>(slot, v). ((a, slot), v)) slots)) \<inter> set (map fst (slots_of rest)) = {}"
    using "2.prems"(2) by (auto simp: o_def case_prod_beta distinct_map inj_on_def)
  have "slots_added (map (\<lambda>(slot, v). ((a, slot), v)) slots) b c"
    using slots_added_frame [OF bes_add_slots_added [OF c(1) d(1)], of b] by simp
  from slots_added_trans [OF this "2.IH" [OF c(1,2) d(2)] d(3)] show ?case by simp
qed (simp add: slots_added_def)

lemma bes_remove_slot_removed: "slots_removed [(a, fst sv)] b (bes_remove_slot a sv b)"
  by (auto simp: slots_removed_def bes_remove_slot_def slot_at_def count_at_def slot_value_def
      slot_count_def Let_def)

lemma bes_remove_slots_removed:
  "distinct (map fst slots) \<Longrightarrow>
     slots_removed (map (\<lambda>sv. (a, fst sv)) slots) b (fold (bes_remove_slot a) slots b)"
proof (induction slots arbitrary: b)
  case (Cons sv rest)
  have "slots_removed ([(a, fst sv)] @ map (\<lambda>sv. (a, fst sv)) rest) b
          (fold (bes_remove_slot a) rest (bes_remove_slot a sv b))"
    using Cons by (intro slots_removed_trans [OF bes_remove_slot_removed]) (auto simp: image_iff)
  then show ?case by simp
qed (simp add: slots_removed_def)

lemma bes_remove_address_removed:
  assumes "distinct (map fst slots)"
  shows "slots_removed (map (\<lambda>sv. (a, fst sv)) slots) b (bes_remove_address (a, slots) b)"
proof -
  let ?b = "b\<lparr>bes_inner := btm_or_default a [] (bes_inner b)\<rparr>"
  note r = bes_remove_slots_removed [OF assms, of a ?b]
  show ?thesis
    by (rule slots_removed_frame [OF r]) (simp_all add: bes_remove_address_def Let_def)
qed

lemma bes_remove_removed:
  "distinct (map fst (slots_of es)) \<Longrightarrow> slots_removed (map fst (slots_of es)) b (bes_remove b es)"
  unfolding bes_remove_def
proof (induction es arbitrary: b)
  case (Cons e es)
  obtain a slots where [simp]: "e = (a, slots)" by (cases e)
  have d: "distinct (map fst slots)" "distinct (map fst (slots_of es))"
    "set (map (\<lambda>sv. (a, fst sv)) slots) \<inter> set (map fst (slots_of es)) = {}"
    using Cons.prems by (auto simp: o_def case_prod_beta distinct_map inj_on_def)
  from slots_removed_trans [OF bes_remove_address_removed [OF d(1)] Cons.IH [OF d(2)] d(3)]
  show ?case by (simp add: o_def case_prod_beta)
qed (simp add: slots_removed_def)

section \<open>Theorem\<close>

text \<open>
  Taking the expected storage of an operation back out of a bundle restores the value and the
  number of readers of every slot, so a slot shared with another operation keeps its value and one
  that only this operation read is dropped.
\<close>

theorem storage_add_remove:
  assumes "bes_inv b" "es_sorted es" "bes_add b es = Inr b'"
  shows "slot_value (bes_inner (bes_remove b' es)) a slot = slot_value (bes_inner b) a slot \<and>
    slot_count (bes_remove b' es) a slot = slot_count b a slot"
proof -
  let ?k = "(a, slot)"
  note d = distinct_slots_of [OF assms(2)]
  note bes_add_added [OF assms(3) d, unfolded slots_added_def, rule_format, of ?k]
  moreover note bes_remove_removed [OF d, of b', unfolded slots_removed_def, rule_format, of ?k]
  moreover have "?k \<in> set (map fst (slots_of es)) \<longleftrightarrow> map_of (slots_of es) ?k \<noteq> None"
    by (simp add: map_of_eq_None_iff)
  moreover have "slot_at b ?k = None \<longleftrightarrow> count_at b ?k = 0"
    using assms(1) by (simp add: bes_inv_def slot_at_def count_at_def)
  ultimately have "slot_at (bes_remove b' es) ?k = slot_at b ?k \<and>
      count_at (bes_remove b' es) ?k = count_at b ?k"
    by (cases "map_of (slots_of es) ?k") (auto simp del: set_map split: if_splits)
  then show ?thesis by (simp add: slot_at_def count_at_def)
qed

theorem storage_add_remove_witness:
  "\<exists>b b'. bes_add bes_default (es_insert (es_insert [] 1 5 7) 1 6 8) = Inr b \<and>
     bes_add b (es_insert (es_insert [] 1 6 8) 2 5 9) = Inr b' \<and>
     slot_value (bes_inner (bes_remove b' (es_insert (es_insert [] 1 6 8) 2 5 9))) 1 6 = Some 8 \<and>
     slot_value (bes_inner (bes_remove b' (es_insert (es_insert [] 1 6 8) 2 5 9))) 2 5 = None"
proof -
  let ?s = "es_insert (es_insert [] 1 6 8) 2 5 9"
  obtain b where b: "bes_add bes_default (es_insert (es_insert [] 1 5 7) 1 6 8) = Inr b"
    "bes_inv b" "slot_value (bes_inner b) 1 6 = Some 8" "slot_value (bes_inner b) 2 5 = None"
    by (simp add: bes_default_def es_insert_def btm_get_or_def btm_or_default_def bes_inv_def
        change_slot_count_def slot_value_def slot_count_def)
  obtain b' where b': "bes_add b ?s = Inr b'"
    using b(1) by (auto simp: bes_default_def es_insert_def btm_get_or_def btm_or_default_def
        change_slot_count_def)
  have "es_sorted ?s" by (simp add: es_sorted_def es_insert_def btm_get_or_def)
  note r = storage_add_remove [OF b(2) this b', THEN conjunct1]
  show ?thesis using b(1) b' r [of 1 6, unfolded b(3)] r [of 2 5, unfolded b(4)] by blast
qed

end
