(* ===== verification/Violations.thy ===== *)
theory Violations
  imports Pool_Types Storage
begin

text \<open>
  Errors of prechecks and simulation and their conversion to the error of the pool
  (\<open>crates/sim/src/types.rs\<close>, \<open>precheck.rs\<close>, \<open>simulation/mod.rs\<close>): of several violations the pool
  reports the least one, in the order the enumerations of \<open>crates/types/src/pool/error.rs\<close> derive.

  A derived order compares the position of the constructor and then the fields from left to right.
  The model compares keys, lists of integers compared lexicographically, that spell this out.  The
  order of \<open>ValidationRevert\<close> compares what it prints; printing it is the argument \<open>disp\<close>.
\<close>

section \<open>Data\<close>

datatype 'v violation_error = Violations "'v list" | VE_Other string

record precheck_return =
  pcr_da_gas_data :: da_gas_data
  pcr_required_pre_verification_gas :: u128

record simulation_result =
  sr_mempools :: "b256 list"
  sr_pre_op_gas :: u128
  sr_valid_time_range :: valid_time_range
  sr_code_hash :: b256
  sr_account_is_staked :: bool
  sr_accessed_addresses :: "address list"
  sr_associated_addresses :: "address list"
  sr_expected_storage :: expected_storage
  sr_requires_post_op :: bool
  sr_entity_infos :: entity_infos

record simulation_error =
  serr_violation_error :: "simulation_violation violation_error"
  serr_entity_infos :: "entity_infos option"

section \<open>Derived orders\<close>

fun key_less :: "int list \<Rightarrow> int list \<Rightarrow> bool" where
  "key_less [] ys = (ys \<noteq> [])"
| "key_less (x # xs) [] = False"
| "key_less (x # xs) (y # ys) = (x < y \<or> x = y \<and> key_less xs ys)"

definition word_key :: "'a::len word \<Rightarrow> int list" where
  "word_key w = [uint w]"

fun entity_type_key :: "entity_type \<Rightarrow> int list" where
  "entity_type_key Account = [0]"
| "entity_type_key Paymaster = [1]"
| "entity_type_key Aggregator = [2]"
| "entity_type_key Factory = [3]"

definition entity_key :: "entity \<Rightarrow> int list" where
  "entity_key e = entity_type_key (ent_kind e) @ word_key (ent_address e)"

definition string_key :: "string \<Rightarrow> int list" where
  "string_key s = map (\<lambda>c. 1 + of_char c) s @ [0]"

definition option_key :: "('a \<Rightarrow> int list) \<Rightarrow> 'a option \<Rightarrow> int list" where
  "option_key f x = (case x of None \<Rightarrow> [0] | Some a \<Rightarrow> 1 # f a)"

definition storage_slot_key :: "storage_slot \<Rightarrow> int list" where
  "storage_slot_key s = word_key (slot_address s) @ word_key (slot_slot s)"

definition needs_stake_key :: "needs_stake_information \<Rightarrow> int list" where
  "needs_stake_key n =
     entity_key (nsi_needs_stake n) @ entity_type_key (nsi_accessing_entity n)
     @ option_key entity_type_key (nsi_accessed_entity n) @ word_key (nsi_accessed_address n)
     @ word_key (nsi_slot n) @ word_key (nsi_min_stake n) @ word_key (nsi_min_unstake_delay n)"

fun precheck_violation_key :: "precheck_violation \<Rightarrow> int list" where
  "precheck_violation_key (SenderIsNotContractAndNoInitCode a) = 0 # word_key a"
| "precheck_violation_key (ExistingSenderWithInitCode a) = 1 # word_key a"
| "precheck_violation_key (FactoryIsNotContract a) = 2 # word_key a"
| "precheck_violation_key (TotalGasLimitTooHigh x y) = 3 # word_key x @ word_key y"
| "precheck_violation_key (VerificationGasLimitTooHigh x y) = 4 # word_key x @ word_key y"
| "precheck_violation_key (PreVerificationGasTooLow x y) = 5 # word_key x @ word_key y"
| "precheck_violation_key (PaymasterIsNotContract a) = 6 # word_key a"
| "precheck_violation_key (PaymasterDepositTooLow v w) = 7 # word_key v @ word_key w"
| "precheck_violation_key (SenderFundsTooLow v w) = 8 # word_key v @ word_key w"
| "precheck_violation_key (MaxPriorityFeePerGasTooLow x y) = 9 # word_key x @ word_key y"
| "precheck_violation_key (MaxFeePerGasTooLow x y) = 10 # word_key x @ word_key y"
| "precheck_violation_key (CallGasLimitTooLow x y) = 11 # word_key x @ word_key y"
| "precheck_violation_key (FactoryMustBeEmpty a) = 12 # word_key a"
| "precheck_violation_key (OverMaxCost v w) = 13 # word_key v @ word_key w"

fun simulation_violation_key :: "(validation_revert \<Rightarrow> string) \<Rightarrow> simulation_violation \<Rightarrow> int list" where
  "simulation_violation_key disp InvalidSignature = [0]"
| "simulation_violation_key disp InvalidAccountSignature = [1]"
| "simulation_violation_key disp (InvalidTimeRange t u) = 2 # word_key t @ word_key u"
| "simulation_violation_key disp InvalidPaymasterSignature = [3]"
| "simulation_violation_key disp (UsedForbiddenOpcode e a c) = 4 # entity_key e @ word_key a @ word_key c"
| "simulation_violation_key disp (UsedForbiddenPrecompile e a b) = 5 # entity_key e @ word_key a @ word_key b"
| "simulation_violation_key disp (AccessedUndeployedContract e a) = 6 # entity_key e @ word_key a"
| "simulation_violation_key disp (FactoryCalledCreate2Twice a) = 7 # word_key a"
| "simulation_violation_key disp (InvalidStorageAccess e s) = 8 # entity_key e @ storage_slot_key s"
| "simulation_violation_key disp (AssociatedStorageDuringDeploy e s) =
     9 # option_key entity_key e @ storage_slot_key s"
| "simulation_violation_key disp (CalledBannedEntryPointMethod e) = 10 # entity_key e"
| "simulation_violation_key disp (CallHadValue e) = 11 # entity_key e"
| "simulation_violation_key disp CodeHashChanged = [12]"
| "simulation_violation_key disp (NotStaked n) = 13 # needs_stake_key n"
| "simulation_violation_key disp UnstakedPaymasterContext = [14]"
| "simulation_violation_key disp (UnintendedRevertWithMessage t s a) =
     15 # entity_type_key t @ string_key s @ option_key word_key a"
| "simulation_violation_key disp (UnintendedRevert t a) =
     16 # entity_type_key t @ option_key word_key a"
| "simulation_violation_key disp (ValidationRevert r) = 17 # string_key (disp r)"
| "simulation_violation_key disp DidNotRevert = [18]"
| "simulation_violation_key disp (WrongNumberOfPhases n) = 19 # word_key n"
| "simulation_violation_key disp (OutOfGas e) = 20 # entity_key e"
| "simulation_violation_key disp (AggregatorMismatch a b) = 21 # word_key a @ word_key b"
| "simulation_violation_key disp (VerificationGasLimitBufferTooLow x y) = 22 # word_key x @ word_key y"
| "simulation_violation_key disp (AccessedUnsupportedContractType s a) = 23 # string_key s @ word_key a"

text \<open>\<open>Iterator::min\<close>: the first of the least elements.\<close>

fun min_by_key :: "('a \<Rightarrow> int list) \<Rightarrow> 'a list \<Rightarrow> 'a option" where
  "min_by_key key [] = None"
| "min_by_key key (x # xs) =
     (case min_by_key key xs of
        None \<Rightarrow> Some x
      | Some y \<Rightarrow> if key_less (key y) (key x) then Some y else Some x)"

section \<open>Conversions\<close>

definition mempool_error_from_precheck :: "precheck_violation violation_error \<Rightarrow> mempool_error" where
  "mempool_error_from_precheck e =
     (case e of
        VE_Other s \<Rightarrow> Other s
      | Violations vs \<Rightarrow>
          (case min_by_key precheck_violation_key vs of
             None \<Rightarrow> Other ''multiple violations: ''
           | Some v \<Rightarrow> PrecheckViolation v))"

definition mempool_error_from_simulation ::
  "(validation_revert \<Rightarrow> string) \<Rightarrow> simulation_error \<Rightarrow> mempool_error" where
  "mempool_error_from_simulation disp e =
     (case serr_violation_error e of
        VE_Other s \<Rightarrow> Other s
      | Violations vs \<Rightarrow>
          (case min_by_key (simulation_violation_key disp) vs of
             None \<Rightarrow> Other ''multiple violations: ''
           | Some v \<Rightarrow> SimulationViolation v))"

definition simulation_error_from_violations ::
  "simulation_violation violation_error \<Rightarrow> simulation_error" where
  "simulation_error_from_violations e = \<lparr>serr_violation_error = e, serr_entity_infos = None\<rparr>"

section \<open>Facts\<close>

lemma key_less_irrefl [simp]: "\<not> key_less xs xs"
  by (induction xs) auto

lemma key_less_trans: "key_less xs ys \<Longrightarrow> key_less ys zs \<Longrightarrow> key_less xs zs"
proof (induction xs ys arbitrary: zs rule: key_less.induct)
  case (1 ys)
  then show ?case by (cases zs; cases ys) auto
next
  case (3 x xs y ys)
  then show ?case by (cases zs) auto
qed simp

lemma key_less_total: "key_less xs ys \<or> xs = ys \<or> key_less ys xs"
  by (induction xs ys rule: key_less.induct) auto

lemma min_by_key_None [simp]: "min_by_key key xs = None \<longleftrightarrow> xs = []"
  by (cases xs) (auto split: option.splits)

lemma min_by_key_Some:
  "min_by_key key xs = Some m \<Longrightarrow> m \<in> set xs \<and> (\<forall>x\<in>set xs. \<not> key_less (key x) (key m))"
proof (induction xs arbitrary: m)
  case (Cons x xs)
  show ?case
  proof (cases "min_by_key key xs")
    case (Some y)
    note y = Cons.IH [OF Some]
    show ?thesis
    proof (cases "key_less (key y) (key x)")
      case True
      with Cons.prems Some y show ?thesis
        using key_less_trans [of "key x" "key y" "key x"] by auto
    next
      case False
      then have "\<not> key_less (key z) (key x)" if "z \<in> set xs" for z
        using y that key_less_total [of "key y" "key x"] key_less_trans by metis
      with False Cons.prems Some y show ?thesis by auto
    qed
  qed (use Cons.prems in auto)
qed simp

end
