(* ===== verification/Chain_Update.thy ===== *)
theory Chain_Update
  imports Pool
begin

text \<open>
  What the chain tracker tells the pools, the data part of \<open>crates/pool/src/chain.rs\<close>.
\<close>

datatype update_type = Confirmed | Preconfirmed

record balance_update =
  bu_address :: address
  bu_entrypoint :: address
  bu_amount :: u256
  bu_is_addition :: bool

record chain_update =
  cu_latest_block_number :: u64
  cu_latest_block_hash :: b256
  cu_latest_block_timestamp :: timestamp
  cu_earliest_remembered_block_number :: u64
  cu_reorg_depth :: u64
  cu_mined_ops :: "mined_op list"
  cu_unmined_ops :: "mined_op list"
  cu_preconfirmed_txns :: "(b256 \<times> b256 list) list"
  cu_preconfirmed_block_number :: "u64 option"
  cu_entity_balance_updates :: "balance_update list"
  cu_unmined_entity_balance_updates :: "balance_update list"
  cu_address_updates :: "address_update list"
  cu_reorg_larger_than_history :: bool
  cu_update_type :: update_type

definition chain_update_default :: chain_update where
  "chain_update_default =
     \<lparr>cu_latest_block_number = 0, cu_latest_block_hash = 0, cu_latest_block_timestamp = 0,
      cu_earliest_remembered_block_number = 0, cu_reorg_depth = 0, cu_mined_ops = [],
      cu_unmined_ops = [], cu_preconfirmed_txns = [], cu_preconfirmed_block_number = None,
      cu_entity_balance_updates = [], cu_unmined_entity_balance_updates = [],
      cu_address_updates = [], cu_reorg_larger_than_history = False,
      cu_update_type = Confirmed\<rparr>"

text \<open>The operations mined and unmined by an update, without those that are both.\<close>

definition deduped_ops :: "chain_update \<Rightarrow> mined_op list \<times> mined_op list" where
  "deduped_ops u =
     (let mined_op_hashes = set (map mo_hash (cu_mined_ops u));
          unmined_op_hashes = set (map mo_hash (cu_unmined_ops u))
      in (filter (\<lambda>op. mo_hash op \<notin> unmined_op_hashes) (cu_mined_ops u),
          filter (\<lambda>op. mo_hash op \<notin> mined_op_hashes) (cu_unmined_ops u)))"

end
