(* ===== verification/Uo_Pool.thy ===== *)
theory Uo_Pool
  imports Reputation Paymaster Mempool_Filter Violations Chain_Update
begin

text \<open>
  The mempool of one entry point, \<open>UoPool\<close> of \<open>crates/pool/src/mempool/uo_pool.rs\<close>: it checks an
  operation, has it simulated, stores it in the pool, and keeps the pool, the paymaster tracker and
  the reputation in step with the chain.

  What the code reaches through traits and the network is the argument \<open>env\<close>: the node, the
  prechecker, the simulator, the entry point contract, the fee estimator, and the order in which
  hash tables are iterated.  A method runs as one step; \<open>None\<close> stands for a panic or for a loop that
  does not end.  The pool and the mempool send events through the same channel, the event log of the
  pool.  Metrics are left out.
\<close>

section \<open>State\<close>

text \<open>
  The settings of prechecks, simulation and mempool channels are part of the source's record as
  well; they configure the prechecker and the simulator, not this component.
\<close>

record pool_config =
  pcf_chain_spec :: chain_spec
  pcf_entry_point :: address
  pcf_entry_point_version :: entry_point_version
  pcf_same_sender_mempool_count :: usize
  pcf_min_replacement_fee_increase_percentage :: u32
  pcf_max_size_of_pool_bytes :: usize
  pcf_blocklist :: "address set option"
  pcf_allowlist :: "address set option"
  pcf_throttled_entity_mempool_count :: u64
  pcf_throttled_entity_live_blocks :: u64
  pcf_paymaster_tracking_enabled :: bool
  pcf_paymaster_cache_length :: u32
  pcf_reputation_tracking_enabled :: bool
  pcf_da_gas_tracking_enabled :: bool
  pcf_drop_min_num_blocks :: u64
  pcf_execution_gas_limit_efficiency_reject_threshold :: f64
  pcf_verification_gas_limit_efficiency_reject_threshold :: f64
  pcf_max_time_in_pool :: "duration option"
  pcf_max_expected_storage_slots :: usize

definition pool_inner_config_from :: "type_sizes \<Rightarrow> pool_config \<Rightarrow> pool_inner_config" where
  "pool_inner_config_from sizes c =
     \<lparr>pc_chain_spec = pcf_chain_spec c,
      pc_entry_point = pcf_entry_point c,
      pc_max_size_of_pool_bytes = pcf_max_size_of_pool_bytes c,
      pc_min_replacement_fee_increase_percentage = pcf_min_replacement_fee_increase_percentage c,
      pc_throttled_entity_mempool_count = pcf_throttled_entity_mempool_count c,
      pc_throttled_entity_live_blocks = pcf_throttled_entity_live_blocks c,
      pc_da_gas_tracking_enabled = pcf_da_gas_tracking_enabled c,
      pc_max_time_in_pool = pcf_max_time_in_pool c,
      pc_verification_gas_limit_efficiency_reject_threshold =
        pcf_verification_gas_limit_efficiency_reject_threshold c,
      pc_type_sizes = sizes\<rparr>"

record execution_result =
  er_pre_op_gas :: u128
  er_paid :: u256
  er_valid_after :: timestamp
  er_valid_until :: timestamp
  er_target_success :: bool
  er_target_result :: bytes

text \<open>
  The providers.  \<open>env_gas_check_first\<close> tells which of the two checks that run in parallel
  reports first when both fail.
\<close>

record environment =
  env_latest_block :: "string + b256 \<times> u64"
  env_precheck :: "user_operation_variant \<Rightarrow> user_operation_permissions \<Rightarrow> b256
    \<Rightarrow> precheck_violation violation_error + precheck_return"
  env_simulate_validation :: "user_operation_variant \<Rightarrow> bool \<Rightarrow> b256 \<Rightarrow> b256 option
    \<Rightarrow> simulation_error + simulation_result"
  env_simulate_handle_op :: "user_operation_variant \<Rightarrow> b256
    \<Rightarrow> string + (validation_revert + execution_result)"
  env_gas_check_first :: bool
  env_uo_version :: entry_point_version
  env_entry_point :: entry_point
  env_required_bundle_fees :: "b256 \<Rightarrow> string + gas_fees \<times> u128"
  env_required_op_fees :: "gas_fees \<Rightarrow> gas_fees"
  env_da_block_data :: "b256 \<Rightarrow> string + da_gas_block_data"
  env_display_revert :: "validation_revert \<Rightarrow> string"
  env_iter_ops :: "(b256 \<rightharpoonup> ordered_pool_operation) \<Rightarrow> b256 list"
  env_iter_blocks :: "(u64 \<rightharpoonup> b256 list) \<Rightarrow> u64 list"
  env_iter_hashes :: "b256 set \<Rightarrow> b256 list"

record 'l uo_pool =
  up_config :: pool_config
  up_pool :: pool_inner
  up_throttled_ops :: "b256 set"
  up_block_number :: u64
  up_block_hash :: b256
  up_bundle_fees :: gas_fees
  up_uo_fees :: gas_fees
  up_base_fee :: u128
  up_paymaster :: "'l paymaster_tracker_inner"
  up_reputation :: address_reputation
  up_mempool_config :: mempool_config

definition uo_pool_new ::
  "type_sizes \<Rightarrow> pool_config \<Rightarrow> da_gas_oracle option \<Rightarrow> 'l paymaster_tracker_inner
     \<Rightarrow> address_reputation \<Rightarrow> mempool_config \<Rightarrow> 'l uo_pool" where
  "uo_pool_new sizes config da_gas_oracle paymaster reputation mempool_config =
     \<lparr>up_config = config,
      up_pool = pool_new (pool_inner_config_from sizes config) da_gas_oracle,
      up_throttled_ops = {}, up_block_number = 0, up_block_hash = 0,
      up_bundle_fees = gas_fees_default, up_uo_fees = gas_fees_default, up_base_fee = 0,
      up_paymaster = paymaster, up_reputation = reputation, up_mempool_config = mempool_config\<rparr>"

section \<open>Entities\<close>

definition up_emit :: "'l uo_pool \<Rightarrow> op_pool_event \<Rightarrow> 'l uo_pool" where
  "up_emit s event =
     s\<lparr>up_pool := (up_pool s)\<lparr>pi_events :=
         pi_events (up_pool s) @ [(pcf_entry_point (up_config s), event)]\<rparr>\<rparr>"

definition up_throttle_entity :: "'l uo_pool \<Rightarrow> entity \<Rightarrow> 'l uo_pool" where
  "up_throttle_entity s entity =
     (let (p, removed_op_hashes) = pool_throttle_entity (up_pool s) entity (up_block_number s);
          s = up_emit (s\<lparr>up_pool := p\<rparr>) (ThrottledEntity entity)
      in fold (\<lambda>h s. up_emit s (RemovedOp h (EntityThrottledReason entity))) removed_op_hashes s)"

definition up_remove_entity :: "environment \<Rightarrow> 'l uo_pool \<Rightarrow> entity \<Rightarrow> 'l uo_pool" where
  "up_remove_entity env s entity =
     (let (p, removed_op_hashes) =
            pool_remove_entity (up_pool s) (env_iter_ops env (pi_by_hash (up_pool s))) entity;
          s = up_emit (s\<lparr>up_pool := p\<rparr>) (RemovedEntity entity)
      in fold (\<lambda>h s. up_emit s (RemovedOp h (EntityRemoved entity))) removed_op_hashes s)"

definition up_update_entity :: "environment \<Rightarrow> 'l uo_pool \<Rightarrow> entity_update \<Rightarrow> 'l uo_pool option" where
  "up_update_entity env s update =
     (let entity = eu_entity update; a = ent_address entity;
          penalized =
            (case eu_update_type update of
               UnstakedInvalidation \<Rightarrow> Some (handle_urep_030_penalty (up_reputation s) a)
             | StakedInvalidation \<Rightarrow> Some (handle_srep_050_penalty (up_reputation s) a)
             | PaymasterOpsSeenDecrement \<Rightarrow>
                 if is_paymaster entity
                 then map_option (handle_erep_015_amendment (up_reputation s) a) (eu_value update)
                 else None)
      in case penalized of
           None \<Rightarrow> None
         | Some r \<Rightarrow>
             (let s = s\<lparr>up_reputation := r\<rparr>
              in if rep_status r a = Banned then Some (up_remove_entity env s entity)
                 else if rep_status r a = Throttled then Some (up_throttle_entity s entity)
                 else Some s))"

section \<open>Adding an operation\<close>

text \<open>\<open>Itertools::unique\<close>: the first occurrence of every element.\<close>

definition unique :: "'a list \<Rightarrow> 'a list" where
  "unique xs = rev (remdups (rev xs))"

text \<open>The first block of \<open>add_operation\<close>; the value is the operation to be replaced.\<close>

definition initial_checks ::
  "alloy \<Rightarrow> pool_inner \<Rightarrow> user_operation_variant \<Rightarrow> mempool_error + pool_operation option" where
  "initial_checks al p op =
     (case check_multiple_roles_violation p op of
        Inl e \<Rightarrow> Inl e
      | Inr _ \<Rightarrow>
          (case check_eip7702 al p op of
             Inl e \<Rightarrow> Inl e
           | Inr _ \<Rightarrow>
               (case check_replacement p op of
                  Inl e \<Rightarrow> Inl e
                | Inr None \<Rightarrow> Inr None
                | Inr (Some r) \<Rightarrow> Inr (get_operation_by_hash p r))))"

definition entity_summary_default :: entity_summary where
  "entity_summary_default =
     \<lparr>esum_sender = \<lparr>es_address = 0, es_reputation = ER_Ok\<rparr>, esum_factory = None,
      esum_paymaster = None, esum_aggregator = None\<rparr>"

text \<open>The loop over the entities; the state is the summary and whether one is throttled.\<close>

fun check_reputation ::
  "'l uo_pool \<Rightarrow> entity list \<Rightarrow> entity_summary \<Rightarrow> bool
     \<Rightarrow> mempool_error + entity_summary \<times> bool" where
  "check_reputation s [] entity_summary throttled = Inr (entity_summary, throttled)"
| "check_reputation s (entity # rest) entity_summary throttled =
     (let a = ent_address entity;
          status = (\<lambda>r. set_status entity_summary (ent_kind entity)
                          \<lparr>es_address = a, es_reputation = r\<rparr>)
      in case rep_status (up_reputation s) a of
           Ok \<Rightarrow> check_reputation s rest (status ER_Ok) throttled
         | Throttled \<Rightarrow>
             if address_count (up_pool s) a \<ge> pcf_throttled_entity_mempool_count (up_config s)
             then Inl (EntityThrottled entity)
             else check_reputation s rest (status ThrottledButOk) True
         | Banned \<Rightarrow> Inl (EntityThrottled entity))"

text \<open>If the operation uses an aggregator it is transformed with the signature that one computes.\<close>

definition apply_aggregator ::
  "alloy \<Rightarrow> chain_spec \<Rightarrow> user_operation_variant \<Rightarrow> mempool_error + user_operation_variant" where
  "apply_aggregator al cs op =
     (case uo_aggregator op of
        None \<Rightarrow> Inr op
      | Some aggregator \<Rightarrow>
          (case get_signature_aggregator cs aggregator of
             None \<Rightarrow> Inl (AggregatorError (UnsupportedAggregator aggregator))
           | Some agg \<Rightarrow>
               (case sa_validate_user_op_signature agg op of
                  Inl e \<Rightarrow> Inl (AggregatorError e)
                | Inr signature \<Rightarrow>
                    Inr (uo_transform_for_aggregator al op cs aggregator (sa_costs agg) signature))))"

text \<open>
  The amount paid, divided by the gas price, has to fit into a \<open>u128\<close>; the subtraction that follows
  wraps around.
\<close>

definition check_execution_gas_limit_efficiency ::
  "environment \<Rightarrow> pool_config \<Rightarrow> user_operation_variant \<Rightarrow> b256 \<Rightarrow> mempool_error + unit" where
  "check_execution_gas_limit_efficiency env config op block_hash =
     (let threshold = pcf_execution_gas_limit_efficiency_reject_threshold config
      in if f64_less f64_zero threshold
         then (let gas_price = uo_gas_price op 0;
                   gas_limit =
                     (case op of V0_6 _ \<Rightarrow> uo_call_gas_limit op | V0_7 _ \<Rightarrow> execution_gas_limit op)
               in if gas_price = 0 then Inr ()
                  else if gas_limit = 0 then Inr ()
                  else case env_simulate_handle_op env op block_hash of
                         Inl _ \<Rightarrow> Inr ()
                       | Inr (Inl _) \<Rightarrow> Inr ()
                       | Inr (Inr execution_res) \<Rightarrow>
                           (let total = er_paid execution_res div ucast gas_price
                            in if unat total \<ge> 2 ^ 128
                               then Inl (Other ''total gas used should fit in u128'')
                               else (let execution_gas_used =
                                           (ucast total :: u128) - er_pre_op_gas execution_res;
                                         execution_gas_efficiency =
                                           f64_div (f64_of_u128 execution_gas_used)
                                             (f64_of_u128 gas_limit)
                                     in if f64_less execution_gas_efficiency threshold
                                        then Inl (ExecutionGasLimitEfficiencyTooLow threshold
                                                    execution_gas_efficiency)
                                        else Inr ())))
         else Inr ())"

text \<open>\<open>try_join!\<close> of the simulation and the check of the execution gas.\<close>

definition simulate_and_check ::
  "environment \<Rightarrow> pool_config \<Rightarrow> user_operation_variant \<Rightarrow> bool \<Rightarrow> b256
     \<Rightarrow> mempool_error + simulation_result" where
  "simulate_and_check env config op trusted block_hash =
     (case (env_simulate_validation env op trusted block_hash None,
            check_execution_gas_limit_efficiency env config op block_hash) of
        (Inr sim_result, Inr _) \<Rightarrow> Inr sim_result
      | (Inl e, Inr _) \<Rightarrow> Inl (mempool_error_from_simulation (env_display_revert env) e)
      | (Inr _, Inl e) \<Rightarrow> Inl e
      | (Inl e, Inl e') \<Rightarrow>
          Inl (if env_gas_check_first env then e'
               else mempool_error_from_simulation (env_display_revert env) e))"

definition check_verification_gas_limit_efficiency ::
  "pool_config \<Rightarrow> user_operation_variant \<Rightarrow> simulation_result \<Rightarrow> mempool_error + unit" where
  "check_verification_gas_limit_efficiency config op sim_result =
     (let threshold = pcf_verification_gas_limit_efficiency_reject_threshold config
      in if f64_less f64_zero threshold
         then (let verification_gas_used =
                     saturating_sub (sr_pre_op_gas sim_result) (uo_pre_verification_gas op);
                   efficiency =
                     f64_div (f64_of_u128 verification_gas_used)
                       (f64_of_u128 (uo_total_verification_gas_limit op));
                   effective =
                     uo_effective_verification_gas_limit_efficiency_reject_threshold op threshold
               in if f64_less efficiency effective
                  then Inl (VerificationGasLimitEfficiencyTooLow effective efficiency)
                  else Inr ())
         else Inr ())"

text \<open>From the prechecks to the operation to be stored and the gas the prechecks require.\<close>

definition validate_operation ::
  "environment \<Rightarrow> 'l uo_pool \<Rightarrow> user_operation_variant \<Rightarrow> user_operation_permissions \<Rightarrow> b256 \<Rightarrow> u64
     \<Rightarrow> mempool_error + pool_operation \<times> u128" where
  "validate_operation env s op perms block_hash block_number =
     (case env_precheck env op perms block_hash of
        Inl e \<Rightarrow> Inl (mempool_error_from_precheck e)
      | Inr precheck_ret \<Rightarrow>
          (case simulate_and_check env (up_config s) op (perm_trusted perms) block_hash of
             Inl e \<Rightarrow> Inl e
           | Inr sim_result \<Rightarrow>
               (let expected_slots = num_slots (sr_expected_storage sim_result);
                    max_slots = pcf_max_expected_storage_slots (up_config s)
                in if expected_slots > max_slots
                   then Inl (TooManyExpectedStorageSlots max_slots expected_slots)
                   else case check_associated_storage (up_pool s)
                               (sr_associated_addresses sim_result) op of
                     Inl e \<Rightarrow> Inl e
                   | Inr _ \<Rightarrow>
                       (case check_verification_gas_limit_efficiency (up_config s) op sim_result of
                          Inl e \<Rightarrow> Inl e
                        | Inr _ \<Rightarrow>
                            Inr (\<lparr>po_uo = op,
                                  po_entry_point = pcf_entry_point (up_config s),
                                  po_aggregator = None,
                                  po_valid_time_range = sr_valid_time_range sim_result,
                                  po_expected_code_hash = sr_code_hash sim_result,
                                  po_sim_block_hash = block_hash,
                                  po_sim_block_number = block_number,
                                  po_account_is_staked = sr_account_is_staked sim_result,
                                  po_entity_infos = sr_entity_infos sim_result,
                                  po_da_gas_data = pcr_da_gas_data precheck_ret,
                                  po_filter_id = match_filter (up_mempool_config s) op,
                                  po_perms = perms\<rparr>,
                                 pcr_required_pre_verification_gas precheck_ret)))))"

text \<open>The loop over the unstaked entities other than the sender.\<close>

fun check_unstaked_counts ::
  "'l uo_pool \<Rightarrow> pool_operation option \<Rightarrow> entity list \<Rightarrow> mempool_error + unit" where
  "check_unstaked_counts s to_replace [] = Inr ()"
| "check_unstaked_counts s to_replace (entity # rest) =
     (let ops_allowed = get_ops_allowed (up_reputation s) (ent_address entity);
          ops_allowed = (case to_replace of
                           Some r \<Rightarrow> if entity \<in> set (po_entities r) then ops_allowed + 1
                                     else ops_allowed
                         | None \<Rightarrow> ops_allowed)
      in if address_count (up_pool s) (ent_address entity) \<ge> ops_allowed
         then Inl (MaxOperationsReached ops_allowed entity)
         else check_unstaked_counts s to_replace rest)"

definition check_counts ::
  "'l uo_pool \<Rightarrow> pool_operation option \<Rightarrow> pool_operation \<Rightarrow> mempool_error + unit" where
  "check_counts s to_replace pool_op =
     (let sender_allowed_count =
            (case perm_max_allowed_in_pool_for_sender (po_perms pool_op) of
               Some n \<Rightarrow> n | None \<Rightarrow> pcf_same_sender_mempool_count (up_config s));
          sender = uo_sender (po_uo pool_op)
      in if \<not> po_account_is_staked pool_op \<and> to_replace = None
            \<and> address_count (up_pool s) sender \<ge> sender_allowed_count
         then Inl (MaxOperationsReached sender_allowed_count (entity_account sender))
         else check_unstaked_counts s to_replace
                (filter (\<lambda>e. ent_address e \<noteq> sender_address (po_entity_infos pool_op))
                  (unique (unstaked_entities pool_op))))"

text \<open>One round of the last loop of \<open>add_operation\<close>.\<close>

definition count_seen :: "environment \<Rightarrow> entity \<Rightarrow> 'l uo_pool \<Rightarrow> 'l uo_pool" where
  "count_seen env e s =
     (let s = s\<lparr>up_reputation := add_seen (up_reputation s) (ent_address e)\<rparr>
      in if rep_status (up_reputation s) (ent_address e) = Throttled then up_throttle_entity s e
         else if rep_status (up_reputation s) (ent_address e) = Banned then up_remove_entity env s e
         else s)"

text \<open>
  What follows the insertion: reputation, and the event.
\<close>

definition finish_add ::
  "environment \<Rightarrow> operation_origin \<Rightarrow> entity_summary \<Rightarrow> pool_operation option \<Rightarrow> pool_operation
     \<Rightarrow> 'l uo_pool \<Rightarrow> 'l uo_pool" where
  "finish_add env origin summary to_replace pool_op s =
     (let s = (case to_replace of
                 Some r \<Rightarrow> s\<lparr>up_reputation :=
                              fold (\<lambda>e r. dec_seen r (ent_address e)) (unique (po_entities r))
                                (up_reputation s)\<rparr>
               | None \<Rightarrow> s);
          s = fold (count_seen env) (unique (po_entities pool_op)) s
      in up_emit s
           (ReceivedOp (uo_hash (po_uo pool_op)) (po_uo pool_op) (po_sim_block_number pool_op) origin
             (valid_after (po_valid_time_range pool_op)) (valid_until (po_valid_time_range pool_op))
             summary))"

text \<open>The insertion into the pool and the paymaster tracker.\<close>

definition store_operation ::
  "'l balances_ops \<Rightarrow> environment \<Rightarrow> instant \<Rightarrow> bool \<Rightarrow> pool_operation \<Rightarrow> u128 \<Rightarrow> 'l uo_pool
     \<Rightarrow> ('l uo_pool \<times> (mempool_error + b256)) option" where
  "store_operation ops env now throttled pool_op required_pvg s =
     (case pool_add_operation (up_pool s) pool_op (up_base_fee s) required_pvg now of
        None \<Rightarrow> None
      | Some (p, Inl e) \<Rightarrow> Some (s\<lparr>up_pool := p\<rparr>, Inl e)
      | Some (p, Inr hash) \<Rightarrow>
          (let s = s\<lparr>up_pool := p,
                     up_throttled_ops :=
                       (if throttled then insert hash (up_throttled_ops s) else up_throttled_ops s)\<rparr>;
               (t, res) = add_or_update_balance ops (env_entry_point env) (up_paymaster s) pool_op;
               s = s\<lparr>up_paymaster := t\<rparr>
           in case res of Inl e \<Rightarrow> Some (s, Inl e) | Inr _ \<Rightarrow> Some (s, Inr hash)))"

fun version_of :: "user_operation_variant \<Rightarrow> entry_point_version" where
  "version_of (V0_6 _) = EP_V0_6"
| "version_of (V0_7 _) = EP_V0_7"

definition up_add_operation ::
  "alloy \<Rightarrow> 'l balances_ops \<Rightarrow> environment \<Rightarrow> instant \<Rightarrow> 'l uo_pool \<Rightarrow> operation_origin
     \<Rightarrow> user_operation_variant \<Rightarrow> user_operation_permissions
     \<Rightarrow> ('l uo_pool \<times> (mempool_error + b256)) option" where
  "up_add_operation al ops env now s origin op perms =
     (case initial_checks al (up_pool s) op of
        Inl e \<Rightarrow> Some (s, Inl e)
      | Inr to_replace \<Rightarrow>
     (case check_reputation s (uo_entities op) entity_summary_default False of
        Inl e \<Rightarrow> Some (s, Inl e)
      | Inr (summary, throttled) \<Rightarrow>
     (case env_latest_block env of
        Inl e \<Rightarrow> Some (s, Inl (Other e))
      | Inr (block_hash, block_number) \<Rightarrow>
     (case check_operation_cost ops (env_entry_point env) (up_paymaster s) op of
        (t, Inl e) \<Rightarrow> Some (s\<lparr>up_paymaster := t\<rparr>, Inl e)
      | (t, Inr _) \<Rightarrow>
     (let s = s\<lparr>up_paymaster := t\<rparr>
      in case apply_aggregator al (pcf_chain_spec (up_config s)) op of
        Inl e \<Rightarrow> Some (s, Inl e)
      | Inr op \<Rightarrow>
     (if version_of op \<noteq> env_uo_version env then None
      else case validate_operation env s op perms block_hash block_number of
        Inl e \<Rightarrow> Some (s, Inl e)
      | Inr (pool_op, required_pvg) \<Rightarrow>
     (case check_counts s to_replace pool_op of
        Inl e \<Rightarrow> Some (s, Inl e)
      | Inr _ \<Rightarrow>
     (case store_operation ops env now throttled pool_op required_pvg s of
        None \<Rightarrow> None
      | Some (s, Inl e) \<Rightarrow> Some (s, Inl e)
      | Some (s, Inr hash) \<Rightarrow>
          Some (finish_add env origin summary to_replace pool_op s, Inr hash)))))))))"

section \<open>Removing and looking up operations\<close>

definition up_remove_operations ::
  "'l balances_ops \<Rightarrow> 'l uo_pool \<Rightarrow> b256 list \<Rightarrow> 'l uo_pool" where
  "up_remove_operations ops s hashes =
     (let (s, removed_hashes) =
            fold (\<lambda>hash (s, removed).
              case remove_operation_by_hash (up_pool s) hash of
                (p, Some op) \<Rightarrow>
                  (s\<lparr>up_pool := p,
                     up_paymaster := pt_remove_operation ops (up_paymaster s) (uo_id (po_uo op))\<rparr>,
                   removed @ [hash])
              | (p, None) \<Rightarrow> (s\<lparr>up_pool := p\<rparr>, removed)) hashes (s, [])
      in fold (\<lambda>h s. up_emit s (RemovedOp h Requested)) removed_hashes s)"

definition up_get_op_by_id :: "'l uo_pool \<Rightarrow> user_operation_id \<Rightarrow> pool_operation option" where
  "up_get_op_by_id s uid = get_operation_by_id (up_pool s) uid"

definition up_remove_op_by_id ::
  "'l uo_pool \<Rightarrow> user_operation_id \<Rightarrow> 'l uo_pool \<times> (mempool_error + b256 option)" where
  "up_remove_op_by_id s uid =
     (case get_operation_by_id (up_pool s) uid of
        None \<Rightarrow> (s, Inr None)
      | Some po \<Rightarrow>
          if po_sim_block_number po + pcf_drop_min_num_blocks (up_config s) > up_block_number s
          then (s, Inl (OperationDropTooSoon (po_sim_block_number po) (up_block_number s)
                          (pcf_drop_min_num_blocks (up_config s))))
          else (let hash = uo_hash (po_uo po)
                in case remove_operation_by_hash (up_pool s) hash of
                     (p, None) \<Rightarrow> (s\<lparr>up_pool := p\<rparr>, Inr None)
                   | (p, Some _) \<Rightarrow>
                       (up_emit (s\<lparr>up_pool := p\<rparr>) (RemovedOp hash Requested), Inr (Some hash))))"

definition up_best_operations :: "'l uo_pool \<Rightarrow> usize \<Rightarrow> string option \<Rightarrow> pool_operation list" where
  "up_best_operations s max_ops filter_id =
     take (unat max_ops)
       (filter (\<lambda>op. filter_id = po_filter_id op) (pool_best_operations (up_pool s)))"

definition up_all_operations :: "environment \<Rightarrow> 'l uo_pool \<Rightarrow> usize \<Rightarrow> pool_operation list" where
  "up_all_operations env s max_ops =
     take (unat max_ops)
       (pool_all_operations (up_pool s) (env_iter_ops env (pi_by_hash (up_pool s))))"

definition up_get_user_operation_by_hash ::
  "'l uo_pool \<Rightarrow> b256 \<Rightarrow> pool_operation option \<times> b256 option" where
  "up_get_user_operation_by_hash s hash =
     (get_operation_by_hash (up_pool s) hash, get_pre_confirmed_uo (up_pool s) hash)"

section \<open>Following the chain\<close>

definition up_update_preconfirmed_uos ::
  "'l uo_pool \<Rightarrow> (b256 \<times> b256 list) list \<Rightarrow> u64 option \<Rightarrow> 'l uo_pool" where
  "up_update_preconfirmed_uos s txn_to_uos preconfirmed_block_number =
     (case preconfirmed_block_number of
        None \<Rightarrow> s
      | Some n \<Rightarrow>
          s\<lparr>up_pool := preconfirm_txns_at_block_number (preconfirm_txns (up_pool s) txn_to_uos)
                         txn_to_uos n\<rparr>)"

definition up_remove_out_of_date_preconfirmed_uos ::
  "environment \<Rightarrow> 'l uo_pool \<Rightarrow> u64 \<Rightarrow> 'l uo_pool" where
  "up_remove_out_of_date_preconfirmed_uos env s block_number =
     s\<lparr>up_pool := remove_out_of_date_preconfirmed_uos (up_pool s)
                    (env_iter_blocks env (pi_preconfiemed_uos_at_block_number (up_pool s)))
                    block_number\<rparr>"

text \<open>One round of the loop over the mined operations.\<close>

definition apply_mined ::
  "'l balances_ops \<Rightarrow> chain_update \<Rightarrow> mined_op \<Rightarrow> 'l uo_pool \<Rightarrow> 'l uo_pool" where
  "apply_mined ops u op s =
     (let (p, res) = mine_operation (up_pool s) op (cu_latest_block_number u);
          s = s\<lparr>up_paymaster := update_paymaster_balance_from_mined_op ops (up_paymaster s) op,
                up_throttled_ops := up_throttled_ops s - {mo_hash op},
                up_pool := p\<rparr>
      in case res of
           None \<Rightarrow> s
         | Some pool_op \<Rightarrow>
             s\<lparr>up_reputation :=
                 fold (\<lambda>a r. add_included r a) (unique (map ent_address (po_entities pool_op)))
                   (up_reputation s)\<rparr>)"

text \<open>One round of the loop over the unmined operations; the result of the tracker is ignored.\<close>

definition apply_unmined ::
  "'l balances_ops \<Rightarrow> environment \<Rightarrow> mined_op \<Rightarrow> 'l uo_pool \<Rightarrow> 'l uo_pool option" where
  "apply_unmined ops env op s =
     (let s = (case mo_paymaster op of
                 Some paymaster \<Rightarrow>
                   s\<lparr>up_paymaster := unmine_actual_cost ops (up_paymaster s) paymaster
                                       (mo_actual_gas_cost op)\<rparr>
               | None \<Rightarrow> s)
      in case unmine_operation (up_pool s) op of
           None \<Rightarrow> None
         | Some (p, None) \<Rightarrow> Some (s\<lparr>up_pool := p\<rparr>)
         | Some (p, Some po) \<Rightarrow>
             Some (s\<lparr>up_pool := p,
                     up_reputation :=
                       fold (\<lambda>a r. dec_included r a) (unique (map ent_address (po_entities po)))
                         (up_reputation s),
                     up_paymaster :=
                       fst (add_or_update_balance ops (env_entry_point env) (up_paymaster s) po)\<rparr>))"

fun apply_all_unmined ::
  "'l balances_ops \<Rightarrow> environment \<Rightarrow> mined_op list \<Rightarrow> 'l uo_pool \<Rightarrow> 'l uo_pool option" where
  "apply_all_unmined ops env [] s = Some s"
| "apply_all_unmined ops env (op # rest) s =
     (case apply_unmined ops env op s of
        None \<Rightarrow> None | Some s \<Rightarrow> apply_all_unmined ops env rest s)"

definition up_reset_confirmed_paymaster_balances ::
  "'l balances_ops \<Rightarrow> environment \<Rightarrow> 'l uo_pool \<Rightarrow> ('l uo_pool \<times> (mempool_error + unit)) option" where
  "up_reset_confirmed_paymaster_balances ops env s =
     map_option (\<lambda>(t, res). (s\<lparr>up_paymaster := t\<rparr>, res))
       (reset_confirmed_balances ops (env_entry_point env) (up_paymaster s))"

text \<open>Errors are logged and otherwise ignored.\<close>

definition apply_balance_updates ::
  "'l balances_ops \<Rightarrow> environment \<Rightarrow> chain_update \<Rightarrow> 'l uo_pool \<Rightarrow> 'l uo_pool option" where
  "apply_balance_updates ops env u s =
     (if cu_reorg_larger_than_history u
      then map_option fst (up_reset_confirmed_paymaster_balances ops env s)
      else (let ours = (\<lambda>us. map bu_address
                         (filter (\<lambda>b. bu_entrypoint b = pcf_entry_point (up_config s)) us));
                addresses = unique (ours (cu_entity_balance_updates u)
                                    @ ours (cu_unmined_entity_balance_updates u))
            in if addresses = [] then Some s
               else map_option (\<lambda>(t, _). s\<lparr>up_paymaster := t\<rparr>)
                      (reset_confirmed_balances_for ops (env_entry_point env) (up_paymaster s)
                        addresses)))"

definition update_fees :: "environment \<Rightarrow> chain_update \<Rightarrow> 'l uo_pool \<Rightarrow> 'l uo_pool" where
  "update_fees env u s =
     (case env_required_bundle_fees env (cu_latest_block_hash u) of
        Inr (bundle_fees, base_fee) \<Rightarrow>
          s\<lparr>up_block_number := cu_latest_block_number u,
            up_block_hash := cu_latest_block_hash u,
            up_bundle_fees := bundle_fees,
            up_uo_fees := env_required_op_fees env bundle_fees,
            up_base_fee := base_fee\<rparr>
      | Inl _ \<Rightarrow> s\<lparr>up_block_number := cu_latest_block_number u\<rparr>)"

definition load_da_block_data ::
  "environment \<Rightarrow> chain_update \<Rightarrow> 'l uo_pool \<Rightarrow> da_gas_block_data option" where
  "load_da_block_data env u s =
     (if pcf_da_gas_tracking_enabled (up_config s) \<and> pi_da_gas_oracle (up_pool s) \<noteq> None
      then case env_da_block_data env (cu_latest_block_hash u) of Inr d \<Rightarrow> Some d | Inl _ \<Rightarrow> None
      else None)"

text \<open>The throttled operations that are too old; the subtraction wraps around.\<close>

definition old_throttled :: "environment \<Rightarrow> chain_update \<Rightarrow> 'l uo_pool \<Rightarrow> (b256 \<times> u64) list" where
  "old_throttled env u s =
     List.map_filter (\<lambda>hash.
       case get_operation_by_hash (up_pool s) hash of
         None \<Rightarrow> None
       | Some po \<Rightarrow>
           if cu_latest_block_number u - po_sim_block_number po
                > pcf_throttled_entity_live_blocks (up_config s)
           then Some (hash, po_sim_block_number po) else None)
       (env_iter_hashes env (up_throttled_ops s))"

definition drop_old_throttled :: "environment \<Rightarrow> chain_update \<Rightarrow> 'l uo_pool \<Rightarrow> 'l uo_pool" where
  "drop_old_throttled env u s =
     fold (\<lambda>(hash, added_at_block) s.
       up_emit (s\<lparr>up_pool := fst (remove_operation_by_hash (up_pool s) hash),
                  up_throttled_ops := up_throttled_ops s - {hash}\<rparr>)
         (RemovedOp hash (ThrottledAndOld added_at_block (cu_latest_block_number u))))
       (old_throttled env u s) s"

text \<open>The last block of \<open>on_chain_update\<close>, under one lock.\<close>

definition finish_update ::
  "alloy \<Rightarrow> environment \<Rightarrow> instant \<Rightarrow> chain_update \<Rightarrow> 'l uo_pool \<Rightarrow> 'l uo_pool" where
  "finish_update al env now u s =
     (let da_block_data = load_da_block_data env u s;
          s = s\<lparr>up_pool := forget_mined_operations_before_block (up_pool s)
                  (cu_earliest_remembered_block_number u)\<rparr>;
          s = drop_old_throttled env u s
      in s\<lparr>up_pool := do_maintenance al (up_pool s) (env_iter_ops env (pi_by_hash (up_pool s))) now
             (cu_latest_block_number u) (cu_latest_block_timestamp u) da_block_data
             (up_uo_fees s) (up_base_fee s)\<rparr>)"

definition on_chain_update ::
  "alloy \<Rightarrow> 'l balances_ops \<Rightarrow> environment \<Rightarrow> instant \<Rightarrow> 'l uo_pool \<Rightarrow> chain_update
     \<Rightarrow> 'l uo_pool option" where
  "on_chain_update al ops env now s u =
     (let s = up_update_preconfirmed_uos s (cu_preconfirmed_txns u) (cu_preconfirmed_block_number u)
      in if cu_update_type u = Preconfirmed then Some s
         else (let s = up_remove_out_of_date_preconfirmed_uos env s (cu_latest_block_number u);
                   (mined, unmined) = deduped_ops u;
                   ours = filter (\<lambda>op. mo_entry_point op = pcf_entry_point (up_config s));
                   s = fold (apply_mined ops u) (ours mined) s
               in case apply_all_unmined ops env (ours unmined) s of
                    None \<Rightarrow> None
                  | Some s \<Rightarrow>
                      (case apply_balance_updates ops env u s of
                         None \<Rightarrow> None
                       | Some s \<Rightarrow> Some (finish_update al env now u (update_fees env u s)))))"

section \<open>Debug methods\<close>

definition up_clear_state ::
  "'l balances_ops \<Rightarrow> 'l uo_pool \<Rightarrow> bool \<Rightarrow> bool \<Rightarrow> bool \<Rightarrow> 'l uo_pool" where
  "up_clear_state ops s clear_mempool clear_paymaster clear_reputation =
     (let s = (if clear_mempool then s\<lparr>up_pool := pool_clear (up_pool s)\<rparr> else s);
          s = (if clear_paymaster then s\<lparr>up_paymaster := pt_clear ops (up_paymaster s)\<rparr> else s)
      in if clear_reputation then s\<lparr>up_reputation := rep_clear (up_reputation s)\<rparr> else s)"

definition up_get_reputation_status :: "'l uo_pool \<Rightarrow> address \<Rightarrow> reputation_status" where
  "up_get_reputation_status s a = rep_status (up_reputation s) a"

definition up_set_reputation :: "'l uo_pool \<Rightarrow> address \<Rightarrow> u64 \<Rightarrow> u64 \<Rightarrow> 'l uo_pool" where
  "up_set_reputation s a ops_seen ops_included =
     s\<lparr>up_reputation := set_reputation (up_reputation s) a ops_seen ops_included\<rparr>"

definition up_set_tracking :: "'l uo_pool \<Rightarrow> bool \<Rightarrow> bool \<Rightarrow> 'l uo_pool" where
  "up_set_tracking s paymaster reputation =
     s\<lparr>up_paymaster := pt_set_tracking (up_paymaster s) paymaster,
       up_reputation := set_tracking (up_reputation s) reputation\<rparr>"

definition up_dump_reputation :: "'l uo_pool \<Rightarrow> address list \<Rightarrow> reputation list" where
  "up_dump_reputation s order = dump_reputation (up_reputation s) order"

definition up_dump_paymaster_balances :: "'l balances_ops \<Rightarrow> 'l uo_pool \<Rightarrow> paymaster_metadata list" where
  "up_dump_paymaster_balances ops s = dump_paymaster_metadata ops (up_paymaster s)"

definition up_get_stake_status ::
  "environment \<Rightarrow> paymaster_config \<Rightarrow> address \<Rightarrow> mempool_error + stake_status" where
  "up_get_stake_status env config a = get_stake_status (env_entry_point env) config a"

end
