(* ===== verification/Uo_Pool_Steps.thy ===== *)
theory Uo_Pool_Steps
  imports Uo_Pool Pool_Reach Reputation_Theorems
begin

text \<open>
  Every method of the mempool is a sequence of steps of its pool and of its reputation.  What was
  proved for the states those components reach hence holds in every state of the mempool.
\<close>

section \<open>Steps of the components\<close>

definition component_steps :: "(pool_operation \<Rightarrow> bool) \<Rightarrow> 'l uo_pool \<Rightarrow> 'l uo_pool \<Rightarrow> bool" where
  "component_steps Q s s' \<longleftrightarrow>
     (pool_step Q)\<^sup>*\<^sup>* (up_pool s) (up_pool s') \<and> rep_step\<^sup>*\<^sup>* (up_reputation s) (up_reputation s') \<and>
     up_config s' = up_config s"

lemma cs_refl [simp]: "component_steps Q s s"
  by (simp add: component_steps_def)

lemma cs_trans: "component_steps Q s s' \<Longrightarrow> component_steps Q s' s'' \<Longrightarrow> component_steps Q s s''"
  by (auto simp: component_steps_def)

lemma cs_frame [simp]:
  "component_steps Q s (s'\<lparr>up_throttled_ops := x\<rparr>) = component_steps Q s s'"
  "component_steps Q s (s'\<lparr>up_block_number := n\<rparr>) = component_steps Q s s'"
  "component_steps Q s (s'\<lparr>up_block_hash := h\<rparr>) = component_steps Q s s'"
  "component_steps Q s (s'\<lparr>up_bundle_fees := f\<rparr>) = component_steps Q s s'"
  "component_steps Q s (s'\<lparr>up_uo_fees := f\<rparr>) = component_steps Q s s'"
  "component_steps Q s (s'\<lparr>up_base_fee := b\<rparr>) = component_steps Q s s'"
  "component_steps Q s (s'\<lparr>up_paymaster := t\<rparr>) = component_steps Q s s'"
  by (simp_all add: component_steps_def)

lemma cs_frame_left [simp]:
  "component_steps Q (s\<lparr>up_throttled_ops := x\<rparr>) s' = component_steps Q s s'"
  "component_steps Q (s\<lparr>up_paymaster := t\<rparr>) s' = component_steps Q s s'"
  by (simp_all add: component_steps_def)

lemma cs_pool: "pool_step Q (up_pool s) p \<Longrightarrow> component_steps Q s (s\<lparr>up_pool := p\<rparr>)"
  by (simp add: component_steps_def)

lemma cs_rep: "rep_step (up_reputation s) r \<Longrightarrow> component_steps Q s (s\<lparr>up_reputation := r\<rparr>)"
  by (simp add: component_steps_def)

lemma cs_fold: "(\<And>x s. component_steps Q s (f x s)) \<Longrightarrow> component_steps Q s (fold f xs s)"
proof (induction xs arbitrary: s)
  case (Cons x xs)
  have "component_steps Q s (f x s)" by (rule Cons.prems)
  moreover have "component_steps Q (f x s) (fold f xs (f x s))" by (rule Cons.IH [OF Cons.prems])
  ultimately show ?case by (simp add: cs_trans)
qed simp

lemma cs_rep_fold:
  assumes "\<And>x r. rep_step r (f x r)"
  shows "component_steps Q s (s\<lparr>up_reputation := fold f xs (up_reputation s)\<rparr>)"
proof -
  have "rep_step\<^sup>*\<^sup>* r (fold f xs r)" for r
    using assms by (induction xs arbitrary: r) (auto intro: converse_rtranclp_into_rtranclp)
  then show ?thesis by (simp add: component_steps_def)
qed

lemma cs_emit: "component_steps Q s (up_emit s e)"
  unfolding up_emit_def by (intro cs_pool pool_step.send)

lemma cs_emit_all: "component_steps Q s (fold (\<lambda>h s. up_emit s (f h)) hs s)"
  by (rule cs_fold) (rule cs_emit)

lemma cs_then_emit:
  "component_steps Q s s' \<Longrightarrow> component_steps Q s (fold (\<lambda>h s. up_emit s (f h)) hs (up_emit s' e))"
  by (rule cs_trans, rule cs_trans, assumption, rule cs_emit, rule cs_emit_all)

section \<open>The methods\<close>

lemma cs_throttle_entity: "component_steps Q s (up_throttle_entity s e)"
proof -
  let ?r = "pool_throttle_entity (up_pool s) e (up_block_number s)"
  have "component_steps Q s (s\<lparr>up_pool := fst ?r\<rparr>)" by (intro cs_pool pool_step.throttle)
  then show ?thesis
    unfolding up_throttle_entity_def case_prod_beta Let_def by (rule cs_then_emit)
qed

lemma cs_remove_entity: "component_steps Q s (up_remove_entity env s e)"
proof -
  let ?r = "pool_remove_entity (up_pool s) (env_iter_ops env (pi_by_hash (up_pool s))) e"
  have "component_steps Q s (s\<lparr>up_pool := fst ?r\<rparr>)" by (intro cs_pool pool_step.remove_entity)
  then show ?thesis
    unfolding up_remove_entity_def case_prod_beta Let_def by (rule cs_then_emit)
qed

lemma cs_update_entity:
  assumes "up_update_entity env s u = Some s'"
  shows "component_steps Q s s'"
proof -
  obtain r where r: "rep_step (up_reputation s) r"
    and s': "s' \<in> {up_remove_entity env (s\<lparr>up_reputation := r\<rparr>) (eu_entity u),
      up_throttle_entity (s\<lparr>up_reputation := r\<rparr>) (eu_entity u), s\<lparr>up_reputation := r\<rparr>}"
    using assms
    by (auto simp: up_update_entity_def Let_def intro: rep_step.intros
        split: entity_update_type.splits if_splits option.splits)
  have "component_steps Q s (s\<lparr>up_reputation := r\<rparr>)" using r by (rule cs_rep)
  then show ?thesis
    using s' cs_trans [OF _ cs_remove_entity] cs_trans [OF _ cs_throttle_entity] by auto
qed

lemma cs_count_seen: "component_steps Q s (count_seen env e s)"
proof -
  let ?s = "s\<lparr>up_reputation := add_seen (up_reputation s) (ent_address e)\<rparr>"
  have "component_steps Q s ?s" by (intro cs_rep rep_step.intros)
  from this cs_trans [OF this cs_remove_entity] cs_trans [OF this cs_throttle_entity] show ?thesis
    by (simp add: count_seen_def Let_def)
qed

lemma cs_finish_add: "component_steps Q s (finish_add env origin summary to_replace pool_op s)"
proof -
  let ?s = "case to_replace of
      Some r \<Rightarrow> s\<lparr>up_reputation := fold (\<lambda>e r. dec_seen r (ent_address e)) (unique (po_entities r))
                   (up_reputation s)\<rparr>
    | None \<Rightarrow> s"
  have "component_steps Q s ?s"
    by (cases to_replace) (auto intro: cs_rep_fold rep_step.intros)
  moreover have "component_steps Q ?s (fold (count_seen env) (unique (po_entities pool_op)) ?s)"
    by (rule cs_fold) (rule cs_count_seen)
  ultimately have "component_steps Q s (fold (count_seen env) (unique (po_entities pool_op)) ?s)"
    by (rule cs_trans)
  then show ?thesis unfolding finish_add_def Let_def by (rule cs_trans) (rule cs_emit)
qed

lemma cs_store_operation:
  assumes "store_operation ops env now throttled po pvg s = Some (s', r)"
    "unat (pi_submission_id (up_pool s)) + 1 < 2 ^ 62" "Q po"
  shows "component_steps Q s s'"
proof -
  obtain p res where p: "pool_add_operation (up_pool s) po (up_base_fee s) pvg now = Some (p, res)"
    using assms(1) by (auto simp: store_operation_def split: option.splits)
  have "component_steps Q s (s\<lparr>up_pool := p\<rparr>)"
    using assms(2,3) by (intro cs_pool pool_step.add [OF p])
  then show ?thesis
    using assms(1) p
    by (auto simp: store_operation_def Let_def split: sum.splits prod.splits)
qed

text \<open>A call of \<open>add_operation\<close> is rejected by a check, or gets as far as the insertion.\<close>

lemma up_add_operation_cases:
  assumes "up_add_operation al ops env now s origin op perms = Some (s', r)"
  obtains (rejected) t e where "s' = s\<lparr>up_paymaster := t\<rparr>" "r = Inl e"
  | (stored) to_replace summary throttled block_hash block_number t uo pool_op pvg s1 r1 where
      "initial_checks al (up_pool s) op = Inr to_replace"
      "check_reputation s (uo_entities op) entity_summary_default False = Inr (summary, throttled)"
      "env_latest_block env = Inr (block_hash, block_number)"
      "check_operation_cost ops (env_entry_point env) (up_paymaster s) op = (t, Inr ())"
      "apply_aggregator al (pcf_chain_spec (up_config s)) op = Inr uo"
      "validate_operation env (s\<lparr>up_paymaster := t\<rparr>) uo perms block_hash block_number =
         Inr (pool_op, pvg)"
      "check_counts (s\<lparr>up_paymaster := t\<rparr>) to_replace pool_op = Inr ()"
      "store_operation ops env now throttled pool_op pvg (s\<lparr>up_paymaster := t\<rparr>) = Some (s1, r1)"
      "s' = (case r1 of Inl _ \<Rightarrow> s1
             | Inr _ \<Rightarrow> finish_add env origin summary to_replace pool_op s1)"
      "r = r1"
proof (cases "\<exists>t e. s' = s\<lparr>up_paymaster := t\<rparr> \<and> r = Inl e")
  case True
  then show ?thesis using rejected by blast
next
  case False
  then have no: "s' = s\<lparr>up_paymaster := t\<rparr> \<Longrightarrow> r \<noteq> Inl e" for t e by blast
  from no [of "up_paymaster s"] have no': "s' = s \<Longrightarrow> r \<noteq> Inl e" for e by simp
  note A = assms [unfolded up_add_operation_def Let_def]
  obtain to_replace where 1: "initial_checks al (up_pool s) op = Inr to_replace"
    using A no' by (cases "initial_checks al (up_pool s) op") auto
  note A = A [unfolded 1 sum.case]
  obtain summary throttled where
    2: "check_reputation s (uo_entities op) entity_summary_default False = Inr (summary, throttled)"
    using A no'
    by (cases "check_reputation s (uo_entities op) entity_summary_default False") auto
  note A = A [unfolded 2 sum.case prod.case]
  obtain block_hash block_number where 3: "env_latest_block env = Inr (block_hash, block_number)"
    using A no' by (cases "env_latest_block env") auto
  note A = A [unfolded 3 sum.case prod.case]
  obtain t where 4: "check_operation_cost ops (env_entry_point env) (up_paymaster s) op = (t, Inr ())"
    using A no
    by (cases "check_operation_cost ops (env_entry_point env) (up_paymaster s) op")
      (auto split: sum.splits)
  have config: "up_config (s\<lparr>up_paymaster := t\<rparr>) = up_config s" by simp
  note A = A [unfolded 4 sum.case prod.case config]
  obtain uo where 5: "apply_aggregator al (pcf_chain_spec (up_config s)) op = Inr uo"
    using A no by (cases "apply_aggregator al (pcf_chain_spec (up_config s)) op") auto
  note A = A [unfolded 5 sum.case prod.case]
  obtain pool_op pvg where 6: "validate_operation env (s\<lparr>up_paymaster := t\<rparr>) uo perms block_hash
      block_number = Inr (pool_op, pvg)"
    using A no
    by (cases "validate_operation env (s\<lparr>up_paymaster := t\<rparr>) uo perms block_hash block_number")
      (auto split: if_splits)
  note A = A [unfolded 6 sum.case prod.case]
  have 7: "check_counts (s\<lparr>up_paymaster := t\<rparr>) to_replace pool_op = Inr ()"
    using A no
    by (cases "check_counts (s\<lparr>up_paymaster := t\<rparr>) to_replace pool_op") (auto split: if_splits)
  note A = A [unfolded 7 sum.case]
  obtain s1 r1 where
    8: "store_operation ops env now throttled pool_op pvg (s\<lparr>up_paymaster := t\<rparr>) = Some (s1, r1)"
    and "s' = (case r1 of Inl _ \<Rightarrow> s1
             | Inr _ \<Rightarrow> finish_add env origin summary to_replace pool_op s1)" "r = r1"
    using A by (auto split: if_splits sum.splits option.splits)
  with 1 2 3 4 5 6 7 show ?thesis using stored by blast
qed

lemma up_add_operation_run:
  assumes "initial_checks al (up_pool s) op = Inr to_replace"
    "check_reputation s (uo_entities op) entity_summary_default False = Inr (summary, throttled)"
    "env_latest_block env = Inr (block_hash, block_number)"
    "check_operation_cost ops (env_entry_point env) (up_paymaster s) op = (t, Inr ())"
    "apply_aggregator al (pcf_chain_spec (up_config s)) op = Inr uo"
    "version_of uo = env_uo_version env"
    "validate_operation env (s\<lparr>up_paymaster := t\<rparr>) uo perms block_hash block_number =
       Inr (pool_op, pvg)"
    "check_counts (s\<lparr>up_paymaster := t\<rparr>) to_replace pool_op = Inr ()"
    "store_operation ops env now throttled pool_op pvg (s\<lparr>up_paymaster := t\<rparr>) = Some (s1, r)"
  shows "up_add_operation al ops env now s origin op perms =
    Some (case r of Inl _ \<Rightarrow> s1 | Inr _ \<Rightarrow> finish_add env origin summary to_replace pool_op s1, r)"
  using assms by (cases r) (simp_all add: up_add_operation_def)

text \<open>Validating a call that \<open>C\<close> allows gives operations of the kind \<open>Q\<close>.\<close>

definition validates ::
  "(environment \<Rightarrow> user_operation_variant \<Rightarrow> bool) \<Rightarrow> (pool_operation \<Rightarrow> bool) \<Rightarrow> 'l uo_pool \<Rightarrow> bool" where
  "validates C Q s \<longleftrightarrow>
     (\<forall>al env op uo t perms h n po pvg.
        C env op \<and> apply_aggregator al (pcf_chain_spec (up_config s)) op = Inr uo \<and>
        validate_operation env (s\<lparr>up_paymaster := t\<rparr>) uo perms h n = Inr (po, pvg) \<longrightarrow> Q po)"

lemma validates_all [simp]: "validates C (\<lambda>_. True) s"
  by (simp add: validates_def)

lemma cs_add_operation:
  assumes "up_add_operation al ops env now s origin op perms = Some (s', r)"
    "unat (pi_submission_id (up_pool s)) + 1 < 2 ^ 62" "C env op" "validates C Q s"
  shows "component_steps Q s s'"
  using assms(1)
proof (cases rule: up_add_operation_cases)
  case (stored to_replace summary throttled block_hash block_number t uo pool_op pvg s1 r1)
  have "Q pool_op" using assms(3,4) stored(5,6) unfolding validates_def by blast
  then have "component_steps Q s s1"
    using cs_store_operation [OF stored(8)] assms(2) by simp
  then show ?thesis
    using stored(9) cs_trans [OF _ cs_finish_add] by (cases r1) simp_all
qed simp

lemma cs_remove_operations: "component_steps Q s (up_remove_operations ops s hashes)"
proof -
  let ?f = "\<lambda>hash (s, removed).
      case remove_operation_by_hash (up_pool s) hash of
        (p, Some op) \<Rightarrow>
          (s\<lparr>up_pool := p,
             up_paymaster := pt_remove_operation ops (up_paymaster s) (uo_id (po_uo op))\<rparr>,
           removed @ [hash])
      | (p, None) \<Rightarrow> (s\<lparr>up_pool := p\<rparr>, removed)"
  have step: "component_steps Q s (fst (?f h (s, r)))" for h r and s :: "'a uo_pool"
    using cs_pool [OF pool_step.remove, of _ s h]
    by (auto split: prod.splits option.splits)
  have "component_steps Q s (fst (fold ?f hs (s, r)))" for hs r and s :: "'a uo_pool"
  proof (induction hs arbitrary: s r)
    case (Cons h hs)
    obtain s1 r1 where 1: "?f h (s, r) = (s1, r1)" by (rule prod.exhaust)
    with step [of s h r] have "component_steps Q s s1" by simp
    then show ?case using cs_trans Cons.IH [of s1 r1] 1 by (simp only: fold_Cons comp_apply)
  qed simp
  then show ?thesis
    unfolding up_remove_operations_def Let_def case_prod_beta [of _ "fold _ _ _"]
    by (rule cs_trans) (rule cs_emit_all)
qed

lemma cs_remove_op_by_id: "component_steps Q s (fst (up_remove_op_by_id s uid))"
proof -
  have "component_steps Q s (s\<lparr>up_pool := p\<rparr>)"
    if "remove_operation_by_hash (up_pool s) h = (p, r)" for h p r
    using cs_pool [OF pool_step.remove, of _ s h] that by simp
  then show ?thesis
    by (auto simp: up_remove_op_by_id_def Let_def intro: cs_trans [OF _ cs_emit]
        split: option.splits prod.splits)
qed

lemma cs_update_preconfirmed: "component_steps Q s (up_update_preconfirmed_uos s txns n)"
proof (cases n)
  case (Some m)
  let ?s = "s\<lparr>up_pool := preconfirm_txns (up_pool s) txns\<rparr>"
  have "component_steps Q s ?s" by (intro cs_pool pool_step.preconfirm)
  moreover have "component_steps Q ?s
      (?s\<lparr>up_pool := preconfirm_txns_at_block_number (up_pool ?s) txns m\<rparr>)"
    by (intro cs_pool pool_step.preconfirm_at)
  ultimately show ?thesis using cs_trans Some by (fastforce simp: up_update_preconfirmed_uos_def)
qed (simp add: up_update_preconfirmed_uos_def)

lemma cs_outdated: "component_steps Q s (up_remove_out_of_date_preconfirmed_uos env s n)"
  unfolding up_remove_out_of_date_preconfirmed_uos_def by (intro cs_pool pool_step.outdated)

lemma cs_apply_mined: "component_steps Q s (apply_mined ops u m s)"
proof -
  let ?r = "mine_operation (up_pool s) m (cu_latest_block_number u)"
  let ?s = "s\<lparr>up_paymaster := update_paymaster_balance_from_mined_op ops (up_paymaster s) m,
      up_throttled_ops := up_throttled_ops s - {mo_hash m}, up_pool := fst ?r\<rparr>"
  have "component_steps Q s (s\<lparr>up_pool := fst ?r\<rparr>)" by (intro cs_pool pool_step.mine)
  then have 1: "component_steps Q s ?s" by (simp add: component_steps_def)
  have "component_steps Q ?s (?s\<lparr>up_reputation := fold (\<lambda>a r. add_included r a) xs (up_reputation ?s)\<rparr>)"
    for xs by (intro cs_rep_fold rep_step.intros)
  from cs_trans [OF 1 this] 1 show ?thesis
    by (simp add: apply_mined_def Let_def case_prod_beta split: option.splits)
qed

lemma cs_apply_unmined:
  assumes "apply_unmined ops env m s = Some s'"
  shows "component_steps Q s s'"
proof -
  obtain p r where p: "unmine_operation (up_pool s) m = Some (p, r)"
    using assms by (auto simp: apply_unmined_def Let_def split: option.splits)
  have 1: "component_steps Q s (s\<lparr>up_pool := p\<rparr>)" using pool_step.unmine [OF p] by (rule cs_pool)
  have "component_steps Q (s\<lparr>up_pool := p\<rparr>) (s\<lparr>up_pool := p,
      up_reputation := fold (\<lambda>a r. dec_included r a) xs (up_reputation s)\<rparr>)" for xs
    using cs_rep_fold [of "\<lambda>a r. dec_included r a" _ "s\<lparr>up_pool := p\<rparr>" xs] by (simp add: rep_step.intros)
  from cs_trans [OF 1 this] 1 assms p show ?thesis
    by (auto simp: apply_unmined_def Let_def component_steps_def split: option.splits)
qed

lemma cs_apply_all_unmined:
  "apply_all_unmined ops env ms s = Some s' \<Longrightarrow> component_steps Q s s'"
  by (induction ops env ms s rule: apply_all_unmined.induct)
    (auto split: option.splits dest: cs_apply_unmined intro: cs_trans)

lemma cs_balance_updates:
  "apply_balance_updates ops env u s = Some s' \<Longrightarrow> component_steps Q s s'"
  by (auto simp: apply_balance_updates_def up_reset_confirmed_paymaster_balances_def Let_def
      split: if_splits)

lemma cs_update_fees: "component_steps Q s (update_fees env u s)"
  by (auto simp: update_fees_def split: sum.splits)

lemma cs_drop_old_throttled: "component_steps Q s (drop_old_throttled env u s)"
  unfolding drop_old_throttled_def
proof (rule cs_fold)
  fix x :: "b256 \<times> u64" and s :: "'a uo_pool"
  obtain h n where [simp]: "x = (h, n)" by (cases x)
  have "component_steps Q s (s\<lparr>up_pool := fst (remove_operation_by_hash (up_pool s) h)\<rparr>)"
    by (intro cs_pool pool_step.remove)
  then have "component_steps Q s (s\<lparr>up_pool := fst (remove_operation_by_hash (up_pool s) h),
      up_throttled_ops := up_throttled_ops s - {h}\<rparr>)" by simp
  then show "component_steps Q s ((case x of (hash, added_at_block) \<Rightarrow> \<lambda>s.
      up_emit (s\<lparr>up_pool := fst (remove_operation_by_hash (up_pool s) hash),
                 up_throttled_ops := up_throttled_ops s - {hash}\<rparr>)
        (RemovedOp hash (ThrottledAndOld added_at_block (cu_latest_block_number u)))) s)"
    unfolding \<open>x = (h, n)\<close> prod.case by (rule cs_trans) (rule cs_emit)
qed

text \<open>Iterating a hash map visits every key once.\<close>

definition iterates_keys :: "environment \<Rightarrow> bool" where
  "iterates_keys env \<longleftrightarrow>
     (\<forall>m. finite (dom m) \<longrightarrow> distinct (env_iter_ops env m) \<and> set (env_iter_ops env m) = dom m)"

lemma cs_inv: "component_steps Q s s' \<Longrightarrow> pool_inv (up_pool s) \<Longrightarrow> pool_inv (up_pool s')"
proof -
  have "(pool_step Q)\<^sup>*\<^sup>* p q \<Longrightarrow> pool_inv p \<Longrightarrow> pool_inv q" for p q
    by (induction rule: rtranclp_induct) (auto intro: pool_step_inv)
  then show "component_steps Q s s' \<Longrightarrow> pool_inv (up_pool s) \<Longrightarrow> pool_inv (up_pool s')"
    by (auto simp: component_steps_def)
qed

lemma cs_finish_update:
  assumes "iterates_keys env" "pool_inv (up_pool s)"
  shows "component_steps Q s (finish_update al env now u s)"
proof -
  let ?s = "s\<lparr>up_pool := forget_mined_operations_before_block (up_pool s)
                (cu_earliest_remembered_block_number u)\<rparr>"
  let ?t = "drop_old_throttled env u ?s"
  have "component_steps Q s ?s" by (intro cs_pool pool_step.forget)
  then have 1: "component_steps Q s ?t" by (rule cs_trans) (rule cs_drop_old_throttled)
  have "finite (dom (pi_by_hash (up_pool ?t)))"
    using cs_inv [OF 1 assms(2)] by (simp add: pool_inv_def pool_inv_except_def)
  then have "distinct (env_iter_ops env (pi_by_hash (up_pool ?t)))"
    "set (env_iter_ops env (pi_by_hash (up_pool ?t))) = dom (pi_by_hash (up_pool ?t))"
    using assms(1) by (simp_all add: iterates_keys_def)
  then have "component_steps Q ?t (?t\<lparr>up_pool := do_maintenance al (up_pool ?t)
      (env_iter_ops env (pi_by_hash (up_pool ?t))) now (cu_latest_block_number u)
      (cu_latest_block_timestamp u) (load_da_block_data env u s) (up_uo_fees ?t) (up_base_fee ?t)\<rparr>)"
    by (intro cs_pool pool_step.maintain)
  from cs_trans [OF 1 this] show ?thesis unfolding finish_update_def Let_def .
qed

text \<open>The state after the loop over the mined operations.\<close>

definition mined_state ::
  "'l balances_ops \<Rightarrow> environment \<Rightarrow> chain_update \<Rightarrow> 'l uo_pool \<Rightarrow> 'l uo_pool" where
  "mined_state ops env u s =
     fold (apply_mined ops u)
       (filter (\<lambda>m. mo_entry_point m = pcf_entry_point (up_config s)) (fst (deduped_ops u)))
       (up_remove_out_of_date_preconfirmed_uos env
         (up_update_preconfirmed_uos s (cu_preconfirmed_txns u) (cu_preconfirmed_block_number u))
         (cu_latest_block_number u))"

lemma cs_mined_state: "component_steps Q s (mined_state ops env u s)"
  unfolding mined_state_def
  by (rule cs_trans, rule cs_trans, rule cs_update_preconfirmed, rule cs_outdated, rule cs_fold,
      rule cs_apply_mined)

lemma on_chain_update_confirmed:
  assumes "on_chain_update al ops env now s u = Some s'" "cu_update_type u = Confirmed"
  obtains s4 s5 where
    "apply_all_unmined ops env
       (filter (\<lambda>m. mo_entry_point m = pcf_entry_point (up_config s)) (snd (deduped_ops u)))
       (mined_state ops env u s) = Some s4"
    "apply_balance_updates ops env u s4 = Some s5"
    "s' = finish_update al env now u (update_fees env u s5)"
    "component_steps Q s (update_fees env u s5)"
proof -
  let ?s2 = "up_remove_out_of_date_preconfirmed_uos env
      (up_update_preconfirmed_uos s (cu_preconfirmed_txns u) (cu_preconfirmed_block_number u))
      (cu_latest_block_number u)"
  have "component_steps Q s ?s2" by (rule cs_trans [OF cs_update_preconfirmed cs_outdated])
  then have c: "up_config ?s2 = up_config s" by (simp add: component_steps_def)
  obtain s4 s5 where s4: "apply_all_unmined ops env
      (filter (\<lambda>m. mo_entry_point m = pcf_entry_point (up_config s)) (snd (deduped_ops u)))
      (mined_state ops env u s) = Some s4"
    and s5: "apply_balance_updates ops env u s4 = Some s5"
    and s': "s' = finish_update al env now u (update_fees env u s5)"
    using assms c
    by (auto simp: on_chain_update_def mined_state_def Let_def case_prod_beta split: option.splits)
  have "component_steps Q s s4" by (rule cs_trans [OF cs_mined_state cs_apply_all_unmined [OF s4]])
  then have "component_steps Q s s5" by (rule cs_trans) (rule cs_balance_updates [OF s5])
  then have "component_steps Q s (update_fees env u s5)" by (rule cs_trans) (rule cs_update_fees)
  with s4 s5 s' show thesis by (rule that)
qed

lemma cs_on_chain_update:
  assumes "on_chain_update al ops env now s u = Some s'" "iterates_keys env" "pool_inv (up_pool s)"
  shows "component_steps Q s s'"
proof (cases "cu_update_type u")
  case Preconfirmed
  then show ?thesis using assms(1) cs_update_preconfirmed by (auto simp: on_chain_update_def)
next
  case Confirmed
  obtain s5 where 1: "component_steps Q s (update_fees env u s5)"
    "s' = finish_update al env now u (update_fees env u s5)"
    by (rule on_chain_update_confirmed [OF assms(1) Confirmed])
  show ?thesis
    unfolding 1(2)
    by (rule cs_trans [OF 1(1) cs_finish_update [OF assms(2) cs_inv [OF 1(1) assms(3)]]])
qed

section \<open>Reachable mempools\<close>

text \<open>
  One rule per public method that changes the state, in any environment.  \<open>C\<close> restricts the calls of
  \<open>add_operation\<close>.
\<close>

inductive mempool_step ::
  "(environment \<Rightarrow> user_operation_variant \<Rightarrow> bool) \<Rightarrow> 'l balances_ops \<Rightarrow> 'l uo_pool \<Rightarrow> 'l uo_pool \<Rightarrow> bool"
  for C :: "environment \<Rightarrow> user_operation_variant \<Rightarrow> bool" and ops :: "'l balances_ops" where
  add: "up_add_operation al ops env now s origin op perms = Some (s', r) \<Longrightarrow>
        unat (pi_submission_id (up_pool s)) + 1 < 2 ^ 62 \<Longrightarrow> C env op \<Longrightarrow> mempool_step C ops s s'"
| update: "on_chain_update al ops env now s u = Some s' \<Longrightarrow> iterates_keys env \<Longrightarrow>
        mempool_step C ops s s'"
| remove: "mempool_step C ops s (up_remove_operations ops s hashes)"
| remove_by_id: "mempool_step C ops s (fst (up_remove_op_by_id s uid))"
| update_entity: "up_update_entity env s eu = Some s' \<Longrightarrow> mempool_step C ops s s'"
| clear: "mempool_step C ops s (up_clear_state ops s m p r)"
| set_reputation: "mempool_step C ops s (up_set_reputation s a seen included)"
| set_tracking: "mempool_step C ops s (up_set_tracking s p r)"
| reset: "up_reset_confirmed_paymaster_balances ops env s = Some (s', r) \<Longrightarrow> mempool_step C ops s s'"
| decay: "mempool_step C ops s (s\<lparr>up_reputation := rep_update (up_reputation s)\<rparr>)"

inductive mempool_reachable ::
  "'l balances_ops \<Rightarrow> type_sizes \<Rightarrow> pool_config \<Rightarrow> da_gas_oracle option \<Rightarrow> 'l uo_pool \<Rightarrow> bool"
  for ops :: "'l balances_ops" and sizes config da where
  new: "rep_reachable r \<Longrightarrow> mempool_reachable ops sizes config da (uo_pool_new sizes config da t r mc)"
| step: "mempool_reachable ops sizes config da s \<Longrightarrow> mempool_step (\<lambda>_ _. True) ops s s' \<Longrightarrow>
        mempool_reachable ops sizes config da s'"

lemma mempool_step_components:
  assumes "mempool_step C ops s s'" "pool_inv (up_pool s)" "validates C Q s"
  shows "component_steps Q s s'"
  using assms
proof (induction rule: mempool_step.induct)
  case (clear s m p r)
  have "(pool_step Q)\<^sup>*\<^sup>* (up_pool s) (pool_clear (up_pool s))"
    "rep_step\<^sup>*\<^sup>* (up_reputation s) (rep_clear (up_reputation s))"
    by (intro r_into_rtranclp pool_step.clear rep_step.intros)+
  then show ?case by (simp add: up_clear_state_def component_steps_def Let_def)
next
  case (set_tracking s p r)
  have "component_steps Q s (s\<lparr>up_reputation := set_tracking (up_reputation s) r\<rparr>)"
    by (intro cs_rep rep_step.intros)
  then show ?case by (simp add: up_set_tracking_def component_steps_def)
next
  case (set_reputation s a seen included)
  show ?case unfolding up_set_reputation_def by (intro cs_rep rep_step.intros)
next
  case (decay s)
  show ?case by (intro cs_rep rep_step.intros)
next
  case (reset env s s' r)
  then show ?case by (auto simp: up_reset_confirmed_paymaster_balances_def)
qed (auto intro: cs_add_operation cs_on_chain_update cs_remove_operations cs_remove_op_by_id
    cs_update_entity)

lemma mempool_reachable_components:
  assumes "mempool_reachable ops sizes config da s"
  shows "pool_reachable (pool_inner_config_from sizes config) da (up_pool s) \<and>
    rep_reachable (up_reputation s) \<and> up_config s = config"
  using assms
proof (induction rule: mempool_reachable.induct)
  case (new r t mc)
  then show ?case by (simp add: uo_pool_new_def pool_reachable.new)
next
  case (step s s')
  then have "component_steps (\<lambda>_. True) s s'"
    using mempool_step_components [OF step.hyps(2) _ validates_all] pool_reachable_inv by blast
  moreover have "(pool_step (\<lambda>_. True))\<^sup>*\<^sup>* p q \<Longrightarrow> pool_reachable c da p \<Longrightarrow> pool_reachable c da q" for c p q
    by (induction rule: rtranclp_induct) (auto intro: pool_reachable.step)
  moreover have "rep_step\<^sup>*\<^sup>* x y \<Longrightarrow> rep_reachable x \<Longrightarrow> rep_reachable y" for x y
    by (induction rule: rtranclp_induct) (auto intro: rep_reachable.intros(2))
  ultimately show ?case using step.IH by (auto simp: component_steps_def)
qed

end
