(* ===== verification/Uo_Pool_Samples.thy ===== *)
theory Uo_Pool_Samples
  imports Uo_Pool_Steps Paymaster_Theorems
begin

text \<open>
  A concrete environment and concrete mempools, at which the theorems about the mempool are applied.
\<close>

definition sample_pool_config :: pool_config where
  "sample_pool_config =
     \<lparr>pcf_chain_spec = chain_spec_default, pcf_entry_point = 99, pcf_entry_point_version = EP_V0_6,
      pcf_same_sender_mempool_count = 4, pcf_min_replacement_fee_increase_percentage = 10,
      pcf_max_size_of_pool_bytes = 300, pcf_blocklist = None, pcf_allowlist = None,
      pcf_throttled_entity_mempool_count = 1, pcf_throttled_entity_live_blocks = 5,
      pcf_paymaster_tracking_enabled = True, pcf_paymaster_cache_length = 2,
      pcf_reputation_tracking_enabled = True, pcf_da_gas_tracking_enabled = False,
      pcf_drop_min_num_blocks = 10,
      pcf_execution_gas_limit_efficiency_reject_threshold = Fin 0,
      pcf_verification_gas_limit_efficiency_reject_threshold = Fin 0,
      pcf_max_time_in_pool = None, pcf_max_expected_storage_slots = 10\<rparr>"

definition sample_sizes :: type_sizes where
  "sample_sizes = \<lparr>size_of_PoolOperation = 50, size_of_OrderedPoolOperation = 10\<rparr>"

text \<open>A simulation that finds the sender and the paymaster, both without stake.\<close>

definition sample_sim :: "user_operation_variant \<Rightarrow> simulation_result" where
  "sample_sim op =
     \<lparr>sr_mempools = [], sr_pre_op_gas = 1000,
      sr_valid_time_range = \<lparr>valid_after = 0, valid_until = 500\<rparr>, sr_code_hash = 0,
      sr_account_is_staked = False, sr_accessed_addresses = [], sr_associated_addresses = [],
      sr_expected_storage = es_insert [] (uo_sender op) 0 1, sr_requires_post_op = False,
      sr_entity_infos =
        \<lparr>eis_factory = None,
         eis_sender = \<lparr>ei_entity = entity_account (uo_sender op), ei_is_staked = False\<rparr>,
         eis_paymaster =
           map_option (\<lambda>a. \<lparr>ei_entity = entity_paymaster a, ei_is_staked = False\<rparr>) (uo_paymaster op),
         eis_aggregator = None\<rparr>\<rparr>"

definition sample_env :: environment where
  "sample_env =
     \<lparr>env_latest_block = Inr (1, 10),
      env_precheck = (\<lambda>_ _ _. Inr \<lparr>pcr_da_gas_data = DAEmpty,
        pcr_required_pre_verification_gas = 0\<rparr>),
      env_simulate_validation = (\<lambda>op _ _ _. Inr (sample_sim op)),
      env_simulate_handle_op = (\<lambda>_ _. Inl ''not used''),
      env_gas_check_first = False, env_uo_version = EP_V0_6, env_entry_point = sample_ep,
      env_required_bundle_fees = (\<lambda>_. Inr (\<lparr>gf_max_fee_per_gas = 1,
        gf_max_priority_fee_per_gas = 1\<rparr>, 0)),
      env_required_op_fees = (\<lambda>f. f), env_da_block_data = (\<lambda>_. Inr DABlockEmpty),
      env_display_revert = (\<lambda>_. ''''),
      env_iter_ops = (\<lambda>m. sorted_list_of_set (dom m)),
      env_iter_blocks = (\<lambda>m. sorted_list_of_set (dom m)),
      env_iter_hashes = sorted_list_of_set\<rparr>"

lemma sample_env_iterates: "iterates_keys sample_env"
  by (simp add: iterates_keys_def sample_env_def)

type_synonym list_mempool = "(address, paymaster_balance) lru_list uo_pool"

definition mempool0 :: list_mempool where
  "mempool0 = uo_pool_new sample_sizes sample_pool_config None tracker0
     (address_reputation_new (reputation_params_new True) {} {})
     \<lparr>mpc_entry_point = 99, mpc_allowlist = [], mpc_filters = []\<rparr>"

abbreviation sample_call ::
  "list_mempool \<Rightarrow> u256 \<Rightarrow> b256 \<Rightarrow> u128 \<Rightarrow> (list_mempool \<times> (mempool_error + b256)) option" where
  "sample_call s nonce hash fee \<equiv>
     up_add_operation null_alloy ll_ops sample_env 0 s Local
       (po_uo (sponsored (sample_po 1 nonce hash fee))) permissions_default"

definition mempool1 :: list_mempool where
  "mempool1 = fst (the (sample_call mempool0 0 7 100))"

lemma sponsored_more_simps [simp]:
  "uo_hash (po_uo (sponsored (sample_po s n h f))) = h"
  "uo_sender (po_uo (sponsored (sample_po s n h f))) = s"
  "uo_aggregator (po_uo (sponsored (sample_po s n h f))) = None"
  "uo_authorization_tuple (po_uo (sponsored (sample_po s n h f))) = None"
  "uo_max_fee_per_gas (po_uo (sponsored (sample_po s n h f))) = f"
  "uo_max_priority_fee_per_gas (po_uo (sponsored (sample_po s n h f))) = f"
  "uo_gas_price (po_uo (sponsored (sample_po s n h f))) 0 = f"
  "uo_entities (po_uo (sponsored (sample_po s n h f))) = [entity_account s, entity_paymaster 5]"
  "uo_heap_size (po_uo (sponsored (sample_po s n h f))) = 23"
  "version_of (po_uo (sponsored (sample_po s n h f))) = EP_V0_6"
  by (simp_all add: sponsored_def sample_po_def sample_uo_def uo6_entities_def uo6_paymaster_def
      uo_gas_price_def uo6_factory_def get_address_from_field_def uo6_heap_size_def byte_len_def
      entity_account_def entity_paymaster_def entity_new_def entity_type_iter_def map_filter_simps)

text \<open>What validation makes of a sample operation.\<close>

definition sample_valid :: "u256 \<Rightarrow> b256 \<Rightarrow> u128 \<Rightarrow> pool_operation" where
  "sample_valid nonce hash fee =
     \<lparr>po_uo = po_uo (sponsored (sample_po 1 nonce hash fee)), po_entry_point = 99,
      po_aggregator = None, po_valid_time_range = \<lparr>valid_after = 0, valid_until = 500\<rparr>,
      po_expected_code_hash = 0, po_sim_block_hash = 1, po_sim_block_number = 10,
      po_account_is_staked = False,
      po_entity_infos = sr_entity_infos (sample_sim (po_uo (sponsored (sample_po 1 nonce hash fee)))),
      po_da_gas_data = DAEmpty, po_filter_id = None, po_perms = permissions_default\<rparr>"

lemma sample_valid_simps [simp]:
  "po_uo (sample_valid n h f) = po_uo (sponsored (sample_po 1 n h f))"
  "po_entities (sample_valid n h f) = [entity_account 1, entity_paymaster 5]"
  "unstaked_entities (sample_valid n h f) = [entity_account 1, entity_paymaster 5]"
  "po_sim_block_number (sample_valid n h f) = 10"
  "po_account_is_staked (sample_valid n h f) = False"
  "po_perms (sample_valid n h f) = permissions_default"
  "sender_address (po_entity_infos (sample_valid n h f)) = 1"
  "po_mem_size sz (sample_valid n h f) = size_of_PoolOperation sz + 23"
  by (simp_all add: sample_valid_def sample_sim_def po_entities_def unstaked_entities_def
      entity_infos_entities_def entity_type_iter_def map_filter_simps entity_account_def
      entity_paymaster_def entity_new_def po_mem_size_def sender_address_def)

lemma validate_sample:
  assumes "up_config s = sample_pool_config" "mpc_filters (up_mempool_config s) = []"
  shows "validate_operation sample_env s (po_uo (sponsored (sample_po 1 n h f))) permissions_default
    1 10 = Inr (sample_valid n h f, 0)"
  using assms
  by (simp add: validate_operation_def sample_env_def simulate_and_check_def sample_sim_def
      check_execution_gas_limit_efficiency_def sample_pool_config_def f64_zero_def num_slots_def
      es_insert_def btm_get_or_def check_associated_storage_def sample_valid_def match_filter_def
      check_verification_gas_limit_efficiency_def Let_def)

lemma unique_pair: "x \<noteq> y \<Longrightarrow> unique [x, y] = [x, y]"
  by (simp add: unique_def)

definition sample_summary :: entity_summary where
  "sample_summary =
     \<lparr>esum_sender = \<lparr>es_address = 1, es_reputation = ER_Ok\<rparr>, esum_factory = None,
      esum_paymaster = Some \<lparr>es_address = 5, es_reputation = ER_Ok\<rparr>, esum_aggregator = None\<rparr>"

lemma check_reputation_sample:
  assumes "rep_status (up_reputation s) 1 = Ok" "rep_status (up_reputation s) 5 = Ok"
  shows "check_reputation s [entity_account 1, entity_paymaster 5] entity_summary_default False =
    Inr (sample_summary, False)"
  using assms
  by (simp add: entity_summary_default_def sample_summary_def set_status_def entity_account_def
      entity_paymaster_def entity_new_def Let_def)

lemma sample_env_simps [simp]:
  "env_latest_block sample_env = Inr (1, 10)" "env_entry_point sample_env = sample_ep"
  "env_uo_version sample_env = EP_V0_6"
  by (simp_all add: sample_env_def)

text \<open>The tracker after the check of the first operation, and after charging it.\<close>

definition looked_up :: "(address, paymaster_balance) lru_list paymaster_tracker_inner" where
  "looked_up = tracker0\<lparr>pt_paymaster_balances :=
     \<lparr>ll_max_length = 2, ll_entries = [(5, \<lparr>pb_pending = 0, pb_confirmed = 1000000\<rparr>)]\<rparr>\<rparr>"

definition charged :: "(address, paymaster_balance) lru_list paymaster_tracker_inner" where
  "charged = fst (add_or_update_balance ll_ops sample_ep looked_up (sample_valid 0 7 100))"

lemma check_tracker0:
  "check_operation_cost ll_ops sample_ep tracker0 (po_uo (sponsored (sample_po 1 0 7 100))) =
     (looked_up, Inr ())"
  by (simp add: check_operation_cost_def looked_up_def tracker_eval inner_check_operation_cost_def)

lemma charge_looked_up:
  "add_or_update_balance ll_ops sample_ep looked_up (sample_valid 0 7 100) = (charged, Inr ())"
  by (simp add: charged_def looked_up_def tracker_eval tracked_metadata_def balance_metadata_def
      pending_balance_def)

lemma charged_simps [simp]:
  "pt_user_op_fees charged =
     [\<lparr>id_sender = 1, id_nonce = 0\<rparr> \<mapsto> \<lparr>uof_paymaster = 5, uof_max_op_cost = 710000\<rparr>]"
  "pt_paymaster_balances charged = \<lparr>ll_max_length = 2,
     ll_entries = [(5, \<lparr>pb_pending = 710000, pb_confirmed = 1000000\<rparr>)]\<rparr>"
  "pt_tracker_enabled charged"
  by (simp_all add: charged_def looked_up_def tracker_eval tracked_metadata_def balance_metadata_def
      pending_balance_def)

text \<open>The pool with the first operation.\<close>

definition sponsored_pool :: pool_inner where
  "sponsored_pool = sample_add (up_pool mempool0) (sample_valid 0 7 100)"

lemmas mempool_pool_eval = mempool0_def uo_pool_new_def pool_inner_config_from_def
  sample_pool_config_def sample_sizes_def pool_add_operation_prepared prepared_def pool_new_def
  add_operation_internal_def check_replacement_def insert_operation_def enforce_size_def
  enforce_size_loop_done size_gt_def size_add_def size_sub_def oo_mem_size_def oo_eligible_def
  oo_cells_new_def oo_cmp_def oo_gas_price_def word_cmp_def Let_def

lemma add_sponsored:
  "pool_add_operation (up_pool mempool0) (sample_valid 0 7 100) 0 0 0 = Some (sponsored_pool, Inr 7)"
  by (simp add: sponsored_pool_def sample_add_def mempool_pool_eval)

lemma sponsored_pool_simps [simp]:
  "pi_config sponsored_pool = pool_inner_config_from sample_sizes sample_pool_config"
  "pi_by_hash sponsored_pool = [7 \<mapsto> sample_handle (sample_valid 0 7 100) 0 0]"
  "pi_by_id sponsored_pool =
     [\<lparr>id_sender = 1, id_nonce = 0\<rparr> \<mapsto> sample_handle (sample_valid 0 7 100) 0 0]"
  "pi_best sponsored_pool = [sample_handle (sample_valid 0 7 100) 0 0]"
  "pi_submission_id sponsored_pool = 1" "pi_next_loc sponsored_pool = 1"
  "pi_pool_size sponsored_pool = 83" "pi_da_gas_oracle sponsored_pool = None"
  "pi_store sponsored_pool 0 = oo_cells_new (sample_valid 0 7 100) True 0 0 0"
  "pi_count_by_address sponsored_pool =
     [1 \<mapsto> entity_counter_default\<lparr>ec_sender := 1\<rparr>, 5 \<mapsto> entity_counter_default\<lparr>ec_paymaster := 1\<rparr>]"
  by (simp_all add: sponsored_pool_def sample_add_def mempool_pool_eval sample_handle_def
      increment_address_count_def entity_counter_default_def saturating_add_def
      entity_account_def entity_paymaster_def entity_new_def)

section \<open>The calls\<close>

definition seen_once :: address_reputation where
  "seen_once = add_seen (add_seen (up_reputation mempool0) 1) 5"

lemmas reputation_eval = rep_status_def add_seen_def change_count_def address_count_default_def
  mempool0_def uo_pool_new_def address_reputation_new_def with_allowlist_def with_blocklist_def
  address_reputation_inner_new_def reputation_params_new_def reputation_params_default_def
  get_ops_allowed_def

lemma sample_status [simp]:
  "rep_status (up_reputation mempool0) a = Ok"
  "rep_status (add_seen (up_reputation mempool0) 1) a = Ok"
  "rep_status seen_once a = Ok"
  by (simp_all add: seen_once_def reputation_eval)

lemma sample_allowed [simp]:
  "get_ops_allowed (up_reputation mempool0) 5 = 10" "get_ops_allowed seen_once 5 = 10"
  by (simp_all add: seen_once_def reputation_eval)

lemma mempool0_simps [simp]:
  "up_config mempool0 = sample_pool_config" "up_paymaster mempool0 = tracker0"
  "up_mempool_config mempool0 = \<lparr>mpc_entry_point = 99, mpc_allowlist = [], mpc_filters = []\<rparr>"
  "up_base_fee mempool0 = 0" "up_throttled_ops mempool0 = {}" "up_block_number mempool0 = 0"
  "pi_by_hash (up_pool mempool0) = Map.empty" "pi_by_id (up_pool mempool0) = Map.empty"
  "pi_count_by_address (up_pool mempool0) = Map.empty" "pi_submission_id (up_pool mempool0) = 0"
  by (simp_all add: mempool0_def uo_pool_new_def pool_new_def)

lemma unique_sample [simp]: "unique [entity_account 1, entity_paymaster 5] =
    [entity_account 1, entity_paymaster 5]"
  by (rule unique_pair) (simp add: entity_account_def entity_paymaster_def entity_new_def)

lemma sample_entity_simps [simp]:
  "ent_address (entity_account a) = a" "ent_address (entity_paymaster a) = a"
  "ent_kind (entity_account a) = Account" "ent_kind (entity_paymaster a) = Paymaster"
  by (simp_all add: entity_account_def entity_paymaster_def entity_new_def)

lemma run_mempool0:
  "sample_call mempool0 0 7 100 =
     Some (finish_add sample_env Local sample_summary None (sample_valid 0 7 100)
       (mempool0\<lparr>up_paymaster := charged, up_pool := sponsored_pool\<rparr>), Inr 7)"
proof -
  let ?s = "mempool0\<lparr>up_paymaster := looked_up\<rparr>"
  let ?s' = "mempool0\<lparr>up_paymaster := charged, up_pool := sponsored_pool\<rparr>"
  have "sample_call mempool0 0 7 100 = Some (case (Inr 7 :: mempool_error + b256) of
      Inl _ \<Rightarrow> ?s'
    | Inr _ \<Rightarrow> finish_add sample_env Local sample_summary None (sample_valid 0 7 100) ?s', Inr 7)"
  proof (rule up_add_operation_run)
    show "initial_checks null_alloy (up_pool mempool0) (po_uo (sponsored (sample_po 1 0 7 100))) =
        Inr None"
      by (simp add: initial_checks_def check_multiple_roles_violation_def check_eip7702_def
          check_replacement_def)
    show "validate_operation sample_env ?s (po_uo (sponsored (sample_po 1 0 7 100)))
        permissions_default 1 10 = Inr (sample_valid 0 7 100, 0)"
      by (rule validate_sample) simp_all
    show "store_operation ll_ops sample_env 0 False (sample_valid 0 7 100) 0 ?s = Some (?s', Inr 7)"
      by (simp add: store_operation_def add_sponsored charge_looked_up Let_def)
    show "check_counts ?s None (sample_valid 0 7 100) = Inr ()"
      by (simp add: check_counts_def address_count_def sample_pool_config_def
          permissions_default_def)
  qed (simp_all add: check_reputation_sample check_tracker0 apply_aggregator_def
      del: check_reputation.simps)
  then show ?thesis by simp
qed

lemma add_mempool0: "sample_call mempool0 0 7 100 = Some (mempool1, Inr 7)"
  by (simp add: mempool1_def run_mempool0)

lemma mempool1_eq:
  "mempool1 = mempool0\<lparr>up_paymaster := charged, up_reputation := seen_once,
     up_pool := sponsored_pool\<lparr>pi_events := pi_events sponsored_pool @
       [(99, ReceivedOp 7 (po_uo (sponsored (sample_po 1 0 7 100))) 10 Local 0 500 sample_summary)]\<rparr>\<rparr>"
  by (simp add: mempool1_def run_mempool0 finish_add_def count_seen_def up_emit_def
      seen_once_def [symmetric] sample_pool_config_def Let_def)
    (simp add: sample_valid_def)

lemma mempool1_simps [simp]:
  "up_config mempool1 = sample_pool_config" "up_paymaster mempool1 = charged"
  "up_mempool_config mempool1 = \<lparr>mpc_entry_point = 99, mpc_allowlist = [], mpc_filters = []\<rparr>"
  "up_base_fee mempool1 = 0" "up_throttled_ops mempool1 = {}" "up_block_number mempool1 = 0"
  "up_reputation mempool1 = seen_once"
  "pi_by_hash (up_pool mempool1) = [7 \<mapsto> sample_handle (sample_valid 0 7 100) 0 0]"
  "pi_submission_id (up_pool mempool1) = 1"
  by (simp_all add: mempool1_eq)

text \<open>The pool with the operation that replaces the first one.\<close>

definition replaced_pool :: pool_inner where
  "replaced_pool = sample_add (up_pool mempool1) (sample_valid 0 8 110)"

lemmas replaced_eval = replaced_pool_def sample_add_def mempool_pool_eval mempool1_eq
  sample_handle_def get_min_replacement_fees_def increase_by_percent_def
  remove_operation_by_hash_def remove_operation_internal_def

lemma add_replaced:
  "pool_add_operation (up_pool mempool1) (sample_valid 0 8 110) 0 0 0 = Some (replaced_pool, Inr 8)"
  by (simp add: replaced_eval)

lemma replaced_pool_by_hash:
  "pi_by_hash replaced_pool = [8 \<mapsto> sample_handle (sample_valid 0 8 110) 1 1]"
  by (simp add: replaced_eval)

lemma check_charged:
  "check_operation_cost ll_ops sample_ep charged (po_uo (sponsored (sample_po 1 0 8 110))) =
     (charged, Inr ())"
  by (simp add: check_operation_cost_def lookup_paymaster_balance_def paymaster_exists_def
      tracked_metadata_def balance_metadata_def ll_peek_def pending_balance_def saturating_sub_def
      saturating_add_def inner_check_operation_cost_def)

lemma charge_refused:
  "add_or_update_balance ll_ops sample_ep charged (sample_valid 0 8 110) =
     (charged, Inl (PaymasterBalanceTooLow 781000 290000))"
  by (simp add: add_or_update_balance_def lookup_paymaster_balance_def paymaster_exists_def
      tracked_metadata_def balance_metadata_def ll_peek_def pending_balance_def saturating_sub_def
      inner_add_or_update_balance_def Let_def)

lemma initial_checks_mempool1:
  "initial_checks null_alloy (up_pool mempool1) (po_uo (sponsored (sample_po 1 0 8 110))) =
     Inr (Some (sample_valid 0 7 100))"
  by (simp add: initial_checks_def check_multiple_roles_violation_def check_eip7702_def
      check_replacement_def mempool1_eq includes_non_sender_def entity_counter_default_def
      get_min_replacement_fees_def increase_by_percent_def sample_handle_def
      get_operation_by_hash_def pool_inner_config_from_def sample_pool_config_def)

lemma check_counts_mempool1:
  "check_counts (mempool1\<lparr>up_paymaster := charged\<rparr>) (Some (sample_valid 0 7 100))
     (sample_valid 0 8 110) = Inr ()"
  by (simp add: check_counts_def address_count_def mempool1_eq ec_total_def
      entity_counter_default_def word_le_nat_alt)

lemma mempool0_reachable:
  "mempool_reachable ll_ops sample_sizes sample_pool_config None mempool0"
  unfolding mempool0_def
  by (rule mempool_reachable.new, rule rep_reachable.intros(1) [of _ True]) simp

lemma mempool1_reachable:
  "mempool_reachable ll_ops sample_sizes sample_pool_config None mempool1"
  by (rule mempool_reachable.step [OF mempool0_reachable mempool_step.add [OF add_mempool0]]) simp_all

end
