(* ===== verification/Uo_Pool_Theorems.thy ===== *)
theory Uo_Pool_Theorems
  imports Uo_Pool_Samples
begin

text \<open>
  The theorems about the mempool: what an accepted operation went through, what a rejected one may
  leave behind, and what an update of the chain does.
\<close>

section \<open>Helper lemmas\<close>

declare forget_mined_operations_before_block.simps [simp del]

lemma check_reputation_not_banned:
  "check_reputation s es summary throttled = Inr r \<Longrightarrow> e \<in> set es \<Longrightarrow>
     rep_status (up_reputation s) (ent_address e) \<noteq> Banned \<and>
     (rep_status (up_reputation s) (ent_address e) = Throttled \<longrightarrow>
        address_count (up_pool s) (ent_address e) < pcf_throttled_entity_mempool_count (up_config s))"
  by (induction s es summary throttled rule: check_reputation.induct)
    (auto simp: Let_def not_le split: reputation_status.splits if_splits)

lemma validate_operation_Inr:
  assumes "validate_operation env s uo perms block_hash block_number = Inr (pool_op, pvg)"
  obtains ret sim where "env_precheck env uo perms block_hash = Inr ret"
    "env_simulate_validation env uo (perm_trusted perms) block_hash None = Inr sim"
    "num_slots (sr_expected_storage sim) \<le> pcf_max_expected_storage_slots (up_config s)"
    "po_uo pool_op = uo" "po_account_is_staked pool_op = sr_account_is_staked sim"
    "po_entity_infos pool_op = sr_entity_infos sim" "po_perms pool_op = perms"
    "po_valid_time_range pool_op = sr_valid_time_range sim"
  using assms
  by (auto simp: validate_operation_def simulate_and_check_def Let_def not_less
      split: sum.splits if_splits)

lemma check_counts_sender:
  assumes "check_counts s None pool_op = Inr ()" "\<not> po_account_is_staked pool_op"
  shows "address_count (up_pool s) (uo_sender (po_uo pool_op)) <
    (case perm_max_allowed_in_pool_for_sender (po_perms pool_op) of
       Some n \<Rightarrow> n | None \<Rightarrow> pcf_same_sender_mempool_count (up_config s))"
  using assms by (auto simp: check_counts_def Let_def not_le split: if_splits)

lemma store_operation_Inr:
  assumes "store_operation ops env now throttled pool_op pvg s = Some (s1, Inr hash)"
  obtains p where
    "pool_add_operation (up_pool s) pool_op (up_base_fee s) pvg now = Some (p, Inr hash)"
    "up_pool s1 = p"
  using assms
  by (auto simp: store_operation_def Let_def split: option.splits sum.splits prod.splits)

text \<open>What the last part of a chain update does to the cache of mined operations.\<close>

lemma remove_keeps_mined [simp]:
  "pi_mined_hashes_with_block_numbers (fst (remove_operation_internal p h None)) =
     pi_mined_hashes_with_block_numbers p"
  by (simp add: remove_operation_internal_def Let_def split: option.splits)

lemma maintain_op_keeps_mined:
  "pi_mined_hashes_with_block_numbers (fst (maintain_op al now ts d fees base_fee h st)) =
     pi_mined_hashes_with_block_numbers (fst st)"
  by (cases st) (simp add: maintain_op_def maintain_best_def Let_def split: option.splits)

lemma do_maintenance_keeps_mined:
  "pi_mined_hashes_with_block_numbers (do_maintenance al p order now n ts d fees base_fee) =
     pi_mined_hashes_with_block_numbers p"
proof -
  have 1: "pi_mined_hashes_with_block_numbers (fst (fold (maintain_op al now ts d fees base_fee) hs st)) =
      pi_mined_hashes_with_block_numbers (fst st)" for hs st
    by (induction hs arbitrary: st) (simp_all add: maintain_op_keeps_mined)
  have 2: "pi_mined_hashes_with_block_numbers (fold (\<lambda>h p. fst (remove_operation_by_hash p h)) hs p) =
      pi_mined_hashes_with_block_numbers p" for hs p
    by (induction hs arbitrary: p) (simp_all add: remove_operation_by_hash_def)
  have 3: "pi_mined_hashes_with_block_numbers (fold (\<lambda>e p. pool_emit p e) es p) =
      pi_mined_hashes_with_block_numbers p" for es p
    by (induction es arbitrary: p) (simp_all add: pool_emit_def)
  show ?thesis
    using 1 [of order "(p\<lparr>pi_best := []\<rparr>, [], [])"]
    by (simp add: do_maintenance_def 2 3 Let_def case_prod_beta)
qed

lemma drop_old_throttled_keeps:
  "pi_mined_hashes_with_block_numbers (up_pool (drop_old_throttled env u s)) =
     pi_mined_hashes_with_block_numbers (up_pool s) \<and>
   up_block_number (drop_old_throttled env u s) = up_block_number s \<and>
   up_throttled_ops (drop_old_throttled env u s) \<subseteq> up_throttled_ops s"
  unfolding drop_old_throttled_def
  by (rule fold_invariant [where Q = "\<lambda>_. True" and P = "\<lambda>t.
        pi_mined_hashes_with_block_numbers (up_pool t) = pi_mined_hashes_with_block_numbers (up_pool s)
        \<and> up_block_number t = up_block_number s \<and> up_throttled_ops t \<subseteq> up_throttled_ops s"])
    (auto simp: up_emit_def remove_operation_by_hash_def)

lemma not_expired:
  assumes "expired_at config now ts op = None"
  shows "ts \<le> valid_until (po_valid_time_range (oo_po op))"
    "perm_bundler_sponsorship (po_perms (oo_po op)) = Some b \<Longrightarrow> ts \<le> bs_valid_until b"
  using assms by (auto simp: expired_at_def not_less split: if_splits option.splits)

lemma finish_update_result:
  fixes al env now u s
  assumes "iterates_keys env" "pool_inv (up_pool s)"
  defines "s' \<equiv> finish_update al env now u s"
  shows "pool_inv (up_pool s')" "up_block_number s' = up_block_number s"
    "up_throttled_ops s' \<subseteq> up_throttled_ops s"
    "pi_by_hash (up_pool s') h = Some op \<Longrightarrow>
       \<exists>config. expired_at config now (cu_latest_block_timestamp u) op = None"
    "(bn, k) \<in> set (pi_mined_hashes_with_block_numbers (up_pool s')) \<Longrightarrow>
       cu_earliest_remembered_block_number u \<le> bn"
proof -
  let ?s = "s\<lparr>up_pool := forget_mined_operations_before_block (up_pool s)
                (cu_earliest_remembered_block_number u)\<rparr>"
  let ?t = "drop_old_throttled env u ?s"
  note F = forget_mined_result [OF assms(2), of "cu_earliest_remembered_block_number u"]
  show "pool_inv (up_pool s')"
    unfolding s'_def by (rule cs_inv [OF cs_finish_update [OF assms(1,2)] assms(2)])
  show "up_block_number s' = up_block_number s" "up_throttled_ops s' \<subseteq> up_throttled_ops s"
    using drop_old_throttled_keeps [of env u ?s] by (auto simp: s'_def finish_update_def Let_def)
  show "(bn, k) \<in> set (pi_mined_hashes_with_block_numbers (up_pool s')) \<Longrightarrow>
       cu_earliest_remembered_block_number u \<le> bn"
    using drop_old_throttled_keeps [of env u ?s] F(3)
    by (auto simp: s'_def finish_update_def Let_def do_maintenance_keeps_mined)
  have t: "pool_inv (up_pool ?t)"
    by (rule cs_inv [OF cs_drop_old_throttled]) (simp add: F(1))
  then have "finite (dom (pi_by_hash (up_pool ?t)))" by (simp add: pool_inv_def pool_inv_except_def)
  then have order: "distinct (env_iter_ops env (pi_by_hash (up_pool ?t)))"
    "set (env_iter_ops env (pi_by_hash (up_pool ?t))) = dom (pi_by_hash (up_pool ?t))"
    using assms(1) by (simp_all add: iterates_keys_def)
  show "pi_by_hash (up_pool s') h = Some op \<Longrightarrow>
       \<exists>config. expired_at config now (cu_latest_block_timestamp u) op = None"
    using do_maintenance_result(2) [OF t order]
    by (auto simp: s'_def finish_update_def Let_def split: option.splits if_splits)
qed

lemma throttled_mined_state:
  assumes "m \<in> set (fst (deduped_ops u))" "mo_entry_point m = pcf_entry_point (up_config s)"
  shows "mo_hash m \<notin> up_throttled_ops (mined_state ops env u s)"
proof -
  have 1: "up_throttled_ops (apply_mined ops u k t) = up_throttled_ops t - {mo_hash k}" for k t
    by (simp add: apply_mined_def Let_def case_prod_beta split: option.splits)
  have "up_throttled_ops (fold (apply_mined ops u) ks t) = up_throttled_ops t - mo_hash ` set ks" for ks t
    by (induction ks arbitrary: t) (auto simp: 1)
  then show ?thesis using assms by (simp add: mined_state_def)
qed

lemma throttled_later:
  "apply_all_unmined ops env ms s = Some s' \<Longrightarrow> up_throttled_ops s' = up_throttled_ops s"
  "apply_balance_updates ops env u s = Some s' \<Longrightarrow> up_throttled_ops s' = up_throttled_ops s"
  "up_throttled_ops (update_fees env u s) = up_throttled_ops s"
proof -
  have "apply_unmined ops env m t = Some t' \<Longrightarrow> up_throttled_ops t' = up_throttled_ops t" for m t t'
    by (auto simp: apply_unmined_def Let_def split: option.splits)
  then show "apply_all_unmined ops env ms s = Some s' \<Longrightarrow> up_throttled_ops s' = up_throttled_ops s"
    by (induction ops env ms s rule: apply_all_unmined.induct) (auto split: option.splits)
qed (auto simp: apply_balance_updates_def up_reset_confirmed_paymaster_balances_def update_fees_def
    Let_def split: if_splits sum.splits)

section \<open>Theorems\<close>

text \<open>
  C12: an operation the mempool accepts passed prechecks and simulation at the latest block, none of
  its entities was banned, a throttled entity had room, and an unstaked sender that replaces nothing
  had fewer operations in the pool than its limit.
\<close>

theorem accepted_was_checked:
  assumes "mempool_reachable ops sizes config da s"
    "unat (pi_submission_id (up_pool s)) + 1 < 2 ^ 62"
    "up_add_operation al ops env now s origin op perms = Some (s', Inr hash)"
  shows "\<exists>uo block_hash block_number ret sim.
    apply_aggregator al (pcf_chain_spec config) op = Inr uo \<and> hash = uo_hash uo \<and>
    env_latest_block env = Inr (block_hash, block_number) \<and>
    env_precheck env uo perms block_hash = Inr ret \<and>
    env_simulate_validation env uo (perm_trusted perms) block_hash None = Inr sim \<and>
    num_slots (sr_expected_storage sim) \<le> pcf_max_expected_storage_slots config \<and>
    (\<forall>e\<in>set (uo_entities op).
       rep_status (up_reputation s) (ent_address e) \<noteq> Banned \<and>
       (rep_status (up_reputation s) (ent_address e) = Throttled \<longrightarrow>
          address_count (up_pool s) (ent_address e) < pcf_throttled_entity_mempool_count config)) \<and>
    (sr_account_is_staked sim \<or> pi_by_id (up_pool s) (uo_id op) \<noteq> None \<or>
       address_count (up_pool s) (uo_sender uo) <
         (case perm_max_allowed_in_pool_for_sender perms of
            Some n \<Rightarrow> n | None \<Rightarrow> pcf_same_sender_mempool_count config))"
  using assms(3)
proof (cases rule: up_add_operation_cases)
  case (stored to_replace summary throttled bh bn t uo pool_op pvg s1 r1)
  let ?s = "s\<lparr>up_paymaster := t\<rparr>"
  note C = mempool_reachable_components [OF assms(1)]
  have inv: "pool_inv (up_pool s)" using C pool_reachable_inv by blast
  obtain ret sim where V: "env_precheck env uo perms bh = Inr ret"
    "env_simulate_validation env uo (perm_trusted perms) bh None = Inr sim"
    "num_slots (sr_expected_storage sim) \<le> pcf_max_expected_storage_slots (up_config ?s)"
    "po_uo pool_op = uo" "po_account_is_staked pool_op = sr_account_is_staked sim"
    "po_perms pool_op = perms"
    by (rule validate_operation_Inr [OF stored(6)])
  have "store_operation ops env now throttled pool_op pvg ?s = Some (s1, Inr hash)"
    using stored(8,10) by simp
  then obtain p where p: "pool_add_operation (up_pool ?s) pool_op (up_base_fee ?s) pvg now =
      Some (p, Inr hash)" by (rule store_operation_Inr)
  have h: "hash = uo_hash uo"
    by (rule add_operation_result [OF _ _ p]) (use inv assms(2) V(4) in auto)
  have none: "to_replace = None" if "pi_by_id (up_pool s) (uo_id op) = None"
    using stored(1) that by (auto simp: initial_checks_def check_replacement_def split: sum.splits if_splits)
  have count: "sr_account_is_staked sim \<or> pi_by_id (up_pool s) (uo_id op) \<noteq> None \<or>
       address_count (up_pool s) (uo_sender uo) <
         (case perm_max_allowed_in_pool_for_sender perms of
            Some n \<Rightarrow> n | None \<Rightarrow> pcf_same_sender_mempool_count config)"
  proof (cases "pi_by_id (up_pool s) (uo_id op)")
    case None
    then have "check_counts ?s None pool_op = Inr ()" using stored(7) none by simp
    then show ?thesis using check_counts_sender [of ?s pool_op] V C by (auto split: option.splits)
  qed simp
  show ?thesis
    by (intro exI [of _ uo] exI [of _ bh] exI [of _ bn] exI [of _ ret] exI [of _ sim] conjI ballI)
      (use stored(3,5) h V count C check_reputation_not_banned [OF stored(2)] in simp_all)
qed simp

theorem accepted_was_checked_witness:
  "\<exists>sim. env_simulate_validation sample_env (po_uo (sponsored (sample_po 1 0 7 100))) False 1 None =
     Inr sim \<and> num_slots (sr_expected_storage sim) \<le> 10"
  using accepted_was_checked [OF mempool0_reachable _ add_mempool0]
  by (simp add: apply_aggregator_def permissions_default_def) (auto simp: sample_pool_config_def)

text \<open>
  C31: an operation whose paymaster cannot be charged stays in the pool although the caller is told
  that it was rejected.  Let a submitted operation pass all checks up to the one of the counts, let
  the pool take it, and let the paymaster tracker then refuse to charge it with an error \<open>e\<close>.  Then
  \<open>add_operation\<close> returns \<open>e\<close>, and afterwards the pool holds the submitted operation under its hash
  and no longer holds the operation that had its sender and nonce before.
\<close>

theorem uncharged_operation_stored:
  assumes "mempool_reachable ops sizes config da s"
    "unat (pi_submission_id (up_pool s)) + 1 < 2 ^ 62"
    "initial_checks al (up_pool s) op = Inr to_replace"
    "check_reputation s (uo_entities op) entity_summary_default False = Inr (summary, throttled)"
    "env_latest_block env = Inr (block_hash, block_number)"
    "check_operation_cost ops (env_entry_point env) (up_paymaster s) op = (t, Inr ())"
    "apply_aggregator al (pcf_chain_spec (up_config s)) op = Inr uo"
    "version_of uo = env_uo_version env"
    "validate_operation env (s\<lparr>up_paymaster := t\<rparr>) uo perms block_hash block_number =
       Inr (pool_op, pvg)"
    "check_counts (s\<lparr>up_paymaster := t\<rparr>) to_replace pool_op = Inr ()"
    "pool_add_operation (up_pool s) pool_op (up_base_fee s) pvg now = Some (p, Inr hash)"
    "add_or_update_balance ops (env_entry_point env) t pool_op = (t', Inl e)"
  shows "\<exists>s'. up_add_operation al ops env now s origin op perms = Some (s', Inl e) \<and>
    po_uo pool_op = uo \<and> get_operation_by_hash (up_pool s') (uo_hash uo) = Some pool_op \<and>
    (\<forall>old. get_operation_by_id (up_pool s) (uo_id uo) = Some old \<longrightarrow>
       get_operation_by_hash (up_pool s') (uo_hash (po_uo old)) = None)"
proof -
  have inv: "pool_inv (up_pool s)"
    using mempool_reachable_components [OF assms(1)] pool_reachable_inv by blast
  have uo: "po_uo pool_op = uo" by (rule validate_operation_Inr [OF assms(9)])
  let ?s = "s\<lparr>up_pool := p, up_throttled_ops :=
      (if throttled then insert hash (up_throttled_ops s) else up_throttled_ops s),
      up_paymaster := t'\<rparr>"
  have "store_operation ops env now throttled pool_op pvg (s\<lparr>up_paymaster := t\<rparr>) =
      Some (?s, Inl e)"
    using assms(11,12) by (simp add: store_operation_def Let_def)
  from up_add_operation_run [OF assms(3-10) this]
  have run: "up_add_operation al ops env now s origin op perms = Some (?s, Inl e)" by simp
  obtain r handle removed where R: "oo_po handle = pool_op" "hash = uo_hash uo"
    "check_replacement (up_pool s) uo = Inr r" "hash \<notin> set removed"
    "pi_by_hash p = (\<lambda>h. if h \<in> set removed then None
        else ((pi_by_hash (replaced (up_pool s) (uo_id uo)))(hash \<mapsto> handle)) h)"
    by (rule add_operation_result [OF inv assms(2,11), unfolded uo])
  have "get_operation_by_hash p (uo_hash (po_uo old)) = None"
    if old: "get_operation_by_id (up_pool s) (uo_id uo) = Some old" for old
  proof -
    obtain x where x: "pi_by_id (up_pool s) (uo_id uo) = Some x" "oo_po x = old"
      using old by (auto simp: get_operation_by_id_def)
    note O = pool_inv_by_id [OF inv [unfolded pool_inv_def] x(1)]
    have "uo_hash (po_uo old) \<noteq> uo_hash uo" using check_replacement_Inr(1) [OF R(3)] O(2) x(2) by auto
    then show ?thesis
      using O x(2) R(2,5) by (simp add: get_operation_by_hash_def replaced_by_hash [OF inv])
  qed
  moreover have "get_operation_by_hash p (uo_hash uo) = Some pool_op"
    using R by (simp add: get_operation_by_hash_def)
  ultimately show ?thesis using run uo by simp
qed

theorem uncharged_operation_stored_witness:
  "\<exists>s'. sample_call mempool1 0 8 110 = Some (s', Inl (PaymasterBalanceTooLow 781000 290000)) \<and>
     get_operation_by_hash (up_pool s') 8 = Some (sample_valid 0 8 110) \<and>
     get_operation_by_hash (up_pool s') 7 = None"
proof -
  have old: "get_operation_by_id (up_pool mempool1)
      (uo_id (po_uo (sponsored (sample_po 1 0 8 110)))) = Some (sample_valid 0 7 100)"
    by (simp add: get_operation_by_id_def mempool1_eq sample_handle_def)
  have valid: "validate_operation sample_env (mempool1\<lparr>up_paymaster := charged\<rparr>)
      (po_uo (sponsored (sample_po 1 0 8 110))) permissions_default 1 10 =
        Inr (sample_valid 0 8 110, 0)"
    by (rule validate_sample) simp_all
  have "\<exists>s'. sample_call mempool1 0 8 110 = Some (s', Inl (PaymasterBalanceTooLow 781000 290000)) \<and>
      po_uo (sample_valid 0 8 110) = po_uo (sponsored (sample_po 1 0 8 110)) \<and>
      get_operation_by_hash (up_pool s') (uo_hash (po_uo (sponsored (sample_po 1 0 8 110)))) =
        Some (sample_valid 0 8 110) \<and>
      (\<forall>old. get_operation_by_id (up_pool mempool1)
          (uo_id (po_uo (sponsored (sample_po 1 0 8 110)))) = Some old \<longrightarrow>
         get_operation_by_hash (up_pool s') (uo_hash (po_uo old)) = None)"
    by (rule uncharged_operation_stored [where summary = sample_summary and throttled = False,
          OF mempool1_reachable _ initial_checks_mempool1 _ _ _ _ _ valid check_counts_mempool1])
      (simp_all add: check_reputation_sample check_charged apply_aggregator_def add_replaced
        charge_refused del: check_reputation.simps)
  then show ?thesis using old by auto
qed

text \<open>
  C30: after an update with a full block the mempool is at that block, no stored operation has
  expired at its timestamp, no mined operation is remembered from before the earliest remembered
  block, and no operation the update mined is still tracked as throttled.
\<close>

theorem confirmed_update_applied:
  assumes "mempool_reachable ops sizes config da s" "iterates_keys env"
    "cu_update_type u = Confirmed" "on_chain_update al ops env now s u = Some s'"
  shows "up_block_number s' = cu_latest_block_number u \<and>
    (\<forall>h op. pi_by_hash (up_pool s') h = Some op \<longrightarrow>
       cu_latest_block_timestamp u \<le> valid_until (po_valid_time_range (oo_po op))) \<and>
    (\<forall>h op bn. pi_mined_at_block_number_by_hash (up_pool s') h = Some (op, bn) \<longrightarrow>
       cu_earliest_remembered_block_number u \<le> bn) \<and>
    (\<forall>m\<in>set (fst (deduped_ops u)). mo_entry_point m = pcf_entry_point config \<longrightarrow>
       mo_hash m \<notin> up_throttled_ops s')"
proof -
  note C = mempool_reachable_components [OF assms(1)]
  obtain s4 s5 where s4: "apply_all_unmined ops env
       (filter (\<lambda>m. mo_entry_point m = pcf_entry_point (up_config s)) (snd (deduped_ops u)))
       (mined_state ops env u s) = Some s4"
    and s5: "apply_balance_updates ops env u s4 = Some s5"
    and s': "s' = finish_update al env now u (update_fees env u s5)"
    and steps: "component_steps (\<lambda>_. True) s (update_fees env u s5)"
    by (rule on_chain_update_confirmed [OF assms(4,3)])
  have inv: "pool_inv (up_pool (update_fees env u s5))"
    using cs_inv [OF steps] C pool_reachable_inv by blast
  note F = finish_update_result [OF assms(2) inv, where al = al and now = now and u = u, folded s']
  have "up_block_number s' = cu_latest_block_number u"
    using F(2) by (auto simp: update_fees_def split: sum.splits)
  moreover have "mo_hash m \<notin> up_throttled_ops s'"
    if "m \<in> set (fst (deduped_ops u))" "mo_entry_point m = pcf_entry_point config" for m
  proof -
    have "mo_hash m \<notin> up_throttled_ops (mined_state ops env u s)"
      using throttled_mined_state [of m u s] that C by simp
    then show ?thesis using F(3) throttled_later(1) [OF s4] throttled_later(2) [OF s5]
      by (auto simp: throttled_later(3))
  qed
  moreover have "cu_earliest_remembered_block_number u \<le> bn"
    if "pi_mined_at_block_number_by_hash (up_pool s') h = Some (op, bn)" for h op bn
    using pool_invD(8) [OF F(1) [unfolded pool_inv_def], unfolded mined_ok_def] F(5) that by blast
  ultimately show ?thesis using F(4) not_expired(1) by blast
qed

definition sample_update :: chain_update where
  "sample_update = chain_update_default\<lparr>cu_latest_block_number := 11, cu_latest_block_hash := 2,
     cu_latest_block_timestamp := 600, cu_earliest_remembered_block_number := 3\<rparr>"

theorem confirmed_update_applied_witness:
  "\<exists>s'. on_chain_update null_alloy ll_ops sample_env 0 mempool1 sample_update = Some s' \<and>
     up_block_number s' = 11 \<and>
     pi_by_hash (up_pool s') 7 \<noteq> Some (sample_handle (sample_valid 0 7 100) 0 0)"
proof -
  obtain s' where s': "on_chain_update null_alloy ll_ops sample_env 0 mempool1 sample_update = Some s'"
    by (simp add: on_chain_update_def sample_update_def chain_update_default_def deduped_ops_def
        apply_balance_updates_def unique_def Let_def)
  have "cu_update_type sample_update = Confirmed"
    by (simp add: sample_update_def chain_update_default_def)
  note R = confirmed_update_applied [OF mempool1_reachable sample_env_iterates this s']
  have "\<not> cu_latest_block_timestamp sample_update \<le>
      valid_until (po_valid_time_range (oo_po (sample_handle (sample_valid 0 7 100) 0 0)))"
    by (simp add: sample_update_def sample_handle_def sample_valid_def)
  then have "pi_by_hash (up_pool s') 7 \<noteq> Some (sample_handle (sample_valid 0 7 100) 0 0)"
    using R by blast
  moreover have "up_block_number s' = 11" using R by (simp add: sample_update_def)
  ultimately show ?thesis using s' by blast
qed

end
