(* ===== verification/Chain.thy ===== *)
theory Chain
  imports Chain_Update
begin

text \<open>
  The tracker of the chain, \<open>Chain\<close> of \<open>crates/pool/src/chain.rs\<close>: it remembers a bounded number of
  recent blocks, follows a new head back to the blocks it knows, and tells the pools what was mined
  and what a reorganisation undid.

  The node is the argument \<open>node\<close>: its answers, the decoding of its logs by the contract
  bindings, and the order in which a hash map keyed by addresses is iterated.  A call may give back an error, and some code can panic, so a method has an outcome.
\<close>

section \<open>Outcomes\<close>

datatype 'a outcome = Done 'a | Fail string | Panic

fun and_then :: "'a outcome \<Rightarrow> ('a \<Rightarrow> 'b outcome) \<Rightarrow> 'b outcome" where
  "and_then (Done a) f = f a"
| "and_then (Fail e) f = Fail e"
| "and_then Panic f = Panic"

lemma and_then_Done: "and_then x f = Done b \<longleftrightarrow> (\<exists>a. x = Done a \<and> f a = Done b)"
  by (cases x) auto

fun outcome_from :: "string + 'a \<Rightarrow> 'a outcome" where
  "outcome_from (Inl e) = Fail e"
| "outcome_from (Inr a) = Done a"

text \<open>\<open>try_join_all\<close>; of several errors the first one is reported.\<close>

fun all_outcomes :: "('a \<Rightarrow> 'b outcome) \<Rightarrow> 'a list \<Rightarrow> 'b list outcome" where
  "all_outcomes f [] = Done []"
| "all_outcomes f (x # xs) =
     and_then (f x) (\<lambda>y. and_then (all_outcomes f xs) (\<lambda>ys. Done (y # ys)))"

section \<open>Blocks and the node\<close>

record transaction =
  tx_hash :: b256
  tx_from :: address
  tx_to :: "address option"
  tx_nonce :: u64

record block =
  blk_number :: u64
  blk_hash :: b256
  blk_parent_hash :: b256
  blk_timestamp :: timestamp
  blk_transactions :: "transaction list"

record event_log =
  log_address :: address
  log_topics :: "b256 list"
  log_data :: bytes

record user_operation_event =
  uoe_userOpHash :: b256
  uoe_sender :: address
  uoe_paymaster :: address
  uoe_nonce :: u256
  uoe_actualGasCost :: u256

text \<open>
  The event of a version of the entry point contract: its signature hashes and the decoding of its
  logs (\<open>UserOperationEvent\<close>, \<open>Deposited\<close> with account and total, \<open>Withdrawn\<close> with account and
  amount).
\<close>

record contract_events =
  ce_user_operation :: b256
  ce_deposited :: b256
  ce_withdrawn :: b256
  ce_decode_user_operation :: "event_log \<Rightarrow> user_operation_event option"
  ce_decode_deposited :: "event_log \<Rightarrow> (address \<times> u256) option"
  ce_decode_withdrawn :: "event_log \<Rightarrow> (address \<times> u256) option"

record node =
  node_get_full_block :: "b256 \<Rightarrow> nat \<Rightarrow> string + block option"
  node_get_receipt_logs :: "b256 \<Rightarrow> string + event_log list option"
  node_get_logs :: "b256 \<Rightarrow> string + event_log list"
  node_get_balances :: "address list \<Rightarrow> string + (address \<times> u256) list"
  node_events_v0_6 :: contract_events
  node_events_v0_7 :: contract_events
  node_iter_addresses :: "address set \<Rightarrow> address list"

section \<open>State\<close>

record settings =
  set_history_size :: u64
  set_entry_point_addresses :: "address \<rightharpoonup> entry_point_version"
  set_max_sync_retries :: u64
  set_flashblocks :: bool

record block_summary =
  bsum_number :: u64
  bsum_hash :: b256
  bsum_timestamp :: timestamp
  bsum_ops :: "mined_op list"
  bsum_transactions :: "(b256 \<times> b256 list) list"
  bsum_entity_balance_updates :: "balance_update list"
  bsum_address_updates :: "address_update list"

text \<open>The set of tracked addresses is given by the order in which it is iterated.\<close>

record chain =
  ch_settings :: settings
  ch_blocks :: "block_summary list"
  ch_pending_block :: "block_summary option"
  ch_sync_error_count :: usize
  ch_to_track :: "address list"

definition SYNC_ERROR_COUNT_MAX :: usize where "SYNC_ERROR_COUNT_MAX = 50"

definition chain_new :: "settings \<Rightarrow> chain option" where
  "chain_new settings =
     (if set_history_size settings > 0
      then Some \<lparr>ch_settings = settings, ch_blocks = [], ch_pending_block = None,
                 ch_sync_error_count = 0, ch_to_track = []\<rparr>
      else None)"

definition track_addresses :: "address list \<Rightarrow> chain \<Rightarrow> chain" where
  "track_addresses to_track c =
     c\<lparr>ch_to_track := ch_to_track c @ filter (\<lambda>a. a \<notin> set (ch_to_track c)) (remdups to_track)\<rparr>"

section \<open>Events\<close>

text \<open>\<open>load_v0_6\<close> and \<open>load_v0_7\<close> differ in the bindings only; the state is what was collected.\<close>

definition load_event ::
  "contract_events \<Rightarrow> event_log \<Rightarrow> mined_op list \<times> balance_update list
     \<Rightarrow> mined_op list \<times> balance_update list" where
  "load_event ce l st =
     (let (mined_ops, balance_updates) = st; address = log_address l
      in case log_topics l of
           [] \<Rightarrow> st
         | topic0 # _ \<Rightarrow>
             if topic0 = ce_user_operation ce
             then (case ce_decode_user_operation ce l of
                     None \<Rightarrow> st
                   | Some event \<Rightarrow>
                       (mined_ops @ [\<lparr>mo_hash = uoe_userOpHash event, mo_entry_point = address,
                          mo_sender = uoe_sender event, mo_nonce = uoe_nonce event,
                          mo_actual_gas_cost = uoe_actualGasCost event,
                          mo_paymaster = (if uoe_paymaster event = 0 then None
                                          else Some (uoe_paymaster event))\<rparr>],
                        balance_updates))
             else if topic0 = ce_deposited ce
             then (case ce_decode_deposited ce l of
                     None \<Rightarrow> st
                   | Some (account, totalDeposit) \<Rightarrow>
                       (mined_ops, balance_updates @ [\<lparr>bu_address = account,
                          bu_entrypoint = address, bu_amount = totalDeposit,
                          bu_is_addition = True\<rparr>]))
             else if topic0 = ce_withdrawn ce
             then (case ce_decode_withdrawn ce l of
                     None \<Rightarrow> st
                   | Some (account, amount) \<Rightarrow>
                       (mined_ops, balance_updates @ [\<lparr>bu_address = account,
                          bu_entrypoint = address, bu_amount = amount,
                          bu_is_addition = False\<rparr>]))
             else st)"

definition load_events_in_block ::
  "node \<Rightarrow> chain \<Rightarrow> block \<Rightarrow> (mined_op list \<times> balance_update list) outcome" where
  "load_events_in_block node c block =
     and_then (outcome_from (node_get_logs node (blk_hash block))) (\<lambda>logs.
       Done (fold (\<lambda>l st.
         case set_entry_point_addresses (ch_settings c) (log_address l) of
           Some EP_V0_6 \<Rightarrow> load_event (node_events_v0_6 node) l st
         | Some EP_V0_7 \<Rightarrow> load_event (node_events_v0_7 node) l st
         | _ \<Rightarrow> st) logs ([], [])))"

section \<open>Tracked addresses\<close>

text \<open>
  The reads of the tracked addresses during a load see the same set, so that the update of a tracked
  sender exists.
\<close>

definition note_transaction ::
  "address list \<Rightarrow> transaction \<Rightarrow> (address \<rightharpoonup> address_update) \<Rightarrow> (address \<rightharpoonup> address_update)" where
  "note_transaction to_track tx updates =
     (if tx_from tx \<in> set to_track
      then case updates (tx_from tx) of
             None \<Rightarrow> updates
           | Some u \<Rightarrow>
               (let latest = (case au_nonce u of Some n \<Rightarrow> n | None \<Rightarrow> 0);
                    u = (if tx_nonce tx \<ge> latest then u\<lparr>au_nonce := Some (tx_nonce tx)\<rparr> else u)
                in updates(tx_from tx \<mapsto>
                     u\<lparr>au_mined_tx_hashes := au_mined_tx_hashes u @ [tx_hash tx]\<rparr>))
      else updates)"

fun set_balances ::
  "(address \<times> u256) list \<Rightarrow> (address \<rightharpoonup> address_update) \<Rightarrow> (address \<rightharpoonup> address_update) outcome" where
  "set_balances [] updates = Done updates"
| "set_balances ((a, balance) # rest) updates =
     (case updates a of
        None \<Rightarrow> Panic
      | Some u \<Rightarrow> set_balances rest (updates(a \<mapsto> u\<lparr>au_balance := balance\<rparr>)))"

definition load_address_updates :: "node \<Rightarrow> chain \<Rightarrow> block \<Rightarrow> address_update list outcome" where
  "load_address_updates node c block =
     (let updates = (\<lambda>a. if a \<in> set (ch_to_track c)
            then Some \<lparr>au_address = a, au_balance = 0, au_nonce = None, au_mined_tx_hashes = []\<rparr>
            else None);
          updates = fold (note_transaction (ch_to_track c)) (blk_transactions block) updates
      in and_then (outcome_from (node_get_balances node (ch_to_track c))) (\<lambda>balances.
           if length (ch_to_track c) = length balances
           then and_then (set_balances balances updates)
                  (\<lambda>updates. Done (List.map_filter updates (ch_to_track c)))
           else Fail ''tracked addresses and balances should have the same length''))"

section \<open>Summaries\<close>

definition load_block_summary :: "node \<Rightarrow> chain \<Rightarrow> block \<Rightarrow> block_summary outcome" where
  "load_block_summary node c block =
     and_then (load_events_in_block node c block) (\<lambda>(ops, entity_balance_updates).
       and_then (load_address_updates node c block) (\<lambda>address_updates.
         Done \<lparr>bsum_number = blk_number block, bsum_hash = blk_hash block,
               bsum_timestamp = blk_timestamp block, bsum_ops = ops, bsum_transactions = [],
               bsum_entity_balance_updates = entity_balance_updates,
               bsum_address_updates = address_updates\<rparr>))"

definition load_block_summaries :: "node \<Rightarrow> chain \<Rightarrow> block list \<Rightarrow> block_summary list outcome" where
  "load_block_summaries node c blocks = all_outcomes (load_block_summary node c) blocks"

definition get_user_operations_from_pending_block :: "chain \<Rightarrow> block \<Rightarrow> b256 list" where
  "get_user_operations_from_pending_block c pending_block =
     map tx_hash (filter (\<lambda>tx. case tx_to tx of
         Some a \<Rightarrow> set_entry_point_addresses (ch_settings c) a \<noteq> None | None \<Rightarrow> False)
       (blk_transactions pending_block))"

definition get_user_operation_hash_from_txn ::
  "node \<Rightarrow> chain \<Rightarrow> b256 \<Rightarrow> (b256 \<times> b256 list) option" where
  "get_user_operation_hash_from_txn node c txn =
     (case node_get_receipt_logs node txn of
        Inr (Some logs) \<Rightarrow>
          Some (txn, map (\<lambda>l. log_topics l ! 1) (filter (\<lambda>l.
            set_entry_point_addresses (ch_settings c) (log_address l) \<noteq> None
            \<and> length (log_topics l) \<ge> 2
            \<and> (hd (log_topics l) = ce_user_operation (node_events_v0_6 node)
               \<or> hd (log_topics l) = ce_user_operation (node_events_v0_7 node))) logs))
      | _ \<Rightarrow> None)"

definition load_flash_block_summary :: "node \<Rightarrow> chain \<Rightarrow> block \<Rightarrow> block_summary" where
  "load_flash_block_summary node c block =
     \<lparr>bsum_number = blk_number block, bsum_hash = blk_hash block,
      bsum_timestamp = blk_timestamp block, bsum_ops = [],
      bsum_transactions = List.map_filter (get_user_operation_hash_from_txn node c)
        (get_user_operations_from_pending_block c block),
      bsum_entity_balance_updates = [], bsum_address_updates = []\<rparr>"

section \<open>Loading blocks\<close>

fun fetch_attempts :: "node \<Rightarrow> b256 \<Rightarrow> nat \<Rightarrow> nat \<Rightarrow> block option" where
  "fetch_attempts node block_hash attempt 0 = None"
| "fetch_attempts node block_hash attempt (Suc left) =
     (case node_get_full_block node block_hash attempt of
        Inr (Some block) \<Rightarrow> Some block
      | _ \<Rightarrow> fetch_attempts node block_hash (Suc attempt) left)"

definition fetch_block_with_retries :: "node \<Rightarrow> chain \<Rightarrow> b256 \<Rightarrow> block option" where
  "fetch_block_with_retries node c block_hash =
     fetch_attempts node block_hash 1 (unat (set_max_sync_retries (ch_settings c)))"

text \<open>The loop prepends parents until the first block has the given number.\<close>

function load_back :: "node \<Rightarrow> chain \<Rightarrow> u64 \<Rightarrow> block \<Rightarrow> block list \<Rightarrow> block list outcome" where
  "load_back node c min_block_number first rest =
     (if blk_number first > min_block_number
      then case fetch_block_with_retries node c (blk_parent_hash first) of
             None \<Rightarrow> Fail ''Unable to backtrack chain history due to missing parent block.''
           | Some parent \<Rightarrow>
               if blk_number parent \<noteq> blk_number first - 1
               then Fail ''block number does not match expected block number''
               else load_back node c min_block_number parent (first # rest)
      else Done (first # rest))"
  by pat_completeness auto
termination
proof (relation "measure (\<lambda>(node, c, n, first, rest). unat (blk_number first))", goal_cases)
  case (2 node c n first rest parent)
  then have "blk_number first \<noteq> 0" by auto
  with 2 show ?case by (simp add: unat_minus_one unat_gt_0)
qed simp

declare load_back.simps [simp del]

definition load_blocks_back_to_number :: "node \<Rightarrow> chain \<Rightarrow> block \<Rightarrow> u64 \<Rightarrow> block list outcome" where
  "load_blocks_back_to_number node c head min_block_number =
     load_back node c min_block_number head []"

definition block_with_number :: "chain \<Rightarrow> u64 \<Rightarrow> block_summary option" where
  "block_with_number c number =
     (case ch_blocks c of
        [] \<Rightarrow> None
      | earliest # _ \<Rightarrow>
          if number < bsum_number earliest then None
          else let i = unat (number - bsum_number earliest)
               in if i < length (ch_blocks c) then Some (ch_blocks c ! i) else None)"

text \<open>
  The loop goes on loading parents while the known block with the number of the parent has another
  hash.
\<close>

function connect :: "node \<Rightarrow> chain \<Rightarrow> block \<Rightarrow> block list \<Rightarrow> block list outcome" where
  "connect node c first rest =
     (if blk_number first = 0 then Done (first # rest)
      else case block_with_number c (blk_number first - 1) of
             None \<Rightarrow> Done (first # rest)
           | Some presumed_parent \<Rightarrow>
               if bsum_hash presumed_parent = blk_parent_hash first then Done (first # rest)
               else (case node_get_full_block node (blk_parent_hash first) 0 of
                       Inl e \<Rightarrow> Fail ''should load parent block when handling reorg''
                     | Inr None \<Rightarrow> Fail ''block with parent hash of known block should exist''
                     | Inr (Some block) \<Rightarrow>
                         if blk_number block \<noteq> blk_number first - 1
                         then Fail ''block number does not match expected block number''
                         else connect node c block (first # rest)))"
  by pat_completeness auto
termination
proof (relation "measure (\<lambda>(node, c, first, rest). unat (blk_number first))", goal_cases)
  case (2 node c first rest p ob b)
  then show ?case by (simp add: unat_minus_one unat_gt_0)
qed simp

declare connect.simps [simp del]

definition load_added_blocks_connecting_to_existing_chain ::
  "node \<Rightarrow> chain \<Rightarrow> u64 \<Rightarrow> block \<Rightarrow> block_summary list outcome" where
  "load_added_blocks_connecting_to_existing_chain node c current_block_number new_head =
     and_then (load_blocks_back_to_number node c new_head (current_block_number + 1)) (\<lambda>added_blocks.
       case added_blocks of
         [] \<Rightarrow> Fail ''added blocks should never be empty''
       | first # rest \<Rightarrow>
           and_then (connect node c first rest) (load_block_summaries node c))"

section \<open>Updates\<close>

definition new_pending_update :: "(b256 \<times> b256 list) list \<Rightarrow> u64 \<Rightarrow> chain_update" where
  "new_pending_update preconfirmed_txns preconfirmed_block_number =
     chain_update_default\<lparr>cu_preconfirmed_txns := preconfirmed_txns,
       cu_update_type := Preconfirmed,
       cu_preconfirmed_block_number := Some preconfirmed_block_number\<rparr>"

definition process_pending_block :: "block_summary \<Rightarrow> u64 \<Rightarrow> chain_update" where
  "process_pending_block pending_block preconfirmed_block_number =
     new_pending_update (bsum_transactions pending_block) preconfirmed_block_number"

definition new_update ::
  "chain \<Rightarrow> u64 \<Rightarrow> mined_op list \<Rightarrow> mined_op list \<Rightarrow> balance_update list \<Rightarrow> balance_update list
     \<Rightarrow> address_update list \<Rightarrow> bool \<Rightarrow> chain_update outcome" where
  "new_update c reorg_depth mined_ops unmined_ops entity_balance_updates
     unmined_entity_balance_updates address_updates reorg_larger_than_history =
     (if ch_blocks c = [] then Panic
      else let latest_block = last (ch_blocks c)
           in Done
             \<lparr>cu_latest_block_number = bsum_number latest_block,
              cu_latest_block_hash = bsum_hash latest_block,
              cu_latest_block_timestamp = bsum_timestamp latest_block,
              cu_earliest_remembered_block_number = bsum_number (hd (ch_blocks c)),
              cu_reorg_depth = reorg_depth, cu_mined_ops = mined_ops,
              cu_unmined_ops = unmined_ops, cu_preconfirmed_txns = [],
              cu_preconfirmed_block_number = None,
              cu_entity_balance_updates = entity_balance_updates,
              cu_unmined_entity_balance_updates = unmined_entity_balance_updates,
              cu_address_updates = address_updates,
              cu_reorg_larger_than_history = reorg_larger_than_history,
              cu_update_type = Confirmed\<rparr>)"

text \<open>Of the updates of an address the balance with the highest nonce is kept.\<close>

fun nonce_greater :: "u64 option \<Rightarrow> u64 option \<Rightarrow> bool" where
  "nonce_greater (Some a) (Some b) = (a > b)"
| "nonce_greater (Some _) None = True"
| "nonce_greater None _ = False"

definition merge_address_update ::
  "address_update \<Rightarrow> (address \<rightharpoonup> address_update) \<Rightarrow> (address \<rightharpoonup> address_update)" where
  "merge_address_update update m =
     (let latest = (case m (au_address update) of
                      Some u \<Rightarrow> u
                    | None \<Rightarrow> update\<lparr>au_mined_tx_hashes := []\<rparr>);
          latest = (if nonce_greater (au_nonce update) (au_nonce latest)
                    then latest\<lparr>au_nonce := au_nonce update, au_balance := au_balance update\<rparr>
                    else latest)
      in m(au_address update \<mapsto>
           latest\<lparr>au_mined_tx_hashes := au_mined_tx_hashes latest @ au_mined_tx_hashes update\<rparr>))"

definition merge_address_updates :: "node \<Rightarrow> address_update list \<Rightarrow> address_update list" where
  "merge_address_updates node updates =
     (let m = fold merge_address_update updates Map.empty
      in List.map_filter m (node_iter_addresses node (dom m)))"

text \<open>
  The number of blocks to skip is computed on \<open>usize\<close> and wraps around when the reorganisation is
  deeper than the remembered blocks; popping from an empty deque does nothing.
\<close>

definition update_with_blocks ::
  "node \<Rightarrow> chain \<Rightarrow> u64 \<Rightarrow> block_summary list \<Rightarrow> (chain \<times> chain_update) outcome" where
  "update_with_blocks node c current_block_number added_blocks =
     (case added_blocks of
        [] \<Rightarrow> Panic
      | first # _ \<Rightarrow>
          (let history_size = set_history_size (ch_settings c);
               mined_ops = concat (map bsum_ops added_blocks);
               entity_balance_updates = concat (map bsum_entity_balance_updates added_blocks);
               address_updates =
                 merge_address_updates node (concat (map bsum_address_updates added_blocks));
               reorg_depth = current_block_number + 1 - bsum_number first;
               skipped = unat (of_nat (length (ch_blocks c)) - reorg_depth);
               removed = drop skipped (ch_blocks c);
               blocks = take (length (ch_blocks c) - unat reorg_depth) (ch_blocks c) @ added_blocks;
               c = c\<lparr>ch_blocks := drop (length blocks - unat history_size) blocks\<rparr>
           in and_then (new_update c reorg_depth mined_ops (concat (map bsum_ops removed))
                  entity_balance_updates (concat (map bsum_entity_balance_updates removed))
                  address_updates (reorg_depth \<ge> history_size))
                (\<lambda>u. Done (c, u))))"

definition reset_and_initialize ::
  "node \<Rightarrow> chain \<Rightarrow> block \<Rightarrow> (chain \<times> chain_update) outcome" where
  "reset_and_initialize node c head =
     (let min_block_number =
            saturating_sub (blk_number head) (set_history_size (ch_settings c) - 1)
      in and_then (load_blocks_back_to_number node c head min_block_number) (\<lambda>blocks.
         and_then (load_block_summaries node c blocks) (\<lambda>summaries.
           let c = c\<lparr>ch_blocks := summaries, ch_sync_error_count := 0\<rparr>
           in and_then (new_update c 0 (concat (map bsum_ops summaries)) []
                  (concat (map bsum_entity_balance_updates summaries)) [] [] False)
                (\<lambda>u. Done (c, u)))))"

text \<open>The count of sync errors changes even when the call fails; the new chain is returned as well.\<close>

definition sync_to_block :: "node \<Rightarrow> chain \<Rightarrow> block \<Rightarrow> chain \<times> chain_update outcome" where
  "sync_to_block node c new_head =
     (let finish = (\<lambda>c r. case r of
                      Done (c', u) \<Rightarrow> (c', Done u) | Fail e \<Rightarrow> (c, Fail e) | Panic \<Rightarrow> (c, Panic))
      in if ch_blocks c = [] then finish c (reset_and_initialize node c new_head)
         else
           (let current_block_number = bsum_number (last (ch_blocks c));
                new_block_number = blk_number new_head;
                history_size = set_history_size (ch_settings c)
            in if current_block_number > new_block_number + history_size
               then (let c = c\<lparr>ch_sync_error_count := ch_sync_error_count c + 1\<rparr>
                     in if ch_sync_error_count c \<ge> SYNC_ERROR_COUNT_MAX
                        then finish c (reset_and_initialize node c new_head)
                        else (c, Fail ''new block number should be greater than start of history''))
               else if current_block_number + history_size < new_block_number
               then finish c (reset_and_initialize node c new_head)
               else finish c
                      (and_then (load_added_blocks_connecting_to_existing_chain node c
                           current_block_number new_head)
                         (update_with_blocks node c current_block_number))))"

section \<open>Waiting for updates\<close>

text \<open>
  The retries of one head: the node may answer differently in every attempt, so attempt \<open>i\<close> uses
  \<open>nodes i\<close>.
\<close>

fun sync_attempts ::
  "(nat \<Rightarrow> node) \<Rightarrow> nat \<Rightarrow> nat \<Rightarrow> chain \<Rightarrow> block \<Rightarrow> chain \<times> chain_update outcome" where
  "sync_attempts nodes attempt 0 c head = (c, Fail ''retries exhausted'')"
| "sync_attempts nodes attempt (Suc left) c head =
     (case sync_to_block (nodes attempt) c head of
        (c, Fail _) \<Rightarrow> sync_attempts nodes (Suc attempt) left c head
      | (c, r) \<Rightarrow> (c, r))"

text \<open>
  The loops over new heads.  A list of heads that the block watcher reports, with the nodes during
  their retries, drives the loop; \<open>None\<close> means the loop still waits when the list is used up.
\<close>

fun wait_for_update_full_block ::
  "(block \<times> (nat \<Rightarrow> node)) list \<Rightarrow> chain \<Rightarrow> chain \<times> chain_update outcome option" where
  "wait_for_update_full_block [] c = (c, None)"
| "wait_for_update_full_block ((block, nodes) # heads) c =
     (case sync_attempts nodes 0 (Suc (unat (set_max_sync_retries (ch_settings c)))) c block of
        (c, Fail _) \<Rightarrow> wait_for_update_full_block heads (c\<lparr>ch_blocks := []\<rparr>)
      | (c, r) \<Rightarrow> (c, Some r))"

fun wait_for_update_flashblocks ::
  "b256 \<Rightarrow> (block \<times> block \<times> (nat \<Rightarrow> node)) list \<Rightarrow> chain \<Rightarrow> chain \<times> chain_update outcome option" where
  "wait_for_update_flashblocks full_block_hash [] c = (c, None)"
| "wait_for_update_flashblocks full_block_hash ((pending, latest, nodes) # heads) c =
     (let summary = load_flash_block_summary (nodes 0) c pending;
          chain_update = process_pending_block summary (blk_number pending)
      in if (case ch_pending_block c of
               Some p \<Rightarrow> bsum_hash p = blk_hash pending \<and> blk_hash latest = full_block_hash
             | None \<Rightarrow> False)
         then wait_for_update_flashblocks full_block_hash heads c
         else (let c = c\<lparr>ch_pending_block := Some summary\<rparr>
               in if blk_hash latest = full_block_hash then (c, Some (Done chain_update))
                  else case sync_attempts nodes 0
                              (Suc (unat (set_max_sync_retries (ch_settings c)))) c latest of
                         (c, Done u) \<Rightarrow>
                           (c, Some (Done (u\<lparr>
                              cu_preconfirmed_txns := cu_preconfirmed_txns chain_update,
                              cu_preconfirmed_block_number :=
                                cu_preconfirmed_block_number chain_update\<rparr>)))
                       | (c, Fail _) \<Rightarrow>
                           wait_for_update_flashblocks full_block_hash heads (c\<lparr>ch_blocks := []\<rparr>)
                       | (c, Panic) \<Rightarrow> (c, Some Panic)))"

definition wait_for_update ::
  "(block \<times> block \<times> (nat \<Rightarrow> node)) list \<Rightarrow> chain \<Rightarrow> chain \<times> chain_update outcome option" where
  "wait_for_update heads c =
     (if set_flashblocks (ch_settings c) \<and> ch_blocks c \<noteq> []
      then wait_for_update_flashblocks (bsum_hash (last (ch_blocks c))) heads c
      else wait_for_update_full_block (map (\<lambda>(_, latest, nodes). (latest, nodes)) heads) c)"

end
