(* ===== verification/Chain_Invariant.thy ===== *)
theory Chain_Invariant
  imports Chain
begin

text \<open>
  The remembered blocks form a chain: their numbers are consecutive and each one is the parent of
  the next.  A summary does not hold the hash of its parent; since the hash of a block determines
  its header, \<open>parent\<close> maps the hash of a block to the hash of its parent.
\<close>

section \<open>Headers\<close>

text \<open>A node answers a request for a hash with the block that has this hash.\<close>

definition faithful :: "(b256 \<Rightarrow> b256) \<Rightarrow> node \<Rightarrow> bool" where
  "faithful parent node \<longleftrightarrow>
     (\<forall>h n b. node_get_full_block node h n = Inr (Some b) \<longrightarrow>
        blk_hash b = h \<and> blk_parent_hash b = parent h)"

text \<open>Block numbers are far below \<open>2 ^ 64\<close>, so that adding the history size does not wrap.\<close>

definition head_ok :: "(b256 \<Rightarrow> b256) \<Rightarrow> settings \<Rightarrow> block \<Rightarrow> bool" where
  "head_ok parent st b \<longleftrightarrow> blk_parent_hash b = parent (blk_hash b) \<and>
     unat (blk_number b) + unat (set_history_size st) + 1 < 2 ^ 64"

definition follows :: "(b256 \<Rightarrow> b256) \<Rightarrow> block_summary \<Rightarrow> block_summary \<Rightarrow> bool" where
  "follows parent a b \<longleftrightarrow>
     unat (bsum_number b) = Suc (unat (bsum_number a)) \<and> parent (bsum_hash b) = bsum_hash a"

definition block_follows :: "block \<Rightarrow> block \<Rightarrow> bool" where
  "block_follows a b \<longleftrightarrow>
     unat (blk_number b) = Suc (unat (blk_number a)) \<and> blk_parent_hash b = blk_hash a"

definition loaded :: "(b256 \<Rightarrow> b256) \<Rightarrow> settings \<Rightarrow> block \<Rightarrow> block list \<Rightarrow> bool" where
  "loaded parent st head bs \<longleftrightarrow>
     successively block_follows bs \<and> bs \<noteq> [] \<and> last bs = head \<and> (\<forall>b\<in>set bs. head_ok parent st b)"

lemma loaded_head: "head_ok parent st head \<Longrightarrow> loaded parent st head [head]"
  by (simp add: loaded_def)

lemma loaded_parent:
  assumes "loaded parent st head (b # bs)" "blk_number b \<noteq> 0"
    "blk_number p = blk_number b - 1" "blk_hash p = blk_parent_hash b"
    "blk_parent_hash p = parent (blk_hash p)"
  shows "loaded parent st head (p # b # bs)"
proof -
  have "unat (blk_number b) = Suc (unat (blk_number p))"
    using assms(2,3) by (simp add: unat_minus_one unat_gt_0)
  then show ?thesis using assms by (auto simp: loaded_def block_follows_def head_ok_def)
qed

section \<open>Loading\<close>

lemma fetch_attempts_Some:
  "fetch_attempts node h n k = Some b \<Longrightarrow> \<exists>m. node_get_full_block node h m = Inr (Some b)"
  by (induction node h n k rule: fetch_attempts.induct) (auto split: sum.splits option.splits)

lemma fetch_parent:
  assumes "faithful parent node" "fetch_block_with_retries node c h = Some b"
  shows "blk_hash b = h" "blk_parent_hash b = parent h"
  using assms fetch_attempts_Some unfolding faithful_def fetch_block_with_retries_def by metis+

lemma load_back_loaded:
  "load_back node c n first rest = Done bs \<Longrightarrow> faithful parent node \<Longrightarrow>
    loaded parent st head (first # rest) \<Longrightarrow>
    loaded parent st head bs \<and> (if n \<le> blk_number first then blk_number (hd bs) = n else hd bs = first)"
proof (induction node c n first rest rule: load_back.induct)
  case (1 node c n first rest)
  show ?case
  proof (cases "blk_number first > n")
    case True
    then obtain p where p: "fetch_block_with_retries node c (blk_parent_hash first) = Some p"
      "blk_number p = blk_number first - 1" "load_back node c n p (first # rest) = Done bs"
      using "1.prems"(1) by (subst (asm) load_back.simps) (auto split: option.splits if_splits)
    note f = fetch_parent [OF "1.prems"(2) p(1)]
    have "blk_number first \<noteq> 0" using True by auto
    from loaded_parent [OF "1.prems"(3) this p(2) f(1)] f
    have "loaded parent st head (p # first # rest)" by simp
    moreover have "n \<le> blk_number p"
      using True p(2) unat_minus_one [OF \<open>blk_number first \<noteq> 0\<close>]
      by (simp add: word_le_nat_alt word_less_nat_alt)
    ultimately show ?thesis using "1.IH" [OF True p(1) _ p(3) "1.prems"(2)] p(2) True by simp
  next
    case False
    then have "bs = first # rest" using "1.prems"(1) by (subst (asm) load_back.simps) simp
    then show ?thesis using "1.prems"(3) False by auto
  qed
qed

lemma connect_loaded:
  "connect node c first rest = Done bs \<Longrightarrow> faithful parent node \<Longrightarrow>
    loaded parent st head (first # rest) \<Longrightarrow>
    loaded parent st head bs \<and> blk_number (hd bs) \<le> blk_number first \<and>
    (blk_number (hd bs) = 0 \<or>
     (case block_with_number c (blk_number (hd bs) - 1) of
        None \<Rightarrow> True | Some s \<Rightarrow> bsum_hash s = blk_parent_hash (hd bs)))"
proof (induction node c first rest rule: connect.induct)
  case (1 node c first rest)
  show ?case
  proof (cases "blk_number first = 0 \<or> (case block_with_number c (blk_number first - 1) of
        None \<Rightarrow> True | Some s \<Rightarrow> bsum_hash s = blk_parent_hash first)")
    case True
    then have "bs = first # rest"
      using "1.prems"(1) by (subst (asm) connect.simps) (auto split: option.splits if_splits)
    then show ?thesis using True "1.prems" by (auto simp only: list.sel order_refl)
  next
    case False
    then obtain s p where p: "blk_number first \<noteq> 0" "block_with_number c (blk_number first - 1) = Some s"
      "bsum_hash s \<noteq> blk_parent_hash first"
      "node_get_full_block node (blk_parent_hash first) 0 = Inr (Some p)"
      "blk_number p = blk_number first - 1" "connect node c p (first # rest) = Done bs"
      using "1.prems"(1) False
      by (subst (asm) connect.simps) (auto split: option.splits if_splits sum.splits)
    have f: "blk_hash p = blk_parent_hash first" "blk_parent_hash p = parent (blk_hash p)"
      using "1.prems"(2) p(4) by (auto simp: faithful_def)
    have "loaded parent st head (p # first # rest)"
      by (rule loaded_parent [OF "1.prems"(3) p(1,5) f])
    moreover have "blk_number p \<le> blk_number first"
      using p(1,5) by (simp add: word_le_nat_alt unat_minus_one unat_gt_0)
    ultimately show ?thesis
      using "1.IH" [OF p(1,2,3,4) _ _ p(6) "1.prems"(2)] p(5) by auto
  qed
qed

text \<open>The parents are not followed below the earliest known block.\<close>

lemma block_with_number_Some:
  "block_with_number c n = Some s \<Longrightarrow> bsum_number (hd (ch_blocks c)) \<le> n"
  by (auto simp: block_with_number_def split: list.splits if_splits)

lemma connect_not_below:
  "connect node c first rest = Done bs \<Longrightarrow> bsum_number (hd (ch_blocks c)) \<le> blk_number first \<Longrightarrow>
     bsum_number (hd (ch_blocks c)) \<le> blk_number (hd bs)"
proof (induction node c first rest rule: connect.induct)
  case (1 node c first rest)
  show ?case
    using "1.prems" "1.IH" block_with_number_Some
    by (subst (asm) connect.simps) (auto split: option.splits if_splits sum.splits)
qed

lemma connect_below:
  "connect node c first rest = Done bs \<Longrightarrow> blk_number first < bsum_number (hd (ch_blocks c)) \<Longrightarrow>
     bs = first # rest"
  using block_with_number_Some [of c "blk_number first - 1"]
  by (subst (asm) connect.simps)
     (auto split: option.splits if_splits sum.splits simp: word_le_nat_alt word_less_nat_alt unat_minus_one)

section \<open>Summaries\<close>

lemma all_outcomes_Done:
  "all_outcomes f xs = Done ys \<longleftrightarrow> list_all2 (\<lambda>x y. f x = Done y) xs ys"
  by (induction xs arbitrary: ys) (auto simp: and_then_Done list_all2_Cons1)

lemma load_block_summary_header:
  "load_block_summary node c b = Done s \<Longrightarrow> bsum_number s = blk_number b \<and> bsum_hash s = blk_hash b"
  by (auto simp: load_block_summary_def and_then_Done)

lemma summaries_follow:
  assumes "list_all2 (\<lambda>b s. load_block_summary node c b = Done s) bs ss"
    "successively block_follows bs" "\<forall>b\<in>set bs. blk_parent_hash b = parent (blk_hash b)"
  shows "successively (follows parent) ss"
  using assms
proof (induction rule: list_all2_induct)
  case (Cons b bs s ss)
  show ?case
  proof (cases ss)
    case (Cons s2 ss2)
    then obtain b2 bs2 where b2: "bs = b2 # bs2" "load_block_summary node c b2 = Done s2"
      using Cons.hyps by (auto simp: list_all2_Cons2)
    then show ?thesis
      using Cons.prems Cons.IH Cons.hyps(1) \<open>ss = s2 # ss2\<close>
      by (auto simp: block_follows_def follows_def dest!: load_block_summary_header)
  qed simp
qed simp

section \<open>The invariant\<close>

definition chain_inv :: "(b256 \<Rightarrow> b256) \<Rightarrow> chain \<Rightarrow> bool" where
  "chain_inv parent c \<longleftrightarrow>
     0 < set_history_size (ch_settings c) \<and>
     length (ch_blocks c) \<le> unat (set_history_size (ch_settings c)) \<and>
     successively (follows parent) (ch_blocks c) \<and>
     (\<forall>b\<in>set (ch_blocks c).
        unat (bsum_number b) + unat (set_history_size (ch_settings c)) + 1 < 2 ^ 64)"

lemma follows_nth:
  "successively (follows parent) bs \<Longrightarrow> i < length bs \<Longrightarrow>
     unat (bsum_number (bs ! i)) = unat (bsum_number (hd bs)) + i"
proof (induction i)
  case (Suc i)
  have "follows parent (bs ! i) (bs ! Suc i)"
    using Suc.prems successively_conv_nth by blast
  then show ?case using Suc by (simp add: follows_def)
qed (simp add: hd_conv_nth)

lemma follows_last:
  "successively (follows parent) bs \<Longrightarrow> bs \<noteq> [] \<Longrightarrow>
     unat (bsum_number (last bs)) + 1 = unat (bsum_number (hd bs)) + length bs"
  using follows_nth [of parent bs "length bs - 1"] by (simp add: last_conv_nth)

lemma unat_of_nat_small: "n < 2 ^ LENGTH('a) \<Longrightarrow> unat (of_nat n :: 'a::len word) = n"
  by (simp add: unsigned_of_nat take_bit_nat_eq_self)

lemma successively_drop: "successively P xs \<Longrightarrow> successively P (drop n xs)"
  by (metis append_take_drop_id successively_append_iff)

lemma successively_take: "successively P xs \<Longrightarrow> successively P (take n xs)"
  by (metis append_take_drop_id successively_append_iff)

text \<open>The known block with a number.\<close>

lemma block_with_number_nth:
  assumes "chain_inv parent c" "i < length (ch_blocks c)"
    "unat n = unat (bsum_number (hd (ch_blocks c))) + i"
  shows "block_with_number c n = Some (ch_blocks c ! i)"
proof -
  obtain e es where [simp]: "ch_blocks c = e # es" using assms(2) by (cases "ch_blocks c") auto
  have "\<not> n < bsum_number e" using assms(3) by (simp add: word_less_nat_alt)
  moreover have "unat (n - bsum_number e) = i"
    using assms(3) by (simp add: unat_sub word_le_nat_alt)
  ultimately show ?thesis using assms(2) by (simp add: block_with_number_def)
qed

text \<open>What the summaries of loaded blocks look like.\<close>

lemma summaries_loaded:
  assumes "load_block_summaries node c bs = Done ss" "loaded parent st head bs"
  shows "successively (follows parent) ss" "length ss = length bs" "ss \<noteq> []"
    "bsum_number (hd ss) = blk_number (hd bs)" "bsum_hash (hd ss) = blk_hash (hd bs)"
    "bsum_number (last ss) = blk_number head" "bsum_hash (last ss) = blk_hash head"
    "\<forall>b\<in>set ss. unat (bsum_number b) + unat (set_history_size st) + 1 < 2 ^ 64"
proof -
  have A: "list_all2 (\<lambda>b s. load_block_summary node c b = Done s) bs ss"
    using assms(1) by (simp add: load_block_summaries_def all_outcomes_Done)
  have L: "successively block_follows bs" "bs \<noteq> []" "last bs = head"
    "\<forall>b\<in>set bs. head_ok parent st b" using assms(2) by (auto simp: loaded_def)
  show "successively (follows parent) ss"
    using summaries_follow [OF A L(1)] L(4) by (simp add: head_ok_def)
  show len: "length ss = length bs" using A by (simp add: list_all2_lengthD)
  then show "ss \<noteq> []" using L(2) by auto
  have nth: "bsum_number (ss ! i) = blk_number (bs ! i) \<and> bsum_hash (ss ! i) = blk_hash (bs ! i)"
    if "i < length bs" for i
    using list_all2_nthD [OF A that] by (rule load_block_summary_header)
  show "bsum_number (hd ss) = blk_number (hd bs)" "bsum_hash (hd ss) = blk_hash (hd bs)"
    using nth [of 0] L(2) \<open>ss \<noteq> []\<close> by (auto simp: hd_conv_nth)
  show "bsum_number (last ss) = blk_number head" "bsum_hash (last ss) = blk_hash head"
    using nth [of "length bs - 1"] L(2,3) \<open>ss \<noteq> []\<close> len by (auto simp: last_conv_nth)
  show "\<forall>b\<in>set ss. unat (bsum_number b) + unat (set_history_size st) + 1 < 2 ^ 64"
    using nth L(4) len nth_mem by (fastforce simp: in_set_conv_nth head_ok_def)
qed

lemma new_update_fields:
  assumes "new_update c d m um eb ueb au big = Done u"
  shows "ch_blocks c \<noteq> []" "cu_latest_block_number u = bsum_number (last (ch_blocks c))"
    "cu_latest_block_hash u = bsum_hash (last (ch_blocks c))"
    "cu_mined_ops u = m" "cu_unmined_ops u = um" "cu_reorg_depth u = d"
    "cu_earliest_remembered_block_number u = bsum_number (hd (ch_blocks c))"
    "cu_update_type u = Confirmed"
  using assms by (auto simp: new_update_def Let_def split: if_splits)

lemma reset_inv:
  assumes "reset_and_initialize node c head = Done (c', u)" "faithful parent node"
    "head_ok parent (ch_settings c) head" "0 < set_history_size (ch_settings c)"
  shows "chain_inv parent c'" "ch_settings c' = ch_settings c"
    "ch_blocks c' \<noteq> []" "bsum_hash (last (ch_blocks c')) = blk_hash head"
    "cu_latest_block_hash u = blk_hash head"
proof -
  let ?h = "set_history_size (ch_settings c)"
  let ?min = "saturating_sub (blk_number head) (?h - 1)"
  obtain bs ss where bs: "load_back node c ?min head [] = Done bs"
    and ss: "load_block_summaries node c bs = Done ss"
    and c': "c' = c\<lparr>ch_blocks := ss, ch_sync_error_count := 0\<rparr>"
    and u: "new_update c' 0 (concat (map bsum_ops ss)) []
              (concat (map bsum_entity_balance_updates ss)) [] [] False = Done u"
    using assms(1)
    by (auto simp: reset_and_initialize_def load_blocks_back_to_number_def Let_def and_then_Done)
  have "?min \<le> blk_number head" by (rule saturating_sub_le)
  then have L: "loaded parent (ch_settings c) head bs" "blk_number (hd bs) = ?min"
    using load_back_loaded [OF bs assms(2) loaded_head [OF assms(3)]] by auto
  note S = summaries_loaded [OF ss L(1)]
  have "unat (?h - 1) = unat ?h - 1" using assms(4) by (simp add: unat_minus_one word_gt_0)
  moreover have "0 < unat ?h" using assms(4) by (simp add: word_less_nat_alt)
  ultimately have "length ss \<le> unat ?h"
    using follows_last [OF S(1,3)] S(4,6) L(2) by (simp add: unat_simps)
  then show "chain_inv parent c'" using S(1,8) assms(4) by (simp add: chain_inv_def c')
  show "ch_settings c' = ch_settings c" "ch_blocks c' \<noteq> []"
    "bsum_hash (last (ch_blocks c')) = blk_hash head" using S by (simp_all add: c')
  then show "cu_latest_block_hash u = blk_hash head" using new_update_fields(3) [OF u] by simp
qed

text \<open>
  The blocks that stay when blocks from number \<open>n\<close> on are replaced connect to the new ones.
\<close>

definition connects :: "(b256 \<Rightarrow> b256) \<Rightarrow> chain \<Rightarrow> block_summary \<Rightarrow> bool" where
  "connects parent c first \<longleftrightarrow> bsum_number first = 0 \<or>
     (case block_with_number c (bsum_number first - 1) of
        None \<Rightarrow> True | Some s \<Rightarrow> bsum_hash s = parent (bsum_hash first))"

lemma kept_connects:
  assumes inv: "chain_inv parent c" and ne: "ch_blocks c \<noteq> []"
    and le: "unat (bsum_number first) \<le> unat (bsum_number (last (ch_blocks c))) + 1"
    and con: "connects parent c first"
  defines "depth \<equiv> unat (bsum_number (last (ch_blocks c))) + 1 - unat (bsum_number first)"
  defines "kept \<equiv> take (length (ch_blocks c) - depth) (ch_blocks c)"
  shows "kept = [] \<or> follows parent (last kept) first"
proof (cases "kept = []")
  case False
  let ?bs = "ch_blocks c" and ?i = "length (ch_blocks c) - depth - 1"
  have S: "successively (follows parent) ?bs" using inv by (simp add: chain_inv_def)
  have d: "depth < length ?bs" using False by (auto simp: kept_def)
  have i: "?i < length ?bs" using d by simp
  have last: "last kept = ?bs ! ?i" using False d by (simp add: kept_def last_conv_nth)
  have "unat (bsum_number (?bs ! ?i)) = unat (bsum_number (hd ?bs)) + ?i"
    by (rule follows_nth [OF S i])
  then have n: "unat (bsum_number first) = Suc (unat (bsum_number (?bs ! ?i)))"
    using follows_last [OF S ne] d le by (simp add: depth_def)
  then have n0: "bsum_number first \<noteq> 0" by auto
  have "block_with_number c (bsum_number first - 1) = Some (?bs ! ?i)"
    using n follows_nth [OF S i] unat_minus_one [OF n0]
    by (intro block_with_number_nth [OF inv i]) simp
  then have "bsum_hash (?bs ! ?i) = parent (bsum_hash first)"
    using con n0 by (simp add: connects_def)
  then show ?thesis using n last by (simp add: follows_def)
qed simp

text \<open>What an update without reset does, in terms of the kept and the removed blocks.\<close>

lemma update_with_blocks_result:
  assumes inv: "chain_inv parent c" and ne: "ch_blocks c \<noteq> []"
    and up: "update_with_blocks node c (bsum_number (last (ch_blocks c))) added = Done (c', u)"
    and added: "successively (follows parent) added" "added \<noteq> []"
      "\<forall>b\<in>set added. unat (bsum_number b) + unat (set_history_size (ch_settings c)) + 1 < 2 ^ 64"
    and le: "unat (bsum_number (hd added)) \<le> unat (bsum_number (last (ch_blocks c))) + 1"
    and con: "connects parent c (hd added)"
  defines "depth \<equiv> unat (bsum_number (last (ch_blocks c))) + 1 - unat (bsum_number (hd added))"
  defines "kept \<equiv> take (length (ch_blocks c) - depth) (ch_blocks c)"
  shows "chain_inv parent c'" "ch_settings c' = ch_settings c"
    "ch_blocks c' = drop (length (kept @ added) - unat (set_history_size (ch_settings c))) (kept @ added)"
    "last (ch_blocks c') = last added" "ch_blocks c' \<noteq> []"
    "cu_mined_ops u = concat (map bsum_ops added)"
    "cu_unmined_ops u = (if depth \<le> length (ch_blocks c)
       then concat (map bsum_ops (drop (length (ch_blocks c) - depth) (ch_blocks c))) else [])"
    "unat (cu_reorg_depth u) = depth" "cu_latest_block_hash u = bsum_hash (last added)"
proof -
  let ?bs = "ch_blocks c" and ?h = "set_history_size (ch_settings c)"
  let ?cur = "bsum_number (last ?bs)" and ?first = "bsum_number (hd added)"
  have I: "0 < ?h" "length ?bs \<le> unat ?h" "successively (follows parent) ?bs"
    "\<forall>b\<in>set ?bs. unat (bsum_number b) + unat ?h + 1 < 2 ^ 64"
    using inv by (auto simp: chain_inv_def)
  have hpos: "0 < unat ?h" using I(1) by (simp add: word_less_nat_alt)
  have cur: "unat ?cur + unat ?h + 1 < 2 ^ 64" using I(4) ne by simp
  then have cur1: "unat (?cur + 1) = unat ?cur + 1" by (simp add: unat_word_ariths)
  have d: "unat (?cur + 1 - ?first) = depth"
    using le cur1 by (simp add: depth_def unat_sub word_le_nat_alt)
  let ?c = "c\<lparr>ch_blocks := drop (length (kept @ added) - unat ?h) (kept @ added)\<rparr>"
  let ?skip = "unat (of_nat (length ?bs) - (?cur + 1 - ?first))"
  obtain a as where a: "added = a # as" using added(2) by (cases added) auto
  have c': "c' = ?c" and u: "new_update ?c (?cur + 1 - ?first) (concat (map bsum_ops added))
      (concat (map bsum_ops (drop ?skip ?bs)))
      (concat (map bsum_entity_balance_updates added))
      (concat (map bsum_entity_balance_updates (drop ?skip ?bs)))
      (merge_address_updates node (concat (map bsum_address_updates added)))
      (?cur + 1 - ?first \<ge> ?h) = Done u"
    using up d by (auto simp: update_with_blocks_def a kept_def Let_def and_then_Done)
  have lenlt: "length ?bs < 2 ^ 64" using I(2) cur by linarith
  have len: "unat (of_nat (length ?bs) :: usize) = length ?bs"
    using lenlt by (intro unat_of_nat_small) simp
  have skip: "?skip = (if depth \<le> length ?bs then length ?bs - depth
      else length ?bs + 2 ^ LENGTH(64) - depth)"
    unfolding unat_sub_if' [of "of_nat (length ?bs) :: usize"] len d by (rule refl)
  have empty: "drop ?skip ?bs = []" if "\<not> depth \<le> length ?bs"
    using skip that cur I(2) by (simp add: depth_def)
  have conn: "kept = [] \<or> follows parent (last kept) (hd added)"
    unfolding kept_def depth_def by (rule kept_connects [OF inv ne le con])
  have all: "successively (follows parent) (kept @ added)"
    using conn added(1,2) successively_take [OF I(3)]
    by (auto simp: successively_append_iff kept_def)
  have "ch_blocks ?c = drop (length (kept @ added) - unat ?h) (kept @ added)" by simp
  then have "set (ch_blocks ?c) \<subseteq> set (kept @ added)" by (metis set_drop_subset)
  moreover have "set (kept @ added) \<subseteq> set ?bs \<union> set added"
    using set_take_subset by (fastforce simp: kept_def)
  ultimately have "\<forall>b\<in>set (ch_blocks ?c). unat (bsum_number b) + unat ?h + 1 < 2 ^ 64"
    using I(4) added(3) by blast
  then show "chain_inv parent c'"
    using I(1) successively_drop [OF all, of "length (kept @ added) - unat ?h"]
    unfolding chain_inv_def c' by auto
  have n: "length (kept @ added) - unat ?h < length (kept @ added)" using hpos added(2) by simp
  show "ch_settings c' = ch_settings c" by (simp add: c')
  show eq: "ch_blocks c' = drop (length (kept @ added) - unat ?h) (kept @ added)" by (simp add: c')
  show "ch_blocks c' \<noteq> []" unfolding eq drop_eq_Nil not_le by (rule n)
  show last: "last (ch_blocks c') = last added"
    unfolding eq last_drop [OF n] using added(2) by (rule last_appendR)
  show "cu_mined_ops u = concat (map bsum_ops added)" "unat (cu_reorg_depth u) = depth"
    using new_update_fields [OF u] d by simp_all
  show "cu_unmined_ops u = (if depth \<le> length ?bs
       then concat (map bsum_ops (drop (length ?bs - depth) ?bs)) else [])"
    using new_update_fields(5) [OF u] skip empty by simp
  show "cu_latest_block_hash u = bsum_hash (last added)"
    using new_update_fields(3) [OF u] last by (simp add: c')
qed

section \<open>Synchronising\<close>

lemma load_added_result:
  assumes inv: "chain_inv parent c" and ne: "ch_blocks c \<noteq> []"
    and ld: "load_added_blocks_connecting_to_existing_chain node c
               (bsum_number (last (ch_blocks c))) head = Done added"
    and f: "faithful parent node" and ok: "head_ok parent (ch_settings c) head"
  shows "successively (follows parent) added" "added \<noteq> []"
    "\<forall>b\<in>set added. unat (bsum_number b) + unat (set_history_size (ch_settings c)) + 1 < 2 ^ 64"
    "unat (bsum_number (hd added)) \<le> unat (bsum_number (last (ch_blocks c))) + 1"
    "connects parent c (hd added)"
    "bsum_number (last added) = blk_number head" "bsum_hash (last added) = blk_hash head"
proof -
  let ?cur = "bsum_number (last (ch_blocks c))"
  have "unat ?cur + unat (set_history_size (ch_settings c)) + 1 < 2 ^ 64"
    using inv ne by (simp add: chain_inv_def)
  then have cur: "unat (?cur + 1) = unat ?cur + 1" by (simp add: unat_word_ariths)
  obtain bs first rest where bs: "load_back node c (?cur + 1) head [] = Done (first # rest)"
    and con: "connect node c first rest = Done bs" and ss: "load_block_summaries node c bs = Done added"
    using ld by (auto simp: load_added_blocks_connecting_to_existing_chain_def
        load_blocks_back_to_number_def and_then_Done neq_Nil_conv split: list.splits)
  have L: "loaded parent (ch_settings c) head (first # rest)" "blk_number first \<le> ?cur + 1"
    using load_back_loaded [OF bs f loaded_head [OF ok]] by (auto split: if_splits)
  have C: "loaded parent (ch_settings c) head bs" "blk_number (hd bs) \<le> blk_number first"
    "blk_number (hd bs) = 0 \<or> (case block_with_number c (blk_number (hd bs) - 1) of
        None \<Rightarrow> True | Some s \<Rightarrow> bsum_hash s = blk_parent_hash (hd bs))"
    using connect_loaded [OF con f L(1)] by auto
  note S = summaries_loaded [OF ss C(1)]
  show "successively (follows parent) added" "added \<noteq> []"
    "\<forall>b\<in>set added. unat (bsum_number b) + unat (set_history_size (ch_settings c)) + 1 < 2 ^ 64"
    "bsum_number (last added) = blk_number head" "bsum_hash (last added) = blk_hash head"
    using S by simp_all
  show "unat (bsum_number (hd added)) \<le> unat ?cur + 1"
    using S(4) C(2) L(2) cur by (simp add: word_le_nat_alt)
  have "blk_parent_hash (hd bs) = parent (blk_hash (hd bs))"
    using C(1) by (cases bs) (auto simp: loaded_def head_ok_def)
  then show "connects parent c (hd added)" using C(3) S(4,5)
    by (simp add: connects_def split: option.splits)
qed

lemma load_added_first:
  assumes inv: "chain_inv parent c" and ne: "ch_blocks c \<noteq> []"
    and ld: "load_added_blocks_connecting_to_existing_chain node c
               (bsum_number (last (ch_blocks c))) head = Done added"
    and f: "faithful parent node" and ok: "head_ok parent (ch_settings c) head"
  shows "bsum_number (hd (ch_blocks c)) \<le> blk_number head \<Longrightarrow>
      bsum_number (hd (ch_blocks c)) \<le> bsum_number (hd added)"
    and "blk_number head < bsum_number (hd (ch_blocks c)) \<Longrightarrow> length added = 1"
proof -
  let ?cur = "bsum_number (last (ch_blocks c))" and ?e = "bsum_number (hd (ch_blocks c))"
  have "unat ?cur + unat (set_history_size (ch_settings c)) + 1 < 2 ^ 64"
    using inv ne by (simp add: chain_inv_def)
  then have "unat (?cur + 1) = unat ?cur + 1" by (simp add: unat_word_ariths)
  moreover have "unat ?e \<le> unat ?cur"
    using follows_last [of parent "ch_blocks c"] inv ne
    by (cases "ch_blocks c") (auto simp: chain_inv_def)
  ultimately have e: "?e \<le> ?cur + 1" "?e \<le> ?cur" by (simp_all add: word_le_nat_alt)
  obtain bs first rest where bs: "load_back node c (?cur + 1) head [] = Done (first # rest)"
    and con: "connect node c first rest = Done bs" and ss: "load_block_summaries node c bs = Done added"
    using ld by (auto simp: load_added_blocks_connecting_to_existing_chain_def
        load_blocks_back_to_number_def and_then_Done neq_Nil_conv split: list.splits)
  note L = load_back_loaded [OF bs f loaded_head [OF ok]]
  have C: "loaded parent (ch_settings c) head bs"
    using connect_loaded [OF con f] L by blast
  note S = summaries_loaded [OF ss C]
  show "?e \<le> bsum_number (hd added)" if "?e \<le> blk_number head"
    unfolding S(4) using L that e by (intro connect_not_below [OF con]) (auto split: if_splits)
  show "length added = 1" if b: "blk_number head < ?e"
  proof -
    have "\<not> ?cur + 1 < blk_number head" using b e by auto
    then have "load_back node c (?cur + 1) head [] = Done [head]" by (subst load_back.simps) simp
    then have "first = head" "rest = []" using bs by simp_all
    then have "bs = [head]" using connect_below [OF con] b by simp
    then show ?thesis using S(2) by simp
  qed
qed

lemma sync_to_block_cases:
  assumes "sync_to_block node c head = (c', r)"
  obtains (reset) c0 c1 u where "c0 = c \<or> c0 = c\<lparr>ch_sync_error_count := ch_sync_error_count c + 1\<rparr>"
      "reset_and_initialize node c0 head = Done (c1, u)" "c' = c1" "r = Done u"
    | (update) added u where "ch_blocks c \<noteq> []"
      "load_added_blocks_connecting_to_existing_chain node c (bsum_number (last (ch_blocks c))) head
         = Done added"
      "update_with_blocks node c (bsum_number (last (ch_blocks c))) added = Done (c', u)" "r = Done u"
    | (failed) "ch_settings c' = ch_settings c" "ch_blocks c' = ch_blocks c" "\<And>u. r \<noteq> Done u"
  using assms
  by (auto simp: sync_to_block_def Let_def and_then_Done split: if_splits outcome.splits)

lemma sync_to_block_inv:
  assumes inv: "chain_inv parent c" and f: "faithful parent node"
    and ok: "head_ok parent (ch_settings c) head"
    and sync: "sync_to_block node c head = (c', r)"
  shows "chain_inv parent c'" "ch_settings c' = ch_settings c"
    "r = Done u \<Longrightarrow> ch_blocks c' \<noteq> [] \<and> bsum_hash (last (ch_blocks c')) = blk_hash head
       \<and> cu_latest_block_hash u = blk_hash head"
proof -
  have h: "0 < set_history_size (ch_settings c)" using inv by (simp add: chain_inv_def)
  have "chain_inv parent c' \<and> ch_settings c' = ch_settings c \<and>
    (r = Done u \<longrightarrow> ch_blocks c' \<noteq> [] \<and> bsum_hash (last (ch_blocks c')) = blk_hash head
       \<and> cu_latest_block_hash u = blk_hash head)"
    using sync
  proof (cases rule: sync_to_block_cases)
    case (reset c0 c1 u1)
    then have "ch_settings c0 = ch_settings c" by auto
    then show ?thesis using reset_inv [OF reset(2) f] ok h reset(3,4) by auto
  next
    case (update added u1)
    note A = load_added_result [OF inv update(1,2) f ok]
    note U = update_with_blocks_result [OF inv update(1,3) A(1-5)]
    show ?thesis using U(1,2,4,5,9) A(7) update(4) by auto
  next
    case failed
    then show ?thesis using inv by (auto simp: chain_inv_def)
  qed
  then show "chain_inv parent c'" "ch_settings c' = ch_settings c"
    "r = Done u \<Longrightarrow> ch_blocks c' \<noteq> [] \<and> bsum_hash (last (ch_blocks c')) = blk_hash head
       \<and> cu_latest_block_hash u = blk_hash head" by auto
qed

end
