(* ===== verification/Chain_Progress.thy ===== *)
theory Chain_Progress
  imports Chain_Invariant
begin

text \<open>
  The chain makes progress when the node answers: loading back ends with a list of blocks, every
  summary can be built, and no branch that panics is reached.
\<close>

section \<open>A node that answers\<close>

text \<open>
  The node serves the blocks of \<open>B\<close>: it has the parent of each, their logs, and the balances of the
  tracked addresses.
\<close>

definition serves :: "node \<Rightarrow> address list \<Rightarrow> block set \<Rightarrow> bool" where
  "serves node addrs B \<longleftrightarrow>
     (\<forall>b\<in>B. blk_number b \<noteq> 0 \<longrightarrow>
        (\<exists>p\<in>B. blk_number p = blk_number b - 1 \<and>
           (\<forall>n. node_get_full_block node (blk_parent_hash b) n = Inr (Some p)))) \<and>
     (\<forall>b\<in>B. \<exists>logs. node_get_logs node (blk_hash b) = Inr logs) \<and>
     (\<exists>bals. node_get_balances node addrs = Inr bals \<and> map fst bals = addrs)"

lemma serves_parent:
  assumes "serves node addrs B" "b \<in> B" "blk_number b \<noteq> 0"
  obtains p where "p \<in> B" "blk_number p = blk_number b - 1"
    "\<And>n. node_get_full_block node (blk_parent_hash b) n = Inr (Some p)"
  using assms unfolding serves_def by blast

lemma fetch_serves:
  assumes "\<And>n. node_get_full_block node h n = Inr (Some p)" "0 < set_max_sync_retries (ch_settings c)"
  shows "fetch_block_with_retries node c h = Some p"
proof -
  obtain k where "unat (set_max_sync_retries (ch_settings c)) = Suc k"
    using assms(2) by (metis not0_implies_Suc unat_eq_zero word_greater_zero_iff)
  then show ?thesis by (simp add: fetch_block_with_retries_def assms(1))
qed

lemma load_back_serves:
  "serves node addrs B \<Longrightarrow> 0 < set_max_sync_retries (ch_settings c) \<Longrightarrow> set (first # rest) \<subseteq> B \<Longrightarrow>
    \<exists>bs. load_back node c n first rest = Done bs \<and> bs \<noteq> [] \<and> set bs \<subseteq> B"
proof (induction node c n first rest rule: load_back.induct)
  case (1 node c n first rest)
  show ?case
  proof (cases "blk_number first > n")
    case True
    then have "blk_number first \<noteq> 0" by auto
    moreover have "first \<in> B" using "1.prems"(3) by simp
    ultimately obtain p where p: "p \<in> B" "blk_number p = blk_number first - 1"
      "\<And>n. node_get_full_block node (blk_parent_hash first) n = Inr (Some p)"
      using serves_parent [OF "1.prems"(1)] by metis
    note f = fetch_serves [OF p(3) "1.prems"(2)]
    show ?thesis
      using "1.IH" [OF True f _ "1.prems"(1,2)] p(1,2) "1.prems"(3) True f
      by (subst load_back.simps) simp
  next
    case False
    then show ?thesis using "1.prems"(3) by (subst load_back.simps) auto
  qed
qed

lemma connect_serves:
  "serves node addrs B \<Longrightarrow> set (first # rest) \<subseteq> B \<Longrightarrow>
    \<exists>bs. connect node c first rest = Done bs \<and> bs \<noteq> [] \<and> set bs \<subseteq> B"
proof (induction node c first rest rule: connect.induct)
  case (1 node c first rest)
  show ?case
  proof (cases "blk_number first = 0 \<or> (case block_with_number c (blk_number first - 1) of
        None \<Rightarrow> True | Some s \<Rightarrow> bsum_hash s = blk_parent_hash first)")
    case True
    then show ?thesis
      using "1.prems"(2) by (subst connect.simps) (auto split: option.splits)
  next
    case False
    then obtain s where s: "blk_number first \<noteq> 0"
      "block_with_number c (blk_number first - 1) = Some s" "bsum_hash s \<noteq> blk_parent_hash first"
      by (auto split: option.splits)
    have "first \<in> B" using "1.prems"(2) by simp
    then obtain p where p: "p \<in> B" "blk_number p = blk_number first - 1"
      "\<And>n. node_get_full_block node (blk_parent_hash first) n = Inr (Some p)"
      using serves_parent [OF "1.prems"(1) _ s(1)] by metis
    show ?thesis
      using "1.IH" [OF s p(3) refl _ "1.prems"(1)] p "1.prems"(2) s
      by (subst connect.simps) simp
  qed
qed

section \<open>Summaries\<close>

lemma note_transaction_dom: "dom (note_transaction addrs tx updates) = dom updates"
  by (auto simp: note_transaction_def Let_def split: option.splits if_splits)

lemma note_transactions_dom: "dom (fold (note_transaction addrs) txs updates) = dom updates"
  by (induction txs arbitrary: updates) (simp_all add: note_transaction_dom)

lemma set_balances_Done: "fst ` set bals \<subseteq> dom updates \<Longrightarrow> \<exists>m. set_balances bals updates = Done m"
proof (induction bals updates rule: set_balances.induct)
  case (2 a balance rest updates)
  then obtain u where u: "updates a = Some u" by auto
  have "fst ` set rest \<subseteq> dom (updates(a \<mapsto> u\<lparr>au_balance := balance\<rparr>))"
    using "2.prems" by auto
  from "2.IH" [OF u this] show ?case by (simp only: set_balances.simps u option.case)
qed simp

lemma load_block_summary_serves:
  assumes "serves node (ch_to_track c) B" "b \<in> B"
  shows "\<exists>s. load_block_summary node c b = Done s"
proof -
  let ?addrs = "ch_to_track c"
  obtain logs where "node_get_logs node (blk_hash b) = Inr logs"
    using assms unfolding serves_def by blast
  then have 1: "\<exists>ops. load_events_in_block node c b = Done ops"
    by (simp add: load_events_in_block_def)
  obtain bals where bals: "node_get_balances node ?addrs = Inr bals" "map fst bals = ?addrs"
    using assms(1) unfolding serves_def by blast
  have len: "length ?addrs = length bals" using bals(2) by (metis length_map)
  let ?updates = "\<lambda>a. if a \<in> set ?addrs
    then Some \<lparr>au_address = a, au_balance = 0, au_nonce = None, au_mined_tx_hashes = []\<rparr> else None"
  let ?m = "fold (note_transaction ?addrs) (blk_transactions b) ?updates"
  have "dom ?m = set ?addrs"
    by (auto simp: note_transactions_dom split: if_splits)
  moreover have "fst ` set bals = set ?addrs" using bals(2) by (metis list.set_map)
  ultimately have "\<exists>m. set_balances bals ?m = Done m" by (intro set_balances_Done) simp
  then have 2: "\<exists>us. load_address_updates node c b = Done us"
    by (auto simp: load_address_updates_def bals(1) len Let_def)
  from 1 2 show ?thesis by (auto simp: load_block_summary_def split: prod.splits)
qed

lemma load_block_summaries_serves:
  assumes "serves node (ch_to_track c) B" "set bs \<subseteq> B"
  shows "\<exists>ss. load_block_summaries node c bs = Done ss \<and> length ss = length bs"
  using assms(2)
proof (induction bs)
  case (Cons b bs)
  then obtain s ss where "load_block_summary node c b = Done s"
    "load_block_summaries node c bs = Done ss" "length ss = length bs"
    using load_block_summary_serves [OF assms(1)] by fastforce
  then show ?case by (simp add: load_block_summaries_def)
qed (simp add: load_block_summaries_def)

section \<open>Synchronising\<close>

lemma new_update_Done: "ch_blocks c \<noteq> [] \<Longrightarrow> \<exists>u. new_update c d m um eb ueb au big = Done u"
  by (simp add: new_update_def Let_def)

lemma reset_serves:
  assumes "serves node (ch_to_track c) B" "head \<in> B" "0 < set_max_sync_retries (ch_settings c)"
  shows "\<exists>c' u. reset_and_initialize node c head = Done (c', u)"
proof -
  obtain bs where bs: "load_blocks_back_to_number node c head
      (saturating_sub (blk_number head) (set_history_size (ch_settings c) - 1)) = Done bs"
    "bs \<noteq> []" "set bs \<subseteq> B"
    using load_back_serves [OF assms(1,3), of head "[]"
        "saturating_sub (blk_number head) (set_history_size (ch_settings c) - 1)"] assms(2)
    by (auto simp: load_blocks_back_to_number_def)
  obtain ss where ss: "load_block_summaries node c bs = Done ss" "length ss = length bs"
    using load_block_summaries_serves [OF assms(1) bs(3)] by auto
  then have "ch_blocks (c\<lparr>ch_blocks := ss, ch_sync_error_count := 0\<rparr>) \<noteq> []" using bs(2) by auto
  from new_update_Done [OF this] obtain u
    where "new_update (c\<lparr>ch_blocks := ss, ch_sync_error_count := 0\<rparr>) 0 (concat (map bsum_ops ss)) []
      (concat (map bsum_entity_balance_updates ss)) [] [] False = Done u" by blast
  then show ?thesis using bs(1) ss(1) by (simp add: reset_and_initialize_def Let_def)
qed

lemma update_serves:
  assumes "serves node (ch_to_track c) B" "head \<in> B" "0 < set_max_sync_retries (ch_settings c)"
    "0 < set_history_size (ch_settings c)"
  shows "\<exists>r. and_then (load_added_blocks_connecting_to_existing_chain node c cur head)
           (update_with_blocks node c cur) = Done r"
proof -
  obtain first rest where f: "load_blocks_back_to_number node c head (cur + 1) = Done (first # rest)"
    "set (first # rest) \<subseteq> B"
    using load_back_serves [OF assms(1,3), of head "[]" "cur + 1"] assms(2)
    by (auto simp: load_blocks_back_to_number_def neq_Nil_conv)
  obtain bs where bs: "connect node c first rest = Done bs" "bs \<noteq> []" "set bs \<subseteq> B"
    using connect_serves [OF assms(1) f(2)] by auto
  obtain ss where ss: "load_block_summaries node c bs = Done ss" "length ss = length bs"
    using load_block_summaries_serves [OF assms(1) bs(3)] by auto
  then obtain s ss' where s: "ss = s # ss'" using bs(2) by (cases ss) auto
  have "0 < unat (set_history_size (ch_settings c))" using assms(4) by (simp add: word_less_nat_alt)
  then have ne: "drop (length (xs @ ss) - unat (set_history_size (ch_settings c))) (xs @ ss) \<noteq> []" for xs
    using s by (simp add: not_le)
  have blocks: "ch_blocks (c\<lparr>ch_blocks := xs\<rparr>) = xs" for xs by simp
  have "\<exists>u. new_update (c\<lparr>ch_blocks := drop (length (xs @ ss) - unat (set_history_size (ch_settings c)))
      (xs @ ss)\<rparr>) d m um eb ueb au big = Done u" for xs d m um eb ueb au big
    by (rule new_update_Done) (simp only: blocks ne not_False_eq_True)
  then have "\<exists>r. update_with_blocks node c cur ss = Done r"
    unfolding update_with_blocks_def s list.case Let_def by (metis and_then.simps(1))
  then show ?thesis
    by (simp add: load_added_blocks_connecting_to_existing_chain_def f(1) bs(1) ss(1))
qed

lemma sync_serves:
  assumes "serves node (ch_to_track c) B" "head \<in> B" "0 < set_max_sync_retries (ch_settings c)"
    "0 < set_history_size (ch_settings c)"
  shows "(\<exists>c' u. sync_to_block node c head = (c', Done u)) \<or>
    (ch_blocks c \<noteq> [] \<and>
     bsum_number (last (ch_blocks c)) > blk_number head + set_history_size (ch_settings c) \<and>
     (\<exists>e. sync_to_block node c head =
            (c\<lparr>ch_sync_error_count := ch_sync_error_count c + 1\<rparr>, Fail e)))"
proof -
  let ?c = "c\<lparr>ch_sync_error_count := ch_sync_error_count c + 1\<rparr>"
  obtain c1 u1 where 1: "reset_and_initialize node c head = Done (c1, u1)"
    using reset_serves [OF assms(1-3)] by blast
  obtain c2 u2 where 2: "reset_and_initialize node ?c head = Done (c2, u2)"
    using reset_serves [of node ?c B head] assms(1-3) by auto
  obtain c3 u3 where 3: "and_then (load_added_blocks_connecting_to_existing_chain node c
      (bsum_number (last (ch_blocks c))) head)
      (update_with_blocks node c (bsum_number (last (ch_blocks c)))) = Done (c3, u3)"
    using update_serves [OF assms] by (metis prod.exhaust)
  show ?thesis using 1 2 3 by (simp add: sync_to_block_def Let_def)
qed

lemma sync_attempts_serves:
  assumes "\<forall>i. serves (nodes i) (ch_to_track c) B" "head \<in> B"
    "0 < set_max_sync_retries (ch_settings c)" "0 < set_history_size (ch_settings c)"
  shows "(\<exists>c' u. sync_attempts nodes i k c head = (c', Done u)) \<or>
    (k = 0 \<or> ch_blocks c \<noteq> []) \<and> (\<exists>n e. sync_attempts nodes i k c head =
                (c\<lparr>ch_sync_error_count := n\<rparr>, Fail e))"
  using assms
proof (induction k arbitrary: i c)
  case 0
  have "c = c\<lparr>ch_sync_error_count := ch_sync_error_count c\<rparr>" by simp
  then show ?case by (metis sync_attempts.simps(1))
next
  case (Suc k)
  let ?c = "c\<lparr>ch_sync_error_count := ch_sync_error_count c + 1\<rparr>"
  from sync_serves [OF Suc.prems(1) [rule_format, of i] Suc.prems(2-4)] show ?case
  proof (elim disjE conjE exE)
    fix e assume A: "ch_blocks c \<noteq> []" "sync_to_block (nodes i) c head = (?c, Fail e)"
    have "(\<exists>c' u. sync_attempts nodes (Suc i) k ?c head = (c', Done u)) \<or>
      (k = 0 \<or> ch_blocks ?c \<noteq> []) \<and> (\<exists>n e. sync_attempts nodes (Suc i) k ?c head =
                (?c\<lparr>ch_sync_error_count := n\<rparr>, Fail e))"
      using Suc.prems by (intro Suc.IH) simp_all
    then show ?thesis using A by auto
  qed simp
qed

text \<open>
  One head may be given up, when it is too far behind; the history is then cleared and the next head
  starts afresh.
\<close>

lemma wait_serves:
  assumes "0 < set_max_sync_retries (ch_settings c)" "0 < set_history_size (ch_settings c)"
    "\<forall>i. serves (nodes1 i) (ch_to_track c) B1" "head1 \<in> B1"
    "\<forall>i. serves (nodes2 i) (ch_to_track c) B2" "head2 \<in> B2"
  shows "\<exists>c' u. wait_for_update_full_block ((head1, nodes1) # (head2, nodes2) # heads) c
           = (c', Some (Done u))"
proof -
  let ?k = "Suc (unat (set_max_sync_retries (ch_settings c)))"
  note sync_attempts.simps [simp del]
  consider (updated) c' u where "sync_attempts nodes1 0 ?k c head1 = (c', Done u)"
    | (given_up) n e where "sync_attempts nodes1 0 ?k c head1 = (c\<lparr>ch_sync_error_count := n\<rparr>, Fail e)"
    using sync_attempts_serves [OF assms(3,4,1,2), where i = 0 and k = ?k] by blast
  then show ?thesis
  proof cases
    case given_up
    let ?c = "c\<lparr>ch_sync_error_count := n, ch_blocks := []\<rparr>"
    have "\<exists>c' u. sync_attempts nodes2 0 ?k ?c head2 = (c', Done u)"
      using sync_attempts_serves [where nodes = nodes2 and c = ?c and B = B2 and head = head2
          and i = 0 and k = ?k] assms(1,2,5,6) by simp
    then show ?thesis using given_up by auto
  qed simp
qed

end
