(* ===== verification/Chain_Samples.thy ===== *)
theory Chain_Samples
  imports Chain_Progress
begin

text \<open>
  A small chain with a fork, and the runs of the tracker on it.  The hash of block \<open>n\<close> of the main
  branch is \<open>n\<close>; the other branch leaves it after block 2 and the hash of its block \<open>n\<close> is \<open>100 + n\<close>.
  Every block has one user operation, whose hash is that of the block.
\<close>

definition sample_parent :: "b256 \<Rightarrow> b256" where
  "sample_parent h = (if h = 103 then 2 else h - 1)"

definition sample_block :: "b256 \<Rightarrow> block" where
  "sample_block h =
     \<lparr>blk_number = (if h > 100 then ucast h - 100 else ucast h), blk_hash = h,
      blk_parent_hash = sample_parent h, blk_timestamp = 0, blk_transactions = []\<rparr>"

definition sample_hashes :: "b256 list" where
  "sample_hashes = [0, 1, 2, 3, 4, 5, 103, 104]"

definition sample_events :: contract_events where
  "sample_events =
     \<lparr>ce_user_operation = 1, ce_deposited = 2, ce_withdrawn = 3,
      ce_decode_user_operation = (\<lambda>l. Some
        \<lparr>uoe_userOpHash = log_topics l ! 1, uoe_sender = 9, uoe_paymaster = 0, uoe_nonce = 0,
         uoe_actualGasCost = 0\<rparr>),
      ce_decode_deposited = (\<lambda>_. None), ce_decode_withdrawn = (\<lambda>_. None)\<rparr>"

definition sample_node :: node where
  "sample_node =
     \<lparr>node_get_full_block =
        (\<lambda>h n. if h \<in> set sample_hashes then Inr (Some (sample_block h)) else Inr None),
      node_get_receipt_logs = (\<lambda>_. Inr None),
      node_get_logs = (\<lambda>h. Inr [\<lparr>log_address = 7, log_topics = [1, h], log_data = []\<rparr>]),
      node_get_balances = (\<lambda>addrs. Inr (map (\<lambda>a. (a, 0)) addrs)),
      node_events_v0_6 = sample_events, node_events_v0_7 = sample_events,
      node_iter_addresses = (\<lambda>_. [])\<rparr>"

definition sample_settings :: settings where
  "sample_settings =
     \<lparr>set_history_size = 3, set_entry_point_addresses = [7 \<mapsto> EP_V0_7],
      set_max_sync_retries = 5, set_flashblocks = False\<rparr>"

definition sample_op :: "b256 \<Rightarrow> mined_op" where
  "sample_op h = \<lparr>mo_hash = h, mo_entry_point = 7, mo_sender = 9, mo_nonce = 0,
     mo_actual_gas_cost = 0, mo_paymaster = None\<rparr>"

definition sample_summary :: "b256 \<Rightarrow> block_summary" where
  "sample_summary h =
     \<lparr>bsum_number = blk_number (sample_block h), bsum_hash = h, bsum_timestamp = 0,
      bsum_ops = [sample_op h], bsum_transactions = [], bsum_entity_balance_updates = [],
      bsum_address_updates = []\<rparr>"

definition sample_chain :: "b256 list \<Rightarrow> chain" where
  "sample_chain hs =
     \<lparr>ch_settings = sample_settings, ch_blocks = map sample_summary hs, ch_pending_block = None,
      ch_sync_error_count = 0, ch_to_track = []\<rparr>"

lemma sample_new: "chain_new sample_settings = Some (sample_chain [])"
  by (simp add: chain_new_def sample_settings_def sample_chain_def)

lemma sample_faithful: "faithful sample_parent sample_node"
  by (auto simp: faithful_def sample_node_def sample_block_def split: if_splits)

section \<open>The steps of a run\<close>

lemma sample_retries: "set_max_sync_retries (ch_settings (sample_chain hs)) = 5"
  "set_history_size (ch_settings (sample_chain hs)) = 3"
  "ch_blocks (sample_chain hs) = map sample_summary hs"
  by (simp_all add: sample_chain_def sample_settings_def)

lemma sample_header:
  "blk_hash (sample_block h) = h" "blk_parent_hash (sample_block h) = sample_parent h"
  "bsum_number (sample_summary h) = blk_number (sample_block h)" "bsum_hash (sample_summary h) = h"
  "bsum_ops (sample_summary h) = [sample_op h]" "bsum_entity_balance_updates (sample_summary h) = []"
  "bsum_address_updates (sample_summary h) = []"
  by (simp_all add: sample_block_def sample_summary_def)

lemma sample_numbers:
  "blk_number (sample_block 0) = 0" "blk_number (sample_block 1) = 1"
  "blk_number (sample_block 2) = 2" "blk_number (sample_block 3) = 3"
  "blk_number (sample_block 4) = 4" "blk_number (sample_block 103) = 3"
  "blk_number (sample_block 104) = 4"
  by (simp_all add: sample_block_def)

lemma sample_parents:
  "sample_parent 1 = 0" "sample_parent 2 = 1" "sample_parent 3 = 2" "sample_parent 4 = 3"
  "sample_parent 103 = 2" "sample_parent 104 = 103"
  by (simp_all add: sample_parent_def)

lemma sample_get:
  "h \<in> set sample_hashes \<Longrightarrow> node_get_full_block sample_node h n = Inr (Some (sample_block h))"
  by (simp add: sample_node_def)

lemma sample_fetch:
  "h \<in> set sample_hashes \<Longrightarrow>
     fetch_block_with_retries sample_node (sample_chain hs) h = Some (sample_block h)"
  by (rule fetch_serves) (simp_all add: sample_get sample_retries)

lemma sample_load:
  "load_block_summary sample_node (sample_chain hs) (sample_block h) = Done (sample_summary h)"
  by (simp add: load_block_summary_def load_events_in_block_def load_address_updates_def
      sample_node_def sample_events_def sample_chain_def sample_settings_def load_event_def
      sample_summary_def sample_op_def sample_block_def)

lemma sample_load_all:
  "load_block_summaries sample_node (sample_chain hs) (map sample_block ks)
     = Done (map sample_summary ks)"
  by (induction ks) (simp_all add: load_block_summaries_def sample_load)

lemmas sample_simps = sample_retries sample_header sample_numbers sample_parents sample_fetch
  sample_get sample_hashes_def

lemma sample_back_4:
  "load_blocks_back_to_number sample_node (sample_chain hs) (sample_block 4) 2
     = Done (map sample_block [2, 3, 4])"
  by (simp add: load_blocks_back_to_number_def load_back.simps sample_simps)

section \<open>Runs\<close>

lemma sample_sync_4:
  obtains u where
    "sync_to_block sample_node (sample_chain []) (sample_block 4) = (sample_chain [2, 3, 4], Done u)"
proof -
  have "\<exists>u. reset_and_initialize sample_node (sample_chain []) (sample_block 4)
      = Done (sample_chain [2, 3, 4], u)"
    using sample_load_all [of "[]" "[2, 3, 4]"] sample_back_4 [of "[]"]
    by (simp add: reset_and_initialize_def sample_simps saturating_sub_def Let_def new_update_def)
       (simp add: sample_chain_def)
  then show thesis using that by (auto simp: sync_to_block_def sample_simps Let_def)
qed

lemma sample_added_104:
  "load_added_blocks_connecting_to_existing_chain sample_node (sample_chain [2, 3, 4]) 4
     (sample_block 104) = Done (map sample_summary [103, 104])"
  using sample_load_all [of "[2, 3, 4]" "[103, 104]"]
  by (simp add: load_added_blocks_connecting_to_existing_chain_def load_blocks_back_to_number_def
      load_back.simps connect.simps block_with_number_def sample_simps)

lemma sample_sync_104:
  obtains u where "sync_to_block sample_node (sample_chain [2, 3, 4]) (sample_block 104)
    = (sample_chain [2, 103, 104], Done u)"
proof -
  have "\<exists>u. update_with_blocks sample_node (sample_chain [2, 3, 4]) 4 (map sample_summary [103, 104])
      = Done (sample_chain [2, 103, 104], u)"
    by (simp add: update_with_blocks_def sample_simps Let_def new_update_def)
       (simp add: sample_chain_def)
  then show thesis using that sample_added_104 by (auto simp: sync_to_block_def sample_simps Let_def)
qed

lemma sample_added_1:
  "load_added_blocks_connecting_to_existing_chain sample_node (sample_chain [2, 3, 4]) 4
     (sample_block 1) = Done (map sample_summary [1])"
  using sample_load_all [of "[2, 3, 4]" "[1]"]
  by (simp add: load_added_blocks_connecting_to_existing_chain_def load_blocks_back_to_number_def
      load_back.simps connect.simps block_with_number_def sample_simps)

lemma sample_sync_1:
  obtains u where "sync_to_block sample_node (sample_chain [2, 3, 4]) (sample_block 1)
    = (sample_chain [1], Done u)"
proof -
  have "\<exists>u. update_with_blocks sample_node (sample_chain [2, 3, 4]) 4 (map sample_summary [1])
      = Done (sample_chain [1], u)"
    by (simp add: update_with_blocks_def sample_simps Let_def new_update_def)
       (simp add: sample_chain_def)
  then show thesis using that sample_added_1 by (auto simp: sync_to_block_def sample_simps Let_def)
qed

lemma sample_serves: "serves sample_node addrs (sample_block ` {0, 1, 2, 3, 4})"
  by (simp add: serves_def sample_simps) (simp add: sample_node_def comp_def)

end
