(* ===== verification/Chain_Theorems.thy ===== *)
theory Chain_Theorems
  imports Chain_Samples
begin

text \<open>
  What the tracker of the chain promises: the blocks it remembers form a chain that ends in the last
  head it has synchronised to, an update accounts for exactly the blocks that were added and removed,
  and with a node that answers an update arrives.
\<close>

section \<open>Steps\<close>

inductive chain_step :: "(b256 \<Rightarrow> b256) \<Rightarrow> chain \<Rightarrow> chain \<Rightarrow> bool" for parent where
  sync: "faithful parent node \<Longrightarrow> head_ok parent (ch_settings c) head \<Longrightarrow>
    sync_to_block node c head = (c', r) \<Longrightarrow> chain_step parent c c'"
| abandon: "chain_step parent c (c\<lparr>ch_blocks := []\<rparr>)"
| pending: "chain_step parent c (c\<lparr>ch_pending_block := p\<rparr>)"
| track: "chain_step parent c (track_addresses as c)"

inductive chain_reachable :: "(b256 \<Rightarrow> b256) \<Rightarrow> settings \<Rightarrow> chain \<Rightarrow> bool" for parent st where
  start: "chain_new st = Some c \<Longrightarrow> chain_reachable parent st c"
| step: "chain_reachable parent st c \<Longrightarrow> chain_step parent c c' \<Longrightarrow> chain_reachable parent st c'"

lemma chain_step_inv:
  "chain_step parent c c' \<Longrightarrow> chain_inv parent c \<Longrightarrow> chain_inv parent c' \<and> ch_settings c' = ch_settings c"
proof (induction rule: chain_step.induct)
  case (sync node c head c' r)
  then show ?case using sync_to_block_inv(1,2) by blast
qed (auto simp: chain_inv_def track_addresses_def)

lemma chain_reachable_inv:
  "chain_reachable parent st c \<Longrightarrow> chain_inv parent c \<and> ch_settings c = st"
proof (induction rule: chain_reachable.induct)
  case (start c)
  then show ?case by (auto simp: chain_new_def chain_inv_def split: if_splits)
next
  case (step c c')
  then show ?case using chain_step_inv by metis
qed

section \<open>The remembered blocks\<close>

text \<open>
  C7: in every state the tracker can reach, it remembers at most \<open>history_size\<close> blocks, their
  numbers are consecutive and each block is the parent of the next; and when it synchronises to a
  head, that head is the last remembered block and the latest block of the update.
\<close>
theorem chain_is_linked:
  assumes "chain_reachable parent st c" "faithful parent node" "head_ok parent st head"
    "sync_to_block node c head = (c', r)"
  shows "length (ch_blocks c') \<le> unat (set_history_size st)
    \<and> (\<forall>i. Suc i < length (ch_blocks c') \<longrightarrow>
         unat (bsum_number (ch_blocks c' ! Suc i)) = Suc (unat (bsum_number (ch_blocks c' ! i)))
         \<and> parent (bsum_hash (ch_blocks c' ! Suc i)) = bsum_hash (ch_blocks c' ! i))
    \<and> (\<forall>u. r = Done u \<longrightarrow> ch_blocks c' \<noteq> []
         \<and> bsum_hash (last (ch_blocks c')) = blk_hash head
         \<and> cu_latest_block_hash u = blk_hash head)"
proof -
  have c: "chain_inv parent c" "ch_settings c = st" using chain_reachable_inv [OF assms(1)] by auto
  note S = sync_to_block_inv [OF c(1) assms(2) _ assms(4)]
  have "chain_inv parent c'" "ch_settings c' = st" using S(1,2) assms(3) c(2) by auto
  then have "length (ch_blocks c') \<le> unat (set_history_size st)"
    "\<forall>i. Suc i < length (ch_blocks c') \<longrightarrow> follows parent (ch_blocks c' ! i) (ch_blocks c' ! Suc i)"
    by (simp_all add: chain_inv_def successively_conv_nth)
  then show ?thesis using S(3) assms(3) c(2) by (auto simp: follows_def)
qed

lemma sample_start: "chain_reachable sample_parent sample_settings (sample_chain [])"
  by (rule chain_reachable.start) (rule sample_new)

lemma sample_head_ok: "h \<in> set sample_hashes \<Longrightarrow> head_ok sample_parent sample_settings (sample_block h)"
  by (auto simp: head_ok_def sample_settings_def sample_block_def sample_hashes_def)

lemma sample_head_ok':
  "h \<in> set sample_hashes \<Longrightarrow> head_ok sample_parent (ch_settings (sample_chain hs)) (sample_block h)"
  using sample_head_ok by (simp add: sample_chain_def)

lemma sample_reachable_4: "chain_reachable sample_parent sample_settings (sample_chain [2, 3, 4])"
proof -
  obtain u where "sync_to_block sample_node (sample_chain []) (sample_block 4)
      = (sample_chain [2, 3, 4], Done u)" by (rule sample_sync_4)
  from chain_step.sync [OF sample_faithful sample_head_ok' this]
  show ?thesis by (intro chain_reachable.step [OF sample_start]) (simp add: sample_hashes_def)
qed

theorem chain_is_linked_witness:
  "\<exists>c' u. sync_to_block sample_node (sample_chain [2, 3, 4]) (sample_block 104) = (c', Done u)
     \<and> length (ch_blocks c') \<le> 3 \<and> bsum_hash (last (ch_blocks c')) = 104
     \<and> cu_latest_block_hash u = 104"
proof -
  obtain u where u: "sync_to_block sample_node (sample_chain [2, 3, 4]) (sample_block 104)
      = (sample_chain [2, 103, 104], Done u)" by (rule sample_sync_104)
  have "length (ch_blocks (sample_chain [2, 103, 104])) \<le> unat (set_history_size sample_settings)"
    "cu_latest_block_hash u = blk_hash (sample_block 104)"
    "bsum_hash (last (ch_blocks (sample_chain [2, 103, 104]))) = blk_hash (sample_block 104)"
    using chain_is_linked [OF sample_reachable_4 sample_faithful sample_head_ok u]
    by (simp_all add: sample_hashes_def)
  then show ?thesis using u by (auto simp: sample_settings_def sample_header)
qed

section \<open>Reorganisations\<close>

lemma sync_update:
  assumes "chain_inv parent c" "ch_blocks c \<noteq> []" "head_ok parent (ch_settings c) head"
    "unat (bsum_number (last (ch_blocks c))) \<le> unat (blk_number head) + unat (set_history_size (ch_settings c))"
    "unat (blk_number head) \<le> unat (bsum_number (last (ch_blocks c))) + unat (set_history_size (ch_settings c))"
    "sync_to_block node c head = (c', Done u)"
  obtains added where "load_added_blocks_connecting_to_existing_chain node c
      (bsum_number (last (ch_blocks c))) head = Done added"
    "update_with_blocks node c (bsum_number (last (ch_blocks c))) added = Done (c', u)"
proof -
  let ?cur = "bsum_number (last (ch_blocks c))" and ?h = "set_history_size (ch_settings c)"
  have "unat ?cur + unat ?h + 1 < 2 ^ 64" "unat (blk_number head) + unat ?h + 1 < 2 ^ 64"
    using assms(1-3) by (simp_all add: chain_inv_def head_ok_def)
  then have "unat (?cur + ?h) = unat ?cur + unat ?h"
    "unat (blk_number head + ?h) = unat (blk_number head) + unat ?h"
    by (simp_all add: unat_word_ariths)
  then have "\<not> ?cur > blk_number head + ?h" "\<not> ?cur + ?h < blk_number head"
    using assms(4,5) by (simp_all add: word_less_nat_alt)
  then have "and_then (load_added_blocks_connecting_to_existing_chain node c ?cur head)
      (update_with_blocks node c ?cur) = Done (c', u)"
    using assms(2,6) by (auto simp: sync_to_block_def Let_def split: outcome.splits)
  then show thesis using that by (auto simp: and_then_Done)
qed

text \<open>
  C16: when the tracker synchronises to a head that is neither below the earliest remembered block
  nor more than \<open>history_size\<close> blocks ahead, it keeps a prefix of its blocks, drops the others and
  appends new blocks that end in the head.  The reported depth of the reorganisation is the number
  of dropped blocks, the unmined operations are exactly those of the dropped blocks and the mined
  operations exactly those of the new ones, in the order of the chain.
\<close>
theorem reorg_is_accounted:
  assumes "chain_reachable parent st c" "faithful parent node" "head_ok parent st head"
    "ch_blocks c \<noteq> []" "bsum_number (hd (ch_blocks c)) \<le> blk_number head"
    "unat (blk_number head) \<le> unat (bsum_number (last (ch_blocks c))) + unat (set_history_size st)"
    "sync_to_block node c head = (c', Done u)"
  shows "\<exists>kept removed added. ch_blocks c = kept @ removed \<and> added \<noteq> []
    \<and> bsum_hash (last added) = blk_hash head
    \<and> ch_blocks c' = drop (length (kept @ added) - unat (set_history_size st)) (kept @ added)
    \<and> unat (cu_reorg_depth u) = length removed
    \<and> cu_unmined_ops u = concat (map bsum_ops removed)
    \<and> cu_mined_ops u = concat (map bsum_ops added)"
proof -
  have c: "chain_inv parent c" "ch_settings c = st" using chain_reachable_inv [OF assms(1)] by auto
  let ?bs = "ch_blocks c"
  have last: "unat (bsum_number (last ?bs)) + 1 = unat (bsum_number (hd ?bs)) + length ?bs"
    using follows_last [of parent ?bs] c(1) assms(4) by (simp add: chain_inv_def)
  have "length ?bs \<le> unat (set_history_size st)" using c by (simp add: chain_inv_def)
  then have le: "unat (bsum_number (last ?bs)) \<le> unat (blk_number head) + unat (set_history_size st)"
    using last assms(5) by (simp add: word_le_nat_alt)
  obtain added where A: "load_added_blocks_connecting_to_existing_chain node c
      (bsum_number (last ?bs)) head = Done added"
    "update_with_blocks node c (bsum_number (last ?bs)) added = Done (c', u)"
    by (rule sync_update [OF c(1) assms(4) _ _ _ assms(7)]) (use c(2) assms(3,6) le in simp_all)
  have ok: "head_ok parent (ch_settings c) head" using c(2) assms(3) by simp
  note L = load_added_result [OF c(1) assms(4) A(1) assms(2) ok]
  note U = update_with_blocks_result [OF c(1) assms(4) A(2) L(1-5)]
  let ?d = "unat (bsum_number (last ?bs)) + 1 - unat (bsum_number (hd added))"
  have "bsum_number (hd ?bs) \<le> bsum_number (hd added)"
    using load_added_first(1) [OF c(1) assms(4) A(1) assms(2) ok] assms(5) by simp
  then have d: "?d \<le> length ?bs" using last by (simp add: word_le_nat_alt)
  show ?thesis
    by (rule exI [of _ "take (length ?bs - ?d) ?bs"], rule exI [of _ "drop (length ?bs - ?d) ?bs"],
        rule exI [of _ added]) (use U(3,6,7,8) L(2,7) d c(2) in simp)
qed

theorem reorg_is_accounted_witness:
  "\<exists>c' u kept removed added.
     sync_to_block sample_node (sample_chain [2, 3, 4]) (sample_block 104) = (c', Done u)
     \<and> map sample_summary [2, 3, 4] = kept @ removed \<and> unat (cu_reorg_depth u) = length removed
     \<and> cu_unmined_ops u = concat (map bsum_ops removed)
     \<and> cu_mined_ops u = concat (map bsum_ops (added :: block_summary list))"
proof -
  obtain u where u: "sync_to_block sample_node (sample_chain [2, 3, 4]) (sample_block 104)
      = (sample_chain [2, 103, 104], Done u)" by (rule sample_sync_104)
  let ?c = "sample_chain [2, 3, 4]"
  have "head_ok sample_parent sample_settings (sample_block 104)" "ch_blocks ?c \<noteq> []"
    "bsum_number (hd (ch_blocks ?c)) \<le> blk_number (sample_block 104)"
    "unat (blk_number (sample_block 104))
       \<le> unat (bsum_number (last (ch_blocks ?c))) + unat (set_history_size sample_settings)"
    using sample_head_ok by (simp_all add: sample_simps)
  from reorg_is_accounted [OF sample_reachable_4 sample_faithful this u]
  obtain kept removed and added :: "block_summary list" where "ch_blocks ?c = kept @ removed"
    "unat (cu_reorg_depth u) = length removed" "cu_unmined_ops u = concat (map bsum_ops removed)"
    "cu_mined_ops u = concat (map bsum_ops added)"
    by (elim exE conjE) (rule that)
  then show ?thesis using u unfolding sample_retries(3) by (intro exI conjI)
qed

text \<open>
  C36: a head below the earliest remembered block, but not more than \<open>history_size\<close> blocks behind,
  is accepted.  All remembered blocks are dropped then, yet the update reports no unmined operation:
  the number of blocks to skip is computed as \<open>blocks.len() - reorg_depth\<close>, which wraps around.
\<close>
theorem deep_reorg_reports_nothing_unmined:
  assumes "chain_reachable parent st c" "faithful parent node" "head_ok parent st head"
    "ch_blocks c \<noteq> []" "blk_number head < bsum_number (hd (ch_blocks c))"
    "unat (bsum_number (last (ch_blocks c))) \<le> unat (blk_number head) + unat (set_history_size st)"
    "sync_to_block node c head = (c', Done u)"
  shows "length (ch_blocks c') = 1 \<and> bsum_hash (hd (ch_blocks c')) = blk_hash head
    \<and> length (ch_blocks c) < unat (cu_reorg_depth u) \<and> cu_unmined_ops u = []"
proof -
  have c: "chain_inv parent c" "ch_settings c = st" using chain_reachable_inv [OF assms(1)] by auto
  let ?bs = "ch_blocks c"
  have last: "unat (bsum_number (last ?bs)) + 1 = unat (bsum_number (hd ?bs)) + length ?bs"
    using follows_last [of parent ?bs] c(1) assms(4) by (simp add: chain_inv_def)
  then have le: "unat (blk_number head) \<le> unat (bsum_number (last ?bs)) + unat (set_history_size st)"
    using assms(4,5) by (cases ?bs) (auto simp: word_less_nat_alt)
  obtain added where A: "load_added_blocks_connecting_to_existing_chain node c
      (bsum_number (last ?bs)) head = Done added"
    "update_with_blocks node c (bsum_number (last ?bs)) added = Done (c', u)"
    by (rule sync_update [OF c(1) assms(4) _ _ _ assms(7)]) (use c(2) assms(3,6) le in simp_all)
  have ok: "head_ok parent (ch_settings c) head" using c(2) assms(3) by simp
  note L = load_added_result [OF c(1) assms(4) A(1) assms(2) ok]
  note U = update_with_blocks_result [OF c(1) assms(4) A(2) L(1-5)]
  have "length added = 1"
    using load_added_first(2) [OF c(1) assms(4) A(1) assms(2) ok] assms(5) by simp
  then obtain a where a: "added = [a]" by (auto simp: length_Suc_conv)
  then have n: "bsum_number a = blk_number head" "bsum_hash a = blk_hash head" using L(6,7) by simp_all
  have h: "0 < unat (set_history_size st)"
    using c by (simp add: chain_inv_def word_less_nat_alt)
  have d: "length ?bs < unat (cu_reorg_depth u)"
    using U(8) last assms(5) n(1) by (simp add: a word_less_nat_alt)
  then have "ch_blocks c' = [a]" using U(3,8) h c(2) by (simp add: a)
  then show ?thesis using d U(7,8) n by simp
qed

theorem deep_reorg_reports_nothing_unmined_witness:
  "\<exists>c' u. sync_to_block sample_node (sample_chain [2, 3, 4]) (sample_block 1) = (c', Done u)
     \<and> concat (map bsum_ops (ch_blocks (sample_chain [2, 3, 4]))) \<noteq> []
     \<and> length (ch_blocks c') = 1 \<and> bsum_hash (hd (ch_blocks c')) = 1 \<and> cu_unmined_ops u = []"
proof -
  obtain u where u: "sync_to_block sample_node (sample_chain [2, 3, 4]) (sample_block 1)
      = (sample_chain [1], Done u)" by (rule sample_sync_1)
  have ok: "head_ok sample_parent sample_settings (sample_block 1)"
    by (rule sample_head_ok) (simp add: sample_hashes_def)
  have "length (ch_blocks (sample_chain [1])) = 1
    \<and> bsum_hash (hd (ch_blocks (sample_chain [1]))) = blk_hash (sample_block 1) \<and> cu_unmined_ops u = []"
    using deep_reorg_reports_nothing_unmined [OF sample_reachable_4 sample_faithful ok _ _ _ u]
    by (simp add: sample_simps sample_settings_def)
  then show ?thesis using u by (auto simp: sample_simps)
qed

section \<open>Progress\<close>

text \<open>
  C19: the loop that waits for full blocks returns an update, at the latest for the second head the
  watcher reports, when the node serves both heads and their ancestors during the attempts.
\<close>
theorem update_arrives:
  assumes "0 < set_max_sync_retries (ch_settings c)" "0 < set_history_size (ch_settings c)"
    "\<forall>i. serves (nodes1 i) (ch_to_track c) B1" "head1 \<in> B1"
    "\<forall>i. serves (nodes2 i) (ch_to_track c) B2" "head2 \<in> B2"
  shows "\<exists>c' u. wait_for_update_full_block ((head1, nodes1) # (head2, nodes2) # heads) c
           = (c', Some (Done u))"
  by (rule wait_serves [OF assms])

theorem update_arrives_witness:
  "\<exists>c' u. wait_for_update_full_block
     [(sample_block 4, \<lambda>_. sample_node), (sample_block 3, \<lambda>_. sample_node)] (sample_chain [])
     = (c', Some (Done u))"
  by (rule update_arrives [of _ _ "sample_block ` {0, 1, 2, 3, 4}" _ _ "sample_block ` {0, 1, 2, 3, 4}"])
     (use sample_serves in \<open>simp_all add: sample_simps\<close>)

end
