(* ===== verification/Bundle_Context.thy ===== *)
theory Bundle_Context
  imports Violations "HOL-Library.Monad_Syntax"
begin

text \<open>
  The state of a bundle while it is proposed: \<open>ProposalContext\<close> of
  \<open>crates/builder/src/bundle_proposer.rs\<close> with its groups of operations per aggregator, the
  operations it rejected, the updates of entities it will send to the pool and the storage the
  bundle expects.

  A \<open>LinkedHashMap\<close> is the list of its entries in the order of insertion.  \<open>None\<close> is a panic of the
  source: an index of a map by an absent key, a slice past the end of a string, an aggregator that
  is not in the chain specification.
\<close>

section \<open>Data\<close>

record op_with_simulation =
  ows_op :: user_operation_variant
  ows_simulation :: simulation_result
  ows_sponsored_da_gas :: u128

record aggregator_group =
  ag_ops_with_simulations :: "op_with_simulation list"
  ag_signature :: bytes

definition aggregator_group_default :: aggregator_group where
  "aggregator_group_default = \<lparr>ag_ops_with_simulations = [], ag_signature = []\<rparr>"

record proposal_context =
  px_groups_by_aggregator :: "(address \<times> aggregator_group) list"
  px_rejected_ops :: "(user_operation_variant \<times> entity_infos) list"
  px_entity_updates :: "(address, entity_update) btree_map"
  px_bundle_expected_storage :: bundle_expected_storage

definition context_new :: proposal_context where
  "context_new = \<lparr>px_groups_by_aggregator = [], px_rejected_ops = [], px_entity_updates = [],
     px_bundle_expected_storage = bes_default\<rparr>"

definition context_is_empty :: "proposal_context \<Rightarrow> bool" where
  "context_is_empty c \<longleftrightarrow> px_groups_by_aggregator c = []"

definition iter_ops_with_simulations :: "proposal_context \<Rightarrow> op_with_simulation list" where
  "iter_ops_with_simulations c = concat (map (ag_ops_with_simulations \<circ> snd) (px_groups_by_aggregator c))"

definition iter_ops :: "proposal_context \<Rightarrow> user_operation_variant list" where
  "iter_ops c = map ows_op (iter_ops_with_simulations c)"

section \<open>Looking operations up\<close>

fun op_at :: "(address \<times> aggregator_group) list \<Rightarrow> nat \<Rightarrow> op_with_simulation option" where
  "op_at [] remaining_i = None"
| "op_at ((aggregator, grp) # groups) remaining_i =
     (if remaining_i < length (ag_ops_with_simulations grp)
      then Some (ag_ops_with_simulations grp ! remaining_i)
      else op_at groups (remaining_i - length (ag_ops_with_simulations grp)))"

definition get_op_at :: "proposal_context \<Rightarrow> nat \<Rightarrow> string + op_with_simulation" where
  "get_op_at c index =
     (case op_at (px_groups_by_aggregator c) index of
        Some op \<Rightarrow> Inr op
      | None \<Rightarrow> Inl ''op out of bounds'')"

fun position :: "('a \<Rightarrow> bool) \<Rightarrow> 'a list \<Rightarrow> nat option" where
  "position P [] = None"
| "position P (x # xs) = (if P x then Some 0 else map_option Suc (position P xs))"

definition get_op_index :: "proposal_context \<Rightarrow> b256 \<Rightarrow> nat option" where
  "get_op_index c h = position (\<lambda>op. uo_hash (ows_op op) = h) (iter_ops_with_simulations c)"

section \<open>Entity updates\<close>

definition add_erep_015_paymaster_amendment ::
  "proposal_context \<Rightarrow> address \<Rightarrow> u64 \<Rightarrow> proposal_context" where
  "add_erep_015_paymaster_amendment c a to_add =
     c\<lparr>px_entity_updates :=
        btm_insert a
          (case map_of (px_entity_updates c) a of
             Some e \<Rightarrow> e\<lparr>eu_value := map_option (\<lambda>v. v + to_add) (eu_value e)\<rparr>
           | None \<Rightarrow>
               \<lparr>eu_entity = \<lparr>ent_kind = Paymaster, ent_address = a\<rparr>,
                eu_update_type = PaymasterOpsSeenDecrement, eu_value = Some 1\<rparr>)
          (px_entity_updates c)\<rparr>"

fun get_entity_update_type :: "entity_type \<Rightarrow> entity_infos \<Rightarrow> entity_update_type" where
  "get_entity_update_type Account infos =
     (if ei_is_staked (eis_sender infos) then StakedInvalidation else UnstakedInvalidation)"
| "get_entity_update_type Paymaster infos =
     (case eis_paymaster infos of
        Some p \<Rightarrow> if ei_is_staked p then StakedInvalidation else UnstakedInvalidation
      | None \<Rightarrow> StakedInvalidation)"
| "get_entity_update_type Factory infos =
     (case eis_factory infos of
        Some f \<Rightarrow> if ei_is_staked f then StakedInvalidation else UnstakedInvalidation
      | None \<Rightarrow> StakedInvalidation)"
| "get_entity_update_type Aggregator infos =
     (case eis_aggregator infos of
        Some a \<Rightarrow> if ei_is_staked a then StakedInvalidation else UnstakedInvalidation
      | None \<Rightarrow> StakedInvalidation)"

definition add_entity_update ::
  "proposal_context \<Rightarrow> entity \<Rightarrow> entity_infos \<Rightarrow> proposal_context" where
  "add_entity_update c e infos =
     c\<lparr>px_entity_updates :=
        btm_insert (ent_address e)
          \<lparr>eu_entity = e, eu_update_type = get_entity_update_type (ent_kind e) infos, eu_value = None\<rparr>
          (px_entity_updates c)\<rparr>"

section \<open>Rejecting operations\<close>

definition reject_op :: "proposal_context \<Rightarrow> op_with_simulation \<Rightarrow> bool \<Rightarrow> proposal_context" where
  "reject_op c rejected paymaster_amendment =
     (let c = (if paymaster_amendment
               then (case uo_paymaster (ows_op rejected) of
                       Some paymaster \<Rightarrow> add_erep_015_paymaster_amendment c paymaster 1
                     | None \<Rightarrow> c)
               else c)
      in c\<lparr>px_rejected_ops :=
             px_rejected_ops c @ [(ows_op rejected, sr_entity_infos (ows_simulation rejected))],
           px_bundle_expected_storage :=
             bes_remove (px_bundle_expected_storage c) (sr_expected_storage (ows_simulation rejected))\<rparr>)"

definition remove_nth :: "nat \<Rightarrow> 'a list \<Rightarrow> 'a list" where
  "remove_nth i xs = take i xs @ drop (Suc i) xs"

text \<open>
  The loop of \<open>reject_index\<close>: the groups without the operation, the operation and its aggregator.
\<close>

fun take_index ::
  "(address \<times> aggregator_group) list \<Rightarrow> nat \<Rightarrow>
     (address \<times> aggregator_group) list \<times> (op_with_simulation \<times> address) option" where
  "take_index [] remaining_i = ([], None)"
| "take_index ((aggregator, grp) # groups) remaining_i =
     (let ops = ag_ops_with_simulations grp
      in if remaining_i < length ops
         then ((aggregator, grp\<lparr>ag_ops_with_simulations := remove_nth remaining_i ops\<rparr>) # groups,
               Some (ops ! remaining_i, aggregator))
         else (let (groups, found) = take_index groups (remaining_i - length ops)
               in ((aggregator, grp) # groups, found)))"

definition reject_index ::
  "proposal_context \<Rightarrow> nat \<Rightarrow> bool \<Rightarrow> proposal_context \<times> address option" where
  "reject_index c i paymaster_amendment =
     (case take_index (px_groups_by_aggregator c) i of
        (groups, None) \<Rightarrow> (c, None)
      | (groups, Some (rejected, found_aggregator)) \<Rightarrow>
          (let c = reject_op (c\<lparr>px_groups_by_aggregator := groups\<rparr>) rejected paymaster_amendment
           in if (case map_of groups found_aggregator of
                    Some grp \<Rightarrow> ag_ops_with_simulations grp = []
                  | None \<Rightarrow> True)
              then (c\<lparr>px_groups_by_aggregator := filter (\<lambda>g. fst g \<noteq> found_aggregator) groups\<rparr>, None)
              else (c, Some found_aggregator)))"

definition reject_all :: "proposal_context \<Rightarrow> proposal_context" where
  "reject_all c = ((\<lambda>c. fst (reject_index c 0 True)) ^^ length (iter_ops_with_simulations c)) c"

text \<open>
  The loop of \<open>filter_reject\<close>: the operations that match are rejected in order.
\<close>

fun filter_group ::
  "bool \<Rightarrow> (user_operation_variant \<Rightarrow> bool) \<Rightarrow> op_with_simulation list \<Rightarrow> proposal_context \<Rightarrow>
     op_with_simulation list \<times> proposal_context" where
  "filter_group amend P [] c = ([], c)"
| "filter_group amend P (op # ops) c =
     (if P (ows_op op) then filter_group amend P ops (reject_op c op amend)
      else (let (kept, c) = filter_group amend P ops c in (op # kept, c)))"

fun filter_groups ::
  "bool \<Rightarrow> (user_operation_variant \<Rightarrow> bool) \<Rightarrow> (address \<times> aggregator_group) list \<Rightarrow> proposal_context \<Rightarrow>
     (address \<times> aggregator_group) list \<times> address list \<times> proposal_context" where
  "filter_groups amend P [] c = ([], [], c)"
| "filter_groups amend P ((aggregator, grp) # groups) c =
     (if \<exists>op\<in>set (ag_ops_with_simulations grp). P (ows_op op)
      then (let (kept, c) = filter_group amend P (ag_ops_with_simulations grp) c;
                (new_groups, changed, c) = filter_groups amend P groups c
            in if kept = [] then (new_groups, changed, c)
               else ((aggregator, aggregator_group_default\<lparr>ag_ops_with_simulations := kept\<rparr>) # new_groups,
                     (if aggregator = 0 then [aggregator] else []) @ changed, c))
      else (let (new_groups, changed, c) = filter_groups amend P groups c
            in ((aggregator, grp) # new_groups, changed, c)))"

definition filter_reject ::
  "proposal_context \<Rightarrow> bool \<Rightarrow> (user_operation_variant \<Rightarrow> bool) \<Rightarrow> proposal_context \<times> address list" where
  "filter_reject c amend P =
     (let (new_groups, changed, c') = filter_groups amend P (px_groups_by_aggregator c) c
      in (c'\<lparr>px_groups_by_aggregator := new_groups\<rparr>, changed))"

definition reject_paymaster :: "proposal_context \<Rightarrow> address \<Rightarrow> proposal_context \<times> address list" where
  "reject_paymaster c a = filter_reject c False (\<lambda>op. uo_paymaster op = Some a)"

definition reject_factory :: "proposal_context \<Rightarrow> address \<Rightarrow> proposal_context \<times> address list" where
  "reject_factory c a = filter_reject c True (\<lambda>op. uo_factory op = Some a)"

definition reject_sender :: "proposal_context \<Rightarrow> address \<Rightarrow> proposal_context \<times> address list" where
  "reject_sender c a = filter_reject c True (\<lambda>op. uo_sender op = a)"

definition reject_aggregator :: "proposal_context \<Rightarrow> address \<Rightarrow> proposal_context \<times> address list" where
  "reject_aggregator c a = filter_reject c True (\<lambda>op. uo_aggregator op = Some a)"

definition context_reject_entity ::
  "proposal_context \<Rightarrow> entity \<Rightarrow> bool \<Rightarrow> proposal_context \<times> address list" where
  "context_reject_entity c e is_staked =
     (let (c, ret) =
        (case ent_kind e of
           Paymaster \<Rightarrow> reject_paymaster c (ent_address e)
         | Factory \<Rightarrow> reject_factory c (ent_address e)
         | Account \<Rightarrow> reject_sender c (ent_address e)
         | Aggregator \<Rightarrow> reject_aggregator c (ent_address e))
      in (c\<lparr>px_entity_updates :=
             btm_insert (ent_address e)
               \<lparr>eu_entity = e,
                eu_update_type = (if is_staked then StakedInvalidation else UnstakedInvalidation),
                eu_value = None\<rparr>
               (px_entity_updates c)\<rparr>, ret))"

definition apply_aggregation_signature_result ::
  "proposal_context \<Rightarrow> address \<Rightarrow> signature_aggregator_error + bytes \<Rightarrow> proposal_context option" where
  "apply_aggregation_signature_result c aggregator result =
     (case result of
        Inr sig \<Rightarrow>
          (case map_of (px_groups_by_aggregator c) aggregator of
             None \<Rightarrow> None
           | Some _ \<Rightarrow>
               Some (c\<lparr>px_groups_by_aggregator :=
                 map (\<lambda>(a, grp). (a, if a = aggregator then grp\<lparr>ag_signature := sig\<rparr> else grp))
                   (px_groups_by_aggregator c)\<rparr>))
      | Inl e \<Rightarrow> Some (fst (reject_aggregator c aggregator)))"

section \<open>Sizes and gas\<close>

definition to_ops_per_aggregator :: "proposal_context \<Rightarrow> user_ops_per_aggregator list" where
  "to_ops_per_aggregator c =
     map (\<lambda>(aggregator, grp).
        \<lparr>upa_user_ops = map ows_op (ag_ops_with_simulations grp), upa_aggregator = aggregator,
         upa_signature = ag_signature grp\<rparr>)
       (px_groups_by_aggregator c)"

definition calculate_transaction_size :: "usize \<Rightarrow> usize \<Rightarrow> usize" where
  "calculate_transaction_size bundle_data_size auth_list_count =
     8 + 20 + 20 + 32 + 8 + 32 + 32 + bundle_data_size + 65 + 50
     + (if auth_list_count > 0 then auth_list_count * (32 + 20 + 8 + 1 + 32 + 32) else 0)"

definition group_len :: "aggregator_group \<Rightarrow> u128" where
  "group_len grp = of_nat (length (ag_ops_with_simulations grp))"

fun aggregated_overhead_bytes ::
  "chain_spec \<Rightarrow> (address \<times> aggregator_group) list \<Rightarrow> u128 \<Rightarrow> u128 option" where
  "aggregated_overhead_bytes cs [] n = Some n"
| "aggregated_overhead_bytes cs ((agg, grp) # groups) n =
     (let n = n + (96 + 32 * group_len grp)
      in if agg = 0 then aggregated_overhead_bytes cs groups n
         else (case get_signature_aggregator cs agg of
                 None \<Rightarrow> None
               | Some a \<Rightarrow>
                   aggregated_overhead_bytes cs groups
                     (n + (sig_fixed_length (sa_costs a) + sig_variable_length (sa_costs a) * group_len grp))))"

definition bundle_overhead_bytes :: "proposal_context \<Rightarrow> chain_spec \<Rightarrow> u128 option" where
  "bundle_overhead_bytes c cs =
     (case px_groups_by_aggregator c of
        [(agg, grp)] \<Rightarrow>
          if agg = 0 then Some (ucast BUNDLE_BYTE_OVERHEAD + 32 * group_len grp)
          else aggregated_overhead_bytes cs [(agg, grp)] (ucast BUNDLE_BYTE_OVERHEAD)
      | groups \<Rightarrow> aggregated_overhead_bytes cs groups (ucast BUNDLE_BYTE_OVERHEAD))"

definition get_bundle_transaction_size :: "proposal_context \<Rightarrow> chain_spec \<Rightarrow> u128 option" where
  "get_bundle_transaction_size c cs =
     do {
       bundle_overhead \<leftarrow> bundle_overhead_bytes c cs;
       let ops = iter_ops_with_simulations c;
       let ops_data_size = sum_list (map (\<lambda>op. ucast (uo_abi_encoded_size (ows_op op))) ops);
       let auth_list_count =
         sum_list (map (\<lambda>op. case uo_authorization_tuple (ows_op op) of None \<Rightarrow> 0 | Some _ \<Rightarrow> 1) ops);
       Some (ucast (calculate_transaction_size (ucast (bundle_overhead + ops_data_size)) auth_list_count))
     }"

fun aggregators_fixed_gas :: "chain_spec \<Rightarrow> address list \<Rightarrow> u128 \<Rightarrow> u128 option" where
  "aggregators_fixed_gas cs [] gas_limit = Some gas_limit"
| "aggregators_fixed_gas cs (agg # aggs) gas_limit =
     (if agg = 0 then aggregators_fixed_gas cs aggs gas_limit
      else (case get_signature_aggregator cs agg of
              None \<Rightarrow> None
            | Some a \<Rightarrow> aggregators_fixed_gas cs aggs (gas_limit + execution_fixed_gas (sa_costs a))))"

definition get_bundle_gas_limit_inner ::
  "alloy \<Rightarrow> proposal_context \<Rightarrow> chain_spec \<Rightarrow> bool \<Rightarrow> u128 option" where
  "get_bundle_gas_limit_inner al c cs include_da_gas =
     do {
       gas_limit \<leftarrow> aggregators_fixed_gas cs (map fst (px_groups_by_aggregator c)) (bundle_shared_gas cs);
       let gas_limit = gas_limit + sum_list (map (\<lambda>op.
             if include_da_gas then bundle_gas_limit al (ows_op op) cs None + ows_sponsored_da_gas op
             else bundle_computation_gas_limit al (ows_op op) cs None)
           (iter_ops_with_simulations c));
       overhead \<leftarrow> bundle_overhead_bytes c cs;
       let calldata_floor_gas_limit = overhead * calldata_floor_non_zero_byte_gas cs
           + sum_list (map (\<lambda>op. uo_calldata_floor_gas_limit (ows_op op)) (iter_ops_with_simulations c));
       Some (if calldata_floor_gas_limit > gas_limit then calldata_floor_gas_limit else gas_limit)
     }"

definition get_bundle_computation_gas_limit ::
  "alloy \<Rightarrow> proposal_context \<Rightarrow> chain_spec \<Rightarrow> u128 option" where
  "get_bundle_computation_gas_limit al c cs = get_bundle_gas_limit_inner al c cs False"

definition get_bundle_cost :: "alloy \<Rightarrow> proposal_context \<Rightarrow> chain_spec \<Rightarrow> u128 \<Rightarrow> u256 option" where
  "get_bundle_cost al c cs gas_price =
     map_option (\<lambda>gas. ucast gas * ucast gas_price) (get_bundle_gas_limit_inner al c cs True)"

definition get_bundle_gas_limit :: "alloy \<Rightarrow> proposal_context \<Rightarrow> chain_spec \<Rightarrow> u128 option" where
  "get_bundle_gas_limit al c cs =
     get_bundle_gas_limit_inner al c cs (cs_include_da_gas_in_gas_limit cs)"

section \<open>Violations found when an operation is simulated again\<close>

text \<open>
  \<open>&s[..n]\<close>: a string is its bytes, and a slice that does not end at the border of a character
  panics.
\<close>

definition str_prefix :: "nat \<Rightarrow> string \<Rightarrow> string option" where
  "str_prefix n s =
     (if n = length s \<or> n < length s \<and> (of_char (s ! n) :: nat) \<notin> {128..<192}
      then Some (take n s) else None)"

definition add_reverted_entity ::
  "proposal_context \<Rightarrow> entity_type \<Rightarrow> address option \<Rightarrow> entity_infos \<Rightarrow> proposal_context" where
  "add_reverted_entity c kind a infos =
     (case a of
        None \<Rightarrow> c
      | Some entity_address \<Rightarrow>
          add_entity_update c \<lparr>ent_kind = kind, ent_address = entity_address\<rparr> infos)"

fun process_violation ::
  "entity_infos \<Rightarrow> simulation_violation \<Rightarrow> proposal_context \<times> bool \<Rightarrow> (proposal_context \<times> bool) option" where
  "process_violation infos (UsedForbiddenOpcode e _ _) (c, amend) = Some (add_entity_update c e infos, amend)"
| "process_violation infos (UsedForbiddenPrecompile e _ _) (c, amend) = Some (add_entity_update c e infos, amend)"
| "process_violation infos (AccessedUndeployedContract e _) (c, amend) = Some (add_entity_update c e infos, amend)"
| "process_violation infos (InvalidStorageAccess e _) (c, amend) = Some (add_entity_update c e infos, amend)"
| "process_violation infos (CalledBannedEntryPointMethod e) (c, amend) = Some (add_entity_update c e infos, amend)"
| "process_violation infos (CallHadValue e) (c, amend) = Some (add_entity_update c e infos, amend)"
| "process_violation infos (NotStaked stake_data) (c, amend) =
     Some (add_entity_update c (nsi_needs_stake stake_data) infos, amend)"
| "process_violation infos (UnintendedRevertWithMessage kind message a) (c, amend) =
     do {
       code \<leftarrow> str_prefix 4 message;
       Some (if code \<in> {''AA10'', ''AA25''} then c else add_reverted_entity c kind a infos, amend)
     }"
| "process_violation infos (UnintendedRevert kind a) (c, amend) =
     Some (add_reverted_entity c kind a infos, amend)"
| "process_violation infos (ValidationRevert (VR_Operation entry_point_reason _ _)) (c, amend) =
     do {
       code \<leftarrow> str_prefix 3 entry_point_reason;
       Some (c, amend \<or> code \<in> {''AA1'', ''AA2''})
     }"
| "process_violation infos (OutOfGas e) (c, amend) = Some (add_entity_update c e infos, amend)"
| "process_violation infos _ (c, amend) = Some (c, amend)"

fun process_violations ::
  "entity_infos \<Rightarrow> simulation_violation list \<Rightarrow> proposal_context \<times> bool \<Rightarrow> (proposal_context \<times> bool) option" where
  "process_violations infos [] s = Some s"
| "process_violations infos (v # vs) s =
     do { s \<leftarrow> process_violation infos v s; process_violations infos vs s }"

definition amend_paymaster_of :: "proposal_context \<Rightarrow> entity_infos \<Rightarrow> proposal_context" where
  "amend_paymaster_of c infos =
     (case eis_paymaster infos of
        Some paymaster \<Rightarrow> add_erep_015_paymaster_amendment c (ent_address (ei_entity paymaster)) 1
      | None \<Rightarrow> c)"

definition add_staked_invalidation :: "proposal_context \<Rightarrow> entity \<Rightarrow> proposal_context" where
  "add_staked_invalidation c e =
     c\<lparr>px_entity_updates :=
        btm_insert (ent_address e)
          \<lparr>eu_entity = e, eu_update_type = StakedInvalidation, eu_value = None\<rparr>
          (px_entity_updates c)\<rparr>"

definition process_simulation_violations ::
  "proposal_context \<Rightarrow> user_operation_variant \<Rightarrow> simulation_violation list \<Rightarrow> entity_infos \<Rightarrow>
     proposal_context option" where
  "process_simulation_violations c op violations infos =
     (let c = c\<lparr>px_rejected_ops := px_rejected_ops c @ [(op, infos)]\<rparr>;
          is_staked_factory = (case eis_factory infos of Some f \<Rightarrow> ei_is_staked f | None \<Rightarrow> False);
          is_staked_sender = ei_is_staked (eis_sender infos);
          c = (if is_staked_factory \<or> is_staked_sender then amend_paymaster_of c infos else c)
      in if is_staked_factory
         then map_option (\<lambda>factory. add_staked_invalidation c (ei_entity factory)) (eis_factory infos)
         else if is_staked_sender
         then Some (add_staked_invalidation c (ei_entity (eis_sender infos)))
         else do {
           (c, paymaster_amendment_required) \<leftarrow> process_violations infos violations (c, False);
           Some (if paymaster_amendment_required then amend_paymaster_of c infos else c)
         })"

end
