(* ===== verification/Tx_Sender.thy ===== *)
theory Tx_Sender
  imports Storage Gas_Fees User_Op_Types
begin

text \<open>
  The ways a transaction is handed to the network, \<open>crates/builder/src/sender\<close>: a plain or
  conditional \<open>eth_sendRawTransaction\<close>, the Flashbots relay and the Bloxroute endpoint, and the
  classification of the errors of the node.

  \<open>transaction_request\<close> has the fields of alloy's \<open>TransactionRequest\<close> that the code sets or reads.
  The signer, the node and the two relays are the record \<open>sender_env\<close>.
\<close>

section \<open>Data\<close>

record transaction_request =
  trq_from :: "address option"
  trq_to :: "address option"
  trq_chain_id :: "u64 option"
  trq_nonce :: "u64 option"
  trq_gas :: "u64 option"
  trq_max_fee_per_gas :: "u128 option"
  trq_max_priority_fee_per_gas :: "u128 option"
  trq_input :: "bytes option"
  trq_authorization_list :: "eip7702_auth list option"

definition transaction_request_default :: transaction_request where
  "transaction_request_default =
     \<lparr>trq_from = None, trq_to = None, trq_chain_id = None, trq_nonce = None, trq_gas = None,
      trq_max_fee_per_gas = None, trq_max_priority_fee_per_gas = None, trq_input = None,
      trq_authorization_list = None\<rparr>"

record cancel_tx_info =
  cti_tx_hash :: b256
  cti_soft_cancelled :: bool

datatype tx_sender_error =
  TS_Underpriced
  | TS_ReplacementUnderpriced
  | TS_NonceTooLow
  | TS_ConditionNotMet
  | TS_Rejected
  | TS_SoftCancelFailed
  | TS_InsufficientFunds
  | TS_Other string

text \<open>
  Errors of the node: an RPC error carries the message and the code of the response when there was
  one.
\<close>

datatype provider_error = RPC "(string \<times> int) option" string | ContractError string | ProviderOther string

datatype client_error = Call string int | OtherClientError string

section \<open>Classification of errors\<close>

definition char_to_lower :: "char \<Rightarrow> char" where
  "char_to_lower c = (if 65 \<le> (of_char c :: nat) \<and> (of_char c :: nat) \<le> 90 then char_of ((of_char c :: nat) + 32) else c)"

fun starts_with :: "string \<Rightarrow> string \<Rightarrow> bool" where
  "starts_with [] s = True"
| "starts_with (c # p) [] = False"
| "starts_with (c # p) (d # s) = (c = d \<and> starts_with p s)"

fun str_contains :: "string \<Rightarrow> string \<Rightarrow> bool" where
  "str_contains [] p = (p = [])"
| "str_contains (c # s) p = (starts_with p (c # s) \<or> str_contains s p)"

definition parse_known_call_execution_failed :: "string \<Rightarrow> int \<Rightarrow> tx_sender_error option" where
  "parse_known_call_execution_failed message code =
     (let m = map char_to_lower message
      in if str_contains m ''future transaction tries to replace pending'' then Some TS_Rejected
         else if str_contains m ''replacement transaction underpriced'' then Some TS_ReplacementUnderpriced
         else if str_contains m ''could not replace existing tx'' then Some TS_ReplacementUnderpriced
         else if str_contains m ''nonce too low'' then Some TS_NonceTooLow
         else if str_contains m ''transaction underpriced'' then Some TS_Underpriced
         else if str_contains m ''txpool is full'' then Some TS_Underpriced
         else if str_contains m ''underpriced'' then Some TS_Underpriced
         else if str_contains m ''insufficient funds'' then Some TS_InsufficientFunds
         else if str_contains m ''condition not met'' then Some TS_ConditionNotMet
         else if code = -32003 \<or> code = -32005 then Some TS_ConditionNotMet
         else None)"

fun tx_sender_error_from_provider :: "provider_error \<Rightarrow> tx_sender_error" where
  "tx_sender_error_from_provider (RPC (Some (message, code)) text) =
     (case parse_known_call_execution_failed message code of
        Some e \<Rightarrow> e
      | None \<Rightarrow> TS_Other text)"
| "tx_sender_error_from_provider (RPC None text) = TS_Other text"
| "tx_sender_error_from_provider (ContractError text) = TS_Other text"
| "tx_sender_error_from_provider (ProviderOther text) = TS_Other text"

fun tx_sender_error_from_client :: "client_error \<Rightarrow> tx_sender_error" where
  "tx_sender_error_from_client (Call message code) =
     (case parse_known_call_execution_failed message code of
        Some e \<Rightarrow> e
      | None \<Rightarrow> TS_Other message)"
| "tx_sender_error_from_client (OtherClientError text) = TS_Other text"

section \<open>The three senders\<close>

record sender_env =
  se_signer_address :: address
  se_sign_tx_raw :: "transaction_request \<Rightarrow> string + bytes"
  se_send_raw_transaction :: "bytes \<Rightarrow> provider_error + b256"
  se_send_raw_transaction_conditional :: "bytes \<Rightarrow> expected_storage \<Rightarrow> provider_error + b256"
  se_polygon_private_tx :: "bytes \<Rightarrow> client_error + b256"
  se_send_private_transaction :: "bytes \<Rightarrow> string list \<Rightarrow> string + b256"
  se_cancel_private_transaction :: "b256 \<Rightarrow> string + bool"

datatype transaction_sender_enum =
  Raw bool
  | Flashbots "string list"
  | PolygonBloxroute

definition create_hard_cancel_tx :: "address \<Rightarrow> u64 \<Rightarrow> gas_fees \<Rightarrow> transaction_request" where
  "create_hard_cancel_tx to nonce fees =
     transaction_request_default
       \<lparr>trq_to := Some to, trq_nonce := Some nonce, trq_gas := Some 30000,
        trq_max_fee_per_gas := Some (gf_max_fee_per_gas fees),
        trq_max_priority_fee_per_gas := Some (gf_max_priority_fee_per_gas fees)\<rparr>"

definition raw_send_transaction ::
  "sender_env \<Rightarrow> bool \<Rightarrow> transaction_request \<Rightarrow> expected_storage \<Rightarrow> tx_sender_error + b256" where
  "raw_send_transaction se use_conditional_rpc tx expected_storage =
     (case se_sign_tx_raw se tx of
        Inl e \<Rightarrow> Inl (TS_Other e)
      | Inr raw_tx \<Rightarrow>
          (case (if use_conditional_rpc then se_send_raw_transaction_conditional se raw_tx expected_storage
                 else se_send_raw_transaction se raw_tx) of
             Inl e \<Rightarrow> Inl (tx_sender_error_from_provider e)
           | Inr tx_hash \<Rightarrow> Inr tx_hash))"

definition raw_cancel_transaction ::
  "sender_env \<Rightarrow> u64 \<Rightarrow> gas_fees \<Rightarrow> tx_sender_error + cancel_tx_info" where
  "raw_cancel_transaction se nonce fees =
     (case se_sign_tx_raw se (create_hard_cancel_tx (se_signer_address se) nonce fees) of
        Inl e \<Rightarrow> Inl (TS_Other e)
      | Inr raw_tx \<Rightarrow>
          (case se_send_raw_transaction se raw_tx of
             Inl e \<Rightarrow> Inl (tx_sender_error_from_provider e)
           | Inr tx_hash \<Rightarrow> Inr \<lparr>cti_tx_hash = tx_hash, cti_soft_cancelled = False\<rparr>))"

definition flashbots_send_transaction ::
  "sender_env \<Rightarrow> string list \<Rightarrow> transaction_request \<Rightarrow> tx_sender_error + b256" where
  "flashbots_send_transaction se builders tx =
     (case se_sign_tx_raw se tx of
        Inl e \<Rightarrow> Inl (TS_Other e)
      | Inr raw_tx \<Rightarrow>
          (case se_send_private_transaction se raw_tx builders of
             Inl e \<Rightarrow> Inl (TS_Other e)
           | Inr tx_hash \<Rightarrow> Inr tx_hash))"

definition flashbots_cancel_transaction ::
  "sender_env \<Rightarrow> b256 \<Rightarrow> tx_sender_error + cancel_tx_info" where
  "flashbots_cancel_transaction se tx_hash =
     (case se_cancel_private_transaction se tx_hash of
        Inl e \<Rightarrow> Inl (TS_Other e)
      | Inr success \<Rightarrow>
          if \<not> success then Inl TS_SoftCancelFailed
          else Inr \<lparr>cti_tx_hash = 0, cti_soft_cancelled = True\<rparr>)"

definition bloxroute_send_transaction ::
  "sender_env \<Rightarrow> transaction_request \<Rightarrow> tx_sender_error + b256" where
  "bloxroute_send_transaction se tx =
     (case se_sign_tx_raw se tx of
        Inl e \<Rightarrow> Inl (TS_Other e)
      | Inr raw_tx \<Rightarrow>
          (case se_polygon_private_tx se raw_tx of
             Inl e \<Rightarrow> Inl (tx_sender_error_from_client e)
           | Inr tx_hash \<Rightarrow> Inr tx_hash))"

definition bloxroute_cancel_transaction ::
  "sender_env \<Rightarrow> u64 \<Rightarrow> gas_fees \<Rightarrow> tx_sender_error + cancel_tx_info" where
  "bloxroute_cancel_transaction se nonce fees =
     (case se_sign_tx_raw se (create_hard_cancel_tx (se_signer_address se) nonce fees) of
        Inl e \<Rightarrow> Inl (TS_Other e)
      | Inr raw_tx \<Rightarrow>
          (case se_send_raw_transaction se raw_tx of
             Inl e \<Rightarrow> Inl (tx_sender_error_from_provider e)
           | Inr tx_hash \<Rightarrow> Inr \<lparr>cti_tx_hash = tx_hash, cti_soft_cancelled = False\<rparr>))"

fun sender_send_transaction ::
  "sender_env \<Rightarrow> transaction_sender_enum \<Rightarrow> transaction_request \<Rightarrow> expected_storage \<Rightarrow>
     tx_sender_error + b256" where
  "sender_send_transaction se (Raw conditional) tx es = raw_send_transaction se conditional tx es"
| "sender_send_transaction se (Flashbots builders) tx es = flashbots_send_transaction se builders tx"
| "sender_send_transaction se PolygonBloxroute tx es = bloxroute_send_transaction se tx"

fun sender_cancel_transaction ::
  "sender_env \<Rightarrow> transaction_sender_enum \<Rightarrow> b256 \<Rightarrow> u64 \<Rightarrow> gas_fees \<Rightarrow> tx_sender_error + cancel_tx_info" where
  "sender_cancel_transaction se (Raw conditional) tx_hash nonce fees = raw_cancel_transaction se nonce fees"
| "sender_cancel_transaction se (Flashbots builders) tx_hash nonce fees = flashbots_cancel_transaction se tx_hash"
| "sender_cancel_transaction se PolygonBloxroute tx_hash nonce fees = bloxroute_cancel_transaction se nonce fees"

section \<open>Facts\<close>

lemma starts_with_append [simp]: "starts_with p (p @ s)"
  by (induction p) auto

lemma starts_with_iff: "starts_with p s \<longleftrightarrow> (\<exists>r. s = p @ r)"
  by (induction p s rule: starts_with.induct) auto

lemma str_contains_iff: "str_contains s p \<longleftrightarrow> (\<exists>l r. s = l @ p @ r)"
proof (induction s)
  case (Cons c s)
  have "(\<exists>l r. c # s = l @ p @ r) \<longleftrightarrow> (\<exists>r. c # s = p @ r) \<or> (\<exists>l r. s = l @ p @ r)"
    by (metis append_Cons append_Nil neq_Nil_conv list.inject)
  with Cons.IH show ?case by (simp add: starts_with_iff)
qed auto

text \<open>A soft cancellation is only ever reported by the Flashbots relay.\<close>

lemma soft_cancelled_flashbots:
  "sender_cancel_transaction se s tx_hash nonce fees = Inr info \<Longrightarrow>
     cti_soft_cancelled info \<longleftrightarrow> (\<exists>builders. s = Flashbots builders)"
  by (cases s)
    (auto simp: raw_cancel_transaction_def bloxroute_cancel_transaction_def
      flashbots_cancel_transaction_def split: sum.splits if_splits)

end
