(* ===== verification/Entry_Point_Calls.thy ===== *)
theory Entry_Point_Calls
  imports User_Operation Tx_Sender
begin

text \<open>
  The calls of the entry point contract that carry a bundle, from
  \<open>crates/provider/src/alloy/entry_point/v0_6.rs\<close> and \<open>v0_7.rs\<close>: building the transaction, calling
  it to validate a bundle, decoding its revert and decoding the operations of its calldata.

  The ABI coder that alloy generates from the contract is the record \<open>entry_point_abi\<close>; the call to
  the node is an argument.
\<close>

section \<open>Data\<close>

datatype handle_ops_out =
  HO_Success
  | HO_FailedOp usize string
  | HO_SignatureValidationFailed address
  | HO_PostOpRevert
  | HO_Revert bytes

record 'o abi_ops_per_aggregator =
  aopa_userOps :: "'o list"
  aopa_aggregator :: address
  aopa_signature :: bytes

datatype 'o entry_point_call =
  handleOps "'o list" address
  | handleAggregatedOps "'o abi_ops_per_aggregator list" address
  | OtherCall bytes

datatype entry_point_errors_v0_6 =
  EP6_FailedOp u256 string
  | EP6_SignatureValidationFailed address
  | EP6_ValidationResult
  | EP6_ValidationResultWithAggregation
  | EP6_ExecutionResult

datatype entry_point_errors_v0_7 =
  EP7_FailedOp u256 string
  | EP7_FailedOpWithRevert u256 string bytes
  | EP7_SignatureValidationFailed address

record entry_point_abi =
  abi_encode_call_v0_6 :: "contract_user_operation entry_point_call \<Rightarrow> bytes"
  abi_decode_call_v0_6 :: "bytes \<Rightarrow> contract_user_operation entry_point_call option"
  abi_decode_errors_v0_6 :: "bytes \<Rightarrow> entry_point_errors_v0_6 option"
  abi_encode_call_v0_7 :: "packed_user_operation entry_point_call \<Rightarrow> bytes"
  abi_decode_call_v0_7 :: "bytes \<Rightarrow> packed_user_operation entry_point_call option"
  abi_decode_errors_v0_7 :: "bytes \<Rightarrow> entry_point_errors_v0_7 option"

text \<open>An error of the node: the message of its response and the revert data found in it.\<close>

datatype transport_error = ErrorResp string "bytes option" | TransportOther string

section \<open>Building the transaction\<close>

fun as_v0_6 :: "user_operation_variant \<Rightarrow> user_operation_v0_6 option" where
  "as_v0_6 (V0_6 op) = Some op"
| "as_v0_6 (V0_7 op) = None"

fun as_v0_7 :: "user_operation_variant \<Rightarrow> user_operation_v0_7 option" where
  "as_v0_7 (V0_7 op) = Some op"
| "as_v0_7 (V0_6 op) = None"

definition authorization_list :: "user_ops_per_aggregator list \<Rightarrow> eip7702_auth list" where
  "authorization_list groups =
     List.map_filter uo_authorization_tuple (concat (map upa_user_ops groups))"

definition bundle_transaction ::
  "address \<Rightarrow> bytes \<Rightarrow> eip7702_auth list \<Rightarrow> address \<Rightarrow> u64 \<Rightarrow> gas_fees \<Rightarrow> address option \<Rightarrow> u64 \<Rightarrow>
     transaction_request" where
  "bundle_transaction entry_point input auths sender_eoa gas_limit fees proxy chain_id =
     \<lparr>trq_from = Some sender_eoa,
      trq_to = Some (case proxy of Some p \<Rightarrow> p | None \<Rightarrow> entry_point),
      trq_chain_id = Some chain_id, trq_nonce = None, trq_gas = Some gas_limit,
      trq_max_fee_per_gas = Some (gf_max_fee_per_gas fees),
      trq_max_priority_fee_per_gas = Some (gf_max_priority_fee_per_gas fees),
      trq_input = Some input,
      trq_authorization_list = (if auths \<noteq> [] then Some auths else None)\<rparr>"

definition entry_point_call_of ::
  "'o abi_ops_per_aggregator list \<Rightarrow> address \<Rightarrow> 'o entry_point_call" where
  "entry_point_call_of groups sender_eoa =
     (if length groups = 1 \<and> aopa_aggregator (hd groups) = 0
      then handleOps (aopa_userOps (hd groups)) sender_eoa
      else handleAggregatedOps groups sender_eoa)"

definition abi_group ::
  "(user_operation_variant \<Rightarrow> 'o) \<Rightarrow> user_ops_per_aggregator \<Rightarrow> 'o abi_ops_per_aggregator" where
  "abi_group f uoa =
     \<lparr>aopa_userOps = map f (upa_user_ops uoa), aopa_aggregator = upa_aggregator uoa,
      aopa_signature = upa_signature uoa\<rparr>"

text \<open>
  The operations of a bundle have the version of its entry point; a bundle is a list of variants
  here, and an operation of the other version has no encoding (\<open>None\<close>).
\<close>

definition get_handle_ops_call_v0_6 ::
  "entry_point_abi \<Rightarrow> chain_spec \<Rightarrow> user_ops_per_aggregator list \<Rightarrow> address \<Rightarrow> u64 \<Rightarrow> gas_fees \<Rightarrow>
     address option \<Rightarrow> transaction_request option" where
  "get_handle_ops_call_v0_6 abi cs groups sender_eoa gas_limit fees proxy =
     (if \<exists>g\<in>set groups. \<exists>op\<in>set (upa_user_ops g). as_v0_6 op = None then None
      else Some (bundle_transaction (cs_entry_point_address_v0_6 cs)
        (abi_encode_call_v0_6 abi
          (entry_point_call_of
            (map (abi_group (contract_user_operation_from \<circ> the \<circ> as_v0_6)) groups) sender_eoa))
        (authorization_list groups) sender_eoa gas_limit fees proxy (cs_id cs)))"

definition get_handle_ops_call_v0_7 ::
  "entry_point_abi \<Rightarrow> chain_spec \<Rightarrow> user_ops_per_aggregator list \<Rightarrow> address \<Rightarrow> u64 \<Rightarrow> gas_fees \<Rightarrow>
     address option \<Rightarrow> transaction_request option" where
  "get_handle_ops_call_v0_7 abi cs groups sender_eoa gas_limit fees proxy =
     (if \<exists>g\<in>set groups. \<exists>op\<in>set (upa_user_ops g). as_v0_7 op = None then None
      else Some (bundle_transaction (cs_entry_point_address_v0_7 cs)
        (abi_encode_call_v0_7 abi
          (entry_point_call_of
            (map (abi_group (u7_packed \<circ> the \<circ> as_v0_7)) groups) sender_eoa))
        (authorization_list groups) sender_eoa gas_limit fees proxy (cs_id cs)))"

fun get_send_bundle_transaction ::
  "entry_point_abi \<Rightarrow> chain_spec \<Rightarrow> entry_point_version \<Rightarrow> user_ops_per_aggregator list \<Rightarrow> address \<Rightarrow>
     u64 \<Rightarrow> gas_fees \<Rightarrow> address option \<Rightarrow> transaction_request option" where
  "get_send_bundle_transaction abi cs EP_V0_6 = get_handle_ops_call_v0_6 abi cs"
| "get_send_bundle_transaction abi cs EP_V0_7 = get_handle_ops_call_v0_7 abi cs"
| "get_send_bundle_transaction abi cs Unspecified = (\<lambda>groups eoa gas fees proxy. None)"

section \<open>Decoding a revert\<close>

definition usize_or_max :: "u256 \<Rightarrow> usize" where
  "usize_or_max x = (if unat x < 2 ^ 64 then ucast x else - 1)"

definition decode_handle_ops_revert_v0_6 ::
  "entry_point_abi \<Rightarrow> string \<Rightarrow> bytes option \<Rightarrow> handle_ops_out option" where
  "decode_handle_ops_revert_v0_6 abi message revert_data =
     (case revert_data of
        Some data \<Rightarrow>
          Some (case abi_decode_errors_v0_6 abi data of
                  Some (EP6_FailedOp op_index reason) \<Rightarrow> HO_FailedOp (usize_or_max op_index) reason
                | Some (EP6_SignatureValidationFailed aggregator) \<Rightarrow> HO_SignatureValidationFailed aggregator
                | Some EP6_ValidationResult \<Rightarrow> HO_Revert data
                | Some EP6_ValidationResultWithAggregation \<Rightarrow> HO_Revert data
                | Some EP6_ExecutionResult \<Rightarrow> HO_Revert data
                | None \<Rightarrow> HO_Revert data)
      | None \<Rightarrow>
          if str_contains message ''return data out of bounds'' then Some HO_PostOpRevert else None)"

definition hex_digit :: "nat \<Rightarrow> char" where
  "hex_digit n = char_of (if n < 10 then n + 48 else n + 87)"

text \<open>\<open>Bytes\<close> are printed in hexadecimal after \<open>0x\<close>.\<close>

definition bytes_to_string :: "bytes \<Rightarrow> string" where
  "bytes_to_string bs = ''0x'' @ concat (map (\<lambda>b. [hex_digit (unat b div 16), hex_digit (unat b mod 16)]) bs)"

definition decode_handle_ops_revert_v0_7 ::
  "entry_point_abi \<Rightarrow> string \<Rightarrow> bytes option \<Rightarrow> handle_ops_out option" where
  "decode_handle_ops_revert_v0_7 abi message revert_data =
     (case revert_data of
        None \<Rightarrow> None
      | Some data \<Rightarrow>
          Some (case abi_decode_errors_v0_7 abi data of
                  Some (EP7_FailedOp op_index reason) \<Rightarrow> HO_FailedOp (usize_or_max op_index) reason
                | Some (EP7_FailedOpWithRevert op_index reason inner) \<Rightarrow>
                    HO_FailedOp (usize_or_max op_index) (reason @ '':'' @ bytes_to_string inner)
                | Some (EP7_SignatureValidationFailed aggregator) \<Rightarrow> HO_SignatureValidationFailed aggregator
                | None \<Rightarrow> HO_Revert data))"

fun decode_handle_ops_revert ::
  "entry_point_abi \<Rightarrow> entry_point_version \<Rightarrow> string \<Rightarrow> bytes option \<Rightarrow> handle_ops_out option" where
  "decode_handle_ops_revert abi EP_V0_6 = decode_handle_ops_revert_v0_6 abi"
| "decode_handle_ops_revert abi EP_V0_7 = decode_handle_ops_revert_v0_7 abi"
| "decode_handle_ops_revert abi Unspecified = (\<lambda>message data. None)"

section \<open>Decoding the operations of a bundle\<close>

text \<open>\<open>from_contract\<close> followed by \<open>build\<close>; an operation that does not convert is left out.\<close>

definition decode_op_v0_6 ::
  "alloy \<Rightarrow> chain_spec \<Rightarrow> address option \<Rightarrow> contract_user_operation \<Rightarrow> user_operation_variant option" where
  "decode_op_v0_6 al cs aggregator op =
     (case builder6_from_contract cs op of
        Inl e \<Rightarrow> None
      | Inr b \<Rightarrow>
          Some (V0_6 (builder6_build al
            (case aggregator of Some a \<Rightarrow> b\<lparr>b6_aggregator := Some a\<rparr> | None \<Rightarrow> b))))"

definition decode_ops_from_calldata_v0_6 ::
  "alloy \<Rightarrow> entry_point_abi \<Rightarrow> chain_spec \<Rightarrow> bytes \<Rightarrow> user_ops_per_aggregator list" where
  "decode_ops_from_calldata_v0_6 al abi cs calldata =
     (case abi_decode_call_v0_6 abi calldata of
        None \<Rightarrow> []
      | Some (handleOps ops beneficiary) \<Rightarrow>
          [\<lparr>upa_user_ops = List.map_filter (decode_op_v0_6 al cs None) ops, upa_aggregator = 0,
            upa_signature = []\<rparr>]
      | Some (handleAggregatedOps groups beneficiary) \<Rightarrow>
          map (\<lambda>g. \<lparr>upa_user_ops =
                     List.map_filter (decode_op_v0_6 al cs (Some (aopa_aggregator g))) (aopa_userOps g),
                   upa_aggregator = aopa_aggregator g, upa_signature = aopa_signature g\<rparr>) groups
      | Some (OtherCall data) \<Rightarrow> [])"

text \<open>
  In version 0.7 \<open>from_packed\<close> may panic, so the outer option is \<open>None\<close> for a panic; the aggregator
  of a group is not recorded in its operations.
\<close>

definition decode_op_v0_7 ::
  "alloy \<Rightarrow> chain_spec \<Rightarrow> packed_user_operation \<Rightarrow> user_operation_variant option option" where
  "decode_op_v0_7 al cs op =
     (case builder7_from_packed op cs of
        None \<Rightarrow> None
      | Some (Inl e) \<Rightarrow> Some None
      | Some (Inr b) \<Rightarrow> Some (Some (V0_7 (builder7_build al b))))"

fun try_filter_map :: "('a \<Rightarrow> 'b option option) \<Rightarrow> 'a list \<Rightarrow> 'b list option" where
  "try_filter_map f [] = Some []"
| "try_filter_map f (x # xs) =
     (case f x of
        None \<Rightarrow> None
      | Some None \<Rightarrow> try_filter_map f xs
      | Some (Some y) \<Rightarrow> map_option (Cons y) (try_filter_map f xs))"

definition decode_group_v0_7 ::
  "alloy \<Rightarrow> chain_spec \<Rightarrow> packed_user_operation abi_ops_per_aggregator \<Rightarrow>
     user_ops_per_aggregator option option" where
  "decode_group_v0_7 al cs g =
     (case try_filter_map (decode_op_v0_7 al cs) (aopa_userOps g) of
        None \<Rightarrow> None
      | Some ops \<Rightarrow>
          Some (Some \<lparr>upa_user_ops = ops, upa_aggregator = aopa_aggregator g,
                      upa_signature = aopa_signature g\<rparr>))"

definition decode_ops_from_calldata_v0_7 ::
  "alloy \<Rightarrow> entry_point_abi \<Rightarrow> chain_spec \<Rightarrow> bytes \<Rightarrow> user_ops_per_aggregator list option" where
  "decode_ops_from_calldata_v0_7 al abi cs calldata =
     (case abi_decode_call_v0_7 abi calldata of
        None \<Rightarrow> Some []
      | Some (handleOps ops beneficiary) \<Rightarrow>
          try_filter_map (decode_group_v0_7 al cs)
            [\<lparr>aopa_userOps = ops, aopa_aggregator = 0, aopa_signature = []\<rparr>]
      | Some (handleAggregatedOps groups beneficiary) \<Rightarrow> try_filter_map (decode_group_v0_7 al cs) groups
      | Some (OtherCall data) \<Rightarrow> Some [])"

fun decode_ops_from_calldata ::
  "alloy \<Rightarrow> entry_point_abi \<Rightarrow> chain_spec \<Rightarrow> entry_point_version \<Rightarrow> bytes \<Rightarrow>
     user_ops_per_aggregator list option" where
  "decode_ops_from_calldata al abi cs EP_V0_6 data = Some (decode_ops_from_calldata_v0_6 al abi cs data)"
| "decode_ops_from_calldata al abi cs EP_V0_7 data = decode_ops_from_calldata_v0_7 al abi cs data"
| "decode_ops_from_calldata al abi cs Unspecified data = Some []"

section \<open>Validating a bundle\<close>

definition call_handle_ops_v0_6 ::
  "entry_point_abi \<Rightarrow> chain_spec \<Rightarrow> (transaction_request \<Rightarrow> transport_error + bytes) \<Rightarrow>
     user_ops_per_aggregator list \<Rightarrow> address \<Rightarrow> u64 \<Rightarrow> gas_fees \<Rightarrow> address option \<Rightarrow>
     (string + handle_ops_out) option" where
  "call_handle_ops_v0_6 abi cs call groups sender_eoa gas_limit fees proxy =
     (case get_handle_ops_call_v0_6 abi cs groups sender_eoa gas_limit fees proxy of
        None \<Rightarrow> None
      | Some tx \<Rightarrow>
          Some (case call tx of
                  Inr _ \<Rightarrow> Inr HO_Success
                | Inl (ErrorResp message data) \<Rightarrow>
                    (case decode_handle_ops_revert_v0_6 abi message data of
                       Some out \<Rightarrow> Inr out
                     | None \<Rightarrow> Inl message)
                | Inl (TransportOther e) \<Rightarrow> Inl e))"

text \<open>
  Version 0.7 can ask for the validation alone: an operation that always fails is put behind the
  bundle, and its failure means that all others passed.
\<close>

definition failing_op :: "alloy \<Rightarrow> chain_spec \<Rightarrow> user_operation_variant" where
  "failing_op al cs =
     V0_7 (builder7_build al
       (builder7_factory
         (builder7_new cs
           \<lparr>rf7_sender = cs_entry_point_address_v0_7 cs, rf7_nonce = 0, rf7_call_data = [],
            rf7_call_gas_limit = 0, rf7_verification_gas_limit = 0, rf7_pre_verification_gas = 0,
            rf7_max_priority_fee_per_gas = 0, rf7_max_fee_per_gas = 0, rf7_signature = []\<rparr>)
         (cs_entry_point_address_v0_7 cs) []))"

fun push_failing_op ::
  "user_operation_variant \<Rightarrow> user_ops_per_aggregator list \<Rightarrow> user_ops_per_aggregator list" where
  "push_failing_op op [] = []"
| "push_failing_op op [g] = [g\<lparr>upa_user_ops := upa_user_ops g @ [op]\<rparr>]"
| "push_failing_op op (g # h # gs) = g # push_failing_op op (h # gs)"

definition call_handle_ops_v0_7 ::
  "alloy \<Rightarrow> entry_point_abi \<Rightarrow> chain_spec \<Rightarrow> (transaction_request \<Rightarrow> transport_error + bytes) \<Rightarrow>
     user_ops_per_aggregator list \<Rightarrow> address \<Rightarrow> u64 \<Rightarrow> gas_fees \<Rightarrow> address option \<Rightarrow> bool \<Rightarrow>
     (string + handle_ops_out) option" where
  "call_handle_ops_v0_7 al abi cs call groups sender_eoa gas_limit fees proxy validation_only =
     (let inject = validation_only \<and> proxy = None;
          expected_failure_index = of_nat (length (concat (map upa_user_ops groups)))
      in if inject \<and> groups = [] then Some (Inl ''bundle must have at least one aggregator'')
         else case get_handle_ops_call_v0_7 abi cs
                     (if inject then push_failing_op (failing_op al cs) groups else groups)
                     sender_eoa gas_limit fees proxy of
                None \<Rightarrow> None
              | Some tx \<Rightarrow>
                  Some (case call tx of
                          Inr _ \<Rightarrow> Inr HO_Success
                        | Inl (ErrorResp message data) \<Rightarrow>
                            (case decode_handle_ops_revert_v0_7 abi message data of
                               None \<Rightarrow> Inl message
                             | Some ret \<Rightarrow>
                                 if \<not> inject then Inr ret
                                 else (case ret of
                                         HO_Success \<Rightarrow>
                                           Inl ''v0.7 bundle validation should always fail due to injected op''
                                       | HO_FailedOp index text \<Rightarrow>
                                           if index = expected_failure_index then Inr HO_Success
                                           else Inr (HO_FailedOp index text)
                                       | _ \<Rightarrow> Inr ret))
                        | Inl (TransportOther e) \<Rightarrow> Inl e))"

fun entry_point_call_handle_ops ::
  "alloy \<Rightarrow> entry_point_abi \<Rightarrow> chain_spec \<Rightarrow> entry_point_version \<Rightarrow>
     (transaction_request \<Rightarrow> transport_error + bytes) \<Rightarrow>
     user_ops_per_aggregator list \<Rightarrow> address \<Rightarrow> u64 \<Rightarrow> gas_fees \<Rightarrow> address option \<Rightarrow> bool \<Rightarrow>
     (string + handle_ops_out) option" where
  "entry_point_call_handle_ops al abi cs EP_V0_6 call groups eoa gas fees proxy validation_only =
     call_handle_ops_v0_6 abi cs call groups eoa gas fees proxy"
| "entry_point_call_handle_ops al abi cs EP_V0_7 call groups eoa gas fees proxy validation_only =
     call_handle_ops_v0_7 al abi cs call groups eoa gas fees proxy validation_only"
| "entry_point_call_handle_ops al abi cs Unspecified call groups eoa gas fees proxy validation_only =
     None"

end
