(* ===== verification/Builder_Event.thy ===== *)
theory Builder_Event
  imports Violations Tx_Sender
begin

text \<open>
  The events a builder broadcasts, \<open>crates/builder/src/emit.rs\<close>.  An event is kept with the entry
  point it is broadcast for (\<open>WithEntryPoint\<close>).
\<close>

datatype skip_reason =
  AccessedOtherSender address
  | InsufficientFees gas_fees gas_fees
  | InsufficientPreVerificationGas u128 gas_fees u128 u128
  | OverSponsorshipMaxCost u256 u256
  | SimulationGasLimit
  | TargetGasLimit
  | MaxGasLimit
  | OverMaxBundleFee
  | ExpectedStorageConflict string
  | ExpectedStorageLimit
  | TransactionSizeLimit
  | SkipUnsupportedAggregator address
  | SkipOther string

record condition_not_met_reason =
  cnm_address :: address
  cnm_slot :: b256
  cnm_expected :: b256
  cnm_actual :: b256

datatype op_rejection_reason =
  FailedRevalidation simulation_error
  | FailedInBundle string
  | RejectedConditionNotMet condition_not_met_reason
  | RejectedInvalidTimeRange valid_time_range

record bundle_tx_details =
  btd_tx_hash :: b256
  btd_tx :: transaction_request
  btd_ops :: "(address \<times> b256) list"

datatype builder_event_kind =
  FormedBundle "bundle_tx_details option" u64 u64 "gas_fees option"
  | TransactionMined b256 u64 u64
  | LatestTransactionDropped u64
  | NonceUsedForOtherTransaction u64
  | SkippedOp b256 skip_reason
  | RejectedOp b256 op_rejection_reason

record builder_event =
  be_entry_point :: address
  be_tag :: string
  be_kind :: builder_event_kind

definition builder_event_new :: "address \<Rightarrow> string \<Rightarrow> builder_event_kind \<Rightarrow> builder_event" where
  "builder_event_new entry_point tag kind = \<lparr>be_entry_point = entry_point, be_tag = tag, be_kind = kind\<rparr>"

end
