(* ===== verification/Bundle_Proposer.thy ===== *)
theory Bundle_Proposer
  imports Bundle_Context Entry_Point_Calls Builder_Event
begin

text \<open>
  Proposing a bundle, \<open>BundleProposerImpl\<close> of \<open>crates/builder/src/bundle_proposer.rs\<close>: filter the
  operations by their fees, simulate them again, assemble a bundle within its limits and validate it
  with the entry point, rejecting operations until the rest passes.

  The services the proposer calls are the record \<open>proposer_env\<close>: the fee estimator, the oracle of
  data availability gas, the simulator, the node and the clock.  Futures that are joined are run one
  after the other; the clock is read once per operation.  A result is paired with the events it
  emitted.  \<open>None\<close> is a panic, and for the loop of \<open>make_bundle\<close> also that it does not end.
\<close>

section \<open>Data\<close>

record proposed_bundle =
  bu_ops_per_aggregator :: "user_ops_per_aggregator list"
  bu_gas_estimate :: u64
  bu_gas_fees :: gas_fees
  bu_expected_storage :: expected_storage
  bu_rejected_ops :: "user_operation_variant list"
  bu_entity_updates :: "entity_update list"

definition bundle_default :: proposed_bundle where
  "bundle_default =
     \<lparr>bu_ops_per_aggregator = [], bu_gas_estimate = 0, bu_gas_fees = gas_fees_default,
      bu_expected_storage = [], bu_rejected_ops = [], bu_entity_updates = []\<rparr>"

definition bundle_iter_ops :: "proposed_bundle \<Rightarrow> user_operation_variant list" where
  "bundle_iter_ops b = concat (map upa_user_ops (bu_ops_per_aggregator b))"

definition bundle_len :: "proposed_bundle \<Rightarrow> nat" where
  "bundle_len b = sum_list (map (length \<circ> upa_user_ops) (bu_ops_per_aggregator b))"

definition bundle_is_empty :: "proposed_bundle \<Rightarrow> bool" where
  "bundle_is_empty b \<longleftrightarrow> bu_ops_per_aggregator b = []"

datatype bundle_proposer_error = NoOperationsAfterFeeFilter | BP_Other string

record proposer_settings =
  bps_chain_spec :: chain_spec
  bps_target_bundle_gas :: u128
  bps_max_bundle_gas :: u128
  bps_sender_eoa :: address
  bps_da_gas_tracking_enabled :: bool
  bps_max_expected_storage_slots :: usize
  bps_verification_gas_limit_efficiency_reject_threshold :: f64
  bps_submission_proxy :: "submission_proxy option"

record bundle_proposer =
  bp_builder_tag :: string
  bp_settings :: proposer_settings
  bp_condition_not_met_notified :: bool

record da_gas_oracle_sync =
  dos_da_block_data :: "b256 \<Rightarrow> string + da_gas_block_data"
  dos_calc_da_gas_sync :: "da_gas_data \<Rightarrow> da_gas_block_data \<Rightarrow> u128 \<Rightarrow> usize \<Rightarrow> u128"

record proposer_env =
  pe_alloy :: alloy
  pe_abi :: entry_point_abi
  pe_version :: entry_point_version
  pe_entry_point :: address
  pe_required_bundle_fees :: "b256 \<Rightarrow> gas_fees option \<Rightarrow> string + gas_fees \<times> u128"
  pe_required_op_fees :: "gas_fees \<Rightarrow> gas_fees"
  pe_da_gas_oracle_sync :: "da_gas_oracle_sync option"
  pe_calc_da_gas :: "user_operation_variant \<Rightarrow> b256 \<Rightarrow> u128 \<Rightarrow> usize \<Rightarrow> string + u128"
  pe_simulate_validation ::
    "user_operation_variant \<Rightarrow> bool \<Rightarrow> b256 \<Rightarrow> b256 option \<Rightarrow> simulation_error + simulation_result"
  pe_balance_of :: "address \<Rightarrow> b256 \<Rightarrow> string + u256"
  pe_call :: "nat \<Rightarrow> transaction_request \<Rightarrow> transport_error + bytes"
  pe_batch_get_storage_at :: "address \<Rightarrow> b256 list \<Rightarrow> string + b256 list"
  pe_now :: "user_operation_variant \<Rightarrow> timestamp"

record pool_operation_with_sponsored_da_gas =
  pos_op :: pool_operation
  pos_sponsored_da_gas :: u128

definition BUNDLE_TRANSACTION_GAS_OVERHEAD_PERCENT :: u32 where
  "BUNDLE_TRANSACTION_GAS_OVERHEAD_PERCENT = 5"

definition bundle_proposer_new :: "string \<Rightarrow> proposer_settings \<Rightarrow> bundle_proposer" where
  "bundle_proposer_new tag settings =
     \<lparr>bp_builder_tag = tag, bp_settings = settings, bp_condition_not_met_notified = False\<rparr>"

definition notify_condition_not_met :: "bundle_proposer \<Rightarrow> bundle_proposer" where
  "notify_condition_not_met p = p\<lparr>bp_condition_not_met_notified := True\<rparr>"

definition proposer_emit :: "proposer_env \<Rightarrow> bundle_proposer \<Rightarrow> builder_event_kind \<Rightarrow> builder_event" where
  "proposer_emit env p kind = builder_event_new (pe_entry_point env) (bp_builder_tag p) kind"

definition estimate_gas_fees ::
  "proposer_env \<Rightarrow> b256 \<Rightarrow> gas_fees option \<Rightarrow> bundle_proposer_error + gas_fees \<times> u128" where
  "estimate_gas_fees env block_hash fees =
     (case pe_required_bundle_fees env block_hash fees of
        Inl e \<Rightarrow> Inl (BP_Other e)
      | Inr r \<Rightarrow> Inr r)"

section \<open>Fees\<close>

definition op_fees :: "user_operation_variant \<Rightarrow> gas_fees" where
  "op_fees op = \<lparr>gf_max_fee_per_gas = uo_max_fee_per_gas op,
                 gf_max_priority_fee_per_gas = uo_max_priority_fee_per_gas op\<rparr>"

definition apply_bundle_pct :: "u32 option \<Rightarrow> u128 \<Rightarrow> u128" where
  "apply_bundle_pct pct x = (case pct of Some p \<Rightarrow> percent_ceil x p | None \<Rightarrow> x)"

definition required_da_gas ::
  "proposer_env \<Rightarrow> bundle_proposer \<Rightarrow> pool_operation \<Rightarrow> b256 \<Rightarrow> da_gas_block_data option \<Rightarrow> u128 \<Rightarrow>
     string + u128" where
  "required_da_gas env p op block_hash da_block_data gas_price =
     (case (bps_da_gas_tracking_enabled (bp_settings p), da_block_data, pe_da_gas_oracle_sync env) of
        (True, Some block_data, Some orc) \<Rightarrow>
          Inr (dos_calc_da_gas_sync orc (po_da_gas_data op) block_data gas_price
                 (uo_extra_data_len (po_uo op) 1))
      | _ \<Rightarrow> pe_calc_da_gas env (po_uo op) block_hash gas_price 1)"

definition check_fees ::
  "proposer_env \<Rightarrow> bundle_proposer \<Rightarrow> pool_operation \<Rightarrow> b256 \<Rightarrow> da_gas_block_data option \<Rightarrow> u128 \<Rightarrow>
     gas_fees \<Rightarrow> builder_event list \<times> pool_operation_with_sponsored_da_gas option" where
  "check_fees env p op block_hash da_block_data base_fee required_op_fees =
     (let uo = po_uo op; cs = bps_chain_spec (bp_settings p);
          pct = perm_underpriced_bundle_pct (po_perms op);
          sponsorship = perm_bundler_sponsorship (po_perms op);
          required_max_fee_per_gas = apply_bundle_pct pct (gf_max_fee_per_gas required_op_fees);
          required_max_priority_fee_per_gas =
            apply_bundle_pct pct (gf_max_priority_fee_per_gas required_op_fees);
          skip = (\<lambda>reason. ([proposer_emit env p (SkippedOp (uo_hash uo) reason)], None))
      in if (uo_max_fee_per_gas uo < required_max_fee_per_gas
             \<or> uo_max_priority_fee_per_gas uo < required_max_priority_fee_per_gas)
            \<and> sponsorship = None
         then skip (InsufficientFees required_op_fees (op_fees uo))
         else if \<not> cs_da_pre_verification_gas cs
         then ([], Some \<lparr>pos_op = op, pos_sponsored_da_gas = 0\<rparr>)
         else
           (let bundle_size = 1;
                gas_price = (if sponsorship \<noteq> None then gas_fees_gas_price required_op_fees base_fee
                             else uo_gas_price uo base_fee)
            in case required_da_gas env p op block_hash da_block_data gas_price of
                 Inl e \<Rightarrow> skip (SkipOther e)
               | Inr da_gas \<Rightarrow>
                   (let required_pvg = apply_bundle_pct pct
                          (required_pre_verification_gas (pe_alloy env) uo cs bundle_size da_gas
                             (Some (bps_verification_gas_limit_efficiency_reject_threshold (bp_settings p))))
                    in if uo_pre_verification_gas uo < required_pvg \<and> sponsorship = None
                       then skip (InsufficientPreVerificationGas base_fee (op_fees uo) required_pvg
                                    (uo_pre_verification_gas uo))
                       else (case sponsorship of
                               None \<Rightarrow> ([], Some \<lparr>pos_op = op, pos_sponsored_da_gas = 0\<rparr>)
                             | Some s \<Rightarrow>
                                 (let gas_limit =
                                        bundle_gas_limit (pe_alloy env) uo cs (Some bundle_size) + required_pvg;
                                      total_gas_cost = ucast gas_limit * ucast gas_price
                                  in if total_gas_cost > bs_max_cost s
                                     then skip (OverSponsorshipMaxCost (bs_max_cost s) total_gas_cost)
                                     else ([], Some \<lparr>pos_op = op, pos_sponsored_da_gas = da_gas\<rparr>))))))"

definition simulate_op ::
  "proposer_env \<Rightarrow> bundle_proposer \<Rightarrow> pool_operation_with_sponsored_da_gas \<Rightarrow> b256 \<Rightarrow>
     builder_event list \<times>
     (pool_operation_with_sponsored_da_gas \<times> (simulation_error + simulation_result)) option" where
  "simulate_op env p op block_hash =
     (let po = pos_op op
      in case pe_simulate_validation env (po_uo po) (perm_trusted (po_perms po)) block_hash
                (Some (po_expected_code_hash po)) of
           Inr success \<Rightarrow> ([], Some (op, Inr success))
         | Inl e \<Rightarrow>
             (case serr_violation_error e of
                Violations _ \<Rightarrow> ([], Some (op, Inl e))
              | VE_Other text \<Rightarrow>
                  ([proposer_emit env p (SkippedOp (uo_hash (po_uo po)) (SkipOther text))], None)))"

text \<open>\<open>join_all\<close> of such futures followed by \<open>flatten\<close>.\<close>

definition join_flatten :: "('a \<Rightarrow> builder_event list \<times> 'b option) \<Rightarrow> 'a list \<Rightarrow> builder_event list \<times> 'b list" where
  "join_flatten f xs = (concat (map (fst \<circ> f) xs), List.map_filter (snd \<circ> f) xs)"

fun limit_loop ::
  "proposer_env \<Rightarrow> bundle_proposer \<Rightarrow> u128 \<Rightarrow> pool_operation_with_sponsored_da_gas list \<Rightarrow>
     builder_event list \<times> pool_operation_with_sponsored_da_gas list \<times> u128" where
  "limit_loop env p gas_left [] = ([], [], gas_left)"
| "limit_loop env p gas_left (op # ops) =
     (let uo = po_uo (pos_op op); cs = bps_chain_spec (bp_settings p);
          skip = (\<lambda>reason. let (evs, kept, left) = limit_loop env p gas_left ops
                           in (proposer_emit env p (SkippedOp (uo_hash uo) reason) # evs, kept, left));
          proceed =
            (let gas = bundle_computation_gas_limit (pe_alloy env) uo cs None
             in if gas_left < gas then skip SimulationGasLimit
                else (let (evs, kept, left) = limit_loop env p (gas_left - gas) ops
                      in (evs, op # kept, left)))
      in case uo_aggregator uo of
           Some agg \<Rightarrow>
             if get_signature_aggregator cs agg = None then skip (SkipUnsupportedAggregator agg)
             else proceed
         | None \<Rightarrow> proceed)"

definition limit_user_operations_for_simulation ::
  "proposer_env \<Rightarrow> bundle_proposer \<Rightarrow> pool_operation_with_sponsored_da_gas list \<Rightarrow>
     builder_event list \<times> pool_operation_with_sponsored_da_gas list \<times> u128" where
  "limit_user_operations_for_simulation env p ops =
     (let (evs, kept, gas_left) = limit_loop env p (bps_max_bundle_gas (bp_settings p)) ops
      in (evs, kept, saturating_sub (bps_max_bundle_gas (bp_settings p)) gas_left))"

section \<open>Aggregated signatures\<close>

definition aggregate_signatures ::
  "bundle_proposer \<Rightarrow> address \<Rightarrow> aggregator_group \<Rightarrow> (signature_aggregator_error + bytes) option" where
  "aggregate_signatures p aggregator grp =
     (case get_signature_aggregator (bps_chain_spec (bp_settings p)) aggregator of
        None \<Rightarrow> None
      | Some agg \<Rightarrow>
          Some (sa_aggregate_signatures agg
            (map (uo_with_original_signature \<circ> ows_op) (ag_ops_with_simulations grp))))"

fun collect_signatures ::
  "bundle_proposer \<Rightarrow> proposal_context \<Rightarrow> address list \<Rightarrow>
     (address \<times> (signature_aggregator_error + bytes)) list option" where
  "collect_signatures p c [] = Some []"
| "collect_signatures p c (aggregator # aggregators) =
     (if aggregator = 0 then collect_signatures p c aggregators
      else (case map_of (px_groups_by_aggregator c) aggregator of
              None \<Rightarrow> collect_signatures p c aggregators
            | Some grp \<Rightarrow>
                do {
                  sig \<leftarrow> aggregate_signatures p aggregator grp;
                  sigs \<leftarrow> collect_signatures p c aggregators;
                  Some ((aggregator, sig) # sigs)
                }))"

fun apply_signatures ::
  "(address \<times> (signature_aggregator_error + bytes)) list \<Rightarrow> proposal_context \<Rightarrow> proposal_context option" where
  "apply_signatures [] c = Some c"
| "apply_signatures ((aggregator, result) # sigs) c =
     do { c \<leftarrow> apply_aggregation_signature_result c aggregator result; apply_signatures sigs c }"

definition compute_aggregator_signatures ::
  "bundle_proposer \<Rightarrow> proposal_context \<Rightarrow> address list \<Rightarrow> proposal_context option" where
  "compute_aggregator_signatures p c aggregators =
     do { sigs \<leftarrow> collect_signatures p c aggregators; apply_signatures sigs c }"

definition compute_all_aggregator_signatures ::
  "bundle_proposer \<Rightarrow> proposal_context \<Rightarrow> proposal_context option" where
  "compute_all_aggregator_signatures p c =
     compute_aggregator_signatures p c (map fst (px_groups_by_aggregator c))"

definition proposer_reject_index ::
  "bundle_proposer \<Rightarrow> proposal_context \<Rightarrow> nat \<Rightarrow> bool \<Rightarrow> proposal_context option" where
  "proposer_reject_index p c i paymaster_amendment =
     (let (c, changed_aggregator) = reject_index c i paymaster_amendment
      in compute_aggregator_signatures p c
           (case changed_aggregator of Some a \<Rightarrow> [a] | None \<Rightarrow> []))"

definition proposer_reject_entity ::
  "bundle_proposer \<Rightarrow> proposal_context \<Rightarrow> entity \<Rightarrow> bool \<Rightarrow> proposal_context option" where
  "proposer_reject_entity p c e is_staked =
     (let (c, changed_aggregators) = context_reject_entity c e is_staked
      in compute_aggregator_signatures p c changed_aggregators)"

definition reject_hash ::
  "bundle_proposer \<Rightarrow> proposal_context \<Rightarrow> b256 \<Rightarrow> (proposal_context \<times> bool) option" where
  "reject_hash p c h =
     (case get_op_index c h of
        None \<Rightarrow> Some (c, False)
      | Some index \<Rightarrow> do { c \<leftarrow> proposer_reject_index p c index False; Some (c, True) })"

definition reject_bundle :: "proposal_context \<Rightarrow> proposal_context" where
  "reject_bundle c = reject_all c"

section \<open>Assembling the bundle\<close>

record assembly =
  asm_context :: proposal_context
  asm_paymasters_to_reject :: "entity_info list"
  asm_passed_target :: bool
  asm_balances :: "address \<rightharpoonup> u256"
  asm_events :: "builder_event list"

text \<open>\<open>entry(aggregator).or_default()\<close> followed by \<open>push\<close>.\<close>

fun group_push ::
  "(address \<times> aggregator_group) list \<Rightarrow> address \<Rightarrow> op_with_simulation \<Rightarrow> (address \<times> aggregator_group) list" where
  "group_push [] a op = [(a, aggregator_group_default\<lparr>ag_ops_with_simulations := [op]\<rparr>)]"
| "group_push ((b, grp) # groups) a op =
     (if b = a
      then (b, grp\<lparr>ag_ops_with_simulations := ag_ops_with_simulations grp @ [op]\<rparr>) # groups
      else (b, grp) # group_push groups a op)"

definition context_push :: "proposal_context \<Rightarrow> op_with_simulation \<Rightarrow> proposal_context" where
  "context_push c op =
     c\<lparr>px_groups_by_aggregator :=
        group_push (px_groups_by_aggregator c)
          (case uo_aggregator (ows_op op) of Some a \<Rightarrow> a | None \<Rightarrow> 0) op\<rparr>"

definition asm_emit ::
  "proposer_env \<Rightarrow> bundle_proposer \<Rightarrow> assembly \<Rightarrow> builder_event_kind \<Rightarrow> assembly" where
  "asm_emit env p s kind = s\<lparr>asm_events := asm_events s @ [proposer_emit env p kind]\<rparr>"

definition asm_skip ::
  "proposer_env \<Rightarrow> bundle_proposer \<Rightarrow> assembly \<Rightarrow> user_operation_variant \<Rightarrow> skip_reason \<Rightarrow> assembly" where
  "asm_skip env p s op reason = asm_emit env p s (SkippedOp (uo_hash op) reason)"

definition asm_reject_time ::
  "proposer_env \<Rightarrow> bundle_proposer \<Rightarrow> assembly \<Rightarrow> pool_operation \<Rightarrow> valid_time_range \<Rightarrow> assembly" where
  "asm_reject_time env p s po time_range =
     (let s = asm_emit env p s (RejectedOp (uo_hash (po_uo po)) (RejectedInvalidTimeRange time_range))
      in s\<lparr>asm_context := (asm_context s)
            \<lparr>px_rejected_ops := px_rejected_ops (asm_context s) @ [(po_uo po, po_entity_infos po)]\<rparr>\<rparr>)"

text \<open>An operation whose simulation failed with violations.\<close>

definition assemble_failed ::
  "proposer_env \<Rightarrow> bundle_proposer \<Rightarrow> assembly \<Rightarrow> pool_operation \<Rightarrow> simulation_error \<Rightarrow> assembly option" where
  "assemble_failed env p s po e =
     (let s = asm_emit env p s (RejectedOp (uo_hash (po_uo po)) (FailedRevalidation e))
      in case serr_violation_error e of
           VE_Other _ \<Rightarrow> Some s
         | Violations violations \<Rightarrow>
             do {
               c \<leftarrow> process_simulation_violations (asm_context s) (po_uo po) violations
                     (case serr_entity_infos e of Some infos \<Rightarrow> infos | None \<Rightarrow> po_entity_infos po);
               Some (s\<lparr>asm_context := c\<rparr>)
             })"

text \<open>The last checks, after the limits of gas, cost and size, and the insertion.\<close>

definition assemble_insert ::
  "proposer_env \<Rightarrow> bundle_proposer \<Rightarrow> address set \<Rightarrow> assembly \<Rightarrow> pool_operation \<Rightarrow> op_with_simulation \<Rightarrow>
     u128 \<Rightarrow> assembly option" where
  "assemble_insert env p senders s po ows computation_gas_limit =
     (let op = ows_op ows; simulation = ows_simulation ows; settings = bp_settings p
      in case bes_add (px_bundle_expected_storage (asm_context s)) (sr_expected_storage simulation) of
           Inl e \<Rightarrow> Some (asm_skip env p s op (ExpectedStorageConflict e))
         | Inr storage \<Rightarrow>
             (let s = s\<lparr>asm_context := (asm_context s)\<lparr>px_bundle_expected_storage := storage\<rparr>\<rparr>
              in if num_slots (bes_inner storage) > bps_max_expected_storage_slots settings
                 then Some (asm_skip env p s op ExpectedStorageLimit)
                 else (case find (\<lambda>a. a \<noteq> uo_sender op \<and> a \<in> senders) (sr_accessed_addresses simulation) of
                         Some other_sender \<Rightarrow> Some (asm_skip env p s op (AccessedOtherSender other_sender))
                       | None \<Rightarrow>
                           (let add_op = (\<lambda>s. Some (s\<lparr>
                                  asm_passed_target :=
                                    asm_passed_target s \<or> computation_gas_limit \<ge> bps_target_bundle_gas settings,
                                  asm_context := context_push (asm_context s) ows\<rparr>))
                            in case uo_paymaster op of
                                 None \<Rightarrow> add_op s
                               | Some paymaster \<Rightarrow>
                                   (case asm_balances s paymaster of
                                      None \<Rightarrow> Some s
                                    | Some balance \<Rightarrow>
                                        if balance < uo_max_gas_cost op
                                        then (case eis_paymaster (po_entity_infos po) of
                                                None \<Rightarrow> None
                                              | Some info \<Rightarrow>
                                                  Some (s\<lparr>asm_paymasters_to_reject :=
                                                            asm_paymasters_to_reject s @ [info]\<rparr>))
                                        else add_op (s\<lparr>asm_balances :=
                                               (asm_balances s)(paymaster \<mapsto> balance - uo_max_gas_cost op)\<rparr>))))))"

definition assemble_candidate ::
  "proposer_env \<Rightarrow> bundle_proposer \<Rightarrow> u256 \<Rightarrow> u128 \<Rightarrow> address set \<Rightarrow> assembly \<Rightarrow>
     pool_operation_with_sponsored_da_gas \<Rightarrow> simulation_result \<Rightarrow> assembly option" where
  "assemble_candidate env p buffered_max_bundle_fee gas_price senders s pos simulation =
     (let po = pos_op pos; op = po_uo po; settings = bp_settings p; cs = bps_chain_spec settings;
          al = pe_alloy env;
          ows = \<lparr>ows_op = op, ows_simulation = simulation, ows_sponsored_da_gas = pos_sponsored_da_gas pos\<rparr>;
          context_with_op = context_push (asm_context s) ows
      in do {
           computation_gas_limit \<leftarrow> get_bundle_computation_gas_limit al context_with_op cs;
           if computation_gas_limit > bps_max_bundle_gas settings
           then Some (asm_skip env p s op MaxGasLimit)
           else do {
             total_gas_cost \<leftarrow> get_bundle_cost al context_with_op cs gas_price;
             if total_gas_cost > buffered_max_bundle_fee
             then Some (asm_skip env p s op OverMaxBundleFee)
             else do {
               size \<leftarrow> get_bundle_transaction_size context_with_op cs;
               if size \<ge> ucast (cs_max_transaction_size_bytes cs)
               then Some (asm_skip env p s op TransactionSizeLimit)
               else assemble_insert env p senders s po ows computation_gas_limit
             }
           }
         })"

definition assemble_op ::
  "proposer_env \<Rightarrow> bundle_proposer \<Rightarrow> u256 \<Rightarrow> u128 \<Rightarrow> address set \<Rightarrow>
     pool_operation_with_sponsored_da_gas \<times> (simulation_error + simulation_result) \<Rightarrow> assembly \<Rightarrow>
     assembly option" where
  "assemble_op env p buffered_max_bundle_fee gas_price senders x s =
     (let (pos, result) = x; po = pos_op pos; now = pe_now env (po_uo po)
      in case result of
           Inl e \<Rightarrow> assemble_failed env p s po e
         | Inr simulation \<Rightarrow>
             (let time_range = sr_valid_time_range simulation;
                  proceed =
                    (if asm_passed_target s then Some (asm_skip env p s (po_uo po) TargetGasLimit)
                     else assemble_candidate env p buffered_max_bundle_fee gas_price senders s pos simulation)
              in if \<not> range_contains time_range now TIME_RANGE_BUFFER
                 then Some (asm_reject_time env p s po time_range)
                 else (case perm_bundler_sponsorship (po_perms po) of
                         Some sponsorship \<Rightarrow>
                           if \<not> range_contains time_range now TIME_RANGE_BUFFER
                           then Some (asm_reject_time env p s po (from_genesis (bs_valid_until sponsorship)))
                           else proceed
                       | None \<Rightarrow> proceed)))"

fun assemble_loop ::
  "('a \<Rightarrow> 's \<Rightarrow> 's option) \<Rightarrow> 'a list \<Rightarrow> 's \<Rightarrow> 's option" where
  "assemble_loop f [] s = Some s"
| "assemble_loop f (x # xs) s = do { s \<leftarrow> f x s; assemble_loop f xs s }"

definition assemble_context ::
  "proposer_env \<Rightarrow> bundle_proposer \<Rightarrow> u256 \<Rightarrow> u128 \<Rightarrow>
     (pool_operation_with_sponsored_da_gas \<times> (simulation_error + simulation_result)) list \<Rightarrow>
     (address \<rightharpoonup> u256) \<Rightarrow> (builder_event list \<times> proposal_context) option" where
  "assemble_context env p max_bundle_fee gas_price ops balances_by_paymaster =
     (if max_bundle_fee = 0 then Some ([], context_new)
      else
        (let buffered_max_bundle_fee =
               max_bundle_fee * ucast (100 - BUNDLE_TRANSACTION_GAS_OVERHEAD_PERCENT * 2) div 100;
             senders = set (map (\<lambda>(pos, _). uo_sender (po_uo (pos_op pos))) ops)
         in do {
              s \<leftarrow> assemble_loop (assemble_op env p buffered_max_bundle_fee gas_price senders) ops
                    \<lparr>asm_context = context_new, asm_paymasters_to_reject = [], asm_passed_target = False,
                     asm_balances = balances_by_paymaster, asm_events = []\<rparr>;
              let c = fold (\<lambda>info c. fst (context_reject_entity c (ei_entity info) (ei_is_staked info)))
                        (asm_paymasters_to_reject s) (asm_context s);
              c \<leftarrow> compute_all_aggregator_signatures p c;
              Some (asm_events s, c)
            }))"

section \<open>Conditions\<close>

fun first_mismatch :: "address \<Rightarrow> (b256 \<times> b256) list \<Rightarrow> b256 list \<Rightarrow> condition_not_met_reason option" where
  "first_mismatch a ((slot, expected) # slots) (actual # storage) =
     (if expected \<noteq> actual
      then Some \<lparr>cnm_address = a, cnm_slot = slot, cnm_expected = expected, cnm_actual = actual\<rparr>
      else first_mismatch a slots storage)"
| "first_mismatch a _ _ = None"

definition check_op_conditions_met ::
  "proposer_env \<Rightarrow> expected_storage \<Rightarrow> condition_not_met_reason option" where
  "check_op_conditions_met env es =
     (case List.map_filter
             (\<lambda>(a, slots).
                case pe_batch_get_storage_at env a (map fst slots) of
                  Inl e \<Rightarrow> None
                | Inr storage \<Rightarrow> first_mismatch a slots storage) es of
        [] \<Rightarrow> None
      | reason # _ \<Rightarrow> Some reason)"

fun reject_indices ::
  "proposer_env \<Rightarrow> bundle_proposer \<Rightarrow> bool \<Rightarrow> (nat \<times> op_rejection_reason) list \<Rightarrow> proposal_context \<Rightarrow>
     (builder_event list \<times> (string + proposal_context)) option" where
  "reject_indices env p amend [] c = Some ([], Inr c)"
| "reject_indices env p amend ((index, reason) # to_reject) c =
     (case get_op_at c index of
        Inl e \<Rightarrow> Some ([], Inl e)
      | Inr op \<Rightarrow>
          do {
            c \<leftarrow> proposer_reject_index p c index amend;
            (evs, r) \<leftarrow> reject_indices env p amend to_reject c;
            Some (proposer_emit env p (RejectedOp (uo_hash (ows_op op)) reason) # evs, r)
          })"

definition conditions_to_reject ::
  "proposer_env \<Rightarrow> proposal_context \<Rightarrow> (nat \<times> op_rejection_reason) list" where
  "conditions_to_reject env c =
     List.map_filter
       (\<lambda>(i, op). map_option (\<lambda>reason. (i, RejectedConditionNotMet reason))
          (check_op_conditions_met env (sr_expected_storage (ows_simulation op))))
       (enumerate 0 (iter_ops_with_simulations c))"

definition check_conditions_met ::
  "proposer_env \<Rightarrow> bundle_proposer \<Rightarrow> proposal_context \<Rightarrow>
     (builder_event list \<times> (string + proposal_context)) option" where
  "check_conditions_met env p c = reject_indices env p False (conditions_to_reject env c) c"

section \<open>Validating the bundle\<close>

definition call_handle_ops ::
  "proposer_env \<Rightarrow> bundle_proposer \<Rightarrow> nat \<Rightarrow> user_ops_per_aggregator list \<Rightarrow> u64 \<Rightarrow> gas_fees \<Rightarrow> bool \<Rightarrow>
     (string + handle_ops_out) option" where
  "call_handle_ops env p n groups gas_limit fees validation_only =
     entry_point_call_handle_ops (pe_alloy env) (pe_abi env) (bps_chain_spec (bp_settings p))
       (pe_version env) (pe_call env n) groups (bps_sender_eoa (bp_settings p)) gas_limit fees
       (map_option sp_address (bps_submission_proxy (bp_settings p))) validation_only"

definition process_failed_op ::
  "bundle_proposer \<Rightarrow> proposal_context \<Rightarrow> nat \<Rightarrow> string \<Rightarrow> (string + proposal_context) option" where
  "process_failed_op p c index message =
     do {
       code \<leftarrow> str_prefix 4 message;
       if code \<in> {''AA13'', ''AA14'', ''AA15''}
       then (case get_op_at c index of
               Inl e \<Rightarrow> Some (Inl e)
             | Inr op \<Rightarrow>
                 (case uo_factory (ows_op op) of
                    None \<Rightarrow> Some (Inl ''op failed during gas estimation with factory error, but did not include a factory'')
                  | Some factory \<Rightarrow>
                      map_option Inr (proposer_reject_entity p c (entity_factory factory)
                        (case eis_factory (sr_entity_infos (ows_simulation op)) of
                           Some f \<Rightarrow> ei_is_staked f | None \<Rightarrow> False))))
       else if code \<in> {''AA30'', ''AA31'', ''AA33'', ''AA34''}
       then (case get_op_at c index of
               Inl e \<Rightarrow> Some (Inl e)
             | Inr op \<Rightarrow>
                 (case uo_paymaster (ows_op op) of
                    None \<Rightarrow> Some (Inl ''op failed during gas estimation, but had no paymaster'')
                  | Some paymaster \<Rightarrow>
                      map_option Inr (proposer_reject_entity p c (entity_paymaster paymaster)
                        (case eis_paymaster (sr_entity_infos (ows_simulation op)) of
                           Some f \<Rightarrow> ei_is_staked f | None \<Rightarrow> False))))
       else map_option Inr (proposer_reject_index p c index True)
     }"

definition post_op_reverts :: "string + handle_ops_out \<Rightarrow> bool" where
  "post_op_reverts ret = (case ret of Inr out \<Rightarrow> out = HO_PostOpRevert | Inl e \<Rightarrow> True)"

definition check_for_post_op_revert_single_op ::
  "proposer_env \<Rightarrow> bundle_proposer \<Rightarrow> nat \<Rightarrow> u64 \<Rightarrow> gas_fees \<Rightarrow> user_operation_variant \<Rightarrow> nat \<Rightarrow>
     nat list option" where
  "check_for_post_op_revert_single_op env p n gas_limit fees op op_index =
     map_option (\<lambda>ret. if post_op_reverts ret then [op_index] else [])
       (call_handle_ops env p n
         [\<lparr>upa_user_ops = [op], upa_aggregator = 0, upa_signature = []\<rparr>] gas_limit fees False)"

definition check_for_post_op_revert_agg_ops ::
  "proposer_env \<Rightarrow> bundle_proposer \<Rightarrow> nat \<Rightarrow> u64 \<Rightarrow> gas_fees \<Rightarrow> user_ops_per_aggregator \<Rightarrow> nat \<Rightarrow>
     nat list option" where
  "check_for_post_op_revert_agg_ops env p n gas_limit fees grp start_index =
     map_option (\<lambda>ret. if post_op_reverts ret
                       then [start_index ..< start_index + length (upa_user_ops grp)] else [])
       (call_handle_ops env p n [grp] gas_limit fees False)"

fun check_post_op_single_ops ::
  "proposer_env \<Rightarrow> bundle_proposer \<Rightarrow> nat \<Rightarrow> u64 \<Rightarrow> gas_fees \<Rightarrow> user_operation_variant list \<Rightarrow> nat \<Rightarrow>
     nat list option" where
  "check_post_op_single_ops env p n gas_limit fees [] op_index = Some []"
| "check_post_op_single_ops env p n gas_limit fees (op # ops) op_index =
     do {
       r \<leftarrow> check_for_post_op_revert_single_op env p n gas_limit fees op op_index;
       rs \<leftarrow> check_post_op_single_ops env p n gas_limit fees ops (Suc op_index);
       Some (r @ rs)
     }"

fun check_post_op_groups ::
  "proposer_env \<Rightarrow> bundle_proposer \<Rightarrow> nat \<Rightarrow> u64 \<Rightarrow> gas_fees \<Rightarrow> user_ops_per_aggregator list \<Rightarrow> nat \<Rightarrow>
     nat list option" where
  "check_post_op_groups env p n gas_limit fees [] op_index = Some []"
| "check_post_op_groups env p n gas_limit fees (g # gs) op_index =
     do {
       r \<leftarrow> (if upa_aggregator g = 0
             then check_post_op_single_ops env p n gas_limit fees (upa_user_ops g) op_index
             else check_for_post_op_revert_agg_ops env p n gas_limit fees g op_index);
       rs \<leftarrow> check_post_op_groups env p n gas_limit fees gs (op_index + length (upa_user_ops g));
       Some (r @ rs)
     }"

definition process_post_op_revert ::
  "proposer_env \<Rightarrow> bundle_proposer \<Rightarrow> nat \<Rightarrow> proposal_context \<Rightarrow> u64 \<Rightarrow> gas_fees \<Rightarrow>
     (builder_event list \<times> (string + proposal_context)) option" where
  "process_post_op_revert env p n c gas_limit fees =
     do {
       found \<leftarrow> check_post_op_groups env p n gas_limit fees (to_ops_per_aggregator c) 0;
       let to_remove = (if found = [] then [0 ..< length (iter_ops c)] else found);
       reject_indices env p True
         (map (\<lambda>i. (i, FailedInBundle ''post op reverted leading to entry point revert''))
           (rev to_remove)) c
     }"

fun reject_hashes ::
  "bundle_proposer \<Rightarrow> b256 list \<Rightarrow> proposal_context \<Rightarrow> (proposal_context \<times> bool) option" where
  "reject_hashes p [] c = Some (c, False)"
| "reject_hashes p (h # hs) c =
     do {
       (c, r) \<leftarrow> reject_hash p c h;
       (c, removed) \<leftarrow> reject_hashes p hs c;
       Some (c, r \<or> removed)
     }"

definition process_revert_data ::
  "bundle_proposer \<Rightarrow> proposal_context \<Rightarrow> bytes \<Rightarrow> proposal_context option" where
  "process_revert_data p c revert_data =
     (case bps_submission_proxy (bp_settings p) of
        Some proxy \<Rightarrow>
          do {
            (c, removed) \<leftarrow> reject_hashes p (sp_process_revert proxy revert_data (to_ops_per_aggregator c)) c;
            Some (if removed then c else reject_bundle c)
          }
      | None \<Rightarrow> Some (reject_bundle c))"

text \<open>
  A result of \<open>Inr (c, Some gas)\<close> is success; with \<open>None\<close> operations were rejected and the caller
  tries again.
\<close>

definition handle_ops_result ::
  "proposer_env \<Rightarrow> bundle_proposer \<Rightarrow> nat \<Rightarrow> proposal_context \<Rightarrow> u64 \<Rightarrow> gas_fees \<Rightarrow> handle_ops_out \<Rightarrow>
     (builder_event list \<times> (string + proposal_context \<times> u64 option)) option" where
  "handle_ops_result env p n c gas_limit fees out =
     (case out of
        HO_Success \<Rightarrow> Some ([], Inr (c, Some gas_limit))
      | HO_FailedOp index message \<Rightarrow>
          (case get_op_at c (unat index) of
             Inl e \<Rightarrow> Some ([], Inl e)
           | Inr op \<Rightarrow>
               do {
                 r \<leftarrow> process_failed_op p c (unat index) message;
                 Some ([proposer_emit env p (RejectedOp (uo_hash (ows_op op)) (FailedInBundle message))],
                       map_sum (\<lambda>e. e) (\<lambda>c. (c, None)) r)
               })
      | HO_SignatureValidationFailed aggregator \<Rightarrow>
          do {
            c \<leftarrow> proposer_reject_entity p c (entity_aggregator aggregator) True;
            Some ([], Inr (c, None))
          }
      | HO_PostOpRevert \<Rightarrow>
          do {
            (evs, r) \<leftarrow> process_post_op_revert env p n c gas_limit fees;
            Some (evs, map_sum (\<lambda>e. e) (\<lambda>c. (c, None)) r)
          }
      | HO_Revert revert_data \<Rightarrow>
          do { c \<leftarrow> process_revert_data p c revert_data; Some ([], Inr (c, None)) })"

definition estimate_gas_rejecting_failed_ops ::
  "proposer_env \<Rightarrow> bundle_proposer \<Rightarrow> nat \<Rightarrow> proposal_context \<Rightarrow> gas_fees \<Rightarrow>
     (builder_event list \<times> (string + proposal_context \<times> u64 option)) option" where
  "estimate_gas_rejecting_failed_ops env p n c fees =
     do {
       gas <- get_bundle_gas_limit (pe_alloy env) c (bps_chain_spec (bp_settings p));
       let gas = increase_by_percent gas BUNDLE_TRANSACTION_GAS_OVERHEAD_PERCENT;
       if \<not> unat gas < 2 ^ 64
       then Some ([], Inl ''estimated bundle gas limit is larger than u64::MAX'')
       else (let gas_limit = ucast gas
             in if pe_version env \<noteq> EP_V0_6 \<and> length (iter_ops c) = 1
                then Some ([], Inr (c, Some gas_limit))
                else do {
                  out \<leftarrow> call_handle_ops env p n (to_ops_per_aggregator c) gas_limit fees
                          (bps_submission_proxy (bp_settings p) = None \<and> pe_version env \<noteq> EP_V0_6);
                  (case out of
                     Inl e \<Rightarrow> Some ([], Inl ''should call handle ops with candidate bundle'')
                   | Inr out \<Rightarrow> handle_ops_result env p n c gas_limit fees out)
                })
     }"

section \<open>Making a bundle\<close>

definition get_balances_by_paymaster ::
  "proposer_env \<Rightarrow> address list \<Rightarrow> b256 \<Rightarrow> bundle_proposer_error + (address \<rightharpoonup> u256)" where
  "get_balances_by_paymaster env addresses block_hash =
     (if \<exists>a\<in>set addresses. isl (pe_balance_of env a block_hash)
      then Inl (BP_Other ''entry point should return deposits for paymasters'')
      else Inr (map_of (map (\<lambda>a. (a, projr (pe_balance_of env a block_hash))) addresses)))"

definition empty_bundle :: "proposal_context \<Rightarrow> gas_fees \<Rightarrow> proposed_bundle" where
  "empty_bundle c fees =
     bundle_default\<lparr>bu_rejected_ops := map fst (px_rejected_ops c),
       bu_entity_updates := map snd (px_entity_updates c), bu_gas_fees := fees\<rparr>"

definition full_bundle :: "proposal_context \<Rightarrow> u64 \<Rightarrow> gas_fees \<Rightarrow> proposed_bundle" where
  "full_bundle c gas_estimate fees =
     \<lparr>bu_ops_per_aggregator = to_ops_per_aggregator c, bu_gas_estimate = gas_estimate,
      bu_gas_fees = fees, bu_expected_storage = bes_inner (px_bundle_expected_storage c),
      bu_rejected_ops = map fst (px_rejected_ops c), bu_entity_updates = map snd (px_entity_updates c)\<rparr>"

text \<open>The end of a round that the entry point accepted: the conditions are checked when notified.\<close>

definition accept_bundle ::
  "proposer_env \<Rightarrow> bundle_proposer \<Rightarrow> proposal_context \<Rightarrow> u64 \<Rightarrow> gas_fees \<Rightarrow>
     (bundle_proposer \<times> builder_event list \<times> (bundle_proposer_error + proposed_bundle)) option" where
  "accept_bundle env p c gas_estimate fees =
     (if bp_condition_not_met_notified p
      then do {
        let p = p\<lparr>bp_condition_not_met_notified := False\<rparr>;
        (evs, r) \<leftarrow> check_conditions_met env p c;
        Some (p, evs,
              case r of
                Inl e \<Rightarrow> Inl (BP_Other e)
              | Inr c \<Rightarrow>
                  Inr (if context_is_empty c then empty_bundle c fees else full_bundle c gas_estimate fees))
      }
      else Some (p, [], Inr (full_bundle c gas_estimate fees)))"

partial_function (option) make_bundle_loop ::
  "proposer_env \<Rightarrow> bundle_proposer \<Rightarrow> gas_fees \<Rightarrow> nat \<Rightarrow> builder_event list \<Rightarrow> proposal_context \<Rightarrow>
     (bundle_proposer \<times> builder_event list \<times> (bundle_proposer_error + proposed_bundle)) option" where
  "make_bundle_loop env p fees n events c =
     (if context_is_empty c then Some (p, events, Inr (empty_bundle c fees))
      else Option.bind (estimate_gas_rejecting_failed_ops env p n c fees)
        (\<lambda>(evs, r).
           case r of
             Inl e \<Rightarrow> Some (p, events @ evs, Inl (BP_Other e))
           | Inr (c, Some gas_estimate) \<Rightarrow>
               map_option (\<lambda>(p, evs', r). (p, events @ evs @ evs', r))
                 (accept_bundle env p c gas_estimate fees)
           | Inr (c, None) \<Rightarrow> make_bundle_loop env p fees (Suc n) (events @ evs) c))"

definition get_da_block_data ::
  "proposer_env \<Rightarrow> bundle_proposer \<Rightarrow> b256 \<Rightarrow> da_gas_block_data option" where
  "get_da_block_data env p block_hash =
     (case (bps_da_gas_tracking_enabled (bp_settings p), pe_da_gas_oracle_sync env) of
        (True, Some orc) \<Rightarrow>
          (case dos_da_block_data orc block_hash of Inr data \<Rightarrow> Some data | Inl e \<Rightarrow> None)
      | _ \<Rightarrow> None)"

definition make_bundle ::
  "proposer_env \<Rightarrow> bundle_proposer \<Rightarrow> pool_operation list \<Rightarrow> b256 \<Rightarrow> u256 \<Rightarrow> gas_fees option \<Rightarrow> bool \<Rightarrow>
     (bundle_proposer \<times> builder_event list \<times> (bundle_proposer_error + proposed_bundle)) option" where
  "make_bundle env p ops block_hash max_bundle_fee min_gas_fees is_replacement =
     (case estimate_gas_fees env block_hash min_gas_fees of
        Inl e \<Rightarrow> Some (p, [], Inl e)
      | Inr (bundle_fees, base_fee) \<Rightarrow>
          (let required_op_fees = (if is_replacement then bundle_fees else pe_required_op_fees env bundle_fees);
               all_paymaster_addresses = List.map_filter (uo_paymaster \<circ> po_uo) ops;
               da_block_data = get_da_block_data env p block_hash;
               (evs1, ops1) = join_flatten
                 (\<lambda>op. check_fees env p op block_hash da_block_data base_fee required_op_fees) ops
           in if ops1 = [] then Some (p, evs1, Inl NoOperationsAfterFeeFilter)
              else
                (let (evs2, ops2, gas_limit) = limit_user_operations_for_simulation env p ops1;
                     (evs3, ops3) = join_flatten (\<lambda>op. simulate_op env p op block_hash) ops2
                 in case get_balances_by_paymaster env all_paymaster_addresses block_hash of
                      Inl e \<Rightarrow> Some (p, evs1 @ evs2 @ evs3, Inl e)
                    | Inr balances \<Rightarrow>
                        do {
                          (evs4, c) \<leftarrow> assemble_context env p max_bundle_fee
                                        (gf_max_fee_per_gas bundle_fees) ops3 balances;
                          make_bundle_loop env p bundle_fees 0 (evs1 @ evs2 @ evs3 @ evs4) c
                        })))"

end
