(* ===== verification/Transaction_Tracker.thy ===== *)
theory Transaction_Tracker
  imports Tx_Sender Pool_Types
begin

text \<open>
  The tracker of the transactions a builder has sent, \<open>crates/builder/src/transaction_tracker.rs\<close>:
  it suggests the nonce and the fees of the next transaction, and recognises which of its
  transactions was mined.  Metrics are left out.

  The answers of the node at the time of a call are the record \<open>tracker_env\<close>.
\<close>

section \<open>Data\<close>

datatype transaction_tracker_error =
  TT_NonceTooLow
  | TT_Underpriced
  | TT_ReplacementUnderpriced
  | TT_ConditionNotMet
  | TT_Rejected
  | TT_InsufficientFunds
  | TT_Other string

record mined_tx_info =
  mti_block_number :: u64
  mti_gas_limit :: "u64 option"
  mti_gas_used :: "u64 option"
  mti_gas_price :: "u128 option"
  mti_is_success :: bool

record mined_update =
  mu_tx_hash :: b256
  mu_nonce :: u64
  mu_block_number :: u64
  mu_attempt_number :: u64
  mu_gas_limit :: "u64 option"
  mu_gas_used :: "u64 option"
  mu_gas_price :: "u128 option"
  mu_is_success :: bool

datatype tracker_update =
  Mined mined_update
  | LatestTxDropped u64
  | NonceUsedForOtherTx u64

record pending_transaction =
  pt_tx_hash :: "b256 option"
  pt_gas_fees :: gas_fees
  pt_attempt_number :: u64
  pt_sent_at_block :: "u64 option"
  pt_sent_at_time :: "instant option"

record transaction_tracker =
  tt_sender :: transaction_sender_enum
  tt_signer :: address
  tt_replacement_fee_percent_increase :: u32
  tt_nonce :: u64
  tt_balance :: u256
  tt_transactions :: "pending_transaction list"
  tt_has_abandoned :: bool
  tt_attempt_count :: u64

record tracker_state =
  ts_nonce :: u64
  ts_balance :: u256
  ts_required_fees :: "gas_fees option"

record transaction_receipt =
  rcp_block_number :: "u64 option"
  rcp_gas_used :: u64
  rcp_effective_gas_price :: u128
  rcp_status :: bool

record tracker_env =
  te_sender_env :: sender_env
  te_get_transaction_count :: "address \<Rightarrow> string + u64"
  te_get_balance :: "address \<Rightarrow> string + u256"
  te_get_transaction_by_hash :: "b256 \<Rightarrow> string + u64 option"
  te_get_transaction_receipt :: "b256 \<Rightarrow> string + transaction_receipt option"
  te_now :: instant

fun transaction_tracker_error_from :: "tx_sender_error \<Rightarrow> transaction_tracker_error" where
  "transaction_tracker_error_from TS_NonceTooLow = TT_NonceTooLow"
| "transaction_tracker_error_from TS_Underpriced = TT_Underpriced"
| "transaction_tracker_error_from TS_ReplacementUnderpriced = TT_ReplacementUnderpriced"
| "transaction_tracker_error_from TS_ConditionNotMet = TT_ConditionNotMet"
| "transaction_tracker_error_from TS_Rejected = TT_Rejected"
| "transaction_tracker_error_from TS_InsufficientFunds = TT_InsufficientFunds"
| "transaction_tracker_error_from TS_SoftCancelFailed = TT_Other ''soft cancel failed''"
| "transaction_tracker_error_from (TS_Other e) = TT_Other e"

section \<open>State\<close>

definition set_nonce_and_clear_state :: "transaction_tracker \<Rightarrow> u64 \<Rightarrow> transaction_tracker" where
  "set_nonce_and_clear_state t nonce =
     t\<lparr>tt_nonce := nonce, tt_transactions := [], tt_attempt_count := 0, tt_has_abandoned := False\<rparr>"

definition tracker_reset :: "tracker_env \<Rightarrow> transaction_tracker \<Rightarrow> transaction_tracker" where
  "tracker_reset te t =
     (let (nonce, balance) =
        (case (te_get_transaction_count te (tt_signer t), te_get_balance te (tt_signer t)) of
           (Inr nonce, Inr balance) \<Rightarrow> (nonce, balance)
         | _ \<Rightarrow> (tt_nonce t, tt_balance t))
      in (set_nonce_and_clear_state t nonce)\<lparr>tt_balance := balance\<rparr>)"

definition tracker_new ::
  "tracker_env \<Rightarrow> transaction_sender_enum \<Rightarrow> address \<Rightarrow> u32 \<Rightarrow> transaction_tracker" where
  "tracker_new te sender signer pct =
     tracker_reset te
       \<lparr>tt_sender = sender, tt_signer = signer, tt_replacement_fee_percent_increase = pct,
        tt_nonce = 0, tt_balance = 0, tt_transactions = [], tt_has_abandoned = False,
        tt_attempt_count = 0\<rparr>"

definition get_state :: "transaction_tracker \<Rightarrow> tracker_state" where
  "get_state t =
     \<lparr>ts_nonce = tt_nonce t, ts_balance = tt_balance t,
      ts_required_fees =
        (if tt_has_abandoned t \<or> tt_transactions t = [] then None
         else Some (gas_fees_increase_by_percent (pt_gas_fees (last (tt_transactions t)))
                      (tt_replacement_fee_percent_increase t)))\<rparr>"

definition num_pending_transactions :: "transaction_tracker \<Rightarrow> usize" where
  "num_pending_transactions t =
     of_nat (length (filter (\<lambda>p. pt_tx_hash p \<noteq> None) (tt_transactions t)))"

definition abandon :: "transaction_tracker \<Rightarrow> transaction_tracker" where
  "abandon t = t\<lparr>tt_has_abandoned := True, tt_attempt_count := 0\<rparr>"

definition unabandon :: "transaction_tracker \<Rightarrow> transaction_tracker" where
  "unabandon t = t\<lparr>tt_has_abandoned := False\<rparr>"

section \<open>Sending\<close>

definition unwrap_or :: "'a \<Rightarrow> 'a option \<Rightarrow> 'a" where
  "unwrap_or d x = (case x of Some a \<Rightarrow> a | None \<Rightarrow> d)"

definition request_fees :: "transaction_request \<Rightarrow> gas_fees" where
  "request_fees tx =
     \<lparr>gf_max_fee_per_gas = unwrap_or 0 (trq_max_fee_per_gas tx),
      gf_max_priority_fee_per_gas = unwrap_or 0 (trq_max_priority_fee_per_gas tx)\<rparr>"

definition validate_transaction :: "transaction_tracker \<Rightarrow> transaction_request \<Rightarrow> string + unit" where
  "validate_transaction t tx =
     (case trq_nonce tx of
        None \<Rightarrow> Inl ''transaction given to tracker should have nonce set''
      | Some nonce \<Rightarrow>
          (let fees = request_fees tx; state = get_state t
           in if nonce \<noteq> ts_nonce state
              then Inl ''tried to send transaction with another nonce than the tracker's''
              else (case ts_required_fees state of
                      Some required \<Rightarrow>
                        if gf_max_fee_per_gas fees < gf_max_fee_per_gas required
                           \<or> gf_max_priority_fee_per_gas fees < gf_max_priority_fee_per_gas required
                        then Inl ''new transaction's gas fees should be at least the required fees''
                        else Inr ()
                    | None \<Rightarrow> Inr ())))"

text \<open>An underpriced transaction is remembered, without a hash, when its fees exceed the last ones.\<close>

definition push_underpriced :: "transaction_tracker \<Rightarrow> gas_fees \<Rightarrow> transaction_tracker" where
  "push_underpriced t fees =
     (if tt_transactions t = []
         \<or> gf_max_fee_per_gas fees > gf_max_fee_per_gas (pt_gas_fees (last (tt_transactions t)))
           \<and> gf_max_priority_fee_per_gas fees
               > gf_max_priority_fee_per_gas (pt_gas_fees (last (tt_transactions t)))
      then t\<lparr>tt_transactions := tt_transactions t @
               [\<lparr>pt_tx_hash = None, pt_gas_fees = fees, pt_attempt_number = tt_attempt_count t,
                 pt_sent_at_block = None, pt_sent_at_time = None\<rparr>]\<rparr>
      else t)"

definition send_transaction ::
  "tracker_env \<Rightarrow> transaction_tracker \<Rightarrow> transaction_request \<Rightarrow> expected_storage \<Rightarrow> u64 \<Rightarrow>
     transaction_tracker \<times> (transaction_tracker_error + b256)" where
  "send_transaction te t tx expected_storage block_number =
     (case validate_transaction t tx of
        Inl e \<Rightarrow> (t, Inl (TT_Other e))
      | Inr _ \<Rightarrow>
          (let fees = request_fees tx
           in case trq_nonce tx of
                None \<Rightarrow> (t, Inl (TT_Other ''transaction given to tracker should have nonce set''))
              | Some _ \<Rightarrow>
                  (case sender_send_transaction (te_sender_env te) (tt_sender t) tx expected_storage of
                     Inr tx_hash \<Rightarrow>
                       (t\<lparr>tt_transactions := tt_transactions t @
                            [\<lparr>pt_tx_hash = Some tx_hash, pt_gas_fees = fees,
                              pt_attempt_number = tt_attempt_count t,
                              pt_sent_at_block = Some block_number, pt_sent_at_time = Some (te_now te)\<rparr>],
                          tt_has_abandoned := False, tt_attempt_count := tt_attempt_count t + 1\<rparr>,
                        Inr tx_hash)
                   | Inl e \<Rightarrow>
                       if e = TS_ReplacementUnderpriced \<or> e = TS_Underpriced
                       then ((push_underpriced t fees)
                               \<lparr>tt_has_abandoned := False, tt_attempt_count := tt_attempt_count t + 1\<rparr>,
                             Inl (transaction_tracker_error_from e))
                       else (t, Inl (transaction_tracker_error_from e)))))"

section \<open>Cancelling\<close>

definition cancel_target :: "transaction_tracker \<Rightarrow> gas_fees \<Rightarrow> b256 \<times> gas_fees" where
  "cancel_target t estimated_fees =
     (case find (\<lambda>p. pt_tx_hash p \<noteq> None) (rev (tt_transactions t)) of
        Some p \<Rightarrow>
          (let increased = gas_fees_increase_by_percent (pt_gas_fees p) (tt_replacement_fee_percent_increase t)
           in (unwrap_or 0 (pt_tx_hash p),
               \<lparr>gf_max_fee_per_gas = max (gf_max_fee_per_gas increased) (gf_max_fee_per_gas estimated_fees),
                gf_max_priority_fee_per_gas =
                  max (gf_max_priority_fee_per_gas increased) (gf_max_priority_fee_per_gas estimated_fees)\<rparr>))
      | None \<Rightarrow> (0, estimated_fees))"

definition cancel_transaction ::
  "tracker_env \<Rightarrow> transaction_tracker \<Rightarrow> gas_fees \<Rightarrow>
     transaction_tracker \<times> (transaction_tracker_error + b256 option)" where
  "cancel_transaction te t estimated_fees =
     (let (tx_hash, fees) = cancel_target t estimated_fees
      in case sender_cancel_transaction (te_sender_env te) (tt_sender t) tx_hash (tt_nonce t) fees of
           Inr info \<Rightarrow>
             if cti_soft_cancelled info then (tracker_reset te t, Inr None)
             else (t\<lparr>tt_transactions := tt_transactions t @
                        [\<lparr>pt_tx_hash = Some (cti_tx_hash info), pt_gas_fees = fees,
                          pt_attempt_number = tt_attempt_count t,
                          pt_sent_at_block = None, pt_sent_at_time = None\<rparr>],
                      tt_attempt_count := tt_attempt_count t + 1\<rparr>,
                   Inr (Some (cti_tx_hash info)))
         | Inl e \<Rightarrow>
             if e = TS_ReplacementUnderpriced \<or> e = TS_Underpriced
             then (push_underpriced t fees, Inl TT_ReplacementUnderpriced)
             else (t, Inl (transaction_tracker_error_from e)))"

section \<open>Updates\<close>

definition get_mined_tx_info :: "tracker_env \<Rightarrow> b256 \<Rightarrow> string + mined_tx_info option" where
  "get_mined_tx_info te tx_hash =
     (case (te_get_transaction_by_hash te tx_hash, te_get_transaction_receipt te tx_hash) of
        (Inl e, _) \<Rightarrow> Inl e
      | (Inr _, Inl e) \<Rightarrow> Inl e
      | (Inr gas_limit, Inr None) \<Rightarrow> Inr None
      | (Inr gas_limit, Inr (Some r)) \<Rightarrow>
          Inr (Some \<lparr>mti_block_number = unwrap_or 0 (rcp_block_number r), mti_gas_limit = gas_limit,
                     mti_gas_used = Some (rcp_gas_used r),
                     mti_gas_price = Some (rcp_effective_gas_price r),
                     mti_is_success = rcp_status r\<rparr>))"

definition mined_update_of :: "u64 \<Rightarrow> pending_transaction \<Rightarrow> b256 \<Rightarrow> mined_tx_info \<Rightarrow> tracker_update" where
  "mined_update_of nonce tx h info =
     Mined \<lparr>mu_tx_hash = h, mu_nonce = nonce, mu_block_number = mti_block_number info,
            mu_attempt_number = pt_attempt_number tx, mu_gas_limit = mti_gas_limit info,
            mu_gas_used = mti_gas_used info, mu_gas_price = mti_gas_price info,
            mu_is_success = mti_is_success info\<rparr>"

text \<open>The loop over the transactions, latest first; a later match replaces an earlier one.\<close>

fun find_mined ::
  "tracker_env \<Rightarrow> u64 \<Rightarrow> b256 list \<Rightarrow> pending_transaction list \<Rightarrow> tracker_update \<Rightarrow> string + tracker_update" where
  "find_mined te nonce mined [] out = Inr out"
| "find_mined te nonce mined (tx # txs) out =
     (case pt_tx_hash tx of
        None \<Rightarrow> find_mined te nonce mined txs out
      | Some h \<Rightarrow>
          if h \<in> set mined
          then (case get_mined_tx_info te h of
                  Inl e \<Rightarrow> Inl e
                | Inr None \<Rightarrow> find_mined te nonce mined txs out
                | Inr (Some info) \<Rightarrow> find_mined te nonce mined txs (mined_update_of nonce tx h info))
          else find_mined te nonce mined txs out)"

definition process_update ::
  "tracker_env \<Rightarrow> transaction_tracker \<Rightarrow> address_update \<Rightarrow>
     transaction_tracker \<times> (transaction_tracker_error + tracker_update option)" where
  "process_update te t update =
     (let t = t\<lparr>tt_balance := au_balance update\<rparr>
      in case au_nonce update of
           None \<Rightarrow> (t, Inr None)
         | Some update_nonce \<Rightarrow>
             if tt_nonce t > update_nonce then (t, Inr None)
             else (case find_mined te (tt_nonce t) (au_mined_tx_hashes update) (rev (tt_transactions t))
                          (NonceUsedForOtherTx (tt_nonce t)) of
                     Inl e \<Rightarrow> (t, Inl (TT_Other e))
                   | Inr out \<Rightarrow> (set_nonce_and_clear_state t (update_nonce + 1), Inr (Some out))))"

end
