(* ===== verification/Assigner.thy ===== *)
theory Assigner
  imports Pool_Types
begin

text \<open>
  The assigner of \<open>crates/builder/src/assigner.rs\<close>: it hands the operations of the pool to the
  builders and locks their senders, so that no two builders bundle operations of the same sender.

  The pool is the argument \<open>pool\<close>, with the answers to the two requests the assigner makes.  A hash
  set of senders is given by the order in which it is iterated.  \<open>None\<close> stands for a panic.
\<close>

section \<open>State\<close>

record pool_operation_summary =
  sum_entry_point :: address
  sum_hash :: b256
  sum_sender :: address

definition summary_from :: "pool_operation \<Rightarrow> pool_operation_summary" where
  "summary_from op =
     \<lparr>sum_entry_point = po_entry_point op, sum_hash = uo_hash (po_uo op),
      sum_sender = uo_sender (po_uo op)\<rparr>"

record pool_client =
  pc_get_ops_summaries :: "address \<Rightarrow> u64 \<Rightarrow> string option \<Rightarrow> pool_error + pool_operation_summary list"
  pc_get_ops_by_hashes :: "address \<Rightarrow> b256 list \<Rightarrow> pool_error + pool_operation list"

datatype lock_state = Assigned | Confirmed_Lock

record assigner =
  as_uo_sender_to_builder_state :: "address \<rightharpoonup> address \<times> lock_state"
  as_builder_to_uo_senders :: "address \<rightharpoonup> address list"
  as_max_pool_ops_per_request :: u64
  as_max_bundle_size :: u64

definition assigner_new :: "u64 \<Rightarrow> u64 \<Rightarrow> assigner" where
  "assigner_new max_pool_ops_per_request max_bundle_size =
     \<lparr>as_uo_sender_to_builder_state = Map.empty, as_builder_to_uo_senders = Map.empty,
      as_max_pool_ops_per_request = max_pool_ops_per_request,
      as_max_bundle_size = max_bundle_size\<rparr>"

section \<open>Operations\<close>

text \<open>The loop over the summaries, with those to return so far.\<close>

fun assign_loop ::
  "address \<Rightarrow> pool_operation_summary list \<Rightarrow> pool_operation_summary list \<Rightarrow> assigner
     \<Rightarrow> assigner \<times> pool_operation_summary list" where
  "assign_loop builder_address [] return_ops st = (st, return_ops)"
| "assign_loop builder_address (op # ops) return_ops st =
     (let entry = (case as_uo_sender_to_builder_state st (sum_sender op) of
                     Some e \<Rightarrow> e | None \<Rightarrow> (builder_address, Assigned));
          st = st\<lparr>as_uo_sender_to_builder_state :=
                    (as_uo_sender_to_builder_state st)(sum_sender op \<mapsto> entry)\<rparr>
      in if fst entry \<noteq> builder_address then assign_loop builder_address ops return_ops st
         else
           (let senders = (case as_builder_to_uo_senders st builder_address of
                             Some senders \<Rightarrow> senders | None \<Rightarrow> []);
                senders = (if sum_sender op \<in> set senders then senders
                           else senders @ [sum_sender op]);
                st = st\<lparr>as_builder_to_uo_senders :=
                          (as_builder_to_uo_senders st)(builder_address \<mapsto> senders)\<rparr>;
                return_ops = return_ops @ [op]
            in if length return_ops \<ge> unat (as_max_bundle_size st) then (st, return_ops)
               else assign_loop builder_address ops return_ops st))"

definition assign_operations ::
  "pool_client \<Rightarrow> address \<Rightarrow> address \<Rightarrow> string option \<Rightarrow> assigner
     \<Rightarrow> assigner \<times> (pool_error + pool_operation list)" where
  "assign_operations pool builder_address entry_point filter_id st =
     (case pc_get_ops_summaries pool entry_point (as_max_pool_ops_per_request st) filter_id of
        Inl e \<Rightarrow> (st, Inl e)
      | Inr ops \<Rightarrow>
          (case assign_loop builder_address ops [] st of
             (st, return_ops) \<Rightarrow>
               if return_ops = [] then (st, Inr [])
               else (st, pc_get_ops_by_hashes pool entry_point (map sum_hash return_ops))))"

fun confirm_loop ::
  "address \<Rightarrow> address list \<Rightarrow> (address \<rightharpoonup> address \<times> lock_state)
     \<Rightarrow> (address \<rightharpoonup> address \<times> lock_state) option" where
  "confirm_loop builder_address [] locks = Some locks"
| "confirm_loop builder_address (confirmed_sender # senders) locks =
     (case locks confirmed_sender of
        None \<Rightarrow> None
      | Some (locked_builder_address, lock_state) \<Rightarrow>
          if locked_builder_address \<noteq> builder_address then None
          else confirm_loop builder_address senders
                 (if lock_state = Assigned
                  then locks(confirmed_sender \<mapsto> (locked_builder_address, Confirmed_Lock))
                  else locks))"

fun senders_to_remove ::
  "(address \<rightharpoonup> address \<times> lock_state) \<Rightarrow> address list \<Rightarrow> address list option" where
  "senders_to_remove locks [] = Some []"
| "senders_to_remove locks (sender # senders) =
     (case locks sender of
        None \<Rightarrow> None
      | Some entry \<Rightarrow>
          map_option (\<lambda>rest. if snd entry \<noteq> Confirmed_Lock then sender # rest else rest)
            (senders_to_remove locks senders))"

fun drop_senders :: "address \<Rightarrow> address list \<Rightarrow> assigner \<Rightarrow> assigner option" where
  "drop_senders builder_address [] st = Some st"
| "drop_senders builder_address (sender # to_remove) st =
     (case as_builder_to_uo_senders st builder_address of
        None \<Rightarrow> None
      | Some builder_senders \<Rightarrow>
          (let builder_senders = removeAll sender builder_senders
           in drop_senders builder_address to_remove
                (st\<lparr>as_uo_sender_to_builder_state :=
                      (as_uo_sender_to_builder_state st)(sender := None),
                    as_builder_to_uo_senders :=
                      (as_builder_to_uo_senders st)(builder_address :=
                         if builder_senders = [] then None else Some builder_senders)\<rparr>)))"

definition confirm_senders_drop_unused :: "address \<Rightarrow> address list \<Rightarrow> assigner \<Rightarrow> assigner option" where
  "confirm_senders_drop_unused builder_address confirmed_senders st =
     (case confirm_loop builder_address confirmed_senders (as_uo_sender_to_builder_state st) of
        None \<Rightarrow> None
      | Some locks \<Rightarrow>
          (case as_builder_to_uo_senders st builder_address of
             None \<Rightarrow> None
           | Some builder_senders \<Rightarrow>
               (case senders_to_remove locks builder_senders of
                  None \<Rightarrow> None
                | Some to_remove \<Rightarrow>
                    drop_senders builder_address to_remove
                      (st\<lparr>as_uo_sender_to_builder_state := locks\<rparr>))))"

definition release_all :: "address \<Rightarrow> assigner \<Rightarrow> assigner" where
  "release_all builder_address st =
     (case as_builder_to_uo_senders st builder_address of
        None \<Rightarrow> st
      | Some builder_senders \<Rightarrow>
          st\<lparr>as_builder_to_uo_senders := (as_builder_to_uo_senders st)(builder_address := None),
             as_uo_sender_to_builder_state :=
               fold (\<lambda>sender locks. locks(sender := None)) builder_senders
                 (as_uo_sender_to_builder_state st)\<rparr>)"

section \<open>The invariant\<close>

text \<open>
  The two maps agree: a sender is in the list of a builder exactly when its lock names that builder.
  So a sender is in the list of at most one builder.
\<close>

definition locked_by :: "assigner \<Rightarrow> address \<Rightarrow> address \<Rightarrow> bool" where
  "locked_by st builder_address sender \<longleftrightarrow>
     (case as_uo_sender_to_builder_state st sender of
        None \<Rightarrow> False | Some (b, _) \<Rightarrow> b = builder_address)"

definition builder_senders :: "assigner \<Rightarrow> address \<Rightarrow> address list" where
  "builder_senders st b = (case as_builder_to_uo_senders st b of None \<Rightarrow> [] | Some ss \<Rightarrow> ss)"

definition assigner_inv :: "assigner \<Rightarrow> bool" where
  "assigner_inv st \<longleftrightarrow>
     (\<forall>b s. s \<in> set (builder_senders st b) \<longleftrightarrow> locked_by st b s) \<and>
     (\<forall>b. as_builder_to_uo_senders st b \<noteq> Some []) \<and>
     (\<forall>b. distinct (builder_senders st b))"

lemma assigner_invI:
  assumes "\<And>b s. s \<in> set (builder_senders st b) \<longleftrightarrow> locked_by st b s"
    "\<And>b. as_builder_to_uo_senders st b \<noteq> Some []" "\<And>b. distinct (builder_senders st b)"
  shows "assigner_inv st"
  using assms by (simp add: assigner_inv_def)

lemma assigner_invD:
  assumes "assigner_inv st"
  shows "s \<in> set (builder_senders st b) \<longleftrightarrow> locked_by st b s"
    "as_builder_to_uo_senders st b \<noteq> Some []" "distinct (builder_senders st b)"
  using assms by (simp_all add: assigner_inv_def)

lemma locked_by_one: "locked_by st b s \<Longrightarrow> locked_by st b' s \<Longrightarrow> b = b'"
  by (auto simp: locked_by_def split: option.splits prod.splits)

lemma locked_by_iff: "locked_by st b s \<longleftrightarrow> (\<exists>l. as_uo_sender_to_builder_state st s = Some (b, l))"
  by (auto simp: locked_by_def split: option.splits prod.splits)

lemma assigner_new_inv: "assigner_inv (assigner_new n m)"
  by (simp add: assigner_inv_def assigner_new_def builder_senders_def locked_by_def)

section \<open>Assigning\<close>

definition assignable :: "assigner \<Rightarrow> address \<Rightarrow> address \<Rightarrow> bool" where
  "assignable st b s \<longleftrightarrow> as_uo_sender_to_builder_state st s = None \<or> locked_by st b s"

definition lock_sender :: "assigner \<Rightarrow> address \<Rightarrow> address \<Rightarrow> assigner" where
  "lock_sender st b s =
     st\<lparr>as_uo_sender_to_builder_state := (as_uo_sender_to_builder_state st)(s \<mapsto>
          (case as_uo_sender_to_builder_state st s of Some e \<Rightarrow> e | None \<Rightarrow> (b, Assigned))),
        as_builder_to_uo_senders := (as_builder_to_uo_senders st)(b \<mapsto>
          (if s \<in> set (builder_senders st b) then builder_senders st b
           else builder_senders st b @ [s]))\<rparr>"

lemma assign_loop_Cons:
  "assign_loop b (op # ops) acc st =
     (if \<not> assignable st b (sum_sender op) then assign_loop b ops acc st
      else if Suc (length acc) \<ge> unat (as_max_bundle_size st)
      then (lock_sender st b (sum_sender op), acc @ [op])
      else assign_loop b ops (acc @ [op]) (lock_sender st b (sum_sender op)))"
proof (cases "as_uo_sender_to_builder_state st (sum_sender op)")
  case None
  then show ?thesis
    by (cases "as_builder_to_uo_senders st b")
       (simp_all add: assignable_def lock_sender_def builder_senders_def Let_def)
next
  case (Some e)
  then have same: "st\<lparr>as_uo_sender_to_builder_state :=
      (as_uo_sender_to_builder_state st)(sum_sender op \<mapsto> e)\<rparr> = st"
    by (simp add: map_upd_triv)
  show ?thesis
    using Some same by (cases e; cases "as_builder_to_uo_senders st b")
      (auto simp: assignable_def locked_by_def lock_sender_def builder_senders_def Let_def map_upd_triv)
qed

declare assign_loop.simps(2) [simp del]

lemma lock_sender_locked:
  "assignable st b s \<Longrightarrow> locked_by (lock_sender st b s) b' t \<longleftrightarrow> locked_by st b' t \<or> (b' = b \<and> t = s)"
  by (auto simp: assignable_def lock_sender_def locked_by_def split: option.splits)

lemma lock_sender_senders:
  "builder_senders (lock_sender st b s) b' =
     (if b' = b \<and> s \<notin> set (builder_senders st b) then builder_senders st b @ [s]
      else builder_senders st b')"
  by (auto simp: lock_sender_def builder_senders_def)

lemma lock_sender_fields [simp]:
  "as_max_bundle_size (lock_sender st b s) = as_max_bundle_size st"
  "as_max_pool_ops_per_request (lock_sender st b s) = as_max_pool_ops_per_request st"
  by (simp_all add: lock_sender_def)

lemma lock_sender_keeps:
  "as_uo_sender_to_builder_state st t = Some e \<Longrightarrow>
     as_uo_sender_to_builder_state (lock_sender st b s) t = Some e"
  by (auto simp: lock_sender_def)

lemma lock_sender_assignable:
  "assignable st b s \<Longrightarrow> assignable (lock_sender st b s) b t \<longleftrightarrow> assignable st b t"
  by (auto simp: assignable_def lock_sender_def locked_by_def split: option.splits)

lemma lock_sender_inv:
  assumes "assigner_inv st" "assignable st b s"
  shows "assigner_inv (lock_sender st b s)"
proof (rule assigner_invI)
  fix b' t
  show "t \<in> set (builder_senders (lock_sender st b s) b') \<longleftrightarrow> locked_by (lock_sender st b s) b' t"
    using assigner_invD(1) [OF assms(1)] by (auto simp: lock_sender_senders lock_sender_locked [OF assms(2)])
  show "as_builder_to_uo_senders (lock_sender st b s) b' \<noteq> Some []"
    using assigner_invD(2) [OF assms(1), of b'] by (auto simp: lock_sender_def)
  show "distinct (builder_senders (lock_sender st b s) b')"
    using assigner_invD(3) [OF assms(1)] by (auto simp: lock_sender_senders)
qed

text \<open>
  The loop returns the assignable operations in their order, up to the size of a bundle, locks their
  senders for the builder and changes no other lock.
\<close>

definition assigned :: "assigner \<Rightarrow> address \<Rightarrow> pool_operation_summary list \<Rightarrow> assigner \<Rightarrow> bool" where
  "assigned st b ops st' \<longleftrightarrow>
     assigner_inv st' \<and>
     (\<forall>b' s. locked_by st' b' s \<longleftrightarrow> locked_by st b' s \<or> (b' = b \<and> s \<in> sum_sender ` set ops)) \<and>
     (\<forall>s e. as_uo_sender_to_builder_state st s = Some e \<longrightarrow>
        as_uo_sender_to_builder_state st' s = Some e) \<and>
     (\<forall>b'. b' \<noteq> b \<longrightarrow> builder_senders st' b' = builder_senders st b') \<and>
     as_max_bundle_size st' = as_max_bundle_size st \<and>
     as_max_pool_ops_per_request st' = as_max_pool_ops_per_request st"

lemma assigned_none: "assigner_inv st \<Longrightarrow> assigned st b [] st"
  by (simp add: assigned_def)

lemma assigned_lock:
  assumes "assigner_inv st" "assignable st b (sum_sender op)"
    "assigned (lock_sender st b (sum_sender op)) b ops st'"
  shows "assigned st b (op # ops) st'"
  using assms(3) lock_sender_locked [OF assms(2)] lock_sender_senders [of st b "sum_sender op"]
    lock_sender_keeps [of st]
  by (auto simp: assigned_def)

lemma assign_loop_result:
  "assign_loop b ops acc st = (st', ret) \<Longrightarrow> assigner_inv st \<Longrightarrow>
     \<exists>new. ret = acc @ new \<and> assigned st b new st' \<and>
       new = take (max 1 (unat (as_max_bundle_size st) - length acc))
               (filter (\<lambda>op. assignable st b (sum_sender op)) ops)"
proof (induction ops arbitrary: acc st)
  case Nil
  then show ?case using assigned_none by simp
next
  case (Cons op ops)
  let ?s = "lock_sender st b (sum_sender op)" and ?m = "unat (as_max_bundle_size st)"
  show ?case
  proof (cases "assignable st b (sum_sender op)")
    case False
    then show ?thesis using Cons by (simp add: assign_loop_Cons)
  next
    case True
    note inv = lock_sender_inv [OF Cons.prems(2) True]
    show ?thesis
    proof (cases "Suc (length acc) \<ge> ?m")
      case full: True
      then have "st' = ?s" "ret = acc @ [op]" "max 1 (?m - length acc) = 1"
        using Cons.prems(1) True by (simp_all add: assign_loop_Cons)
      then show ?thesis
        using True assigned_lock [OF Cons.prems(2) True assigned_none [OF inv]]
        by (intro exI [of _ "[op]"]) simp
    next
      case False
      then have "assign_loop b ops (acc @ [op]) ?s = (st', ret)"
        using Cons.prems(1) True by (simp add: assign_loop_Cons)
      then obtain new where new: "ret = (acc @ [op]) @ new" "assigned ?s b new st'"
        "new = take (max 1 (?m - Suc (length acc)))
           (filter (\<lambda>op. assignable st b (sum_sender op)) ops)"
        using Cons.IH [OF _ inv, of "acc @ [op]"] lock_sender_assignable [OF True] by auto
      have "max 1 (?m - length acc) = Suc (max 1 (?m - Suc (length acc)))"
        using False by simp
      then show ?thesis
        using True new assigned_lock [OF Cons.prems(2) True new(2)] by (intro exI [of _ "op # new"]) simp
    qed
  qed
qed

section \<open>Confirming and releasing\<close>

lemma confirm_loop_result:
  "confirm_loop b cs locks =
     (if \<forall>c\<in>set cs. \<exists>l. locks c = Some (b, l)
      then Some (\<lambda>s. if s \<in> set cs then Some (b, Confirmed_Lock) else locks s) else None)"
proof (induction cs arbitrary: locks)
  case (Cons c cs)
  show ?case
  proof (cases "\<exists>l. locks c = Some (b, l)")
    case True
    then obtain l where l: "locks c = Some (b, l)" by auto
    then have "confirm_loop b (c # cs) locks = confirm_loop b cs (locks(c \<mapsto> (b, Confirmed_Lock)))"
      by (cases l) (simp_all add: map_upd_triv)
    then show ?thesis using l by (auto simp: Cons fun_eq_iff)
  next
    case False
    then show ?thesis by (auto split: option.splits)
  qed
qed simp

lemma senders_to_remove_result:
  "\<forall>s\<in>set ss. locks s \<noteq> None \<Longrightarrow>
     senders_to_remove locks ss = Some (filter (\<lambda>s. snd (the (locks s)) \<noteq> Confirmed_Lock) ss)"
  by (induction ss) auto

lemma drop_senders_result:
  "as_builder_to_uo_senders st b = Some ss \<Longrightarrow> distinct rem \<Longrightarrow> set rem \<subseteq> set ss \<Longrightarrow> rem \<noteq> [] \<Longrightarrow>
     drop_senders b rem st = Some (st\<lparr>
       as_uo_sender_to_builder_state :=
         (\<lambda>s. if s \<in> set rem then None else as_uo_sender_to_builder_state st s),
       as_builder_to_uo_senders := (as_builder_to_uo_senders st)(b :=
         if set ss \<subseteq> set rem then None else Some (filter (\<lambda>s. s \<notin> set rem) ss))\<rparr>)"
proof (induction rem arbitrary: st ss)
  case (Cons s rem)
  let ?ss = "removeAll s ss" and ?uo = "as_uo_sender_to_builder_state st"
  have ss: "filter (\<lambda>t. t \<noteq> s) ss = ?ss" by (induction ss) auto
  have empty: "?ss = [] \<longleftrightarrow> set ss \<subseteq> {s}" by (auto simp: ss [symmetric] filter_empty_conv)
  have upd: "(\<lambda>t. if t = s \<or> t \<in> A then None else ?uo t) =
      (\<lambda>t. if t \<in> A then None else (?uo(s := None)) t)" for A by auto
  show ?case
  proof (cases "rem = []")
    case True
    then show ?thesis
      using Cons.prems(1) by (cases "set ss \<subseteq> {s}") (simp_all add: ss empty Let_def fun_upd_def)
  next
    case False
    let ?st = "st\<lparr>as_uo_sender_to_builder_state := ?uo(s := None),
      as_builder_to_uo_senders := (as_builder_to_uo_senders st)(b \<mapsto> ?ss)\<rparr>"
    have ne: "?ss \<noteq> []" using False Cons.prems(2,3) empty by (cases rem) auto
    have sub: "set rem \<subseteq> set ?ss" using Cons.prems(2,3) by auto
    have filt: "filter (\<lambda>t. t \<notin> set rem) ?ss = filter (\<lambda>t. t \<noteq> s \<and> t \<notin> set rem) ss"
      by (simp add: ss [symmetric] conj_commute)
    have "drop_senders b (s # rem) st = drop_senders b rem ?st" using Cons.prems(1) ne by simp
    also have "\<dots> = Some (?st\<lparr>
       as_uo_sender_to_builder_state :=
         (\<lambda>t. if t \<in> set rem then None else as_uo_sender_to_builder_state ?st t),
       as_builder_to_uo_senders := (as_builder_to_uo_senders ?st)(b :=
         if set ?ss \<subseteq> set rem then None else Some (filter (\<lambda>t. t \<notin> set rem) ?ss))\<rparr>)"
      by (rule Cons.IH) (use Cons.prems(2) sub False in simp_all)
    finally show ?thesis
      unfolding filt by (elim trans, unfold option.inject) (rule assigner.equality; auto simp: fun_eq_iff)
  qed
qed simp

text \<open>Confirming succeeds exactly when the builder holds the locks and has some.\<close>

lemma confirm_defined:
  assumes "assigner_inv st"
  shows "confirm_senders_drop_unused b cs st \<noteq> None \<longleftrightarrow>
    (\<forall>c\<in>set cs. locked_by st b c) \<and> builder_senders st b \<noteq> []"
proof (cases "(\<forall>c\<in>set cs. locked_by st b c) \<and> builder_senders st b \<noteq> []")
  case True
  let ?locks = "\<lambda>s. if s \<in> set cs then Some (b, Confirmed_Lock) else as_uo_sender_to_builder_state st s"
  obtain ss where ss: "as_builder_to_uo_senders st b = Some ss" "builder_senders st b = ss"
    using True by (auto simp: builder_senders_def split: option.splits)
  have "\<forall>s\<in>set ss. ?locks s \<noteq> None"
    using assigner_invD(1) [OF assms, of _ b] ss(2) by (auto simp: locked_by_iff)
  note R = senders_to_remove_result [OF this]
  let ?rem = "filter (\<lambda>s. snd (the (?locks s)) \<noteq> Confirmed_Lock) ss"
  have "\<exists>st'. drop_senders b ?rem (st\<lparr>as_uo_sender_to_builder_state := ?locks\<rparr>) = Some st'"
    using drop_senders_result [of "st\<lparr>as_uo_sender_to_builder_state := ?locks\<rparr>" b ss ?rem] ss
      assigner_invD(3) [OF assms, of b] by (cases "?rem = []") auto
  then show ?thesis
    using True R ss by (auto simp: confirm_senders_drop_unused_def confirm_loop_result locked_by_iff)
next
  case False
  have "as_builder_to_uo_senders st b = None" if "builder_senders st b = []"
    using that assigner_invD(2) [OF assms, of b] by (auto simp: builder_senders_def split: option.splits)
  then show ?thesis
    using False
    by (auto simp: confirm_senders_drop_unused_def confirm_loop_result locked_by_iff split: option.splits)
qed

lemma confirm_maps:
  assumes inv: "assigner_inv st" and st': "confirm_senders_drop_unused b cs st = Some st'"
  defines "kept \<equiv> \<lambda>s. s \<in> set cs \<or> as_uo_sender_to_builder_state st s = Some (b, Confirmed_Lock)"
  shows "as_uo_sender_to_builder_state st' s =
      (if locked_by st b s then if kept s then Some (b, Confirmed_Lock) else None
       else as_uo_sender_to_builder_state st s)"
    "builder_senders st' b' = (if b' = b then filter kept (builder_senders st b) else builder_senders st b')"
    "as_builder_to_uo_senders st' b' \<noteq> Some []"
    "as_max_bundle_size st' = as_max_bundle_size st"
    "as_max_pool_ops_per_request st' = as_max_pool_ops_per_request st"
proof -
  let ?uo = "as_uo_sender_to_builder_state st"
  let ?locks = "\<lambda>s. if s \<in> set cs then Some (b, Confirmed_Lock) else ?uo s"
  let ?st = "st\<lparr>as_uo_sender_to_builder_state := ?locks\<rparr>"
  have L: "\<forall>c\<in>set cs. locked_by st b c" "builder_senders st b \<noteq> []"
    using confirm_defined [OF inv, of b cs] st' by auto
  obtain ss where ss: "as_builder_to_uo_senders st b = Some ss" "builder_senders st b = ss" "ss \<noteq> []"
    using L(2) by (auto simp: builder_senders_def split: option.splits)
  have mem: "s \<in> set ss \<longleftrightarrow> locked_by st b s" for s using assigner_invD(1) [OF inv, of s b] ss(2) by simp
  have "\<forall>s\<in>set ss. ?locks s \<noteq> None" using mem by (auto simp: locked_by_iff)
  note R = senders_to_remove_result [OF this]
  let ?rem = "filter (\<lambda>s. snd (the (?locks s)) \<noteq> Confirmed_Lock) ss"
  have rem: "s \<in> set ?rem \<longleftrightarrow> locked_by st b s \<and> \<not> kept s" for s
    using mem [of s] L(1) by (auto simp: kept_def locked_by_iff)
  have filt: "filter (\<lambda>s. s \<notin> set ?rem) ss = filter kept ss"
    by (rule filter_cong [OF refl]) (use mem rem in blast)
  have D: "drop_senders b ?rem ?st = Some st'"
    using st' L(1) R ss(1) by (simp add: confirm_senders_drop_unused_def confirm_loop_result locked_by_iff)
  have "as_uo_sender_to_builder_state st' = (\<lambda>s. if s \<in> set ?rem then None else ?locks s)
    \<and> as_builder_to_uo_senders st' = (as_builder_to_uo_senders st)(b :=
         if filter kept ss = [] then None else Some (filter kept ss))
    \<and> as_max_bundle_size st' = as_max_bundle_size st
    \<and> as_max_pool_ops_per_request st' = as_max_pool_ops_per_request st"
  proof (cases "?rem = []")
    case True
    then have "filter kept ss = ss" using filt by simp
    moreover have "st' = ?st" using D unfolding True by simp
    ultimately show ?thesis using ss True by (auto simp: fun_eq_iff)
  next
    case False
    have "set ss \<subseteq> set ?rem \<longleftrightarrow> filter (\<lambda>s. s \<notin> set ?rem) ss = []"
      by (auto simp only: filter_empty_conv subset_iff)
    moreover have "distinct ?rem" using assigner_invD(3) [OF inv, of b] ss(2) by simp
    moreover have "set ?rem \<subseteq> set ss" by auto
    ultimately show ?thesis
      using D drop_senders_result [of ?st b ss ?rem] ss(1) False filt by (auto simp: fun_eq_iff)
  qed
  note F = this
  show "as_uo_sender_to_builder_state st' s = (if locked_by st b s
      then if kept s then Some (b, Confirmed_Lock) else None else ?uo s)"
    using F rem [of s] L(1) by (auto simp: kept_def locked_by_iff)
  show "builder_senders st' b' = (if b' = b then filter kept (builder_senders st b) else builder_senders st b')"
    using F ss(2) by (auto simp: builder_senders_def)
  show "as_builder_to_uo_senders st' b' \<noteq> Some []"
    using F assigner_invD(2) [OF inv, of b'] by auto
  show "as_max_bundle_size st' = as_max_bundle_size st"
    "as_max_pool_ops_per_request st' = as_max_pool_ops_per_request st" using F by simp_all
qed

lemma confirm_inv:
  assumes inv: "assigner_inv st" and st': "confirm_senders_drop_unused b cs st = Some st'"
  shows "assigner_inv st'"
proof (rule assigner_invI)
  note M = confirm_maps [OF inv st']
  fix b' s
  show "as_builder_to_uo_senders st' b' \<noteq> Some []" by (rule M(3))
  show "distinct (builder_senders st' b')"
    using assigner_invD(3) [OF inv] by (simp add: M(2))
  have "locked_by st' b' s \<longleftrightarrow> (if b' = b then locked_by st b s \<and>
      (s \<in> set cs \<or> as_uo_sender_to_builder_state st s = Some (b, Confirmed_Lock)) else locked_by st b' s)"
    by (auto simp: locked_by_iff [of st'] M(1)) (auto simp: locked_by_iff)
  then show "s \<in> set (builder_senders st' b') \<longleftrightarrow> locked_by st' b' s"
    using assigner_invD(1) [OF inv] by (auto simp: M(2))
qed

lemma fold_remove:
  "fold (\<lambda>s m. m(s := None)) ss m = (\<lambda>s. if s \<in> set ss then None else m s)"
  by (induction ss arbitrary: m) auto

lemma release_maps:
  assumes "assigner_inv st"
  shows "as_uo_sender_to_builder_state (release_all b st) s =
      (if locked_by st b s then None else as_uo_sender_to_builder_state st s)"
    "builder_senders (release_all b st) b' = (if b' = b then [] else builder_senders st b')"
    "as_builder_to_uo_senders (release_all b st) b' \<noteq> Some []"
    "as_max_bundle_size (release_all b st) = as_max_bundle_size st"
    "as_max_pool_ops_per_request (release_all b st) = as_max_pool_ops_per_request st"
proof -
  have mem: "s \<in> set (builder_senders st b) \<longleftrightarrow> locked_by st b s" for s
    by (rule assigner_invD(1) [OF assms])
  show "as_uo_sender_to_builder_state (release_all b st) s =
      (if locked_by st b s then None else as_uo_sender_to_builder_state st s)"
    using mem by (auto simp: release_all_def fold_remove builder_senders_def split: option.splits)
  show "builder_senders (release_all b st) b' = (if b' = b then [] else builder_senders st b')"
    "as_builder_to_uo_senders (release_all b st) b' \<noteq> Some []"
    "as_max_bundle_size (release_all b st) = as_max_bundle_size st"
    "as_max_pool_ops_per_request (release_all b st) = as_max_pool_ops_per_request st"
    using assigner_invD(2) [OF assms] by (auto simp: release_all_def builder_senders_def split: option.splits)
qed

lemma release_locked:
  assumes "assigner_inv st"
  shows "locked_by (release_all b st) b' s \<longleftrightarrow> b' \<noteq> b \<and> locked_by st b' s"
  using locked_by_one [of st b s b'] by (auto simp: locked_by_iff [of "release_all b st"] release_maps(1) [OF assms] locked_by_iff)

lemma release_inv: "assigner_inv st \<Longrightarrow> assigner_inv (release_all b st)"
  using assigner_invD [of st] release_maps [of st] release_locked [of st]
  by (intro assigner_invI) auto

lemma assign_operations_assigned:
  assumes "assign_operations pool b ep f st = (st', r)" "assigner_inv st"
  obtains ops where "assigned st b ops st'"
    "\<And>ss. pc_get_ops_summaries pool ep (as_max_pool_ops_per_request st) f = Inr ss \<Longrightarrow>
       ops = take (max 1 (unat (as_max_bundle_size st)))
               (filter (\<lambda>op. assignable st b (sum_sender op)) ss)"
    "\<And>os. r = Inr os \<Longrightarrow> ops = [] \<and> os = [] \<or>
       ops \<noteq> [] \<and> pc_get_ops_by_hashes pool ep (map sum_hash ops) = Inr os"
proof (cases "pc_get_ops_summaries pool ep (as_max_pool_ops_per_request st) f")
  case (Inl e)
  then have "st' = st" "r = Inl e" using assms(1) by (simp_all add: assign_operations_def)
  then show thesis using that [of "[]"] Inl assigned_none [OF assms(2)] by simp
next
  case (Inr ss)
  obtain ret where ret: "assign_loop b ss [] st = (st', ret)"
    "r = (if ret = [] then Inr [] else pc_get_ops_by_hashes pool ep (map sum_hash ret))"
    using assms(1) Inr by (auto simp: assign_operations_def split: prod.splits if_splits)
  from assign_loop_result [OF ret(1) assms(2)]
  have A: "assigned st b ret st'" "ret = take (max 1 (unat (as_max_bundle_size st)))
      (filter (\<lambda>op. assignable st b (sum_sender op)) ss)" by auto
  show thesis by (rule that [OF A(1)]) (use A(2) Inr ret(2) in \<open>auto split: if_splits\<close>)
qed

section \<open>Reachable states\<close>

inductive assigner_step :: "assigner \<Rightarrow> assigner \<Rightarrow> bool" where
  assign: "assign_operations pool b ep f st = (st', r) \<Longrightarrow> assigner_step st st'"
| confirm: "confirm_senders_drop_unused b cs st = Some st' \<Longrightarrow> assigner_step st st'"
| release: "assigner_step st (release_all b st)"

inductive assigner_reachable :: "assigner \<Rightarrow> bool" where
  start: "assigner_reachable (assigner_new n m)"
| step: "assigner_reachable st \<Longrightarrow> assigner_step st st' \<Longrightarrow> assigner_reachable st'"

lemma assigner_step_inv: "assigner_step st st' \<Longrightarrow> assigner_inv st \<Longrightarrow> assigner_inv st'"
proof (induction rule: assigner_step.induct)
  case (assign pool b ep f st st' r)
  then show ?case by (elim assign_operations_assigned) (auto simp: assigned_def)
qed (auto intro: confirm_inv release_inv)

lemma assigner_reachable_inv: "assigner_reachable st \<Longrightarrow> assigner_inv st"
  by (induction rule: assigner_reachable.induct) (auto intro: assigner_new_inv assigner_step_inv)

end
