(* ===== verification/Pool_Server.thy ===== *)
theory Pool_Server
  imports Uo_Pool Assigner
begin

text \<open>
  The pool server of \<open>crates/pool/src/server/local.rs\<close>: one mempool per entry point behind a queue of
  requests, and the handle whose methods send a request and take the response apart.

  A request is handled as one step.  \<open>None\<close> means that its handler gives no answer, because it
  panics or does not return.  The hash map of the mempools is given by the order in which it is
  iterated; its keys never change.  The surroundings of a mempool are the argument \<open>ctx\<close>.
\<close>

section \<open>State\<close>

text \<open>
  \<open>ctx_unanswered\<close> tells which of the two happens when a handler gives no answer: a panic drops the
  channel of the response, a handler that does not return keeps the caller waiting.
\<close>

datatype unanswered = Panics | Hangs

record server_context =
  ctx_alloy :: alloy
  ctx_env :: "address \<Rightarrow> environment"
  ctx_paymaster_config :: "address \<Rightarrow> paymaster_config"
  ctx_iter_reputation :: "address_reputation \<Rightarrow> address list"
  ctx_now :: instant
  ctx_unanswered :: unanswered

text \<open>
  \<open>srv_to_track\<close> is the set of tracked addresses that the server shares with the chain,
  \<open>srv_new_heads\<close> what was sent to the subscribers, and \<open>srv_open\<close> whether the server still receives
  requests.
\<close>

record 'l pool_server =
  srv_mempools :: "(address \<times> 'l uo_pool) list"
  srv_to_track :: "address list"
  srv_new_heads :: "new_head list"
  srv_open :: bool

datatype server_request_kind =
  Req_GetSupportedEntryPoints
  | Req_AddOp address user_operation_variant user_operation_permissions operation_origin
  | Req_GetOps address u64 "string option"
  | Req_GetOpsSummaries address u64 "string option"
  | Req_GetOpsByHashes address "b256 list"
  | Req_GetOpByHash b256
  | Req_GetOpById user_operation_id
  | Req_RemoveOps address "b256 list"
  | Req_RemoveOpById address user_operation_id
  | Req_UpdateEntities address "entity_update list"
  | Req_DebugClearState bool bool bool
  | Req_AdminSetTracking address bool bool
  | Req_DebugDumpMempool address
  | Req_DebugSetReputations address "reputation list"
  | Req_DebugDumpReputation address
  | Req_DebugDumpPaymasterBalances address
  | Req_GetReputationStatus address address
  | Req_GetStakeStatus address address
  | Req_SubscribeNewHeads "address list"

text \<open>The receiver handed to a subscriber is given by the number of heads sent before.\<close>

datatype server_response =
  Resp_GetSupportedEntryPoints "address list"
  | Resp_AddOp b256
  | Resp_GetOps "pool_operation list"
  | Resp_GetOpsSummaries "pool_operation_summary list"
  | Resp_GetOpsByHashes "pool_operation list"
  | Resp_GetOpByHash "pool_operation option" "b256 option"
  | Resp_GetOpById "pool_operation option"
  | Resp_RemoveOps
  | Resp_RemoveOpById "b256 option"
  | Resp_UpdateEntities
  | Resp_DebugClearState
  | Resp_AdminSetTracking
  | Resp_DebugDumpMempool "pool_operation list"
  | Resp_DebugSetReputations
  | Resp_DebugDumpReputation "reputation list"
  | Resp_DebugDumpPaymasterBalances "paymaster_metadata list"
  | Resp_GetReputationStatus reputation_status
  | Resp_GetStakeStatus stake_status
  | Resp_SubscribeNewHeads nat

section \<open>Handlers\<close>

definition get_pool :: "'l pool_server \<Rightarrow> address \<Rightarrow> pool_error + 'l uo_pool" where
  "get_pool srv entry_point =
     (case map_of (srv_mempools srv) entry_point of
        None \<Rightarrow> Inl (PE_MempoolError (UnknownEntryPoint entry_point))
      | Some mempool \<Rightarrow> Inr mempool)"

definition put_pool :: "'l pool_server \<Rightarrow> address \<Rightarrow> 'l uo_pool \<Rightarrow> 'l pool_server" where
  "put_pool srv entry_point mempool =
     srv\<lparr>srv_mempools :=
       map (\<lambda>(a, m). (a, if a = entry_point then mempool else m)) (srv_mempools srv)\<rparr>"

definition srv_get_ops ::
  "'l pool_server \<Rightarrow> address \<Rightarrow> u64 \<Rightarrow> string option \<Rightarrow> pool_error + pool_operation list" where
  "srv_get_ops srv entry_point max_ops filter_id =
     (case get_pool srv entry_point of
        Inl e \<Rightarrow> Inl e
      | Inr mempool \<Rightarrow> Inr (up_best_operations mempool (ucast max_ops) filter_id))"

definition srv_get_ops_summaries ::
  "'l pool_server \<Rightarrow> address \<Rightarrow> u64 \<Rightarrow> string option \<Rightarrow> pool_error + pool_operation_summary list" where
  "srv_get_ops_summaries srv entry_point max_ops filter_id =
     (case get_pool srv entry_point of
        Inl e \<Rightarrow> Inl e
      | Inr mempool \<Rightarrow>
          Inr (map summary_from (up_best_operations mempool (ucast max_ops) filter_id)))"

definition srv_get_ops_by_hashes ::
  "'l pool_server \<Rightarrow> address \<Rightarrow> b256 list \<Rightarrow> pool_error + pool_operation list" where
  "srv_get_ops_by_hashes srv entry_point hashes =
     (case get_pool srv entry_point of
        Inl e \<Rightarrow> Inl e
      | Inr mempool \<Rightarrow>
          Inr (List.map_filter (\<lambda>h. fst (up_get_user_operation_by_hash mempool h)) hashes))"

fun find_op_by_hash ::
  "(address \<times> 'l uo_pool) list \<Rightarrow> b256 \<Rightarrow> pool_operation option \<times> b256 option" where
  "find_op_by_hash [] hash = (None, None)"
| "find_op_by_hash ((a, mempool) # pools) hash =
     (case up_get_user_operation_by_hash mempool hash of
        (Some op, preconf_info) \<Rightarrow> (Some op, preconf_info)
      | (None, _) \<Rightarrow> find_op_by_hash pools hash)"

definition srv_get_op_by_hash :: "'l pool_server \<Rightarrow> b256 \<Rightarrow> pool_operation option \<times> b256 option" where
  "srv_get_op_by_hash srv hash = find_op_by_hash (srv_mempools srv) hash"

fun find_op_by_id :: "(address \<times> 'l uo_pool) list \<Rightarrow> user_operation_id \<Rightarrow> pool_operation option" where
  "find_op_by_id [] uid = None"
| "find_op_by_id ((a, mempool) # pools) uid =
     (case up_get_op_by_id mempool uid of
        Some op \<Rightarrow> Some op
      | None \<Rightarrow> find_op_by_id pools uid)"

definition srv_get_op_by_id :: "'l pool_server \<Rightarrow> user_operation_id \<Rightarrow> pool_operation option" where
  "srv_get_op_by_id srv uid = find_op_by_id (srv_mempools srv) uid"

definition srv_remove_ops ::
  "'l balances_ops \<Rightarrow> 'l pool_server \<Rightarrow> address \<Rightarrow> b256 list \<Rightarrow> 'l pool_server \<times> (pool_error + unit)" where
  "srv_remove_ops ops srv entry_point hashes =
     (case get_pool srv entry_point of
        Inl e \<Rightarrow> (srv, Inl e)
      | Inr mempool \<Rightarrow>
          (put_pool srv entry_point (up_remove_operations ops mempool hashes), Inr ()))"

definition srv_remove_op_by_id ::
  "'l pool_server \<Rightarrow> address \<Rightarrow> user_operation_id \<Rightarrow> 'l pool_server \<times> (pool_error + b256 option)" where
  "srv_remove_op_by_id srv entry_point uid =
     (case get_pool srv entry_point of
        Inl e \<Rightarrow> (srv, Inl e)
      | Inr mempool \<Rightarrow>
          (case up_remove_op_by_id mempool uid of
             (mempool, Inl e) \<Rightarrow> (put_pool srv entry_point mempool, Inl (pool_error_from e))
           | (mempool, Inr hash) \<Rightarrow> (put_pool srv entry_point mempool, Inr hash)))"

fun update_entities_loop ::
  "environment \<Rightarrow> entity_update list \<Rightarrow> 'l uo_pool \<Rightarrow> 'l uo_pool option" where
  "update_entities_loop env [] mempool = Some mempool"
| "update_entities_loop env (update # updates) mempool =
     (case up_update_entity env mempool update of
        None \<Rightarrow> None
      | Some mempool \<Rightarrow> update_entities_loop env updates mempool)"

definition srv_update_entities ::
  "server_context \<Rightarrow> 'l pool_server \<Rightarrow> address \<Rightarrow> entity_update list
     \<Rightarrow> ('l pool_server \<times> (pool_error + unit)) option" where
  "srv_update_entities ctx srv entry_point updates =
     (case get_pool srv entry_point of
        Inl e \<Rightarrow> Some (srv, Inl e)
      | Inr mempool \<Rightarrow>
          map_option (\<lambda>mempool. (put_pool srv entry_point mempool, Inr ()))
            (update_entities_loop (ctx_env ctx entry_point) updates mempool))"

definition srv_debug_clear_state ::
  "'l balances_ops \<Rightarrow> 'l pool_server \<Rightarrow> bool \<Rightarrow> bool \<Rightarrow> bool \<Rightarrow> 'l pool_server" where
  "srv_debug_clear_state ops srv clear_mempool clear_paymaster clear_reputation =
     srv\<lparr>srv_mempools :=
       map (\<lambda>(a, m). (a, up_clear_state ops m clear_mempool clear_paymaster clear_reputation))
         (srv_mempools srv)\<rparr>"

definition srv_admin_set_tracking ::
  "'l pool_server \<Rightarrow> address \<Rightarrow> bool \<Rightarrow> bool \<Rightarrow> 'l pool_server \<times> (pool_error + unit)" where
  "srv_admin_set_tracking srv entry_point paymaster reputation =
     (case get_pool srv entry_point of
        Inl e \<Rightarrow> (srv, Inl e)
      | Inr mempool \<Rightarrow>
          (put_pool srv entry_point (up_set_tracking mempool paymaster reputation), Inr ()))"

definition srv_debug_dump_mempool ::
  "server_context \<Rightarrow> 'l pool_server \<Rightarrow> address \<Rightarrow> pool_error + pool_operation list" where
  "srv_debug_dump_mempool ctx srv entry_point =
     (case get_pool srv entry_point of
        Inl e \<Rightarrow> Inl e
      | Inr mempool \<Rightarrow> Inr (up_all_operations (ctx_env ctx entry_point) mempool (- 1)))"

definition srv_debug_set_reputations ::
  "'l pool_server \<Rightarrow> address \<Rightarrow> reputation list \<Rightarrow> 'l pool_server \<times> (pool_error + unit)" where
  "srv_debug_set_reputations srv entry_point reputations =
     (case get_pool srv entry_point of
        Inl e \<Rightarrow> (srv, Inl e)
      | Inr mempool \<Rightarrow>
          (put_pool srv entry_point
             (fold (\<lambda>rep m. up_set_reputation m (rep_address rep) (rep_ops_seen rep)
                (rep_ops_included rep)) reputations mempool), Inr ()))"

definition srv_debug_dump_reputation ::
  "server_context \<Rightarrow> 'l pool_server \<Rightarrow> address \<Rightarrow> pool_error + reputation list" where
  "srv_debug_dump_reputation ctx srv entry_point =
     (case get_pool srv entry_point of
        Inl e \<Rightarrow> Inl e
      | Inr mempool \<Rightarrow>
          Inr (up_dump_reputation mempool (ctx_iter_reputation ctx (up_reputation mempool))))"

definition srv_debug_dump_paymaster_balances ::
  "'l balances_ops \<Rightarrow> 'l pool_server \<Rightarrow> address \<Rightarrow> pool_error + paymaster_metadata list" where
  "srv_debug_dump_paymaster_balances ops srv entry_point =
     (case get_pool srv entry_point of
        Inl e \<Rightarrow> Inl e
      | Inr mempool \<Rightarrow> Inr (up_dump_paymaster_balances ops mempool))"

definition srv_get_reputation_status ::
  "'l pool_server \<Rightarrow> address \<Rightarrow> address \<Rightarrow> pool_error + reputation_status" where
  "srv_get_reputation_status srv entry_point a =
     (case get_pool srv entry_point of
        Inl e \<Rightarrow> Inl e
      | Inr mempool \<Rightarrow> Inr (up_get_reputation_status mempool a))"

text \<open>The two asynchronous requests, which run in a task of their own.\<close>

definition srv_add_op ::
  "'l balances_ops \<Rightarrow> server_context \<Rightarrow> 'l pool_server \<Rightarrow> address \<Rightarrow> user_operation_variant
     \<Rightarrow> user_operation_permissions \<Rightarrow> operation_origin
     \<Rightarrow> ('l pool_server \<times> (pool_error + b256)) option" where
  "srv_add_op ops ctx srv entry_point op perms origin =
     (case get_pool srv entry_point of
        Inl e \<Rightarrow> Some (srv, Inl e)
      | Inr mempool \<Rightarrow>
          (let version = pcf_entry_point_version (up_config mempool)
           in if version = Unspecified then None
              else if version \<noteq> version_of op
              then Some (srv, Inl (PE_Other ''Invalid user operation version for mempool''))
              else (case up_add_operation (ctx_alloy ctx) ops (ctx_env ctx entry_point) (ctx_now ctx)
                           mempool origin op perms of
                      None \<Rightarrow> None
                    | Some (mempool, Inl e) \<Rightarrow>
                        Some (put_pool srv entry_point mempool, Inl (pool_error_from e))
                    | Some (mempool, Inr hash) \<Rightarrow>
                        Some (put_pool srv entry_point mempool, Inr hash))))"

definition srv_get_stake_status ::
  "server_context \<Rightarrow> 'l pool_server \<Rightarrow> address \<Rightarrow> address \<Rightarrow> pool_error + stake_status" where
  "srv_get_stake_status ctx srv entry_point a =
     (case get_pool srv entry_point of
        Inl e \<Rightarrow> Inl e
      | Inr mempool \<Rightarrow>
          (case up_get_stake_status (ctx_env ctx entry_point)
                  (ctx_paymaster_config ctx entry_point) a of
             Inl e \<Rightarrow> Inl (pool_error_from e)
           | Inr status \<Rightarrow> Inr status))"

section \<open>The server\<close>

definition respond :: "('a \<Rightarrow> server_response) \<Rightarrow> pool_error + 'a \<Rightarrow> pool_error + server_response" where
  "respond f r = (case r of Inl e \<Rightarrow> Inl e | Inr x \<Rightarrow> Inr (f x))"

fun handle_request ::
  "'l balances_ops \<Rightarrow> server_context \<Rightarrow> 'l pool_server \<Rightarrow> server_request_kind
     \<Rightarrow> ('l pool_server \<times> (pool_error + server_response)) option" where
  "handle_request ops ctx srv (Req_AddOp entry_point op perms origin) =
     map_option (\<lambda>(srv, r). (srv, respond Resp_AddOp r))
       (srv_add_op ops ctx srv entry_point op perms origin)"
| "handle_request ops ctx srv (Req_GetStakeStatus entry_point a) =
     Some (srv, respond Resp_GetStakeStatus (srv_get_stake_status ctx srv entry_point a))"
| "handle_request ops ctx srv Req_GetSupportedEntryPoints =
     Some (srv, Inr (Resp_GetSupportedEntryPoints (map fst (srv_mempools srv))))"
| "handle_request ops ctx srv (Req_GetOps entry_point max_ops filter_id) =
     Some (srv, respond Resp_GetOps (srv_get_ops srv entry_point max_ops filter_id))"
| "handle_request ops ctx srv (Req_GetOpsSummaries entry_point max_ops filter_id) =
     Some (srv, respond Resp_GetOpsSummaries (srv_get_ops_summaries srv entry_point max_ops filter_id))"
| "handle_request ops ctx srv (Req_GetOpsByHashes entry_point hashes) =
     Some (srv, respond Resp_GetOpsByHashes (srv_get_ops_by_hashes srv entry_point hashes))"
| "handle_request ops ctx srv (Req_GetOpByHash hash) =
     Some (srv, Inr (case srv_get_op_by_hash srv hash of (op, info) \<Rightarrow> Resp_GetOpByHash op info))"
| "handle_request ops ctx srv (Req_GetOpById uid) =
     Some (srv, Inr (Resp_GetOpById (srv_get_op_by_id srv uid)))"
| "handle_request ops ctx srv (Req_RemoveOps entry_point hashes) =
     (case srv_remove_ops ops srv entry_point hashes of
        (srv, r) \<Rightarrow> Some (srv, respond (\<lambda>_. Resp_RemoveOps) r))"
| "handle_request ops ctx srv (Req_RemoveOpById entry_point uid) =
     (case srv_remove_op_by_id srv entry_point uid of
        (srv, r) \<Rightarrow> Some (srv, respond Resp_RemoveOpById r))"
| "handle_request ops ctx srv (Req_AdminSetTracking entry_point paymaster reputation) =
     (case srv_admin_set_tracking srv entry_point paymaster reputation of
        (srv, r) \<Rightarrow> Some (srv, respond (\<lambda>_. Resp_AdminSetTracking) r))"
| "handle_request ops ctx srv (Req_UpdateEntities entry_point updates) =
     map_option (\<lambda>(srv, r). (srv, respond (\<lambda>_. Resp_UpdateEntities) r))
       (srv_update_entities ctx srv entry_point updates)"
| "handle_request ops ctx srv (Req_DebugClearState clear_mempool clear_reputation clear_paymaster) =
     Some (srv_debug_clear_state ops srv clear_mempool clear_paymaster clear_reputation,
           Inr Resp_DebugClearState)"
| "handle_request ops ctx srv (Req_DebugDumpMempool entry_point) =
     Some (srv, respond Resp_DebugDumpMempool (srv_debug_dump_mempool ctx srv entry_point))"
| "handle_request ops ctx srv (Req_DebugSetReputations entry_point reputations) =
     (case srv_debug_set_reputations srv entry_point reputations of
        (srv, r) \<Rightarrow> Some (srv, respond (\<lambda>_. Resp_DebugSetReputations) r))"
| "handle_request ops ctx srv (Req_DebugDumpReputation entry_point) =
     Some (srv, respond Resp_DebugDumpReputation (srv_debug_dump_reputation ctx srv entry_point))"
| "handle_request ops ctx srv (Req_DebugDumpPaymasterBalances entry_point) =
     Some (srv, respond Resp_DebugDumpPaymasterBalances
       (srv_debug_dump_paymaster_balances ops srv entry_point))"
| "handle_request ops ctx srv (Req_GetReputationStatus entry_point a) =
     Some (srv, respond Resp_GetReputationStatus (srv_get_reputation_status srv entry_point a))"
| "handle_request ops ctx srv (Req_SubscribeNewHeads to_track) =
     Some (srv\<lparr>srv_to_track := srv_to_track srv @
              filter (\<lambda>a. a \<notin> set (srv_to_track srv)) (remdups to_track)\<rparr>,
           Inr (Resp_SubscribeNewHeads (length (srv_new_heads srv))))"

text \<open>
  An update of the chain is applied to every mempool before the subscribers hear of the new head.
\<close>

fun update_pools ::
  "'l balances_ops \<Rightarrow> server_context \<Rightarrow> chain_update \<Rightarrow> (address \<times> 'l uo_pool) list
     \<Rightarrow> (address \<times> 'l uo_pool) list option" where
  "update_pools ops ctx u [] = Some []"
| "update_pools ops ctx u ((a, mempool) # pools) =
     (case on_chain_update (ctx_alloy ctx) ops (ctx_env ctx a) (ctx_now ctx) mempool u of
        None \<Rightarrow> None
      | Some mempool \<Rightarrow> map_option (Cons (a, mempool)) (update_pools ops ctx u pools))"

definition srv_chain_update ::
  "'l balances_ops \<Rightarrow> server_context \<Rightarrow> 'l pool_server \<Rightarrow> chain_update \<Rightarrow> 'l pool_server option" where
  "srv_chain_update ops ctx srv u =
     (case update_pools ops ctx u (srv_mempools srv) of
        None \<Rightarrow> None
      | Some pools \<Rightarrow>
          Some (srv\<lparr>srv_mempools := pools,
                    srv_new_heads := srv_new_heads srv @
                      (if cu_update_type u = Confirmed
                       then [\<lparr>nh_block_hash = cu_latest_block_hash u,
                              nh_block_number = cu_latest_block_number u,
                              nh_address_updates = cu_address_updates u\<rparr>]
                       else [])\<rparr>))"

section \<open>The handle\<close>

text \<open>
  \<open>send\<close> fails when the server no longer receives requests, or when the channel of the response is
  dropped; the state that a panic leaves behind is not described.
\<close>

definition send ::
  "'l balances_ops \<Rightarrow> server_context \<Rightarrow> 'l pool_server \<Rightarrow> server_request_kind
     \<Rightarrow> ('l pool_server option \<times> (pool_error + server_response)) option" where
  "send ops ctx srv request =
     (if \<not> srv_open srv then Some (Some srv, Inl PE_UnexpectedResponse)
      else case handle_request ops ctx srv request of
             Some (srv, response) \<Rightarrow> Some (Some srv, response)
           | None \<Rightarrow> (case ctx_unanswered ctx of
                       Panics \<Rightarrow> Some (None, Inl PE_UnexpectedResponse)
                     | Hangs \<Rightarrow> None))"

text \<open>Every method of the handle sends its request and takes the response of the same name apart.\<close>

definition call ::
  "'l balances_ops \<Rightarrow> server_context \<Rightarrow> 'l pool_server \<Rightarrow> server_request_kind
     \<Rightarrow> (server_response \<Rightarrow> 'a option) \<Rightarrow> ('l pool_server option \<times> (pool_error + 'a)) option" where
  "call ops ctx srv request unwrap =
     map_option (\<lambda>(srv, resp). (srv,
         case resp of
           Inl e \<Rightarrow> Inl e
         | Inr resp \<Rightarrow> (case unwrap resp of Some x \<Rightarrow> Inr x | None \<Rightarrow> Inl PE_UnexpectedResponse)))
       (send ops ctx srv request)"

definition handle_get_supported_entry_points where
  "handle_get_supported_entry_points ops ctx srv = call ops ctx srv Req_GetSupportedEntryPoints
     (\<lambda>r. case r of Resp_GetSupportedEntryPoints entry_points \<Rightarrow> Some entry_points | _ \<Rightarrow> None)"

definition handle_add_op where
  "handle_add_op ops ctx srv op perms =
     call ops ctx srv (Req_AddOp (uo_entry_point op) op perms Local)
     (\<lambda>r. case r of Resp_AddOp hash \<Rightarrow> Some hash | _ \<Rightarrow> None)"

definition handle_get_ops where
  "handle_get_ops ops ctx srv entry_point max_ops filter_id =
     call ops ctx srv (Req_GetOps entry_point max_ops filter_id)
     (\<lambda>r. case r of Resp_GetOps ops \<Rightarrow> Some ops | _ \<Rightarrow> None)"

definition handle_get_ops_summaries where
  "handle_get_ops_summaries ops ctx srv entry_point max_ops filter_id =
     call ops ctx srv (Req_GetOpsSummaries entry_point max_ops filter_id)
     (\<lambda>r. case r of Resp_GetOpsSummaries summaries \<Rightarrow> Some summaries | _ \<Rightarrow> None)"

definition handle_get_ops_by_hashes where
  "handle_get_ops_by_hashes ops ctx srv entry_point hashes =
     call ops ctx srv (Req_GetOpsByHashes entry_point hashes)
     (\<lambda>r. case r of Resp_GetOpsByHashes ops \<Rightarrow> Some ops | _ \<Rightarrow> None)"

definition handle_get_op_by_hash where
  "handle_get_op_by_hash ops ctx srv hash = call ops ctx srv (Req_GetOpByHash hash)
     (\<lambda>r. case r of Resp_GetOpByHash op preconf_info \<Rightarrow> Some (op, preconf_info) | _ \<Rightarrow> None)"

definition handle_get_op_by_id where
  "handle_get_op_by_id ops ctx srv uid = call ops ctx srv (Req_GetOpById uid)
     (\<lambda>r. case r of Resp_GetOpById op \<Rightarrow> Some op | _ \<Rightarrow> None)"

definition handle_remove_ops where
  "handle_remove_ops ops ctx srv entry_point hashes =
     call ops ctx srv (Req_RemoveOps entry_point hashes)
     (\<lambda>r. case r of Resp_RemoveOps \<Rightarrow> Some () | _ \<Rightarrow> None)"

definition handle_remove_op_by_id where
  "handle_remove_op_by_id ops ctx srv entry_point uid =
     call ops ctx srv (Req_RemoveOpById entry_point uid)
     (\<lambda>r. case r of Resp_RemoveOpById hash \<Rightarrow> Some hash | _ \<Rightarrow> None)"

definition handle_update_entities where
  "handle_update_entities ops ctx srv entry_point updates =
     call ops ctx srv (Req_UpdateEntities entry_point updates)
     (\<lambda>r. case r of Resp_UpdateEntities \<Rightarrow> Some () | _ \<Rightarrow> None)"

definition handle_debug_clear_state where
  "handle_debug_clear_state ops ctx srv clear_mempool clear_paymaster clear_reputation =
     call ops ctx srv (Req_DebugClearState clear_mempool clear_reputation clear_paymaster)
     (\<lambda>r. case r of Resp_DebugClearState \<Rightarrow> Some () | _ \<Rightarrow> None)"

definition handle_admin_set_tracking where
  "handle_admin_set_tracking ops ctx srv entry_point paymaster reputation =
     call ops ctx srv (Req_AdminSetTracking entry_point paymaster reputation)
     (\<lambda>r. case r of Resp_AdminSetTracking \<Rightarrow> Some () | _ \<Rightarrow> None)"

definition handle_debug_dump_mempool where
  "handle_debug_dump_mempool ops ctx srv entry_point =
     call ops ctx srv (Req_DebugDumpMempool entry_point)
     (\<lambda>r. case r of Resp_DebugDumpMempool ops \<Rightarrow> Some ops | _ \<Rightarrow> None)"

definition handle_debug_set_reputations where
  "handle_debug_set_reputations ops ctx srv entry_point reputations =
     call ops ctx srv (Req_DebugSetReputations entry_point reputations)
     (\<lambda>r. case r of Resp_DebugSetReputations \<Rightarrow> Some () | _ \<Rightarrow> None)"

definition handle_debug_dump_reputation where
  "handle_debug_dump_reputation ops ctx srv entry_point =
     call ops ctx srv (Req_DebugDumpReputation entry_point)
     (\<lambda>r. case r of Resp_DebugDumpReputation reputations \<Rightarrow> Some reputations | _ \<Rightarrow> None)"

definition handle_debug_dump_paymaster_balances where
  "handle_debug_dump_paymaster_balances ops ctx srv entry_point =
     call ops ctx srv (Req_DebugDumpPaymasterBalances entry_point)
     (\<lambda>r. case r of Resp_DebugDumpPaymasterBalances balances \<Rightarrow> Some balances | _ \<Rightarrow> None)"

definition handle_get_stake_status where
  "handle_get_stake_status ops ctx srv entry_point a =
     call ops ctx srv (Req_GetStakeStatus entry_point a)
     (\<lambda>r. case r of Resp_GetStakeStatus status \<Rightarrow> Some status | _ \<Rightarrow> None)"

definition handle_get_reputation_status where
  "handle_get_reputation_status ops ctx srv entry_point a =
     call ops ctx srv (Req_GetReputationStatus entry_point a)
     (\<lambda>r. case r of Resp_GetReputationStatus status \<Rightarrow> Some status | _ \<Rightarrow> None)"

definition handle_subscribe_new_heads where
  "handle_subscribe_new_heads ops ctx srv to_track =
     call ops ctx srv (Req_SubscribeNewHeads to_track)
     (\<lambda>r. case r of Resp_SubscribeNewHeads new_heads \<Rightarrow> Some new_heads | _ \<Rightarrow> None)"

end
