(* ===== verification/Bundle_Sender.thy ===== *)
theory Bundle_Sender
  imports Bundle_Proposer Transaction_Tracker Assigner Pool_Server
begin

text \<open>
  The bundle sender of \<open>crates/builder/src/bundle_sender.rs\<close>: a state machine that waits for a
  trigger, builds a bundle from the operations assigned to it, sends it through the transaction
  tracker, waits for it to be mined, and cancels it when it can neither be mined nor replaced.

  A step takes the answers of the services during the step (\<open>step_env\<close>) and acts on \<open>sender_world\<close>:
  the machine, the assigner that all senders share, and what was sent out (events, replies to manual
  callers, requests to the pool).  Logging and metrics are left out.  \<open>None\<close> is a panic, or a wait
  that does not end within the given inputs.
\<close>

section \<open>Data\<close>

record bundle_sender_settings =
  bss_max_replacement_underpriced_blocks :: u64
  bss_max_cancellation_fee_increases :: u64
  bss_max_blocks_to_wait_for_mine :: u64

record bundle_sender =
  bsn_builder_tag :: string
  bsn_filter_id :: "string option"
  bsn_chain_spec :: chain_spec
  bsn_sender_eoa :: address
  bsn_submission_proxy :: "submission_proxy option"
  bsn_proposer :: bundle_proposer
  bsn_settings :: bundle_sender_settings
  bsn_ep_address :: address

record bundle_tx =
  btx_tx :: transaction_request
  btx_expected_storage :: expected_storage
  btx_ops :: "(address \<times> b256) list"

datatype bundling_mode = Manual | Auto

text \<open>A caller that waits for a reply is named by a number.\<close>

datatype bundle_sender_action = SendBundle nat | ChangeMode bundling_mode

datatype send_bundle_result =
  SB_Success u64 u64 b256
  | SB_NoOperationsInitially
  | SB_StalledAtMaxFeeIncreases
  | SB_Error string

datatype send_bundle_attempt_result =
  SA_Success "(address \<times> b256) list"
  | SA_NoOperationsInitially
  | SA_NoOperationsAfterFeeFilter
  | SA_NoOperationsAfterSimulation
  | SA_Underpriced
  | SA_ReplacementUnderpriced
  | SA_ConditionNotMet
  | SA_Rejected
  | SA_InsufficientFunds
  | SA_NonceTooLow

record underpriced_info =
  ui_since_block :: u64
  ui_rounds :: u64

record building_state =
  bst_wait_for_trigger :: bool
  bst_fee_increase_count :: u64
  bst_underpriced_info :: "underpriced_info option"

record pending_state =
  pst_until :: u64
  pst_fee_increase_count :: u64

record cancelling_state =
  cst_fee_increase_count :: u64

record cancel_pending_state =
  cps_until :: u64
  cps_fee_increase_count :: u64

datatype inner_state =
  Building building_state
  | Pending pending_state
  | Cancelling cancelling_state
  | CancelPending cancel_pending_state

record bundle_sender_trigger =
  trg_bundling_mode :: bundling_mode
  trg_last_block :: new_head

record sender_machine_state =
  sm_trigger :: bundle_sender_trigger
  sm_transaction_tracker :: transaction_tracker
  sm_send_bundle_response :: "nat option"
  sm_inner :: inner_state
  sm_requires_reset :: bool

section \<open>Moves between the states\<close>

definition inner_state_new :: inner_state where
  "inner_state_new =
     Building \<lparr>bst_wait_for_trigger = True, bst_fee_increase_count = 0, bst_underpriced_info = None\<rparr>"

definition to_pending :: "building_state \<Rightarrow> u64 \<Rightarrow> pending_state" where
  "to_pending b until = \<lparr>pst_until = until, pst_fee_increase_count = bst_fee_increase_count b\<rparr>"

definition building_to_cancelling :: "building_state \<Rightarrow> cancelling_state" where
  "building_to_cancelling b = \<lparr>cst_fee_increase_count = 0\<rparr>"

definition retry :: "building_state \<Rightarrow> building_state" where
  "retry b = b\<lparr>bst_wait_for_trigger := False\<rparr>"

definition underpriced :: "building_state \<Rightarrow> u64 \<Rightarrow> building_state" where
  "underpriced b block_number =
     \<lparr>bst_wait_for_trigger = True, bst_fee_increase_count = bst_fee_increase_count b + 1,
      bst_underpriced_info =
        Some (case bst_underpriced_info b of
                Some ui \<Rightarrow> ui
              | None \<Rightarrow> \<lparr>ui_since_block = block_number, ui_rounds = 1\<rparr>)\<rparr>"

definition underpriced_round :: "building_state \<Rightarrow> building_state option" where
  "underpriced_round b =
     map_option
       (\<lambda>ui. \<lparr>bst_wait_for_trigger = True, bst_fee_increase_count = 0,
             bst_underpriced_info = Some (ui\<lparr>ui_rounds := ui_rounds ui + 1\<rparr>)\<rparr>)
       (bst_underpriced_info b)"

definition to_building :: "pending_state \<Rightarrow> building_state" where
  "to_building s =
     \<lparr>bst_wait_for_trigger = False, bst_fee_increase_count = pst_fee_increase_count s + 1,
      bst_underpriced_info = None\<rparr>"

definition to_self :: "cancelling_state \<Rightarrow> cancelling_state" where
  "to_self c = c\<lparr>cst_fee_increase_count := cst_fee_increase_count c + 1\<rparr>"

definition to_cancel_pending :: "cancelling_state \<Rightarrow> u64 \<Rightarrow> cancel_pending_state" where
  "to_cancel_pending c until = \<lparr>cps_until = until, cps_fee_increase_count = cst_fee_increase_count c\<rparr>"

definition to_cancelling :: "cancel_pending_state \<Rightarrow> cancelling_state" where
  "to_cancelling c = \<lparr>cst_fee_increase_count = cps_fee_increase_count c + 1\<rparr>"

section \<open>The trigger\<close>

text \<open>
  What \<open>select!\<close> sees, in the order it is received: a block, a tick of the timer or an action;
  \<open>None\<close> for a channel that was closed.
\<close>

datatype trigger_input =
  In_Block "new_head option"
  | In_Tick
  | In_Action "bundle_sender_action option"

definition trigger_new :: bundle_sender_trigger where
  "trigger_new =
     \<lparr>trg_bundling_mode = Auto,
      trg_last_block = \<lparr>nh_block_hash = 0, nh_block_number = 0, nh_address_updates = []\<rparr>\<rparr>"

fun trigger_loop ::
  "trigger_input list \<Rightarrow> bundle_sender_trigger \<Rightarrow> (bundle_sender_trigger \<times> (string + nat option)) option" where
  "trigger_loop [] t = None"
| "trigger_loop (In_Block None # inputs) t = Some (t, Inl ''Block stream closed'')"
| "trigger_loop (In_Block (Some b) # inputs) t = trigger_loop inputs (t\<lparr>trg_last_block := b\<rparr>)"
| "trigger_loop (In_Tick # inputs) t =
     (case trg_bundling_mode t of
        Manual \<Rightarrow> trigger_loop inputs t
      | Auto \<Rightarrow> Some (t, Inr None))"
| "trigger_loop (In_Action (Some (ChangeMode mode)) # inputs) t =
     trigger_loop inputs (t\<lparr>trg_bundling_mode := mode\<rparr>)"
| "trigger_loop (In_Action (Some (SendBundle responder)) # inputs) t =
     (case trg_bundling_mode t of
        Manual \<Rightarrow> Some (t, Inr (Some responder))
      | Auto \<Rightarrow> trigger_loop inputs t)"
| "trigger_loop (In_Action None # inputs) t = Some (t, Inl ''Bundle action recv closed'')"

text \<open>The blocks that are buffered, and whether the stream was closed behind them.\<close>

definition consume_blocks ::
  "new_head list \<Rightarrow> bool \<Rightarrow> bundle_sender_trigger \<Rightarrow> bundle_sender_trigger \<times> (string + unit)" where
  "consume_blocks buffered ended t =
     (fold (\<lambda>b t. t\<lparr>trg_last_block := b\<rparr>) buffered t,
      if ended then Inl ''Block stream closed'' else Inr ())"

definition wait_for_trigger ::
  "trigger_input list \<Rightarrow> new_head list \<Rightarrow> bool \<Rightarrow> bundle_sender_trigger \<Rightarrow>
     (bundle_sender_trigger \<times> (string + nat option)) option" where
  "wait_for_trigger inputs buffered ended t =
     (case trigger_loop inputs t of
        None \<Rightarrow> None
      | Some (t, Inl e) \<Rightarrow> Some (t, Inl e)
      | Some (t, Inr response) \<Rightarrow>
          (case consume_blocks buffered ended t of
             (t, Inl e) \<Rightarrow> Some (t, Inl e)
           | (t, Inr _) \<Rightarrow> Some (t, Inr response)))"

definition wait_for_block ::
  "new_head option \<Rightarrow> new_head list \<Rightarrow> bool \<Rightarrow> bundle_sender_trigger \<Rightarrow>
     bundle_sender_trigger \<times> (string + new_head)" where
  "wait_for_block b buffered ended t =
     (case b of
        None \<Rightarrow> (t, Inl ''Block stream closed'')
      | Some b \<Rightarrow>
          (case consume_blocks buffered ended (t\<lparr>trg_last_block := b\<rparr>) of
             (t, Inl e) \<Rightarrow> (t, Inl e)
           | (t, Inr _) \<Rightarrow> (t, Inr (trg_last_block t))))"

definition builder_must_wait_for_trigger :: "bundle_sender_trigger \<Rightarrow> bool" where
  "builder_must_wait_for_trigger t =
     (case trg_bundling_mode t of Manual \<Rightarrow> True | Auto \<Rightarrow> False)"

section \<open>The machine\<close>

record sender_world =
  sw_sender :: bundle_sender
  sw_state :: sender_machine_state
  sw_assigner :: assigner
  sw_events :: "builder_event list"
  sw_responses :: "(nat \<times> send_bundle_result) list"
  sw_pool_requests :: "server_request_kind list"

record call_frame =
  cf_input :: bytes
  cf_output :: "bytes option"
  cf_error :: "string option"

record step_env =
  sv_inputs :: "trigger_input list"
  sv_block :: "new_head option"
  sv_buffered :: "new_head list"
  sv_closed :: bool
  sv_wait_tracker_env :: tracker_env
  sv_tracker_env :: tracker_env
  sv_proposer_env :: proposer_env
  sv_pool_client :: pool_client
  sv_debug_trace_transaction :: "b256 \<Rightarrow> string + call_frame option"

definition machine_state_new :: "bundle_sender_trigger \<Rightarrow> transaction_tracker \<Rightarrow> sender_machine_state" where
  "machine_state_new trigger tracker =
     \<lparr>sm_trigger = trigger, sm_transaction_tracker = tracker, sm_send_bundle_response = None,
      sm_inner = inner_state_new, sm_requires_reset = False\<rparr>"

definition update :: "inner_state \<Rightarrow> sender_machine_state \<Rightarrow> sender_machine_state" where
  "update inner s = s\<lparr>sm_inner := inner\<rparr>"

definition initial :: "sender_machine_state \<Rightarrow> sender_machine_state" where
  "initial s = s\<lparr>sm_inner := inner_state_new\<rparr>"

definition reset :: "sender_machine_state \<Rightarrow> sender_machine_state" where
  "reset s =
     s\<lparr>sm_requires_reset := True,
       sm_inner := Building \<lparr>bst_wait_for_trigger = False, bst_fee_increase_count = 0,
                             bst_underpriced_info = None\<rparr>\<rparr>"

definition block_number :: "sender_machine_state \<Rightarrow> u64" where
  "block_number s = nh_block_number (trg_last_block (sm_trigger s))"

definition block_hash :: "sender_machine_state \<Rightarrow> b256" where
  "block_hash s = nh_block_hash (trg_last_block (sm_trigger s))"

definition find_address_update :: "sender_machine_state \<Rightarrow> address_update option" where
  "find_address_update s =
     find (\<lambda>u. au_address u = tt_signer (sm_transaction_tracker s))
       (nh_address_updates (trg_last_block (sm_trigger s)))"

definition on_state :: "(sender_machine_state \<Rightarrow> sender_machine_state) \<Rightarrow> sender_world \<Rightarrow> sender_world" where
  "on_state f w = w\<lparr>sw_state := f (sw_state w)\<rparr>"

definition on_tracker :: "(transaction_tracker \<Rightarrow> transaction_tracker) \<Rightarrow> sender_world \<Rightarrow> sender_world" where
  "on_tracker f w =
     on_state (\<lambda>s. s\<lparr>sm_transaction_tracker := f (sm_transaction_tracker s)\<rparr>) w"

definition sender_release_all :: "sender_world \<Rightarrow> sender_world" where
  "sender_release_all w = w\<lparr>sw_assigner := release_all (bsn_sender_eoa (sw_sender w)) (sw_assigner w)\<rparr>"

definition sender_emit :: "builder_event_kind \<Rightarrow> sender_world \<Rightarrow> sender_world" where
  "sender_emit kind w =
     w\<lparr>sw_events := sw_events w @
        [builder_event_new (bsn_ep_address (sw_sender w)) (bsn_builder_tag (sw_sender w)) kind]\<rparr>"

definition send_result :: "send_bundle_result \<Rightarrow> sender_world \<Rightarrow> sender_world" where
  "send_result result w =
     (case sm_send_bundle_response (sw_state w) of
        None \<Rightarrow> w
      | Some r \<Rightarrow>
          on_state (\<lambda>s. s\<lparr>sm_send_bundle_response := None\<rparr>)
            (w\<lparr>sw_responses := sw_responses w @ [(r, result)]\<rparr>))"

definition bundle_error :: "string \<Rightarrow> sender_world \<Rightarrow> sender_world" where
  "bundle_error e w = on_state initial (send_result (SB_Error e) w)"

definition bundle_mined :: "u64 \<Rightarrow> u64 \<Rightarrow> b256 \<Rightarrow> sender_world \<Rightarrow> sender_world" where
  "bundle_mined block attempt_number tx_hash w =
     (let w = send_result (SB_Success block attempt_number tx_hash) w
      in on_state (update (Building
           \<lparr>bst_wait_for_trigger = builder_must_wait_for_trigger (sm_trigger (sw_state w)),
            bst_fee_increase_count = 0, bst_underpriced_info = None\<rparr>)) w)"

definition no_operations :: "sender_world \<Rightarrow> sender_world option" where
  "no_operations w =
     (let w = send_result SB_NoOperationsInitially w
      in case sm_inner (sw_state w) of
           Building s \<Rightarrow>
             Some (on_state (update (Building (s\<lparr>bst_wait_for_trigger := True\<rparr>))) w)
         | _ \<Rightarrow> None)"

text \<open>The update of the tracker from the block the machine waited for.\<close>

definition track_update ::
  "tracker_env \<Rightarrow> sender_machine_state \<Rightarrow> sender_machine_state \<times> (string + tracker_update option)" where
  "track_update te s =
     (case find_address_update s of
        None \<Rightarrow> (s, Inr None)
      | Some u \<Rightarrow>
          (case process_update te (sm_transaction_tracker s) u of
             (t, Inl e) \<Rightarrow> (s\<lparr>sm_transaction_tracker := t\<rparr>, Inl ''transaction tracker update error'')
           | (t, Inr out) \<Rightarrow> (s\<lparr>sm_transaction_tracker := t\<rparr>, Inr out)))"

definition machine_wait_for_trigger ::
  "step_env \<Rightarrow> sender_machine_state \<Rightarrow> (sender_machine_state \<times> (string + tracker_update option)) option" where
  "machine_wait_for_trigger sv s =
     (let te = sv_wait_tracker_env sv;
          s = (if sm_requires_reset s
               then s\<lparr>sm_transaction_tracker := tracker_reset te (sm_transaction_tracker s),
                      sm_requires_reset := False\<rparr>
               else s)
      in case sm_inner s of
           Building b \<Rightarrow>
             if \<not> bst_wait_for_trigger b then Some (s, Inr None)
             else (case wait_for_trigger (sv_inputs sv) (sv_buffered sv) (sv_closed sv) (sm_trigger s) of
                     None \<Rightarrow> None
                   | Some (t, Inl e) \<Rightarrow> Some (s\<lparr>sm_trigger := t\<rparr>, Inl e)
                   | Some (t, Inr response) \<Rightarrow>
                       Some (track_update te (s\<lparr>sm_trigger := t, sm_send_bundle_response := response\<rparr>)))
         | Cancelling c \<Rightarrow> Some (s, Inr None)
         | _ \<Rightarrow>
             (case wait_for_block (sv_block sv) (sv_buffered sv) (sv_closed sv) (sm_trigger s) of
                (t, Inl e) \<Rightarrow> Some (s\<lparr>sm_trigger := t\<rparr>, Inl e)
              | (t, Inr _) \<Rightarrow> Some (track_update te (s\<lparr>sm_trigger := t\<rparr>))))"

section \<open>Sending a bundle\<close>

definition pool_request :: "server_request_kind \<Rightarrow> sender_world \<Rightarrow> sender_world" where
  "pool_request req w = w\<lparr>sw_pool_requests := sw_pool_requests w @ [req]\<rparr>"

definition get_bundle_tx ::
  "step_env \<Rightarrow> sender_world \<Rightarrow> u64 \<Rightarrow> proposed_bundle \<Rightarrow> (sender_world \<times> bundle_tx option) option" where
  "get_bundle_tx sv w nonce b =
     (let bs = sw_sender w; ep = bsn_ep_address bs; env = sv_proposer_env sv;
          w = (if bu_rejected_ops b = [] then w
               else pool_request (Req_RemoveOps ep (map uo_hash (bu_rejected_ops b))) w);
          w = (if bu_entity_updates b = [] then w
               else pool_request (Req_UpdateEntities ep (bu_entity_updates b)) w)
      in if bundle_is_empty b then Some (w, None)
         else do {
           tx \<leftarrow> get_send_bundle_transaction (pe_abi env) (bsn_chain_spec bs) (pe_version env)
                  (bu_ops_per_aggregator b) (bsn_sender_eoa bs) (bu_gas_estimate b) (bu_gas_fees b)
                  (map_option sp_address (bsn_submission_proxy bs));
           Some (w, Some
             \<lparr>btx_tx = tx\<lparr>trq_nonce := Some nonce\<rparr>, btx_expected_storage = bu_expected_storage b,
              btx_ops = map (\<lambda>op. (uo_sender op, uo_hash op)) (bundle_iter_ops b)\<rparr>)
         })"

fun attempt_result_of ::
  "transaction_tracker_error \<Rightarrow> string + send_bundle_attempt_result" where
  "attempt_result_of TT_NonceTooLow = Inr SA_NonceTooLow"
| "attempt_result_of TT_Underpriced = Inr SA_Underpriced"
| "attempt_result_of TT_ReplacementUnderpriced = Inr SA_ReplacementUnderpriced"
| "attempt_result_of TT_ConditionNotMet = Inr SA_ConditionNotMet"
| "attempt_result_of TT_Rejected = Inr SA_Rejected"
| "attempt_result_of TT_InsufficientFunds = Inr SA_InsufficientFunds"
| "attempt_result_of (TT_Other e) = Inl e"

definition send_bundle_inner ::
  "step_env \<Rightarrow> sender_world \<Rightarrow> pool_operation list \<Rightarrow> u64 \<Rightarrow>
     (sender_world \<times> (string + send_bundle_attempt_result)) option" where
  "send_bundle_inner sv w ops fee_increase_count =
     (let bs = sw_sender w; s = sw_state w; ts = get_state (sm_transaction_tracker s)
      in do {
           (p, evs, r) \<leftarrow> make_bundle (sv_proposer_env sv) (bsn_proposer bs) ops (block_hash s)
                           (ts_balance ts) (ts_required_fees ts) (fee_increase_count > 0);
           let w = w\<lparr>sw_sender := bs\<lparr>bsn_proposer := p\<rparr>, sw_events := sw_events w @ evs\<rparr>;
           (case r of
              Inl NoOperationsAfterFeeFilter \<Rightarrow> Some (w, Inr SA_NoOperationsAfterFeeFilter)
            | Inl (BP_Other e) \<Rightarrow> Some (w, Inl e)
            | Inr b \<Rightarrow>
                do {
                  (w, tx) \<leftarrow> get_bundle_tx sv w (ts_nonce ts) b;
                  (case tx of
                     None \<Rightarrow>
                       Some (sender_emit (FormedBundle None (ts_nonce ts) fee_increase_count
                               (ts_required_fees ts)) w,
                             Inr SA_NoOperationsAfterSimulation)
                   | Some btx \<Rightarrow>
                       (case send_transaction (sv_tracker_env sv) (sm_transaction_tracker (sw_state w))
                               (btx_tx btx) (btx_expected_storage btx) (block_number (sw_state w)) of
                          (t, Inr tx_hash) \<Rightarrow>
                            Some (sender_emit
                                    (FormedBundle (Some \<lparr>btd_tx_hash = tx_hash, btd_tx = btx_tx btx,
                                       btd_ops = btx_ops btx\<rparr>) (ts_nonce ts) fee_increase_count
                                       (ts_required_fees ts))
                                    (on_tracker (\<lambda>_. t) w),
                                  Inr (SA_Success (btx_ops btx)))
                        | (t, Inl e) \<Rightarrow> Some (on_tracker (\<lambda>_. t) w, attempt_result_of e)))
                })
         })"

definition confirm_senders :: "address list \<Rightarrow> sender_world \<Rightarrow> sender_world option" where
  "confirm_senders senders w =
     map_option (\<lambda>a. w\<lparr>sw_assigner := a\<rparr>)
       (confirm_senders_drop_unused (bsn_sender_eoa (sw_sender w)) senders (sw_assigner w))"

definition send_bundle ::
  "step_env \<Rightarrow> sender_world \<Rightarrow> u64 \<Rightarrow> (sender_world \<times> (string + send_bundle_attempt_result)) option" where
  "send_bundle sv w fee_increase_count =
     (let bs = sw_sender w;
          (a, r) = assign_operations (sv_pool_client sv) (bsn_sender_eoa bs) (bsn_ep_address bs)
                     (bsn_filter_id bs) (sw_assigner w);
          w = w\<lparr>sw_assigner := a\<rparr>
      in case r of
           Inl e \<Rightarrow> Some (w, Inl ''pool error'')
         | Inr ops \<Rightarrow>
             if ops = [] then Some (sender_release_all w, Inr SA_NoOperationsInitially)
             else do {
               (w, result) \<leftarrow> send_bundle_inner sv w ops fee_increase_count;
               w \<leftarrow> (case result of
                       Inr (SA_Success sent) \<Rightarrow> confirm_senders (map fst sent) w
                     | Inr SA_NonceTooLow \<Rightarrow> Some (sender_release_all w)
                     | Inr SA_NoOperationsAfterSimulation \<Rightarrow> Some (sender_release_all w)
                     | _ \<Rightarrow>
                         if num_pending_transactions (sm_transaction_tracker (sw_state w)) = 0
                         then Some (sender_release_all w)
                         else confirm_senders [] w);
               Some (w, result)
             })"

section \<open>The four states\<close>

text \<open>Abandoning the pending transaction after fee increases, before waiting for operations.\<close>

definition abandon_if_increased :: "building_state \<Rightarrow> sender_world \<Rightarrow> sender_world" where
  "abandon_if_increased inner w =
     (if bst_fee_increase_count inner > 0 then on_tracker abandon w else w)"

definition handle_fee_filtered :: "building_state \<Rightarrow> u64 \<Rightarrow> sender_world \<Rightarrow> sender_world option" where
  "handle_fee_filtered inner block w =
     (case bst_underpriced_info inner of
        Some ui \<Rightarrow>
          if saturating_sub block (ui_since_block ui)
             \<ge> bss_max_replacement_underpriced_blocks (bsn_settings (sw_sender w))
          then Some (on_state (update (Cancelling (building_to_cancelling inner))) w)
          else map_option (\<lambda>b. on_state (update (Building b)) (on_tracker abandon w))
                 (underpriced_round inner)
      | None \<Rightarrow>
          if bst_fee_increase_count inner > 0 then Some (on_state initial (on_tracker abandon w))
          else no_operations w)"

definition handle_building_state :: "step_env \<Rightarrow> sender_world \<Rightarrow> building_state \<Rightarrow> sender_world option" where
  "handle_building_state sv w inner =
     (let block = block_number (sw_state w)
      in do {
           (w, result) \<leftarrow> send_bundle sv w (bst_fee_increase_count inner);
           (case result of
              Inr (SA_Success _) \<Rightarrow>
                Some (on_state (update (Pending (to_pending inner
                  (block + bss_max_blocks_to_wait_for_mine (bsn_settings (sw_sender w)))))) w)
            | Inr SA_NoOperationsInitially \<Rightarrow> no_operations (abandon_if_increased inner w)
            | Inr SA_NoOperationsAfterSimulation \<Rightarrow> no_operations (abandon_if_increased inner w)
            | Inr SA_NoOperationsAfterFeeFilter \<Rightarrow> handle_fee_filtered inner block w
            | Inr SA_NonceTooLow \<Rightarrow> Some (on_state reset w)
            | Inr SA_Underpriced \<Rightarrow> Some (on_state (update (Building (underpriced inner block))) w)
            | Inr SA_ReplacementUnderpriced \<Rightarrow>
                Some (on_state (update (Building (underpriced inner block))) (on_tracker unabandon w))
            | Inr SA_ConditionNotMet \<Rightarrow>
                Some (on_state (update (Building (retry inner)))
                  (w\<lparr>sw_sender := (sw_sender w)\<lparr>bsn_proposer :=
                        notify_condition_not_met (bsn_proposer (sw_sender w))\<rparr>\<rparr>))
            | Inr SA_InsufficientFunds \<Rightarrow> Some (on_state reset w)
            | Inr SA_Rejected \<Rightarrow> Some (on_state (update (Building (underpriced inner block))) w)
            | Inl e \<Rightarrow> Some (on_tracker (tracker_reset (sv_tracker_env sv)) (bundle_error e w)))
         })"

text \<open>The hashes to remove from the pool after a bundle reverted onchain; an error is only logged.\<close>

definition bundle_hashes :: "user_ops_per_aggregator list \<Rightarrow> b256 list" where
  "bundle_hashes groups = map uo_hash (concat (map upa_user_ops groups))"

definition revert_hashes ::
  "user_ops_per_aggregator list \<Rightarrow> handle_ops_out option \<Rightarrow> b256 list option" where
  "revert_hashes ops out =
     (case out of
        Some HO_Success \<Rightarrow> None
      | Some (HO_FailedOp index _) \<Rightarrow>
          Some (if unat index < length (bundle_hashes ops) then [bundle_hashes ops ! unat index] else [])
      | Some (HO_SignatureValidationFailed aggregator) \<Rightarrow>
          Some (case find (\<lambda>g. upa_aggregator g = aggregator) ops of
                  Some g \<Rightarrow> map uo_hash (upa_user_ops g)
                | None \<Rightarrow> [])
      | Some (HO_Revert _) \<Rightarrow> Some (bundle_hashes ops)
      | Some HO_PostOpRevert \<Rightarrow> Some (bundle_hashes ops)
      | None \<Rightarrow> Some (bundle_hashes ops))"

definition process_revert :: "step_env \<Rightarrow> sender_world \<Rightarrow> b256 \<Rightarrow> sender_world option" where
  "process_revert sv w tx_hash =
     (let bs = sw_sender w; env = sv_proposer_env sv;
          remove = (\<lambda>hashes. Some (pool_request (Req_RemoveOps (bsn_ep_address bs) hashes) w))
      in case sv_debug_trace_transaction sv tx_hash of
           Inl e \<Rightarrow> Some w
         | Inr None \<Rightarrow> Some w
         | Inr (Some frame) \<Rightarrow>
             do {
               ops \<leftarrow> decode_ops_from_calldata (pe_alloy env) (pe_abi env) (bsn_chain_spec bs)
                       (pe_version env) (cf_input frame);
               (case cf_output frame of
                  None \<Rightarrow> remove (bundle_hashes ops)
                | Some revert_data \<Rightarrow>
                    (let from_proxy = (case bsn_submission_proxy bs of
                                         Some proxy \<Rightarrow> sp_process_revert proxy revert_data ops
                                       | None \<Rightarrow> [])
                     in if from_proxy \<noteq> [] then remove from_proxy
                        else (case revert_hashes ops
                                     (decode_handle_ops_revert (pe_abi env) (pe_version env)
                                       (unwrap_or [] (cf_error frame)) (Some revert_data)) of
                                None \<Rightarrow> Some w
                              | Some hashes \<Rightarrow> remove hashes)))
             })"

definition handle_pending_state ::
  "step_env \<Rightarrow> sender_world \<Rightarrow> pending_state \<Rightarrow> tracker_update option \<Rightarrow> sender_world option" where
  "handle_pending_state sv w inner tracker_update =
     (case tracker_update of
        Some (Mined m) \<Rightarrow>
          do {
            w \<leftarrow> (if mu_is_success m then Some w else process_revert sv w (mu_tx_hash m));
            let w = sender_emit (TransactionMined (mu_tx_hash m) (mu_nonce m) (mu_block_number m)) w;
            Some (bundle_mined (mu_block_number m) (mu_attempt_number m) (mu_tx_hash m) w)
          }
      | Some (LatestTxDropped nonce) \<Rightarrow>
          Some (on_state (update (Building (to_building inner)))
            (sender_emit (LatestTransactionDropped nonce) w))
      | Some (NonceUsedForOtherTx nonce) \<Rightarrow>
          Some (on_state reset (sender_emit (NonceUsedForOtherTransaction nonce) w))
      | None \<Rightarrow>
          Some (if block_number (sw_state w) \<ge> pst_until inner
                then on_state (update (Building (to_building inner))) w else w))"

definition handle_cancelling_state :: "step_env \<Rightarrow> sender_world \<Rightarrow> cancelling_state \<Rightarrow> sender_world" where
  "handle_cancelling_state sv w inner =
     (let s = sw_state w; settings = bsn_settings (sw_sender w);
          estimated_fees = (case estimate_gas_fees (sv_proposer_env sv) (block_hash s) None of
                              Inr (fees, _) \<Rightarrow> fees
                            | Inl e \<Rightarrow> gas_fees_default);
          (t, cancel_res) = cancel_transaction (sv_tracker_env sv) (sm_transaction_tracker s) estimated_fees;
          w = on_tracker (\<lambda>_. t) w
      in case cancel_res of
           Inr (Some _) \<Rightarrow>
             on_state (update (CancelPending (to_cancel_pending inner
               (block_number s + bss_max_blocks_to_wait_for_mine settings)))) w
         | Inr None \<Rightarrow> on_state reset (sender_release_all w)
         | Inl e \<Rightarrow>
             if e \<in> {TT_Rejected, TT_Underpriced, TT_ReplacementUnderpriced}
             then (if cst_fee_increase_count inner \<ge> bss_max_cancellation_fee_increases settings
                   then on_state reset w
                   else on_state (update (Cancelling (to_self inner))) w)
             else on_state reset w)"

definition handle_cancel_pending_state ::
  "sender_world \<Rightarrow> cancel_pending_state \<Rightarrow> tracker_update option \<Rightarrow> sender_world" where
  "handle_cancel_pending_state w inner tracker_update =
     (case tracker_update of
        Some _ \<Rightarrow> on_state reset w
      | None \<Rightarrow>
          if block_number (sw_state w) \<ge> cps_until inner
          then (if cps_fee_increase_count inner
                   \<ge> bss_max_cancellation_fee_increases (bsn_settings (sw_sender w))
                then on_state reset (sender_release_all w)
                else on_state (update (Cancelling (to_cancelling inner))) w)
          else w)"

definition step_state :: "step_env \<Rightarrow> sender_world \<Rightarrow> (sender_world \<times> (string + unit)) option" where
  "step_state sv w =
     do {
       (s, r) \<leftarrow> machine_wait_for_trigger sv (sw_state w);
       let w = w\<lparr>sw_state := s\<rparr>;
       (case r of
          Inl e \<Rightarrow> Some (w, Inl e)
        | Inr tracker_update \<Rightarrow>
            do {
              let w = (if tracker_update \<noteq> None then sender_release_all w else w);
              w \<leftarrow> (case sm_inner (sw_state w) of
                      Building inner \<Rightarrow> handle_building_state sv w inner
                    | Pending inner \<Rightarrow> handle_pending_state sv w inner tracker_update
                    | Cancelling inner \<Rightarrow> Some (handle_cancelling_state sv w inner)
                    | CancelPending inner \<Rightarrow> Some (handle_cancel_pending_state w inner tracker_update));
              Some (w, Inr ())
            })
     }"

text \<open>One round of the loop of \<open>send_bundles_in_loop\<close>.\<close>

definition loop_step :: "step_env \<Rightarrow> sender_world \<Rightarrow> sender_world option" where
  "loop_step sv w =
     do {
       (w, r) \<leftarrow> step_state sv w;
       Some (case r of Inr _ \<Rightarrow> w | Inl e \<Rightarrow> on_state reset (sender_release_all w))
     }"

end
