(* ===== verification/Sender_Moves.thy ===== *)
theory Sender_Moves
  imports Bundle_Sender
begin

text \<open>
  The states of a bundle sender as an automaton: what a round observes is the input, and the input
  determines the next state.  A step of the machine makes the move of the input it observes.
\<close>

section \<open>The automaton\<close>

text \<open>
  The inputs: the round broke off, a bundle was attempted at a block, a block came with an update of
  the tracker or without one, or a cancellation was attempted at a block.  The flag of a block tells
  whether bundles are made on request only.
\<close>

datatype sender_input =
  Broken
  | Attempted u64 "string + send_bundle_attempt_result"
  | Observed u64 bool "tracker_update option"
  | Cancelled u64 "transaction_tracker_error + b256 option"

definition reset_state :: inner_state where
  "reset_state = Building \<lparr>bst_wait_for_trigger = False, bst_fee_increase_count = 0, bst_underpriced_info = None\<rparr>"

definition idle_state :: inner_state where
  "idle_state = Building \<lparr>bst_wait_for_trigger = True, bst_fee_increase_count = 0, bst_underpriced_info = None\<rparr>"

inductive sender_move ::
  "bundle_sender_settings \<Rightarrow> inner_state \<Rightarrow> sender_input \<Rightarrow> inner_state \<Rightarrow> bool" for st where
  broken: "sender_move st s Broken reset_state"
| failed: "sender_move st (Building b) (Attempted n (Inl e)) idle_state"
| sent: "sender_move st (Building b) (Attempted n (Inr (SA_Success ops)))
    (Pending \<lparr>pst_until = n + bss_max_blocks_to_wait_for_mine st, pst_fee_increase_count = bst_fee_increase_count b\<rparr>)"
| idle: "r \<in> {SA_NoOperationsInitially, SA_NoOperationsAfterSimulation} \<Longrightarrow>
    sender_move st (Building b) (Attempted n (Inr r)) (Building (b\<lparr>bst_wait_for_trigger := True\<rparr>))"
| gives_up: "bst_underpriced_info b = Some ui \<Longrightarrow>
    bss_max_replacement_underpriced_blocks st \<le> saturating_sub n (ui_since_block ui) \<Longrightarrow>
    sender_move st (Building b) (Attempted n (Inr SA_NoOperationsAfterFeeFilter))
      (Cancelling \<lparr>cst_fee_increase_count = 0\<rparr>)"
| new_round: "bst_underpriced_info b = Some ui \<Longrightarrow>
    saturating_sub n (ui_since_block ui) < bss_max_replacement_underpriced_blocks st \<Longrightarrow>
    sender_move st (Building b) (Attempted n (Inr SA_NoOperationsAfterFeeFilter))
      (Building \<lparr>bst_wait_for_trigger = True, bst_fee_increase_count = 0,
        bst_underpriced_info = Some (ui\<lparr>ui_rounds := ui_rounds ui + 1\<rparr>)\<rparr>)"
| abandons: "bst_underpriced_info b = None \<Longrightarrow> 0 < bst_fee_increase_count b \<Longrightarrow>
    sender_move st (Building b) (Attempted n (Inr SA_NoOperationsAfterFeeFilter)) idle_state"
| unpriced: "bst_underpriced_info b = None \<Longrightarrow> bst_fee_increase_count b = 0 \<Longrightarrow>
    sender_move st (Building b) (Attempted n (Inr SA_NoOperationsAfterFeeFilter))
      (Building (b\<lparr>bst_wait_for_trigger := True\<rparr>))"
| resets: "r \<in> {SA_NonceTooLow, SA_InsufficientFunds} \<Longrightarrow>
    sender_move st (Building b) (Attempted n (Inr r)) reset_state"
| underpriced: "r \<in> {SA_Underpriced, SA_ReplacementUnderpriced, SA_Rejected} \<Longrightarrow>
    sender_move st (Building b) (Attempted n (Inr r))
      (Building \<lparr>bst_wait_for_trigger = True, bst_fee_increase_count = bst_fee_increase_count b + 1,
        bst_underpriced_info = Some (case bst_underpriced_info b of
          Some ui \<Rightarrow> ui | None \<Rightarrow> \<lparr>ui_since_block = n, ui_rounds = 1\<rparr>)\<rparr>)"
| retried: "sender_move st (Building b) (Attempted n (Inr SA_ConditionNotMet))
    (Building (b\<lparr>bst_wait_for_trigger := False\<rparr>))"
| mined: "sender_move st (Pending p) (Observed n manual (Some (Mined m)))
    (Building \<lparr>bst_wait_for_trigger = manual, bst_fee_increase_count = 0, bst_underpriced_info = None\<rparr>)"
| taken: "sender_move st (Pending p) (Observed n manual (Some (NonceUsedForOtherTx nonce))) reset_state"
| raises: "u = Some (LatestTxDropped nonce) \<or> u = None \<and> pst_until p \<le> n \<Longrightarrow>
    sender_move st (Pending p) (Observed n manual u)
      (Building \<lparr>bst_wait_for_trigger = False, bst_fee_increase_count = pst_fee_increase_count p + 1,
        bst_underpriced_info = None\<rparr>)"
| waits: "n < pst_until p \<Longrightarrow> sender_move st (Pending p) (Observed n manual None) (Pending p)"
| cancelled: "sender_move st (Cancelling c) (Cancelled n (Inr (Some h)))
    (CancelPending \<lparr>cps_until = n + bss_max_blocks_to_wait_for_mine st,
      cps_fee_increase_count = cst_fee_increase_count c\<rparr>)"
| cancelled_softly: "sender_move st (Cancelling c) (Cancelled n (Inr None)) reset_state"
| refused: "e \<in> {TT_Rejected, TT_Underpriced, TT_ReplacementUnderpriced} \<Longrightarrow>
    cst_fee_increase_count c < bss_max_cancellation_fee_increases st \<Longrightarrow>
    sender_move st (Cancelling c) (Cancelled n (Inl e)) (Cancelling \<lparr>cst_fee_increase_count = cst_fee_increase_count c + 1\<rparr>)"
| cancel_fails: "e \<notin> {TT_Rejected, TT_Underpriced, TT_ReplacementUnderpriced} \<or>
    bss_max_cancellation_fee_increases st \<le> cst_fee_increase_count c \<Longrightarrow>
    sender_move st (Cancelling c) (Cancelled n (Inl e)) reset_state"
| cancel_ends: "u \<noteq> None \<or> cps_until d \<le> n \<and> bss_max_cancellation_fee_increases st \<le> cps_fee_increase_count d \<Longrightarrow>
    sender_move st (CancelPending d) (Observed n manual u) reset_state"
| cancels_again: "cps_until d \<le> n \<Longrightarrow> cps_fee_increase_count d < bss_max_cancellation_fee_increases st \<Longrightarrow>
    sender_move st (CancelPending d) (Observed n manual None) (Cancelling \<lparr>cst_fee_increase_count = cps_fee_increase_count d + 1\<rparr>)"
| waits_cancelled: "n < cps_until d \<Longrightarrow> sender_move st (CancelPending d) (Observed n manual None) (CancelPending d)"

inductive_cases sender_move_brokenE: "sender_move st s Broken t"
inductive_cases sender_move_attemptE: "sender_move st (Building b) (Attempted n r) t"
inductive_cases sender_move_pendingE: "sender_move st (Pending p) (Observed n manual u) t"
inductive_cases sender_move_cancelE: "sender_move st (Cancelling c) (Cancelled n r) t"
inductive_cases sender_move_cancel_pendingE: "sender_move st (CancelPending d) (Observed n manual u) t"

lemmas sender_move_elims = sender_move_brokenE sender_move_attemptE sender_move_pendingE sender_move_cancelE
  sender_move_cancel_pendingE

lemma sender_move_deterministic: "sender_move st s i t \<Longrightarrow> sender_move st s i t' \<Longrightarrow> t' = t"
  by (induction rule: sender_move.induct) (auto elim!: sender_move_elims)

text \<open>What a round observes.\<close>

definition observed :: "step_env \<Rightarrow> sender_world \<Rightarrow> sender_input option" where
  "observed sv w =
     (case machine_wait_for_trigger sv (sw_state w) of
        None \<Rightarrow> None
      | Some (s, Inl e) \<Rightarrow> Some Broken
      | Some (s, Inr u) \<Rightarrow>
          (let v = w\<lparr>sw_state := s\<rparr>; v = (if u \<noteq> None then sender_release_all v else v);
               o' = Observed (block_number s) (trg_bundling_mode (sm_trigger s) = Manual) u
           in case sm_inner s of
                Building b \<Rightarrow>
                  map_option (\<lambda>(_, r). Attempted (block_number s) r) (send_bundle sv v (bst_fee_increase_count b))
              | Pending p \<Rightarrow> Some o'
              | Cancelling c \<Rightarrow>
                  Some (Cancelled (block_number s) (snd (cancel_transaction (sv_tracker_env sv) (sm_transaction_tracker s)
                    (case estimate_gas_fees (sv_proposer_env sv) (block_hash s) None of
                       Inr (fees, _) \<Rightarrow> fees | Inl e \<Rightarrow> gas_fees_default))))
              | CancelPending d \<Rightarrow> Some o'))"

section \<open>What the handlers leave alone\<close>

abbreviation inner_of :: "sender_world \<Rightarrow> inner_state" where
  "inner_of w \<equiv> sm_inner (sw_state w)"

abbreviation settings_of :: "sender_world \<Rightarrow> bundle_sender_settings" where
  "settings_of w \<equiv> bsn_settings (sw_sender w)"

text \<open>Neither the state nor the settings change.\<close>

definition steady :: "sender_world \<Rightarrow> sender_world \<Rightarrow> bool" where
  "steady w w' \<longleftrightarrow> inner_of w' = inner_of w \<and> settings_of w' = settings_of w"

lemma steady_refl [simp]: "steady w w"
  by (simp add: steady_def)

lemma steady_simps [simp]:
  "steady w (sender_release_all v) = steady w v"
  "steady w (on_tracker f v) = steady w v"
  "steady w (sender_emit k v) = steady w v"
  "steady w (send_result r v) = steady w v"
  "steady w (pool_request q v) = steady w v"
  "steady w (v\<lparr>sw_events := evs\<rparr>) = steady w v"
  "steady w (v\<lparr>sw_assigner := a\<rparr>) = steady w v"
  by (simp_all add: steady_def sender_release_all_def on_tracker_def on_state_def sender_emit_def send_result_def
      pool_request_def split: option.splits)

text \<open>Nor do the locks of the assigner.\<close>

definition undisturbed :: "sender_world \<Rightarrow> sender_world \<Rightarrow> bool" where
  "undisturbed w w' \<longleftrightarrow> steady w w' \<and> sw_assigner w' = sw_assigner w \<and>
     bsn_sender_eoa (sw_sender w') = bsn_sender_eoa (sw_sender w)"

lemma undisturbed_simps [simp]:
  "undisturbed w w"
  "undisturbed w (on_tracker f v) = undisturbed w v"
  "undisturbed w (sender_emit k v) = undisturbed w v"
  "undisturbed w (pool_request q v) = undisturbed w v"
  by (simp_all add: undisturbed_def) (simp_all add: on_tracker_def on_state_def sender_emit_def pool_request_def)

lemma get_bundle_tx_undisturbed: "get_bundle_tx sv v n b = Some (w', tx) \<Longrightarrow> undisturbed w w' = undisturbed w v"
  by (auto simp: get_bundle_tx_def Let_def bind_eq_Some_conv split: if_splits)

lemma send_bundle_inner_undisturbed:
  assumes "send_bundle_inner sv w ops n = Some (w', r)"
  shows "undisturbed w w'"
proof -
  let ?ts = "get_state (sm_transaction_tracker (sw_state w))"
  obtain p evs q where m: "make_bundle (sv_proposer_env sv) (bsn_proposer (sw_sender w)) ops (block_hash (sw_state w))
      (ts_balance ?ts) (ts_required_fees ?ts) (n > 0) = Some (p, evs, q)"
    using assms by (auto simp: send_bundle_inner_def bind_eq_Some_conv Let_def)
  let ?w = "w\<lparr>sw_sender := (sw_sender w)\<lparr>bsn_proposer := p\<rparr>, sw_events := sw_events w @ evs\<rparr>"
  have v: "undisturbed w ?w" by (simp add: undisturbed_def steady_def)
  show ?thesis
  proof (cases q)
    case (Inl e)
    with assms m v show ?thesis
      by (cases e) (auto simp: send_bundle_inner_def Let_def)
  next
    case (Inr b)
    with assms m obtain w1 tx where t: "get_bundle_tx sv ?w (ts_nonce ?ts) b = Some (w1, tx)"
      by (auto simp: send_bundle_inner_def Let_def bind_eq_Some_conv)
    note s = get_bundle_tx_undisturbed [OF t, of w, simplified v]
    show ?thesis
    proof (cases tx)
      case None
      with assms m Inr t s show ?thesis by (auto simp: send_bundle_inner_def Let_def)
    next
      case (Some btx)
      obtain t' r' where "send_transaction (sv_tracker_env sv) (sm_transaction_tracker (sw_state w1))
          (btx_tx btx) (btx_expected_storage btx) (block_number (sw_state w1)) = (t', r')" by force
      with assms m Inr t s Some show ?thesis
        by (cases r') (auto simp: send_bundle_inner_def Let_def)
    qed
  qed
qed

lemma send_bundle_steady:
  assumes "send_bundle sv w n = Some (w', r)"
  shows "steady w w'"
proof -
  let ?bs = "sw_sender w"
  obtain a q where a: "assign_operations (sv_pool_client sv) (bsn_sender_eoa ?bs) (bsn_ep_address ?bs)
      (bsn_filter_id ?bs) (sw_assigner w) = (a, q)" by force
  show ?thesis
  proof (cases q)
    case (Inl e)
    with assms a show ?thesis by (auto simp: send_bundle_def Let_def)
  next
    case (Inr ops)
    show ?thesis
    proof (cases "ops = []")
      case True
      with assms a Inr show ?thesis by (auto simp: send_bundle_def Let_def)
    next
      case False
      note h = assms [unfolded send_bundle_def Let_def a prod.case Inr sum.case if_not_P [OF False]]
      obtain w1 r1 where s: "send_bundle_inner sv (w\<lparr>sw_assigner := a\<rparr>) ops n = Some (w1, r1)"
        using h by (cases "send_bundle_inner sv (w\<lparr>sw_assigner := a\<rparr>) ops n") auto
      note h = h [unfolded s bind.bind_lunit prod.case]
      have "steady w w1" using send_bundle_inner_undisturbed [OF s] by (simp add: undisturbed_def steady_def)
      moreover have "w' = sender_release_all w1 \<or> (\<exists>senders. confirm_senders senders w1 = Some w')"
      proof (cases r1)
        case (Inl e)
        with h show ?thesis by (auto simp: bind_eq_Some_conv split: if_splits)
      next
        case (Inr x)
        with h show ?thesis by (cases x) (auto simp: bind_eq_Some_conv split: if_splits)
      qed
      ultimately show ?thesis by (auto simp: confirm_senders_def)
    qed
  qed
qed

section \<open>The handlers\<close>

definition moves :: "sender_world \<Rightarrow> sender_input \<Rightarrow> sender_world \<Rightarrow> bool" where
  "moves w i w' \<longleftrightarrow> sender_move (settings_of w) (inner_of w) i (inner_of w') \<and> settings_of w' = settings_of w"

lemma moves_update: "steady w v \<Longrightarrow> sender_move (settings_of w) (inner_of w) i s \<Longrightarrow> moves w i (on_state (update s) v)"
  by (simp add: moves_def steady_def on_state_def update_def)

lemma moves_reset: "steady w v \<Longrightarrow> sender_move (settings_of w) (inner_of w) i reset_state \<Longrightarrow> moves w i (on_state reset v)"
  by (simp add: moves_def steady_def on_state_def reset_def reset_state_def)

lemma moves_initial: "steady w v \<Longrightarrow> sender_move (settings_of w) (inner_of w) i idle_state \<Longrightarrow> moves w i (on_state initial v)"
  by (simp add: moves_def steady_def on_state_def initial_def inner_state_new_def idle_state_def)

lemma moves_no_operations:
  assumes "steady w v" "inner_of w = Building b" "no_operations v = Some w'"
    "sender_move (settings_of w) (Building b) i (Building (b\<lparr>bst_wait_for_trigger := True\<rparr>))"
  shows "moves w i w'"
proof -
  have "steady w (send_result SB_NoOperationsInitially v)" using assms(1) by simp
  moreover from this assms(2,3)
  have "w' = on_state (update (Building (b\<lparr>bst_wait_for_trigger := True\<rparr>))) (send_result SB_NoOperationsInitially v)"
    by (simp add: no_operations_def steady_def)
  ultimately show ?thesis using assms(2,4) by (auto intro: moves_update)
qed

lemma handle_fee_filtered_moves:
  assumes "steady w v" "inner_of w = Building b" "handle_fee_filtered b n v = Some w'"
  shows "moves w (Attempted n (Inr SA_NoOperationsAfterFeeFilter)) w'"
proof (cases "bst_underpriced_info b")
  case None
  show ?thesis
  proof (cases "bst_fee_increase_count b > 0")
    case True
    with None assms show ?thesis
      by (auto simp: handle_fee_filtered_def intro!: moves_initial sender_move.abandons)
  next
    case False
    then have "bst_fee_increase_count b = 0" by (simp add: word_gt_0)
    with None assms moves_no_operations [OF assms(1,2)] show ?thesis
      by (auto simp: handle_fee_filtered_def intro!: sender_move.unpriced)
  qed
next
  case (Some ui)
  let ?max = "bss_max_replacement_underpriced_blocks (settings_of w)"
  have settings: "settings_of v = settings_of w" using assms(1) by (simp add: steady_def)
  show ?thesis
  proof (cases "saturating_sub n (ui_since_block ui) \<ge> ?max")
    case True
    with Some assms settings have "w' = on_state (update (Cancelling \<lparr>cst_fee_increase_count = 0\<rparr>)) v"
      by (simp add: handle_fee_filtered_def building_to_cancelling_def)
    with sender_move.gives_up [OF Some True] assms(1,2) show ?thesis by (simp add: moves_update)
  next
    case False
    with Some assms settings have "w' = on_state (update (Building \<lparr>bst_wait_for_trigger = True,
        bst_fee_increase_count = 0, bst_underpriced_info = Some (ui\<lparr>ui_rounds := ui_rounds ui + 1\<rparr>)\<rparr>)) (on_tracker abandon v)"
      by (simp add: handle_fee_filtered_def underpriced_round_def)
    with sender_move.new_round [OF Some, of n "settings_of w"] False assms(1,2) show ?thesis
      by (simp add: moves_update not_le)
  qed
qed

lemma handle_building_state_moves:
  assumes "inner_of w = Building b" "handle_building_state sv w b = Some w'"
  obtains v r where "send_bundle sv w (bst_fee_increase_count b) = Some (v, r)"
    "moves w (Attempted (block_number (sw_state w)) r) w'"
proof -
  let ?n = "block_number (sw_state w)"
  obtain v r where v: "send_bundle sv w (bst_fee_increase_count b) = Some (v, r)"
    using assms(2) by (auto simp: handle_building_state_def bind_eq_Some_conv Let_def)
  have s: "steady w v" using send_bundle_steady [OF v] .
  then have settings: "settings_of v = settings_of w" by (simp add: steady_def)
  note h = assms(2) [unfolded handle_building_state_def Let_def v bind.bind_lunit prod.case]
  have "moves w (Attempted ?n r) w'"
  proof (cases r)
    case (Inl e)
    have "moves w (Attempted ?n r) (bundle_error e v)"
      unfolding bundle_error_def using s assms(1) Inl by (auto intro!: moves_initial sender_move.failed)
    with h Inl show ?thesis by (auto simp: moves_def on_tracker_def on_state_def)
  next
    case (Inr x)
    have abandon: "steady w (abandon_if_increased b v)" using s by (simp add: abandon_if_increased_def)
    have proposer: "steady w (v\<lparr>sw_sender := (sw_sender v)\<lparr>bsn_proposer := p\<rparr>\<rparr>)" for p
      using s by (simp add: steady_def)
    have no: "moves w (Attempted ?n (Inr x)) w'"
      if "no_operations (abandon_if_increased b v) = Some w'" "x \<in> {SA_NoOperationsInitially, SA_NoOperationsAfterSimulation}"
      using moves_no_operations [OF abandon assms(1) that(1)] sender_move.idle [OF that(2)] by blast
    have low: "moves w (Attempted ?n (Inr x)) (on_state (update (Building (underpriced b ?n))) u)"
      if "x \<in> {SA_Underpriced, SA_ReplacementUnderpriced, SA_Rejected}" "steady w u" for u
      using sender_move.underpriced [OF that(1), of "settings_of w" b ?n] that(2) assms(1)
      by (auto simp: underpriced_def intro!: moves_update)
    have reset: "moves w (Attempted ?n (Inr x)) (on_state reset v)" if "x \<in> {SA_NonceTooLow, SA_InsufficientFunds}"
      using sender_move.resets [OF that] s assms(1) by (auto intro!: moves_reset)
    have sent: "moves w (Attempted ?n (Inr (SA_Success ops))) (on_state (update (Pending (to_pending b
        (?n + bss_max_blocks_to_wait_for_mine (settings_of v))))) v)" for ops
      using s assms(1) sender_move.sent by (auto simp: to_pending_def settings intro!: moves_update)
    have retry: "moves w (Attempted ?n (Inr SA_ConditionNotMet)) (on_state (update (Building (retry b)))
        (v\<lparr>sw_sender := (sw_sender v)\<lparr>bsn_proposer := p\<rparr>\<rparr>))" for p
      using proposer assms(1) sender_move.retried by (auto simp: retry_def intro!: moves_update)
    from h Inr s no low reset sent retry handle_fee_filtered_moves [OF s assms(1)] show ?thesis by (cases x) auto
  qed
  with v show thesis by (rule that)
qed

lemma process_revert_result:
  assumes "process_revert sv w h = Some w'"
  shows "w' = w \<or> (\<exists>hashes. w' = pool_request (Req_RemoveOps (bsn_ep_address (sw_sender w)) hashes) w)"
proof (cases "sv_debug_trace_transaction sv h")
  case (Inl e)
  with assms show ?thesis by (simp add: process_revert_def)
next
  case (Inr o')
  show ?thesis
  proof (cases o')
    case None
    with Inr assms show ?thesis by (simp add: process_revert_def)
  next
    case (Some frame)
    let ?env = "sv_proposer_env sv"
    note h = assms [unfolded process_revert_def Let_def Inr Some sum.case option.case]
    obtain ops where ops: "decode_ops_from_calldata (pe_alloy ?env) (pe_abi ?env) (bsn_chain_spec (sw_sender w))
        (pe_version ?env) (cf_input frame) = Some ops"
      using h by (auto simp: bind_eq_Some_conv)
    note h = h [unfolded ops bind.bind_lunit]
    show ?thesis
    proof (cases "cf_output frame")
      case None
      with h show ?thesis by auto
    next
      case (Some data)
      note h = h [unfolded Some option.case]
      show ?thesis
        by (cases "revert_hashes ops (decode_handle_ops_revert (pe_abi ?env) (pe_version ?env)
          (unwrap_or [] (cf_error frame)) (Some data))") (use h in \<open>auto split: if_splits\<close>)
    qed
  qed
qed

lemma process_revert_steady: "process_revert sv w h = Some w' \<Longrightarrow> steady w w'"
  by (drule process_revert_result) auto

lemma process_revert_state: "process_revert sv w h = Some w' \<Longrightarrow> sw_state w' = sw_state w"
  by (drule process_revert_result) (auto simp: pool_request_def)

lemma handle_pending_state_moves:
  assumes "inner_of w = Pending p" "handle_pending_state sv w p u = Some w'"
  shows "moves w (Observed (block_number (sw_state w)) (trg_bundling_mode (sm_trigger (sw_state w)) = Manual) u) w'"
    (is "moves w (Observed ?n ?m u) w'")
proof (cases u)
  case None
  show ?thesis
  proof (cases "?n \<ge> pst_until p")
    case True
    with None assms show ?thesis
      by (auto simp: handle_pending_state_def to_building_def intro!: moves_update sender_move.raises)
  next
    case False
    with None assms sender_move.waits [of ?n p "settings_of w" ?m] show ?thesis
      by (simp add: handle_pending_state_def moves_def not_le)
  qed
next
  case (Some x)
  show ?thesis
  proof (cases x)
    case (Mined m)
    let ?emit = "sender_emit (TransactionMined (mu_tx_hash m) (mu_nonce m) (mu_block_number m))"
    from Mined Some assms(2) obtain v where v: "(if mu_is_success m then Some w else process_revert sv w (mu_tx_hash m)) = Some v"
      "w' = bundle_mined (mu_block_number m) (mu_attempt_number m) (mu_tx_hash m) (?emit v)"
      unfolding handle_pending_state_def Let_def by (simp add: bind_eq_Some_conv) blast
    have same: "sw_state v = sw_state w" using v(1) process_revert_state by (auto split: if_splits)
    from v(1) have "steady w v" by (auto split: if_splits dest: process_revert_steady)
    then have "steady w (send_result r (?emit v))" for r by simp
    moreover have "builder_must_wait_for_trigger (sm_trigger (sw_state (send_result r (?emit v)))) = ?m" for r
      by (simp add: send_result_def on_state_def sender_emit_def same builder_must_wait_for_trigger_def
          split: option.split bundling_mode.split)
    ultimately show ?thesis
      using v(2) assms(1) Some Mined sender_move.mined [of "settings_of w" p ?n ?m m]
      by (simp add: bundle_mined_def Let_def moves_update)
  qed (use Some assms in \<open>auto simp: handle_pending_state_def to_building_def
      intro!: moves_update moves_reset sender_move.taken sender_move.raises\<close>)
qed

lemma to_self_eq: "to_self c = \<lparr>cst_fee_increase_count = cst_fee_increase_count c + 1\<rparr>"
  by (simp add: to_self_def)

lemma handle_cancelling_state_moves:
  assumes "inner_of w = Cancelling c"
  shows "moves w (Cancelled (block_number (sw_state w))
      (snd (cancel_transaction (sv_tracker_env sv) (sm_transaction_tracker (sw_state w))
        (case estimate_gas_fees (sv_proposer_env sv) (block_hash (sw_state w)) None of
           Inr (fees, _) \<Rightarrow> fees | Inl e \<Rightarrow> gas_fees_default))))
    (handle_cancelling_state sv w c)"
proof -
  let ?fees = "case estimate_gas_fees (sv_proposer_env sv) (block_hash (sw_state w)) None of
    Inr (fees, _) \<Rightarrow> fees | Inl e \<Rightarrow> gas_fees_default"
  obtain t r where t: "cancel_transaction (sv_tracker_env sv) (sm_transaction_tracker (sw_state w)) ?fees = (t, r)"
    by force
  have s: "steady w (on_tracker (\<lambda>_. t) w)" "steady w (sender_release_all (on_tracker (\<lambda>_. t) w))" by simp_all
  note h = handle_cancelling_state_def [of sv w c, unfolded Let_def t prod.case]
  have "moves w (Cancelled (block_number (sw_state w)) r) (handle_cancelling_state sv w c)"
  proof (cases r)
    case (Inl e)
    show ?thesis
    proof (cases "e \<in> {TT_Rejected, TT_Underpriced, TT_ReplacementUnderpriced} \<and>
        cst_fee_increase_count c < bss_max_cancellation_fee_increases (settings_of w)")
      case True
      with h s(1) assms Inl sender_move.refused [of e c "settings_of w"] show ?thesis
        by (auto simp: to_self_eq not_le [symmetric] intro!: moves_update)
    next
      case False
      with h s(1) assms Inl sender_move.cancel_fails [of e "settings_of w" c] show ?thesis
        by (auto simp: not_le [symmetric] intro!: moves_reset)
    qed
  next
    case (Inr x)
    with h s assms show ?thesis
      by (cases x) (auto simp: to_cancel_pending_def intro!: moves_reset moves_update sender_move.cancelled
          sender_move.cancelled_softly)
  qed
  with t show ?thesis by simp
qed

lemma handle_cancel_pending_state_moves:
  assumes "inner_of w = CancelPending d"
  shows "moves w (Observed (block_number (sw_state w)) manual u) (handle_cancel_pending_state w d u)"
proof (cases u)
  case None
  show ?thesis
  proof (cases "block_number (sw_state w) \<ge> cps_until d")
    case True
    with None assms show ?thesis
      by (auto simp: handle_cancel_pending_state_def to_cancelling_def not_le
          intro!: moves_reset moves_update sender_move.cancels_again sender_move.cancel_ends)
  next
    case False
    then have "handle_cancel_pending_state w d u = w" using None by (simp add: handle_cancel_pending_state_def)
    with False None assms sender_move.waits_cancelled [of "block_number (sw_state w)" d "settings_of w" manual]
    show ?thesis by (simp add: moves_def not_le)
  qed
next
  case (Some x)
  with assms show ?thesis
    by (auto simp: handle_cancel_pending_state_def intro!: moves_reset sender_move.cancel_ends)
qed

section \<open>A step of the machine\<close>

lemma track_update_inner: "track_update te s = (s', r) \<Longrightarrow> sm_inner s' = sm_inner s"
  by (auto simp: track_update_def split: option.splits prod.splits sum.splits)

lemma machine_wait_inner:
  assumes "machine_wait_for_trigger sv s = Some (s', r)"
  shows "sm_inner s' = sm_inner s"
proof -
  define s1 where "s1 = (if sm_requires_reset s
    then s\<lparr>sm_transaction_tracker := tracker_reset (sv_wait_tracker_env sv) (sm_transaction_tracker s),
           sm_requires_reset := False\<rparr> else s)"
  have i: "sm_inner s1 = sm_inner s" by (simp add: s1_def)
  note h = assms [unfolded machine_wait_for_trigger_def Let_def, folded s1_def]
  have b: ?thesis if "(case wait_for_block (sv_block sv) (sv_buffered sv) (sv_closed sv) (sm_trigger s1) of
      (t, Inl e) \<Rightarrow> Some (s1\<lparr>sm_trigger := t\<rparr>, Inl e)
    | (t, Inr _) \<Rightarrow> Some (track_update (sv_wait_tracker_env sv) (s1\<lparr>sm_trigger := t\<rparr>))) = Some (s', r)"
    using that i by (auto split: prod.splits sum.splits dest: track_update_inner)
  show ?thesis
  proof (cases "sm_inner s1")
    case (Building x)
    note h = h [unfolded Building inner_state.case]
    show ?thesis using h i by (auto split: if_splits option.splits prod.splits sum.splits dest: track_update_inner)
  next
    case (Cancelling c)
    show ?thesis using h [unfolded Cancelling inner_state.case] i by auto
  qed (use h b in simp_all)
qed

lemma loop_step_moves:
  assumes "loop_step sv w = Some w'"
  obtains i where "observed sv w = Some i" "moves w i w'"
proof -
  obtain s r where m: "machine_wait_for_trigger sv (sw_state w) = Some (s, r)"
    using assms by (auto simp: loop_step_def step_state_def bind_eq_Some_conv)
  have st: "steady w (w\<lparr>sw_state := s\<rparr>)" using machine_wait_inner [OF m] by (simp add: steady_def)
  show thesis
  proof (cases r)
    case (Inl e)
    with assms m st have "moves w Broken w'"
      by (auto simp: loop_step_def step_state_def Let_def intro!: moves_reset sender_move.broken)
    moreover have "observed sv w = Some Broken" using m Inl by (simp add: observed_def)
    ultimately show thesis by (intro that)
  next
    case (Inr u)
    define v where "v = (if u \<noteq> None then sender_release_all (w\<lparr>sw_state := s\<rparr>) else w\<lparr>sw_state := s\<rparr>)"
    have v: "steady w v" "sw_state v = s" using st by (simp_all add: v_def sender_release_all_def)
    note obs = observed_def [of sv w, unfolded m option.case prod.case Inr sum.case Let_def, folded v_def]
    have step: "(case inner_of v of
        Building inner \<Rightarrow> handle_building_state sv v inner
      | Pending inner \<Rightarrow> handle_pending_state sv v inner u
      | Cancelling inner \<Rightarrow> Some (handle_cancelling_state sv v inner)
      | CancelPending inner \<Rightarrow> Some (handle_cancel_pending_state v inner u)) = Some w'"
      using assms [unfolded loop_step_def step_state_def m bind.bind_lunit prod.case Let_def Inr sum.case, folded v_def]
      by (auto simp: bind_eq_Some_conv)
    have "\<exists>i. observed sv w = Some i \<and> moves v i w'"
    proof (cases "inner_of v")
      case (Building b)
      with step have "handle_building_state sv v b = Some w'" by simp
      from handle_building_state_moves [OF Building this] show ?thesis using obs Building v(2) by fastforce
    next
      case (Pending p)
      with step have "handle_pending_state sv v p u = Some w'" by simp
      from handle_pending_state_moves [OF Pending this] show ?thesis using obs Pending v(2) by simp
    next
      case (Cancelling c)
      with step handle_cancelling_state_moves [OF Cancelling, of sv] show ?thesis using obs v(2) by simp
    next
      case (CancelPending d)
      with step handle_cancel_pending_state_moves [OF CancelPending, of _ u] show ?thesis using obs v(2) by simp
    qed
    then obtain i where "observed sv w = Some i" "moves v i w'" by blast
    with v(1) show thesis by (intro that [of i]) (simp_all add: moves_def steady_def)
  qed
qed

end
