(* ===== verification/Bundle_Context_Invariant.thy ===== *)
theory Bundle_Context_Invariant
  imports Bundle_Context "HOL-Library.Multiset"
begin

text \<open>
  What rejecting operations does to a proposal: operations move from the groups to the rejected ones
  and are neither lost nor made up, groups stay well formed, and a rejection makes the proposal
  smaller.
\<close>

section \<open>Well-formed groups\<close>

definition aggregator_key :: "user_operation_variant \<Rightarrow> address" where
  "aggregator_key op = (case uo_aggregator op of Some a \<Rightarrow> a | None \<Rightarrow> 0)"

definition groups_wf :: "(address \<times> aggregator_group) list \<Rightarrow> bool" where
  "groups_wf gs \<longleftrightarrow> distinct (map fst gs) \<and>
     (\<forall>(a, g)\<in>set gs. ag_ops_with_simulations g \<noteq> [] \<and>
        (\<forall>op\<in>set (ag_ops_with_simulations g). aggregator_key (ows_op op) = a))"

definition group_ops :: "(address \<times> aggregator_group) list \<Rightarrow> op_with_simulation list" where
  "group_ops gs = concat (map (ag_ops_with_simulations \<circ> snd) gs)"

definition content :: "proposal_context \<Rightarrow> user_operation_variant multiset" where
  "content c = mset (iter_ops c) + mset (map fst (px_rejected_ops c))"

lemma group_ops_simps [simp]:
  "group_ops [] = []" "group_ops ((a, g) # gs) = ag_ops_with_simulations g @ group_ops gs"
  by (simp_all add: group_ops_def)

lemma group_ops_append [simp]: "group_ops (gs @ hs) = group_ops gs @ group_ops hs"
  by (simp add: group_ops_def)

lemma iter_group_ops: "iter_ops_with_simulations c = group_ops (px_groups_by_aggregator c)"
  by (simp add: iter_ops_with_simulations_def group_ops_def)

lemma iter_ops_group_ops: "iter_ops c = map ows_op (group_ops (px_groups_by_aggregator c))"
  by (simp add: iter_ops_def iter_group_ops)

lemma groups_wf_simps [simp]:
  "groups_wf []"
  "groups_wf ((a, g) # gs) \<longleftrightarrow> a \<notin> fst ` set gs \<and> groups_wf gs \<and> ag_ops_with_simulations g \<noteq> [] \<and>
     (\<forall>op\<in>set (ag_ops_with_simulations g). aggregator_key (ows_op op) = a)"
  by (auto simp: groups_wf_def)

lemma groups_wf_empty_iff: "groups_wf gs \<Longrightarrow> group_ops gs = [] \<longleftrightarrow> gs = []"
  by (cases gs) auto

lemma groups_wf_keys: "groups_wf gs \<Longrightarrow> op \<in> set (group_ops gs) \<Longrightarrow> aggregator_key (ows_op op) \<in> fst ` set gs"
  by (induction gs) auto

lemma groups_wf_key_op:
  "groups_wf gs \<Longrightarrow> a \<in> fst ` set gs \<Longrightarrow> \<exists>op\<in>set (group_ops gs). aggregator_key (ows_op op) = a"
proof (induction gs)
  case (Cons x gs)
  then show ?case
    by (cases x; cases "ag_ops_with_simulations (snd x)") auto
qed simp

lemma context_is_empty_iff:
  "groups_wf (px_groups_by_aggregator c) \<Longrightarrow> context_is_empty c \<longleftrightarrow> iter_ops_with_simulations c = []"
  by (simp add: context_is_empty_def iter_group_ops groups_wf_empty_iff)

section \<open>Rejecting one operation\<close>

lemma reject_op_fields [simp]:
  "px_groups_by_aggregator (reject_op c op amend) = px_groups_by_aggregator c"
  "px_rejected_ops (reject_op c op amend) =
     px_rejected_ops c @ [(ows_op op, sr_entity_infos (ows_simulation op))]"
  "px_bundle_expected_storage (reject_op c op amend) =
     bes_remove (px_bundle_expected_storage c) (sr_expected_storage (ows_simulation op))"
  by (auto simp: reject_op_def Let_def add_erep_015_paymaster_amendment_def split: option.splits)

lemma op_at_group_ops:
  "op_at gs i = (if i < length (group_ops gs) then Some (group_ops gs ! i) else None)"
  by (induction gs i rule: op_at.induct) (auto simp: nth_append)

lemma get_op_at_iter:
  "get_op_at c i = (if i < length (iter_ops_with_simulations c)
     then Inr (iter_ops_with_simulations c ! i) else Inl ''op out of bounds'')"
  by (simp add: get_op_at_def op_at_group_ops iter_group_ops)

lemma remove_nth_mset: "i < length xs \<Longrightarrow> mset xs = add_mset (xs ! i) (mset (remove_nth i xs))"
proof -
  assume "i < length xs"
  then have "mset xs = mset (take i xs @ xs ! i # drop (Suc i) xs)" by (simp add: id_take_nth_drop [symmetric])
  then show ?thesis by (simp add: remove_nth_def)
qed

lemma remove_nth_append:
  "remove_nth i (xs @ ys) =
     (if i < length xs then remove_nth i xs @ ys else xs @ remove_nth (i - length xs) ys)"
  by (auto simp: remove_nth_def Suc_diff_le)

lemma remove_nth_length [simp]: "i < length xs \<Longrightarrow> length (remove_nth i xs) = length xs - 1"
  by (auto simp: remove_nth_def)

lemma set_remove_nth: "set (remove_nth i xs) \<subseteq> set xs"
  by (auto simp: remove_nth_def dest: in_set_takeD in_set_dropD)

text \<open>The groups after an operation is taken out, empty groups included.\<close>

lemma take_index_result:
  assumes "take_index gs i = (gs', r)"
  shows "map fst gs' = map fst gs \<and>
    (if i < length (group_ops gs)
     then (\<exists>a. r = Some (group_ops gs ! i, a) \<and> a \<in> fst ` set gs) \<and> group_ops gs' = remove_nth i (group_ops gs)
     else r = None \<and> gs' = gs)"
  using assms
proof (induction gs i arbitrary: gs' r rule: take_index.induct)
  case (2 a g gs i)
  show ?case
  proof (cases "i < length (ag_ops_with_simulations g)")
    case True
    with "2.prems" show ?thesis
      by (auto simp: Let_def remove_nth_append nth_append)
  next
    case False
    obtain hs q where h: "take_index gs (i - length (ag_ops_with_simulations g)) = (hs, q)" by force
    with False "2.prems" have "gs' = (a, g) # hs" "r = q" by (auto simp: Let_def)
    with "2.IH" [OF refl False h] False show ?thesis
      by (auto simp: remove_nth_append nth_append split: if_splits)
  qed
qed simp

text \<open>Only the group of the operation changes, and it loses just that operation.\<close>

lemma take_index_groups:
  assumes "take_index gs i = (gs', Some (op, a))" "groups_wf gs"
  shows "a \<in> fst ` set gs \<and> aggregator_key (ows_op op) = a \<and>
    (\<forall>(b, g)\<in>set gs'. (b \<noteq> a \<longrightarrow> (b, g) \<in> set gs) \<and>
       (\<forall>x\<in>set (ag_ops_with_simulations g). aggregator_key (ows_op x) = b))"
  using assms
proof (induction gs i arbitrary: gs' rule: take_index.induct)
  case (2 b g gs i)
  show ?case
  proof (cases "i < length (ag_ops_with_simulations g)")
    case True
    with "2.prems" show ?thesis
      using set_remove_nth [of i "ag_ops_with_simulations g"]
      by (fastforce simp: Let_def groups_wf_def)
  next
    case False
    obtain hs where h: "take_index gs (i - length (ag_ops_with_simulations g)) = (hs, Some (op, a))"
      "gs' = (b, g) # hs"
      using False "2.prems"(1) by (auto simp: Let_def split: prod.splits)
    with "2.IH" [OF refl False h(1)] False "2.prems"(2) show ?thesis by auto
  qed
qed simp

lemma group_ops_filter_empty:
  "(\<forall>(b, g)\<in>set gs. b = a \<longrightarrow> ag_ops_with_simulations g = []) \<Longrightarrow>
     group_ops (filter (\<lambda>g. fst g \<noteq> a) gs) = group_ops gs"
  by (induction gs) auto

lemma distinct_map_fst_filter: "distinct (map fst xs) \<Longrightarrow> distinct (map fst (filter P xs))"
  by (induction xs) auto

lemma reject_index_result:
  assumes wf: "groups_wf (px_groups_by_aggregator c)" and i: "i < length (iter_ops_with_simulations c)"
    and r: "reject_index c i amend = (c', changed)"
  defines "op \<equiv> iter_ops_with_simulations c ! i"
  shows "iter_ops_with_simulations c' = remove_nth i (iter_ops_with_simulations c)"
    and "groups_wf (px_groups_by_aggregator c')"
    and "px_rejected_ops c' = px_rejected_ops c @ [(ows_op op, sr_entity_infos (ows_simulation op))]"
    and "px_bundle_expected_storage c' =
      bes_remove (px_bundle_expected_storage c) (sr_expected_storage (ows_simulation op))"
    and "fst ` set (px_groups_by_aggregator c') \<subseteq> fst ` set (px_groups_by_aggregator c)"
proof -
  let ?gs = "px_groups_by_aggregator c"
  obtain gs' q where t: "take_index ?gs i = (gs', q)" by force
  with take_index_result [OF t] i obtain a where a: "q = Some (op, a)" "a \<in> fst ` set ?gs"
    and keys: "map fst gs' = map fst ?gs" and ops: "group_ops gs' = remove_nth i (group_ops ?gs)"
    by (auto simp: iter_group_ops op_def)
  note tg = take_index_groups [OF t [unfolded a(1)] wf]
  have d: "distinct (map fst gs')" using wf keys by (simp add: groups_wf_def)
  have fsts: "fst ` set gs' = fst ` set ?gs" using keys by (metis set_map)
  with a(2) obtain g where g: "(a, g) \<in> set gs'" by force
  with d have m: "map_of gs' a = Some g" by simp
  let ?c = "reject_op (c\<lparr>px_groups_by_aggregator := gs'\<rparr>) op amend"
  let ?hs = "if ag_ops_with_simulations g = [] then filter (\<lambda>g. fst g \<noteq> a) gs' else gs'"
  have c': "c' = ?c\<lparr>px_groups_by_aggregator := ?hs\<rparr>"
    using r t a(1) m by (auto simp: reject_index_def Let_def)
  have "group_ops ?hs = group_ops gs'"
    using d g by (auto intro!: group_ops_filter_empty dest: eq_key_imp_eq_value)
  then show "iter_ops_with_simulations c' = remove_nth i (iter_ops_with_simulations c)"
    by (simp add: c' iter_group_ops ops)
  have ne: "ag_ops_with_simulations h \<noteq> []" if "(b, h) \<in> set gs'" "b \<noteq> a" for b h
    using tg that wf by (fastforce simp: groups_wf_def)
  have "groups_wf ?hs"
    using d tg ne g by (auto simp: groups_wf_def distinct_map_fst_filter dest: eq_key_imp_eq_value)
  then show "groups_wf (px_groups_by_aggregator c')" by (simp add: c')
  show "fst ` set (px_groups_by_aggregator c') \<subseteq> fst ` set ?gs"
    using fsts by (auto simp: c')
qed (use assms in \<open>auto simp: reject_index_def Let_def iter_group_ops dest: take_index_result
  split: prod.splits option.splits if_splits\<close>)

lemma reject_index_out_of_range:
  "\<not> i < length (iter_ops_with_simulations c) \<Longrightarrow> reject_index c i amend = (c, None)"
  using take_index_result [of "px_groups_by_aggregator c" i]
  by (cases "take_index (px_groups_by_aggregator c) i") (simp add: reject_index_def iter_group_ops)

lemma content_remove:
  assumes "i < length (iter_ops_with_simulations c)"
    "iter_ops_with_simulations c' = remove_nth i (iter_ops_with_simulations c)"
    "px_rejected_ops c' = px_rejected_ops c @ [(ows_op (iter_ops_with_simulations c ! i), infos)]"
  shows "content c' = content c"
  using remove_nth_mset [OF assms(1)] by (simp add: content_def iter_ops_def assms(2,3))

lemma reject_index_content:
  "groups_wf (px_groups_by_aggregator c) \<Longrightarrow> content (fst (reject_index c i amend)) = content c"
proof (cases "i < length (iter_ops_with_simulations c)")
  case True
  assume wf: "groups_wf (px_groups_by_aggregator c)"
  obtain c' changed where r: "reject_index c i amend = (c', changed)" by force
  from content_remove [OF True reject_index_result(1,3) [OF wf True r]] r show ?thesis by simp
qed (simp add: reject_index_out_of_range)

lemma reject_index_wf:
  "groups_wf (px_groups_by_aggregator c) \<Longrightarrow> groups_wf (px_groups_by_aggregator (fst (reject_index c i amend)))"
  by (cases "i < length (iter_ops_with_simulations c)"; cases "reject_index c i amend")
    (auto simp: reject_index_out_of_range dest: reject_index_result)

lemma reject_all_result:
  assumes "groups_wf (px_groups_by_aggregator c)"
  shows "iter_ops_with_simulations (reject_all c) = [] \<and> content (reject_all c) = content c \<and>
    groups_wf (px_groups_by_aggregator (reject_all c))"
proof -
  have "iter_ops_with_simulations (((\<lambda>c. fst (reject_index c 0 True)) ^^ n) c) = [] \<and>
      content (((\<lambda>c. fst (reject_index c 0 True)) ^^ n) c) = content c \<and>
      groups_wf (px_groups_by_aggregator (((\<lambda>c. fst (reject_index c 0 True)) ^^ n) c))"
    if "n = length (iter_ops_with_simulations c)" "groups_wf (px_groups_by_aggregator c)" for n and c
    using that
  proof (induction n arbitrary: c)
    case (Suc n)
    obtain c' changed where r: "reject_index c 0 True = (c', changed)" by force
    have "0 < length (iter_ops_with_simulations c)" using Suc.prems(1) by linarith
    note rr = reject_index_result [OF Suc.prems(2) this r]
    have "n = length (iter_ops_with_simulations c')"
      using Suc.prems(1)[symmetric] by (simp add: rr(1) remove_nth_def)
    from Suc.IH [OF this rr(2)] r reject_index_content [OF Suc.prems(2), of 0 True]
    show ?case by (simp add: funpow_Suc_right del: funpow.simps)
  qed simp
  with assms show ?thesis by (simp add: reject_all_def)
qed

section \<open>Rejecting by a predicate\<close>

lemma filter_group_result:
  "filter_group amend P ops c = (kept, c') \<Longrightarrow>
     kept = filter (\<lambda>op. \<not> P (ows_op op)) ops \<and>
     px_rejected_ops c' = px_rejected_ops c @
       map (\<lambda>op. (ows_op op, sr_entity_infos (ows_simulation op))) (filter (\<lambda>op. P (ows_op op)) ops) \<and>
     px_bundle_expected_storage c' =
       fold (\<lambda>op b. bes_remove b (sr_expected_storage (ows_simulation op)))
         (filter (\<lambda>op. P (ows_op op)) ops) (px_bundle_expected_storage c)"
proof (induction amend P ops c arbitrary: kept c' rule: filter_group.induct)
  case (2 amend P op ops c)
  show ?case
  proof (cases "P (ows_op op)")
    case True
    with 2 show ?thesis by (auto simp: Let_def)
  next
    case False
    obtain k d where "filter_group amend P ops c = (k, d)" by force
    with False 2 show ?thesis by (auto simp: Let_def)
  qed
qed simp

text \<open>The groups that remain: those without a match as they were, the others without their matches.\<close>

lemma filter_groups_result:
  assumes "filter_groups amend P gs c = (gs', changed, c')"
  shows "group_ops gs' = filter (\<lambda>op. \<not> P (ows_op op)) (group_ops gs) \<and>
    px_rejected_ops c' = px_rejected_ops c @
      map (\<lambda>op. (ows_op op, sr_entity_infos (ows_simulation op))) (filter (\<lambda>op. P (ows_op op)) (group_ops gs)) \<and>
    px_bundle_expected_storage c' =
      fold (\<lambda>op b. bes_remove b (sr_expected_storage (ows_simulation op)))
        (filter (\<lambda>op. P (ows_op op)) (group_ops gs)) (px_bundle_expected_storage c) \<and>
    fst ` set gs' \<subseteq> fst ` set gs \<and> (groups_wf gs \<longrightarrow> groups_wf gs') \<and> set changed \<subseteq> {0}"
  using assms
proof (induction amend P gs c arbitrary: gs' changed c' rule: filter_groups.induct)
  case (2 amend P a g gs c)
  let ?ops = "ag_ops_with_simulations g"
  show ?case
  proof (cases "\<exists>op\<in>set ?ops. P (ows_op op)")
    case True
    obtain kept d where k: "filter_group amend P ?ops c = (kept, d)" by force
    obtain hs ch e where h: "filter_groups amend P gs d = (hs, ch, e)" by (cases "filter_groups amend P gs d") auto
    note fg = filter_group_result [OF k] and IH = "2.IH"(1) [OF True k [symmetric] refl h]
    from True k h "2.prems" have "gs' = (if kept = [] then hs
        else (a, aggregator_group_default\<lparr>ag_ops_with_simulations := kept\<rparr>) # hs)" "c' = e"
      "set changed \<subseteq> {0} \<union> set ch"
      by (auto simp: Let_def split: if_splits)
    with fg IH show ?thesis by (auto simp: aggregator_group_default_def filter_empty_conv)
  next
    case False
    obtain hs ch e where h: "filter_groups amend P gs c = (hs, ch, e)" by (cases "filter_groups amend P gs c") auto
    have none: "filter (\<lambda>op. P (ows_op op)) ?ops = []" "filter (\<lambda>op. \<not> P (ows_op op)) ?ops = ?ops"
      using False by (auto simp: filter_empty_conv filter_id_conv)
    from False h "2.prems" have "gs' = (a, g) # hs" "c' = e" "changed = ch" by (auto simp: Let_def)
    with "2.IH"(2) [OF False h] show ?thesis by (auto simp: none)
  qed
qed simp

lemma filter_reject_result:
  assumes "filter_reject c amend P = (c', changed)"
  shows "iter_ops_with_simulations c' = filter (\<lambda>op. \<not> P (ows_op op)) (iter_ops_with_simulations c)"
    and "px_rejected_ops c' = px_rejected_ops c @
      map (\<lambda>op. (ows_op op, sr_entity_infos (ows_simulation op)))
        (filter (\<lambda>op. P (ows_op op)) (iter_ops_with_simulations c))"
    and "px_bundle_expected_storage c' =
      fold (\<lambda>op b. bes_remove b (sr_expected_storage (ows_simulation op)))
        (filter (\<lambda>op. P (ows_op op)) (iter_ops_with_simulations c)) (px_bundle_expected_storage c)"
    and "groups_wf (px_groups_by_aggregator c) \<Longrightarrow> groups_wf (px_groups_by_aggregator c')"
    and "fst ` set (px_groups_by_aggregator c') \<subseteq> fst ` set (px_groups_by_aggregator c)"
    and "set changed \<subseteq> {0}"
proof -
  obtain gs' ch d where f: "filter_groups amend P (px_groups_by_aggregator c) c = (gs', ch, d)"
    by (cases "filter_groups amend P (px_groups_by_aggregator c) c") auto
  with assms have c': "c' = d\<lparr>px_groups_by_aggregator := gs'\<rparr>" "changed = ch"
    by (auto simp: filter_reject_def)
  note r = filter_groups_result [OF f]
  show "iter_ops_with_simulations c' = filter (\<lambda>op. \<not> P (ows_op op)) (iter_ops_with_simulations c)"
    "px_rejected_ops c' = px_rejected_ops c @
      map (\<lambda>op. (ows_op op, sr_entity_infos (ows_simulation op)))
        (filter (\<lambda>op. P (ows_op op)) (iter_ops_with_simulations c))"
    "px_bundle_expected_storage c' =
      fold (\<lambda>op b. bes_remove b (sr_expected_storage (ows_simulation op)))
        (filter (\<lambda>op. P (ows_op op)) (iter_ops_with_simulations c)) (px_bundle_expected_storage c)"
    "groups_wf (px_groups_by_aggregator c) \<Longrightarrow> groups_wf (px_groups_by_aggregator c')"
    "fst ` set (px_groups_by_aggregator c') \<subseteq> fst ` set (px_groups_by_aggregator c)"
    "set changed \<subseteq> {0}"
    using r by (simp_all add: c' iter_group_ops)
qed

lemma filter_reject_content: "content (fst (filter_reject c amend P)) = content c"
proof -
  obtain c' changed where r: "filter_reject c amend P = (c', changed)" by force
  have "mset (map ows_op xs) = mset (map ows_op (filter (\<lambda>op. \<not> P (ows_op op)) xs)) +
      mset (map ows_op (filter (\<lambda>op. P (ows_op op)) xs))" for xs
    by (induction xs) auto
  from this [of "iter_ops_with_simulations c"] filter_reject_result(1,2) [OF r] r show ?thesis
    by (simp add: content_def iter_ops_def o_def)
qed

text \<open>The predicate by which an entity is rejected.\<close>

definition uses_entity :: "entity \<Rightarrow> user_operation_variant \<Rightarrow> bool" where
  "uses_entity e op =
     (case ent_kind e of
        Paymaster \<Rightarrow> uo_paymaster op = Some (ent_address e)
      | Factory \<Rightarrow> uo_factory op = Some (ent_address e)
      | Account \<Rightarrow> uo_sender op = ent_address e
      | Aggregator \<Rightarrow> uo_aggregator op = Some (ent_address e))"

lemma context_reject_entity_result:
  assumes "context_reject_entity c e is_staked = (c', changed)"
  obtains d amend where "filter_reject c amend (uses_entity e) = (d, changed)"
    "px_groups_by_aggregator c' = px_groups_by_aggregator d" "px_rejected_ops c' = px_rejected_ops d"
    "px_bundle_expected_storage c' = px_bundle_expected_storage d"
proof -
  let ?amend = "ent_kind e \<noteq> Paymaster"
  obtain d ch where f: "filter_reject c ?amend (uses_entity e) = (d, ch)" by force
  have "(case ent_kind e of
           Paymaster \<Rightarrow> reject_paymaster c (ent_address e)
         | Factory \<Rightarrow> reject_factory c (ent_address e)
         | Account \<Rightarrow> reject_sender c (ent_address e)
         | Aggregator \<Rightarrow> reject_aggregator c (ent_address e)) = filter_reject c ?amend (uses_entity e)"
    by (cases "ent_kind e")
      (simp_all add: uses_entity_def [abs_def] reject_paymaster_def reject_factory_def reject_sender_def
        reject_aggregator_def)
  with assms f have "c' = d\<lparr>px_entity_updates := px_entity_updates c'\<rparr>" "changed = ch"
    by (auto simp: context_reject_entity_def)
  with that [of ?amend d] f show thesis by (metis proposal_context.ext_inject proposal_context.surjective
    proposal_context.update_convs(3))
qed

end
