(* ===== verification/Bundle_Assembly.thy ===== *)
theory Bundle_Assembly
  imports Bundle_Proposer Bundle_Context_Invariant
begin

text \<open>
  What the proposer does to a proposal: it only ever shrinks, computing signatures included, and
  nothing panics as long as the aggregators of the proposal are known to the chain specification.
\<close>

section \<open>Shrinking\<close>

text \<open>
  \<open>shrinks_by R c c'\<close>: the operations \<open>R\<close> moved from the groups to the rejected ones, and what they
  expect of the storage was taken from the expected storage of the bundle.
\<close>

definition shrinks_by :: "op_with_simulation list \<Rightarrow> proposal_context \<Rightarrow> proposal_context \<Rightarrow> bool" where
  "shrinks_by R c c' \<longleftrightarrow> groups_wf (px_groups_by_aggregator c') \<and>
     mset (iter_ops_with_simulations c) = mset (iter_ops_with_simulations c') + mset R \<and>
     px_rejected_ops c' = px_rejected_ops c @
       map (\<lambda>op. (ows_op op, sr_entity_infos (ows_simulation op))) R \<and>
     px_bundle_expected_storage c' =
       fold (\<lambda>op b. bes_remove b (sr_expected_storage (ows_simulation op))) R (px_bundle_expected_storage c)"

definition shrinks :: "proposal_context \<Rightarrow> proposal_context \<Rightarrow> bool" where
  "shrinks c c' \<longleftrightarrow> (\<exists>R. shrinks_by R c c')"

definition context_wf :: "proposal_context \<Rightarrow> bool" where
  "context_wf c \<longleftrightarrow> groups_wf (px_groups_by_aggregator c)"

lemma shrinks_refl [simp]: "context_wf c \<Longrightarrow> shrinks c c"
  unfolding shrinks_def by (rule exI [of _ "[]"]) (simp add: shrinks_by_def context_wf_def)

lemma shrinks_trans [trans]:
  assumes "shrinks c d" "shrinks d e"
  shows "shrinks c e"
proof -
  obtain R S where "shrinks_by R c d" "shrinks_by S d e" using assms by (auto simp: shrinks_def)
  then have "shrinks_by (R @ S) c e" by (simp add: shrinks_by_def)
  then show ?thesis by (auto simp: shrinks_def)
qed

lemma shrinks_wf: "shrinks c d \<Longrightarrow> context_wf d"
  by (auto simp: shrinks_def shrinks_by_def context_wf_def)

lemma shrinks_subset: "shrinks c d \<Longrightarrow> mset (iter_ops_with_simulations d) \<subseteq># mset (iter_ops_with_simulations c)"
  by (auto simp: shrinks_def shrinks_by_def)

lemma shrinks_length: "shrinks c d \<Longrightarrow> length (iter_ops_with_simulations d) \<le> length (iter_ops_with_simulations c)"
  by (metis shrinks_subset size_mset size_mset_mono)

lemma shrinks_set: "shrinks c d \<Longrightarrow> set (iter_ops_with_simulations d) \<subseteq> set (iter_ops_with_simulations c)"
  by (metis shrinks_subset set_mset_mono set_mset_mset)

lemma shrinks_content: "shrinks c d \<Longrightarrow> content d = content c"
proof -
  assume "shrinks c d"
  then obtain R where R: "shrinks_by R c d" by (auto simp: shrinks_def)
  then have "image_mset ows_op (mset (iter_ops_with_simulations c)) =
      image_mset ows_op (mset (iter_ops_with_simulations d)) + image_mset ows_op (mset R)"
    by (simp add: shrinks_by_def)
  with R show ?thesis by (simp add: content_def iter_ops_def shrinks_by_def o_def)
qed

lemma reject_index_shrinks:
  assumes "context_wf c" "reject_index c i amend = (c', changed)"
  shows "shrinks c c'"
proof (cases "i < length (iter_ops_with_simulations c)")
  case True
  note r = reject_index_result [OF assms(1) [unfolded context_wf_def] True assms(2)]
  have "shrinks_by [iter_ops_with_simulations c ! i] c c'"
    using remove_nth_mset [OF True] r by (simp add: shrinks_by_def)
  then show ?thesis by (auto simp: shrinks_def)
qed (use assms in \<open>auto simp: reject_index_out_of_range\<close>)

lemma reject_index_shorter:
  assumes "context_wf c" "reject_index c i amend = (c', changed)" "i < length (iter_ops_with_simulations c)"
  shows "length (iter_ops_with_simulations c') < length (iter_ops_with_simulations c)"
  using reject_index_result(1) [OF assms(1) [unfolded context_wf_def] assms(3,2)] assms(3) by simp

lemma filter_reject_shrinks:
  assumes "context_wf c" "filter_reject c amend P = (c', changed)"
  shows "shrinks c c'"
proof -
  let ?R = "filter (\<lambda>op. P (ows_op op)) (iter_ops_with_simulations c)"
  have "mset xs = mset (filter (\<lambda>op. \<not> P (ows_op op)) xs) + mset (filter (\<lambda>op. P (ows_op op)) xs)" for xs
    by (induction xs) auto
  with filter_reject_result [OF assms(2)] assms(1) have "shrinks_by ?R c c'"
    by (simp add: shrinks_by_def context_wf_def)
  then show ?thesis by (auto simp: shrinks_def)
qed

lemma filter_reject_shorter:
  assumes "filter_reject c amend P = (c', changed)" "\<exists>op\<in>set (iter_ops_with_simulations c). P (ows_op op)"
  shows "length (iter_ops_with_simulations c') < length (iter_ops_with_simulations c)"
  using filter_reject_result(1) [OF assms(1)] assms(2) by (auto intro: length_filter_less)

lemma shrinks_cong:
  assumes "shrinks c d" "px_groups_by_aggregator e = px_groups_by_aggregator d"
    "px_rejected_ops e = px_rejected_ops d" "px_bundle_expected_storage e = px_bundle_expected_storage d"
  shows "shrinks c e"
  using assms by (simp add: shrinks_def shrinks_by_def iter_group_ops)

lemma context_reject_entity_shrinks:
  assumes "context_wf c" "context_reject_entity c e is_staked = (c', changed)"
  shows "shrinks c c'"
  by (rule context_reject_entity_result [OF assms(2)])
    (auto intro: shrinks_cong dest: filter_reject_shrinks [OF assms(1)])

lemma context_reject_entity_shorter:
  assumes "context_reject_entity c e is_staked = (c', changed)"
    "\<exists>op\<in>set (iter_ops_with_simulations c). uses_entity e (ows_op op)"
  shows "length (iter_ops_with_simulations c') < length (iter_ops_with_simulations c)"
  by (rule context_reject_entity_result [OF assms(1)])
    (use filter_reject_shorter [OF _ assms(2)] in \<open>simp add: iter_group_ops\<close>)

lemma reject_bundle_shrinks:
  assumes "context_wf c"
  shows "shrinks c (reject_bundle c)"
proof -
  have "shrinks c (((\<lambda>c. fst (reject_index c 0 True)) ^^ n) c)" for n
  proof (induction n)
    case (Suc n)
    obtain d changed where d: "reject_index (((\<lambda>c. fst (reject_index c 0 True)) ^^ n) c) 0 True = (d, changed)"
      by force
    from shrinks_trans [OF Suc reject_index_shrinks [OF shrinks_wf [OF Suc] d]] d show ?case by simp
  qed (simp add: assms)
  then show ?thesis by (simp add: reject_bundle_def reject_all_def)
qed

section \<open>Signatures\<close>

lemma group_ops_map_signature:
  "group_ops (map (\<lambda>(a, g). (a, if a = b then g\<lparr>ag_signature := sig\<rparr> else g)) gs) = group_ops gs"
  by (induction gs) auto

lemma map_signature_keys:
  "fst ` set (map (\<lambda>(a, g). (a, if a = b then g\<lparr>ag_signature := sig\<rparr> else g)) gs) = fst ` set gs"
  by force

lemma groups_wf_map_signature:
  "groups_wf (map (\<lambda>(a, g). (a, if a = b then g\<lparr>ag_signature := sig\<rparr> else g)) gs) = groups_wf gs"
proof (induction gs)
  case (Cons x gs)
  then show ?case by (cases x) (simp add: map_signature_keys del: set_map)
qed simp

lemma apply_signature_shrinks:
  assumes "context_wf c" "apply_aggregation_signature_result c a r = Some c'"
  shows "shrinks c c'"
proof (cases r)
  case (Inl e)
  with assms obtain changed where "filter_reject c True (\<lambda>op. uo_aggregator op = Some a) = (c', changed)"
    by (cases "reject_aggregator c a")
      (auto simp: apply_aggregation_signature_result_def reject_aggregator_def)
  with assms(1) show ?thesis by (rule filter_reject_shrinks)
next
  case (Inr sig)
  with assms have "shrinks_by [] c c'"
    by (auto simp: apply_aggregation_signature_result_def shrinks_by_def context_wf_def iter_group_ops
        group_ops_map_signature groups_wf_map_signature split: option.splits)
  then show ?thesis by (auto simp: shrinks_def)
qed

lemma apply_signatures_shrinks:
  "context_wf c \<Longrightarrow> apply_signatures sigs c = Some c' \<Longrightarrow> shrinks c c'"
proof (induction sigs c arbitrary: c' rule: apply_signatures.induct)
  case (2 a r sigs c)
  then obtain d where d: "apply_aggregation_signature_result c a r = Some d" "apply_signatures sigs d = Some c'"
    by (auto simp: bind_eq_Some_conv)
  note s = apply_signature_shrinks [OF "2.prems"(1) d(1)]
  from s "2.IH" [OF d(1) shrinks_wf [OF s] d(2)] show ?case by (rule shrinks_trans)
qed simp

lemma compute_aggregator_signatures_shrinks:
  "context_wf c \<Longrightarrow> compute_aggregator_signatures p c aggs = Some c' \<Longrightarrow> shrinks c c'"
  by (auto simp: compute_aggregator_signatures_def bind_eq_Some_conv intro: apply_signatures_shrinks)

lemma proposer_reject_index_shrinks:
  assumes "context_wf c" "proposer_reject_index p c i amend = Some c'"
  shows "shrinks c c'" "i < length (iter_ops_with_simulations c) \<Longrightarrow>
    length (iter_ops_with_simulations c') < length (iter_ops_with_simulations c)"
proof -
  obtain d changed where d: "reject_index c i amend = (d, changed)" by force
  note s = reject_index_shrinks [OF assms(1) d]
  from assms(2) d have "compute_aggregator_signatures p d (case changed of Some a \<Rightarrow> [a] | None \<Rightarrow> []) = Some c'"
    by (simp add: proposer_reject_index_def)
  note t = compute_aggregator_signatures_shrinks [OF shrinks_wf [OF s] this]
  from s t show "shrinks c c'" by (rule shrinks_trans)
  show "i < length (iter_ops_with_simulations c) \<Longrightarrow>
      length (iter_ops_with_simulations c') < length (iter_ops_with_simulations c)"
    using reject_index_shorter [OF assms(1) d] shrinks_length [OF t] by linarith
qed

lemma proposer_reject_entity_shrinks:
  assumes "context_wf c" "proposer_reject_entity p c e is_staked = Some c'"
  shows "shrinks c c'" "\<exists>op\<in>set (iter_ops_with_simulations c). uses_entity e (ows_op op) \<Longrightarrow>
    length (iter_ops_with_simulations c') < length (iter_ops_with_simulations c)"
proof -
  obtain d changed where d: "context_reject_entity c e is_staked = (d, changed)" by force
  note s = context_reject_entity_shrinks [OF assms(1) d]
  from assms(2) d have "compute_aggregator_signatures p d changed = Some c'"
    by (simp add: proposer_reject_entity_def)
  note t = compute_aggregator_signatures_shrinks [OF shrinks_wf [OF s] this]
  from s t show "shrinks c c'" by (rule shrinks_trans)
  show "\<exists>op\<in>set (iter_ops_with_simulations c). uses_entity e (ows_op op) \<Longrightarrow>
      length (iter_ops_with_simulations c') < length (iter_ops_with_simulations c)"
    using context_reject_entity_shorter [OF d] shrinks_length [OF t] by linarith
qed

section \<open>No panics\<close>

text \<open>Every aggregator of the proposal is registered.\<close>

definition aggregators_known :: "chain_spec \<Rightarrow> proposal_context \<Rightarrow> bool" where
  "aggregators_known cs c \<longleftrightarrow>
     (\<forall>op\<in>set (iter_ops_with_simulations c). aggregator_key (ows_op op) \<noteq> 0 \<longrightarrow>
        get_signature_aggregator cs (aggregator_key (ows_op op)) \<noteq> None)"

definition context_keys :: "proposal_context \<Rightarrow> address set" where
  "context_keys c = fst ` set (px_groups_by_aggregator c)"

lemma context_keys_iff:
  assumes "context_wf c"
  shows "a \<in> context_keys c \<longleftrightarrow> (\<exists>op\<in>set (iter_ops_with_simulations c). aggregator_key (ows_op op) = a)"
  using groups_wf_keys [OF assms [unfolded context_wf_def]] groups_wf_key_op [OF assms [unfolded context_wf_def]]
  by (fastforce simp: context_keys_def iter_group_ops)

lemma aggregators_known_key:
  "context_wf c \<Longrightarrow> aggregators_known cs c \<Longrightarrow> a \<in> context_keys c \<Longrightarrow> a \<noteq> 0 \<Longrightarrow>
     get_signature_aggregator cs a \<noteq> None"
  by (auto simp: context_keys_iff aggregators_known_def)

lemma aggregators_known_shrinks: "shrinks c d \<Longrightarrow> aggregators_known cs c \<Longrightarrow> aggregators_known cs d"
  using shrinks_set by (fastforce simp: aggregators_known_def)

lemma aggregated_overhead_bytes_defined:
  "\<forall>a\<in>fst ` set gs. a \<noteq> 0 \<longrightarrow> get_signature_aggregator cs a \<noteq> None \<Longrightarrow>
     aggregated_overhead_bytes cs gs n \<noteq> None"
  by (induction cs gs n rule: aggregated_overhead_bytes.induct) (auto simp: Let_def split: option.splits)

lemma aggregators_fixed_gas_defined:
  "\<forall>a\<in>set as. a \<noteq> 0 \<longrightarrow> get_signature_aggregator cs a \<noteq> None \<Longrightarrow> aggregators_fixed_gas cs as n \<noteq> None"
  by (induction cs as n rule: aggregators_fixed_gas.induct) (auto split: option.splits)

lemma bundle_overhead_bytes_defined:
  assumes "context_wf c" "aggregators_known cs c"
  shows "bundle_overhead_bytes c cs \<noteq> None"
proof -
  have "\<forall>a\<in>fst ` set (px_groups_by_aggregator c). a \<noteq> 0 \<longrightarrow> get_signature_aggregator cs a \<noteq> None"
    using aggregators_known_key [OF assms] by (simp add: context_keys_def)
  from aggregated_overhead_bytes_defined [OF this] show ?thesis
    by (auto simp: bundle_overhead_bytes_def split: list.splits)
qed

lemma get_bundle_gas_limit_inner_defined:
  assumes "context_wf c" "aggregators_known cs c"
  shows "get_bundle_gas_limit_inner al c cs da \<noteq> None"
proof -
  have "aggregators_fixed_gas cs (map fst (px_groups_by_aggregator c)) n \<noteq> None" for n
    using aggregators_known_key [OF assms] by (intro aggregators_fixed_gas_defined) (simp add: context_keys_def)
  then obtain g where "aggregators_fixed_gas cs (map fst (px_groups_by_aggregator c)) (bundle_shared_gas cs) = Some g"
    by blast
  with bundle_overhead_bytes_defined [OF assms] show ?thesis
    by (auto simp: get_bundle_gas_limit_inner_def Let_def)
qed

lemma get_bundle_transaction_size_defined:
  assumes "context_wf c" "aggregators_known cs c"
  shows "get_bundle_transaction_size c cs \<noteq> None"
  using bundle_overhead_bytes_defined [OF assms] by (auto simp: get_bundle_transaction_size_def Let_def)

lemma collect_signatures_defined:
  assumes "context_wf c" "aggregators_known (bps_chain_spec (bp_settings p)) c"
  shows "\<exists>sigs. collect_signatures p c aggs = Some sigs \<and>
    fst ` set sigs \<subseteq> set aggs \<inter> (context_keys c - {0}) \<and> (distinct aggs \<longrightarrow> distinct (map fst sigs))"
proof (induction aggs)
  case (Cons a aggs)
  then obtain sigs where IH: "collect_signatures p c aggs = Some sigs"
    "fst ` set sigs \<subseteq> set aggs \<inter> (context_keys c - {0})" "distinct aggs \<longrightarrow> distinct (map fst sigs)"
    by auto
  show ?case
  proof (cases "a = 0 \<or> map_of (px_groups_by_aggregator c) a = None")
    case True
    then have "collect_signatures p c (a # aggs) = Some sigs" using IH(1) by auto
    moreover have "fst ` set sigs \<subseteq> set (a # aggs) \<inter> (context_keys c - {0})"
      using IH(2) by fastforce
    ultimately show ?thesis using IH(3) by (intro exI [of _ sigs] conjI impI) simp_all
  next
    case False
    then have k: "a \<in> context_keys c" by (auto simp: context_keys_def map_of_eq_None_iff)
    with aggregators_known_key [OF assms] False obtain agg
      where agg: "get_signature_aggregator (bps_chain_spec (bp_settings p)) a = Some agg" by auto
    let ?r = "sa_aggregate_signatures agg (map (uo_with_original_signature \<circ> ows_op)
      (ag_ops_with_simulations (the (map_of (px_groups_by_aggregator c) a))))"
    have s: "collect_signatures p c (a # aggs) = Some ((a, ?r) # sigs)"
      using False IH(1) agg by (auto simp: aggregate_signatures_def)
    have "a \<notin> fst ` set sigs" if "a \<notin> set aggs" using IH(2) that by blast
    with IH(3) have d: "distinct (a # aggs) \<longrightarrow> distinct (map fst ((a, ?r) # sigs))" by simp
    have "fst ` set ((a, ?r) # sigs) \<subseteq> set (a # aggs) \<inter> (context_keys c - {0})"
      using IH(2) k False by fastforce
    with s d show ?thesis by (intro exI [of _ "(a, ?r) # sigs"]) (rule conjI, assumption, rule conjI)
  qed
qed simp

lemma reject_aggregator_keys:
  assumes "context_wf c" "b \<in> context_keys c" "b \<noteq> a" "b \<noteq> 0"
  shows "b \<in> context_keys (fst (reject_aggregator c a))"
proof -
  obtain c' changed where r: "filter_reject c True (\<lambda>op. uo_aggregator op = Some a) = (c', changed)" by force
  obtain op where op: "op \<in> set (iter_ops_with_simulations c)" "aggregator_key (ows_op op) = b"
    using assms(1,2) by (auto simp: context_keys_iff)
  then have "op \<in> set (iter_ops_with_simulations c')"
    using filter_reject_result(1) [OF r] assms(3,4) by (auto simp: aggregator_key_def split: option.splits)
  with op(2) shrinks_wf [OF filter_reject_shrinks [OF assms(1) r]] r show ?thesis
    by (auto simp: context_keys_iff reject_aggregator_def)
qed

lemma apply_signatures_defined:
  "context_wf c \<Longrightarrow> distinct (map fst sigs) \<Longrightarrow> fst ` set sigs \<subseteq> context_keys c - {0} \<Longrightarrow>
     apply_signatures sigs c \<noteq> None"
proof (induction sigs c rule: apply_signatures.induct)
  case (2 a r sigs c)
  have k: "map_of (px_groups_by_aggregator c) a \<noteq> None"
    using "2.prems"(3) by (auto simp: context_keys_def map_of_eq_None_iff)
  then obtain d where d: "apply_aggregation_signature_result c a r = Some d"
    by (cases r) (auto simp: apply_aggregation_signature_result_def)
  have "fst ` set sigs \<subseteq> context_keys d - {0}"
  proof (cases r)
    case (Inl e)
    with d have "d = fst (reject_aggregator c a)" by (simp add: apply_aggregation_signature_result_def)
    moreover have "b \<in> context_keys c \<and> b \<noteq> a \<and> b \<noteq> 0" if "b \<in> fst ` set sigs" for b
      using "2.prems"(2,3) that by auto
    ultimately show ?thesis using reject_aggregator_keys [OF "2.prems"(1)] by blast
  next
    case (Inr sig)
    with d k have "px_groups_by_aggregator d =
        map (\<lambda>(b, g). (b, if b = a then g\<lparr>ag_signature := sig\<rparr> else g)) (px_groups_by_aggregator c)"
      by (auto simp: apply_aggregation_signature_result_def)
    then have "context_keys d = context_keys c"
      by (simp add: context_keys_def map_signature_keys del: set_map)
    with "2.prems"(3) show ?thesis by auto
  qed
  with "2.IH" [OF d shrinks_wf [OF apply_signature_shrinks [OF "2.prems"(1) d]]] "2.prems"(2) d
  show ?case by simp
qed simp

lemma compute_aggregator_signatures_defined:
  assumes "context_wf c" "aggregators_known (bps_chain_spec (bp_settings p)) c" "distinct aggs"
  shows "compute_aggregator_signatures p c aggs \<noteq> None"
proof -
  obtain sigs where s: "collect_signatures p c aggs = Some sigs"
    "fst ` set sigs \<subseteq> set aggs \<inter> (context_keys c - {0})" "distinct (map fst sigs)"
    using collect_signatures_defined [OF assms(1,2), of aggs] assms(3) by auto
  from s(2) have "fst ` set sigs \<subseteq> context_keys c - {0}" by auto
  from apply_signatures_defined [OF assms(1) s(3) this] s(1) show ?thesis
    by (simp add: compute_aggregator_signatures_def)
qed

lemma proposer_reject_index_defined:
  assumes "context_wf c" "aggregators_known (bps_chain_spec (bp_settings p)) c"
  shows "proposer_reject_index p c i amend \<noteq> None"
proof -
  obtain d changed where d: "reject_index c i amend = (d, changed)" by force
  note s = reject_index_shrinks [OF assms(1) d]
  show ?thesis
    using compute_aggregator_signatures_defined [OF shrinks_wf [OF s] aggregators_known_shrinks [OF s assms(2)],
        of "case changed of Some a \<Rightarrow> [a] | None \<Rightarrow> []"] d
    by (simp add: proposer_reject_index_def split: option.splits)
qed

lemma compute_aggregator_signatures_zero:
  "set aggs \<subseteq> {0} \<Longrightarrow> compute_aggregator_signatures p c aggs = Some c"
proof -
  assume "set aggs \<subseteq> {0}"
  then have "collect_signatures p c aggs = Some []" by (induction aggs) auto
  then show ?thesis by (simp add: compute_aggregator_signatures_def)
qed

text \<open>After a rejection by entity no signature is computed at all.\<close>

lemma proposer_reject_entity_eq:
  "proposer_reject_entity p c e is_staked = Some (fst (context_reject_entity c e is_staked))"
proof -
  obtain d changed where d: "context_reject_entity c e is_staked = (d, changed)" by force
  from context_reject_entity_result [OF d] have "set changed \<subseteq> {0}"
    using filter_reject_result(6) by metis
  with d show ?thesis by (simp add: proposer_reject_entity_def compute_aggregator_signatures_zero)
qed

end
