(* ===== verification/Bundle_Storage.thy ===== *)
theory Bundle_Storage
  imports Bundle_Assembly
begin

text \<open>
  The expected storage of a bundle covers its operations: every slot an operation expects has the
  value it expects, also after other operations of the bundle were rejected.
\<close>

definition expects :: "op_with_simulation \<Rightarrow> ((address \<times> b256) \<times> b256) list" where
  "expects op = slots_of (sr_expected_storage (ows_simulation op))"

definition expecting :: "address \<times> b256 \<Rightarrow> op_with_simulation multiset \<Rightarrow> nat" where
  "expecting k X = size (filter_mset (\<lambda>op. k \<in> fst ` set (expects op)) X)"

definition storage_holds :: "op_with_simulation multiset \<Rightarrow> bundle_expected_storage \<Rightarrow> bool" where
  "storage_holds X b \<longleftrightarrow>
     (\<forall>op\<in>#X. distinct (map fst (expects op))) \<and>
     (\<forall>op\<in>#X. \<forall>(k, v)\<in>set (expects op). slot_at b k = Some v) \<and>
     (\<forall>k. expecting k X \<le> unat (count_at b k))"

definition counts_le :: "nat \<Rightarrow> bundle_expected_storage \<Rightarrow> bool" where
  "counts_le n b \<longleftrightarrow> (\<forall>k. unat (count_at b k) \<le> n)"

lemma counts_leD: "counts_le n b \<Longrightarrow> unat (count_at b k) \<le> n"
  by (cases k) (simp add: counts_le_def)

lemma expecting_add [simp]:
  "expecting k (add_mset op X) = (if k \<in> fst ` set (expects op) then Suc (expecting k X) else expecting k X)"
  by (simp add: expecting_def)

lemma expecting_pos: "op \<in># X \<Longrightarrow> (k, v) \<in> set (expects op) \<Longrightarrow> 0 < expecting k X"
  by (auto dest!: multi_member_split) force

lemma storage_holds_slot: "storage_holds X b \<Longrightarrow> op \<in># X \<Longrightarrow> (k, v) \<in> set (expects op) \<Longrightarrow> slot_at b k = Some v"
  by (fastforce simp: storage_holds_def)

lemma storage_holds_count: "storage_holds X b \<Longrightarrow> expecting k X \<le> unat (count_at b k)"
  by (cases k) (simp add: storage_holds_def)

lemma storage_holds_distinct: "storage_holds X b \<Longrightarrow> op \<in># X \<Longrightarrow> distinct (map fst (expects op))"
  by (simp add: storage_holds_def)

lemma storage_holdsI:
  assumes "\<And>op. op \<in># X \<Longrightarrow> distinct (map fst (expects op))"
    "\<And>op k v. op \<in># X \<Longrightarrow> (k, v) \<in> set (expects op) \<Longrightarrow> slot_at b k = Some v"
    "\<And>k. expecting k X \<le> unat (count_at b k)"
  shows "storage_holds X b"
  unfolding storage_holds_def using assms by blast

lemma storage_holds_empty [simp]: "storage_holds {#} b"
  by (simp add: storage_holds_def expecting_def)

lemma storage_holds_remove:
  assumes "storage_holds (add_mset r X) b"
  shows "storage_holds X (bes_remove b (sr_expected_storage (ows_simulation r)))"
proof -
  let ?es = "sr_expected_storage (ows_simulation r)" and ?b = "bes_remove b (sr_expected_storage (ows_simulation r))"
  have d: "distinct (map fst (slots_of ?es))" using assms by (simp add: storage_holds_def expects_def)
  have rem: "if k \<in> fst ` set (expects r)
      then count_at ?b k = count_at b k - 1 \<and> slot_at ?b k = (if count_at ?b k = 0 then None else slot_at b k)
      else slot_at ?b k = slot_at b k \<and> count_at ?b k = count_at b k" for k
    using bes_remove_removed [OF d, of b, unfolded slots_removed_def, THEN spec, of k]
    by (simp add: expects_def)
  have cnt: "expecting k X \<le> unat (count_at ?b k)" for k
  proof (cases "k \<in> fst ` set (expects r)")
    case True
    then have "Suc (expecting k X) \<le> unat (count_at b k)"
      using storage_holds_count [OF assms, of k] by simp
    moreover from this have "unat (count_at b k - 1) = unat (count_at b k) - 1"
      by (intro unat_minus_one) auto
    ultimately show ?thesis using rem [of k] True by simp
  next
    case False
    with storage_holds_count [OF assms, of k] rem [of k] show ?thesis by simp
  qed
  have "slot_at ?b k = Some v" if "op \<in># X" "(k, v) \<in> set (expects op)" for op k v
  proof -
    have "slot_at b k = Some v" using storage_holds_slot [OF assms, of op] that by simp
    moreover have "count_at ?b k \<noteq> 0" using expecting_pos [OF that] cnt [of k] by auto
    ultimately show ?thesis using rem [of k] by (auto split: if_splits)
  qed
  then show ?thesis
    by (intro storage_holdsI cnt) (auto intro: storage_holds_distinct [OF assms])
qed

lemma storage_holds_remove_all:
  "storage_holds (X + mset R) b \<Longrightarrow>
     storage_holds X (fold (\<lambda>op b. bes_remove b (sr_expected_storage (ows_simulation op))) R b)"
proof (induction R arbitrary: b)
  case (Cons r R)
  then have "storage_holds (add_mset r (X + mset R)) b" by simp
  from Cons.IH [OF storage_holds_remove [OF this]] show ?case by simp
qed simp

lemma storage_holds_add:
  assumes "bes_add b (sr_expected_storage (ows_simulation r)) = Inr b'" "distinct (map fst (expects r))"
    "counts_le n b" "Suc n < 2 ^ 64" "storage_holds X b"
  shows "storage_holds (add_mset r X) b'" "storage_holds X b'" "counts_le (Suc n) b'"
proof -
  have add: "case map_of (expects r) k of
      None \<Rightarrow> slot_at b' k = slot_at b k \<and> count_at b' k = count_at b k
    | Some v \<Rightarrow> slot_at b k \<in> {None, Some v} \<and> slot_at b' k = Some v \<and> count_at b' k = count_at b k + 1" for k
    using bes_add_added [OF assms(1) assms(2) [unfolded expects_def], unfolded slots_added_def, THEN spec, of k]
    by (simp add: expects_def)
  have key: "map_of (expects r) k \<noteq> None \<longleftrightarrow> k \<in> fst ` set (expects r)" for k
    by (simp add: map_of_eq_None_iff)
  have inc: "unat (count_at b k + 1) = Suc (unat (count_at b k))" for k
  proof -
    from counts_leD [OF assms(3), of k] assms(4) show ?thesis by (simp add: unat_word_ariths)
  qed
  have cnt: "unat (count_at b' k) = (if k \<in> fst ` set (expects r) then Suc (unat (count_at b k)) else unat (count_at b k))" for k
    using add [of k] key [of k] inc [of k] by (auto split: option.splits)
  show "counts_le (Suc n) b'"
    unfolding counts_le_def
  proof
    fix k
    show "unat (count_at b' k) \<le> Suc n"
      using cnt [of k] counts_leD [OF assms(3), of k] by (simp split: if_splits)
  qed
  have old: "slot_at b' k = Some v" if "op \<in># X" "(k, v) \<in> set (expects op)" for op k v
    using storage_holds_slot [OF assms(5) that] add [of k] by (auto split: option.splits)
  have new: "slot_at b' k = Some v" if "(k, v) \<in> set (expects r)" for k v
    using add [of k] that assms(2) by (simp add: map_of_is_SomeI)
  have le: "expecting k X \<le> unat (count_at b' k)" for k
    using storage_holds_count [OF assms(5), of k] cnt [of k] by simp
  show "storage_holds X b'"
    by (rule storage_holdsI) (auto intro: storage_holds_distinct [OF assms(5)] old le)
  show "storage_holds (add_mset r X) b'"
  proof (rule storage_holdsI)
    fix k
    show "expecting k (add_mset r X) \<le> unat (count_at b' k)"
      using storage_holds_count [OF assms(5), of k] cnt [of k] by simp
  qed (auto intro: storage_holds_distinct [OF assms(5)] assms(2) old new)
qed

text \<open>The condition on a proposal and that shrinking keeps it.\<close>

definition storage_ok :: "proposal_context \<Rightarrow> bool" where
  "storage_ok c \<longleftrightarrow> storage_holds (mset (iter_ops_with_simulations c)) (px_bundle_expected_storage c)"

lemma storage_ok_shrinks: "storage_ok c \<Longrightarrow> shrinks c d \<Longrightarrow> storage_ok d"
  by (auto simp: storage_ok_def shrinks_def shrinks_by_def intro: storage_holds_remove_all)

end
