(* ===== verification/Bundle_Assembled.thy ===== *)
theory Bundle_Assembled
  imports Bundle_Storage
begin

text \<open>
  The loop of \<open>assemble_context\<close> keeps an invariant: the operations of the proposal were simulated and
  are in their validity range, none is lost or made up, what they expect of the storage is in the
  storage of the bundle, the deposits of the paymasters cover them, and the bundle is within its
  limits.
\<close>

section \<open>Violations\<close>

lemma update_fields [simp]:
  "px_groups_by_aggregator (add_entity_update c e infos) = px_groups_by_aggregator c"
  "px_rejected_ops (add_entity_update c e infos) = px_rejected_ops c"
  "px_bundle_expected_storage (add_entity_update c e infos) = px_bundle_expected_storage c"
  "px_groups_by_aggregator (add_erep_015_paymaster_amendment c a n) = px_groups_by_aggregator c"
  "px_rejected_ops (add_erep_015_paymaster_amendment c a n) = px_rejected_ops c"
  "px_bundle_expected_storage (add_erep_015_paymaster_amendment c a n) = px_bundle_expected_storage c"
  "px_groups_by_aggregator (add_staked_invalidation c e) = px_groups_by_aggregator c"
  "px_rejected_ops (add_staked_invalidation c e) = px_rejected_ops c"
  "px_bundle_expected_storage (add_staked_invalidation c e) = px_bundle_expected_storage c"
  by (simp_all add: add_entity_update_def add_erep_015_paymaster_amendment_def add_staked_invalidation_def
      split: option.splits)

lemma more_update_fields [simp]:
  "px_groups_by_aggregator (amend_paymaster_of c infos) = px_groups_by_aggregator c"
  "px_rejected_ops (amend_paymaster_of c infos) = px_rejected_ops c"
  "px_bundle_expected_storage (amend_paymaster_of c infos) = px_bundle_expected_storage c"
  "px_groups_by_aggregator (add_reverted_entity c k a infos) = px_groups_by_aggregator c"
  "px_rejected_ops (add_reverted_entity c k a infos) = px_rejected_ops c"
  "px_bundle_expected_storage (add_reverted_entity c k a infos) = px_bundle_expected_storage c"
  by (simp_all add: amend_paymaster_of_def add_reverted_entity_def split: option.splits)

definition same_ops :: "proposal_context \<Rightarrow> proposal_context \<Rightarrow> bool" where
  "same_ops c d \<longleftrightarrow> px_groups_by_aggregator d = px_groups_by_aggregator c \<and>
     px_rejected_ops d = px_rejected_ops c \<and> px_bundle_expected_storage d = px_bundle_expected_storage c"

lemma process_violation_same: "process_violation infos v s = Some t \<Longrightarrow> same_ops (fst s) (fst t)"
  by (cases "(infos, v, s)" rule: process_violation.cases) (auto simp: same_ops_def bind_eq_Some_conv)

lemma process_violations_same: "process_violations infos vs s = Some t \<Longrightarrow> same_ops (fst s) (fst t)"
proof (induction infos vs s arbitrary: t rule: process_violations.induct)
  case (2 infos v vs s)
  then obtain u where "process_violation infos v s = Some u" "process_violations infos vs u = Some t"
    by (auto simp: bind_eq_Some_conv)
  with "2.IH" process_violation_same show ?case by (fastforce simp: same_ops_def)
qed (simp add: same_ops_def)

lemma process_simulation_violations_result:
  assumes "process_simulation_violations c op vs infos = Some d"
  shows "same_ops (c\<lparr>px_rejected_ops := px_rejected_ops c @ [(op, infos)]\<rparr>) d"
  using assms
  by (auto simp: process_simulation_violations_def Let_def bind_eq_Some_conv same_ops_def
      dest!: process_violations_same split: if_splits)

section \<open>Adding an operation\<close>

lemma group_push_result:
  assumes "groups_wf gs" "aggregator_key (ows_op op) = a"
  shows "groups_wf (group_push gs a op)" "mset (group_ops (group_push gs a op)) = add_mset op (mset (group_ops gs))"
    "fst ` set (group_push gs a op) = insert a (fst ` set gs)"
  using assms by (induction gs a op rule: group_push.induct) (auto simp: aggregator_group_default_def)

lemma context_push_fields [simp]:
  "px_rejected_ops (context_push c op) = px_rejected_ops c"
  "px_bundle_expected_storage (context_push c op) = px_bundle_expected_storage c"
  by (simp_all add: context_push_def)

lemma context_push_result:
  assumes "context_wf c"
  shows "context_wf (context_push c op)"
    "mset (iter_ops_with_simulations (context_push c op)) = add_mset op (mset (iter_ops_with_simulations c))"
  using group_push_result [OF assms [unfolded context_wf_def] refl, of op]
  by (simp_all add: context_push_def context_wf_def iter_group_ops aggregator_key_def)

lemma context_push_not_empty: "\<not> context_is_empty (context_push c op)"
proof -
  have "group_push gs a op \<noteq> []" for gs a by (induction gs a op rule: group_push.induct) auto
  then show ?thesis by (simp add: context_is_empty_def context_push_def)
qed

section \<open>Limits\<close>

definition within_limits :: "proposer_env \<Rightarrow> bundle_proposer \<Rightarrow> u256 \<Rightarrow> u128 \<Rightarrow> proposal_context \<Rightarrow> bool" where
  "within_limits env p max_cost gas_price c \<longleftrightarrow> context_is_empty c \<or>
     (\<exists>gas cost size.
        get_bundle_computation_gas_limit (pe_alloy env) c (bps_chain_spec (bp_settings p)) = Some gas \<and>
        gas \<le> bps_max_bundle_gas (bp_settings p) \<and>
        get_bundle_cost (pe_alloy env) c (bps_chain_spec (bp_settings p)) gas_price = Some cost \<and>
        cost \<le> max_cost \<and>
        get_bundle_transaction_size c (bps_chain_spec (bp_settings p)) = Some size \<and>
        size < ucast (cs_max_transaction_size_bytes (bps_chain_spec (bp_settings p))))"

lemma within_limits_cong:
  assumes "px_groups_by_aggregator d = px_groups_by_aggregator c"
  shows "within_limits env p m g d = within_limits env p m g c"
  using assms
  by (simp add: within_limits_def context_is_empty_def get_bundle_computation_gas_limit_def
      get_bundle_cost_def get_bundle_transaction_size_def get_bundle_gas_limit_inner_def
      bundle_overhead_bytes_def iter_ops_with_simulations_def)

section \<open>Deposits\<close>

text \<open>The maximal cost of the operations that use a paymaster.\<close>

definition spent :: "address \<Rightarrow> op_with_simulation multiset \<Rightarrow> nat" where
  "spent a X = (\<Sum>op\<in>#filter_mset (\<lambda>op. uo_paymaster (ows_op op) = Some a) X. unat (uo_max_gas_cost (ows_op op)))"

lemma spent_empty [simp]: "spent a {#} = 0"
  by (simp add: spent_def)

lemma spent_add [simp]:
  "spent a (add_mset op X) =
     (if uo_paymaster (ows_op op) = Some a then unat (uo_max_gas_cost (ows_op op)) else 0) + spent a X"
  by (simp add: spent_def)

lemma spent_mono: "X \<subseteq># Y \<Longrightarrow> spent a X \<le> spent a Y"
  by (auto simp: subset_mset.le_iff_add spent_def)

definition deposits_cover ::
  "(address \<rightharpoonup> u256) \<Rightarrow> (address \<rightharpoonup> u256) \<Rightarrow> op_with_simulation multiset \<Rightarrow> bool" where
  "deposits_cover balances left X \<longleftrightarrow>
     (\<forall>a. (case balances a of
             None \<Rightarrow> left a = None \<and> spent a X = 0
           | Some b \<Rightarrow> \<exists>l. left a = Some l \<and> unat l + spent a X = unat b))"

lemma deposits_coverD:
  "deposits_cover balances left X \<Longrightarrow> balances a = Some b \<Longrightarrow> spent a X \<le> unat b"
  unfolding deposits_cover_def by (drule spec [of _ a]) auto

lemma deposits_cover_pay:
  assumes "deposits_cover balances left X" "uo_paymaster (ows_op op) = Some a" "left a = Some l"
    "uo_max_gas_cost (ows_op op) \<le> l"
  shows "deposits_cover balances (left(a \<mapsto> l - uo_max_gas_cost (ows_op op))) (add_mset op X)"
  unfolding deposits_cover_def
proof
  fix a'
  have D: "case balances a' of
             None \<Rightarrow> left a' = None \<and> spent a' X = 0
           | Some b \<Rightarrow> \<exists>l. left a' = Some l \<and> unat l + spent a' X = unat b"
    using assms(1) by (simp add: deposits_cover_def)
  have "unat (l - uo_max_gas_cost (ows_op op)) = unat l - unat (uo_max_gas_cost (ows_op op))"
    "unat (uo_max_gas_cost (ows_op op)) \<le> unat l"
    using assms(4) by (simp_all add: unat_sub word_le_nat_alt)
  then show "case balances a' of
       None \<Rightarrow> (left(a \<mapsto> l - uo_max_gas_cost (ows_op op))) a' = None \<and> spent a' (add_mset op X) = 0
     | Some b \<Rightarrow> \<exists>l'. (left(a \<mapsto> l - uo_max_gas_cost (ows_op op))) a' = Some l' \<and>
         unat l' + spent a' (add_mset op X) = unat b"
    using D assms(2,3) by (cases "a' = a") (auto split: option.splits)
qed

lemma deposits_cover_free:
  "deposits_cover balances left X \<Longrightarrow> uo_paymaster (ows_op op) = None \<Longrightarrow>
     deposits_cover balances left (add_mset op X)"
proof -
  assume "uo_paymaster (ows_op op) = None"
  then have "spent a (add_mset op X) = spent a X" for a by simp
  then show "deposits_cover balances left X \<Longrightarrow> deposits_cover balances left (add_mset op X)"
    by (simp only: deposits_cover_def) simp
qed

section \<open>The invariant\<close>

type_synonym simulated = "pool_operation_with_sponsored_da_gas \<times> (simulation_error + simulation_result)"

abbreviation uo_of :: "simulated \<Rightarrow> user_operation_variant" where
  "uo_of x \<equiv> po_uo (pos_op (fst x))"

definition drawn_from :: "proposer_env \<Rightarrow> simulated list \<Rightarrow> op_with_simulation \<Rightarrow> bool" where
  "drawn_from env xs op \<longleftrightarrow>
     (\<exists>pos sim. (pos, Inr sim) \<in> set xs \<and> ows_op op = po_uo (pos_op pos) \<and> ows_simulation op = sim \<and>
        range_contains (sr_valid_time_range sim) (pe_now env (po_uo (pos_op pos))) TIME_RANGE_BUFFER)"

lemma drawn_from_snoc: "drawn_from env xs op \<Longrightarrow> drawn_from env (xs @ [x]) op"
  by (fastforce simp: drawn_from_def)

definition assembled ::
  "proposer_env \<Rightarrow> bundle_proposer \<Rightarrow> u256 \<Rightarrow> u128 \<Rightarrow> (address \<rightharpoonup> u256) \<Rightarrow> simulated list \<Rightarrow> assembly \<Rightarrow> bool" where
  "assembled env p max_cost gas_price balances xs s \<longleftrightarrow>
     context_wf (asm_context s) \<and>
     (\<forall>op\<in>set (iter_ops_with_simulations (asm_context s)). drawn_from env xs op) \<and>
     content (asm_context s) \<subseteq># mset (map uo_of xs) \<and>
     storage_ok (asm_context s) \<and>
     counts_le (length xs) (px_bundle_expected_storage (asm_context s)) \<and>
     deposits_cover balances (asm_balances s) (mset (iter_ops_with_simulations (asm_context s))) \<and>
     within_limits env p max_cost gas_price (asm_context s)"

text \<open>The ways in which a step changes the proposal, apart from adding an operation.\<close>

definition quiet :: "simulated \<Rightarrow> assembly \<Rightarrow> assembly \<Rightarrow> bool" where
  "quiet x s s' \<longleftrightarrow>
     px_groups_by_aggregator (asm_context s') = px_groups_by_aggregator (asm_context s) \<and>
     asm_balances s' = asm_balances s \<and>
     (px_rejected_ops (asm_context s') = px_rejected_ops (asm_context s) \<or>
      (\<exists>infos. px_rejected_ops (asm_context s') = px_rejected_ops (asm_context s) @ [(uo_of x, infos)])) \<and>
     (px_bundle_expected_storage (asm_context s') = px_bundle_expected_storage (asm_context s) \<or>
      (\<exists>sim. snd x = Inr sim \<and>
         bes_add (px_bundle_expected_storage (asm_context s)) (sr_expected_storage sim)
           = Inr (px_bundle_expected_storage (asm_context s'))))"

definition storage_sorted :: "simulated \<Rightarrow> bool" where
  "storage_sorted x \<longleftrightarrow> (\<forall>sim. snd x = Inr sim \<longrightarrow> es_sorted (sr_expected_storage sim))"

lemma counts_le_Suc: "counts_le n b \<Longrightarrow> counts_le (Suc n) b"
  unfolding counts_le_def by (meson le_SucI)

lemma assembled_quiet:
  assumes "assembled env p m g balances xs s" "quiet x s s'" "storage_sorted x" "Suc (length xs) < 2 ^ 64"
  shows "assembled env p m g balances (xs @ [x]) s'"
proof -
  let ?c = "asm_context s" and ?c' = "asm_context s'"
  have g: "px_groups_by_aggregator ?c' = px_groups_by_aggregator ?c" "asm_balances s' = asm_balances s"
    using assms(2) by (simp_all add: quiet_def)
  then have ops: "iter_ops_with_simulations ?c' = iter_ops_with_simulations ?c" by (simp add: iter_group_ops)
  note A = assms(1) [unfolded assembled_def]
  have "content ?c' \<subseteq># add_mset (uo_of x) (content ?c)"
    using assms(2) by (auto simp: quiet_def content_def iter_ops_def ops)
  also have "\<dots> \<subseteq># mset (map uo_of (xs @ [x]))" using A by simp
  finally have cont: "content ?c' \<subseteq># mset (map uo_of (xs @ [x]))" .
  have st: "storage_ok ?c' \<and> counts_le (Suc (length xs)) (px_bundle_expected_storage ?c')"
  proof (cases "px_bundle_expected_storage ?c' = px_bundle_expected_storage ?c")
    case True
    with A ops show ?thesis by (simp add: storage_ok_def counts_le_Suc)
  next
    case False
    then obtain sim where sim: "snd x = Inr sim" "bes_add (px_bundle_expected_storage ?c) (sr_expected_storage sim)
        = Inr (px_bundle_expected_storage ?c')"
      using assms(2) by (auto simp: quiet_def)
    let ?r = "\<lparr>ows_op = uo_of x, ows_simulation = sim, ows_sponsored_da_gas = 0\<rparr>"
    have "distinct (map fst (expects ?r))"
      using assms(3) sim(1) by (simp add: storage_sorted_def expects_def distinct_slots_of)
    moreover have "bes_add (px_bundle_expected_storage ?c) (sr_expected_storage (ows_simulation ?r))
        = Inr (px_bundle_expected_storage ?c')"
      using sim(2) by simp
    moreover have "counts_le (length xs) (px_bundle_expected_storage ?c)"
      "storage_holds (mset (iter_ops_with_simulations ?c)) (px_bundle_expected_storage ?c)"
      using A by (simp_all add: storage_ok_def)
    ultimately show ?thesis
      using storage_holds_add(2,3) [of _ ?r _ "length xs"] assms(4) unfolding storage_ok_def ops by blast
  qed
  show ?thesis
    unfolding assembled_def
    using A cont st g within_limits_cong [OF g(1)]
    by (auto simp: ops context_wf_def drawn_from_snoc)
qed

lemma assembled_push:
  assumes "assembled env p m g balances xs s" "x = (pos, Inr sim)" "storage_sorted x" "Suc (length xs) < 2 ^ 64"
    "ows = \<lparr>ows_op = po_uo (pos_op pos), ows_simulation = sim, ows_sponsored_da_gas = n\<rparr>"
    "range_contains (sr_valid_time_range sim) (pe_now env (po_uo (pos_op pos))) TIME_RANGE_BUFFER"
    "bes_add (px_bundle_expected_storage (asm_context s)) (sr_expected_storage sim) = Inr b"
    "asm_context s' = context_push ((asm_context s)\<lparr>px_bundle_expected_storage := b\<rparr>) ows"
    "deposits_cover balances (asm_balances s')
       (add_mset ows (mset (iter_ops_with_simulations (asm_context s))))"
    "within_limits env p m g (context_push (asm_context s) ows)"
  shows "assembled env p m g balances (xs @ [x]) s'"
proof -
  let ?c = "asm_context s" and ?d = "(asm_context s)\<lparr>px_bundle_expected_storage := b\<rparr>"
  note A = assms(1) [unfolded assembled_def]
  have wf: "context_wf ?d" using A by (simp add: context_wf_def)
  have it: "iter_ops_with_simulations ?d = iter_ops_with_simulations ?c" by (simp add: iter_group_ops)
  note push = context_push_result [OF wf, of ows, folded assms(8)]
  have ops: "set (iter_ops_with_simulations (asm_context s')) = insert ows (set (iter_ops_with_simulations ?c))"
    using arg_cong [OF push(2), of set_mset] by (simp add: it)
  have "drawn_from env (xs @ [x]) ows" using assms(2,5,6) by (auto simp: drawn_from_def)
  then have drawn: "\<forall>op\<in>set (iter_ops_with_simulations (asm_context s')). drawn_from env (xs @ [x]) op"
    using A by (auto simp: ops drawn_from_snoc)
  have "content (asm_context s') = add_mset (uo_of x) (content ?c)"
    using arg_cong [OF push(2), of "image_mset ows_op"] assms(2,5)
    by (simp add: content_def iter_ops_def it assms(8))
  then have cont: "content (asm_context s') \<subseteq># mset (map uo_of (xs @ [x]))" using A by simp
  have "distinct (map fst (expects ows))"
    using assms(2,3,5) by (simp add: storage_sorted_def expects_def distinct_slots_of)
  moreover have "bes_add (px_bundle_expected_storage ?c) (sr_expected_storage (ows_simulation ows)) = Inr b"
    using assms(5,7) by simp
  moreover have "counts_le (length xs) (px_bundle_expected_storage ?c)"
    "storage_holds (mset (iter_ops_with_simulations ?c)) (px_bundle_expected_storage ?c)"
    using A by (simp_all add: storage_ok_def)
  ultimately have "storage_holds (add_mset ows (mset (iter_ops_with_simulations ?c))) b" "counts_le (Suc (length xs)) b"
    using storage_holds_add(1,3) [of _ ows b "length xs"] assms(4) by blast+
  then have st: "storage_ok (asm_context s')" "counts_le (Suc (length xs)) (px_bundle_expected_storage (asm_context s'))"
    by (simp_all add: storage_ok_def push(2) it) (simp_all add: assms(8))
  have "within_limits env p m g (asm_context s')"
    using assms(10) within_limits_cong [of "asm_context s'" "context_push ?c ows"]
    by (simp add: assms(8) context_push_def)
  with push cont drawn st assms(9) show ?thesis by (simp add: assembled_def it)
qed

section \<open>A step of the loop\<close>

lemma quiet_refl: "asm_context s' = asm_context s \<Longrightarrow> asm_balances s' = asm_balances s \<Longrightarrow> quiet x s s'"
  by (simp add: quiet_def)

lemma assemble_failed_quiet:
  assumes "assemble_failed env p s (pos_op pos) e = Some s'"
  shows "quiet (pos, Inl e) s s'"
proof (cases "serr_violation_error e")
  case (VE_Other m)
  with assms show ?thesis by (auto simp: assemble_failed_def asm_emit_def Let_def intro: quiet_refl)
next
  case (Violations vs)
  with assms obtain c infos where
    "process_simulation_violations (asm_context s) (po_uo (pos_op pos)) vs infos = Some c"
    "asm_context s' = c" "asm_balances s' = asm_balances s"
    by (auto simp: assemble_failed_def asm_emit_def Let_def bind_eq_Some_conv)
  with process_simulation_violations_result [OF this(1)] show ?thesis
    by (auto simp: quiet_def same_ops_def)
qed

text \<open>The outcomes of the last part of a step.\<close>

lemma assemble_insert_cases:
  assumes "assemble_insert env p senders s po ows gas = Some s'" "ows_simulation ows = sim"
    "ows_op ows = po_uo (pos_op pos)" "asm_balances s = left"
  obtains (quiet) "quiet (pos, Inr sim) s s'"
  | (free) b where "bes_add (px_bundle_expected_storage (asm_context s)) (sr_expected_storage sim) = Inr b"
      "asm_context s' = context_push ((asm_context s)\<lparr>px_bundle_expected_storage := b\<rparr>) ows"
      "uo_paymaster (ows_op ows) = None" "asm_balances s' = left"
  | (paid) b a l where "bes_add (px_bundle_expected_storage (asm_context s)) (sr_expected_storage sim) = Inr b"
      "asm_context s' = context_push ((asm_context s)\<lparr>px_bundle_expected_storage := b\<rparr>) ows"
      "uo_paymaster (ows_op ows) = Some a" "left a = Some l" "uo_max_gas_cost (ows_op ows) \<le> l"
      "asm_balances s' = left(a \<mapsto> l - uo_max_gas_cost (ows_op ows))"
proof (cases "bes_add (px_bundle_expected_storage (asm_context s)) (sr_expected_storage sim)")
  case (Inl e)
  with assms have "quiet (pos, Inr sim) s s'"
    by (auto simp: assemble_insert_def asm_skip_def asm_emit_def Let_def intro: quiet_refl)
  then show ?thesis by (rule that(1))
next
  case (Inr b)
  let ?s = "s\<lparr>asm_context := (asm_context s)\<lparr>px_bundle_expected_storage := b\<rparr>\<rparr>"
  have q: "quiet (pos, Inr sim) s t"
    if "asm_context t = asm_context ?s" "asm_balances t = left" for t
    using that Inr assms(4) by (simp add: quiet_def)
  show ?thesis
  proof (cases "num_slots (bes_inner b) > bps_max_expected_storage_slots (bp_settings p)")
    case True
    with Inr assms have "asm_context s' = asm_context ?s" "asm_balances s' = left"
      by (auto simp: assemble_insert_def asm_skip_def asm_emit_def Let_def)
    then show ?thesis by (rule that(1) [OF q])
  next
    case slots: False
    show ?thesis
    proof (cases "find (\<lambda>a. a \<noteq> uo_sender (ows_op ows) \<and> a \<in> senders) (sr_accessed_addresses sim)")
      case (Some a)
      with slots Inr assms have "asm_context s' = asm_context ?s" "asm_balances s' = left"
        by (auto simp: assemble_insert_def asm_skip_def asm_emit_def Let_def)
      then show ?thesis by (rule that(1) [OF q])
    next
      case found: None
      note go = assms(1) [unfolded assemble_insert_def Let_def assms(2) Inr found sum.case option.case if_not_P [OF slots]]
      show ?thesis
      proof (cases "uo_paymaster (ows_op ows)")
        case None
        with go assms(4) show ?thesis by (intro that(2) [OF Inr]) auto
      next
        case (Some a)
        show ?thesis
        proof (cases "left a")
          case None
          with go Some assms(4) have "asm_context s' = asm_context ?s" "asm_balances s' = left" by auto
          then show ?thesis by (rule that(1) [OF q])
        next
          case l: (Some l)
          show ?thesis
          proof (cases "l < uo_max_gas_cost (ows_op ows)")
            case True
            with go Some l assms(4) have "asm_context s' = asm_context ?s" "asm_balances s' = left"
              by (auto split: option.splits)
            then show ?thesis by (rule that(1) [OF q])
          next
            case False
            with go Some l assms(4) show ?thesis by (intro that(3) [OF Inr _ Some l]) auto
          qed
        qed
      qed
    qed
  qed
qed

end
