(* ===== verification/Bundle_Rounds.thy ===== *)
theory Bundle_Rounds
  imports Bundle_Assembly
begin

text \<open>
  The rounds of \<open>make_bundle\<close>: a round that the entry point does not accept rejects at least one
  operation, so the loop ends.
\<close>

section \<open>The entry point contract\<close>

text \<open>
  What the proposer relies on: the reason of a failed operation starts with a code of four
  characters, and a failed signature validation names the aggregator of one of the groups.
\<close>

definition answer_ok :: "user_ops_per_aggregator list \<Rightarrow> handle_ops_out \<Rightarrow> bool" where
  "answer_ok groups out =
     (case out of
        HO_FailedOp index message \<Rightarrow> str_prefix 4 message \<noteq> None
      | HO_SignatureValidationFailed a \<Rightarrow> a \<noteq> 0 \<and> a \<in> upa_aggregator ` set groups
      | _ \<Rightarrow> True)"

definition entry_point_answers :: "proposer_env \<Rightarrow> bundle_proposer \<Rightarrow> bool" where
  "entry_point_answers env p \<longleftrightarrow>
     (\<forall>n groups gas fees v out.
        call_handle_ops env p n groups gas fees v = Some (Inr out) \<longrightarrow> answer_ok groups out)"

definition of_version :: "entry_point_version \<Rightarrow> user_operation_variant \<Rightarrow> bool" where
  "of_version v op = (case v of EP_V0_6 \<Rightarrow> as_v0_6 op \<noteq> None | EP_V0_7 \<Rightarrow> as_v0_7 op \<noteq> None | Unspecified \<Rightarrow> False)"

definition versions_ok :: "entry_point_version \<Rightarrow> proposal_context \<Rightarrow> bool" where
  "versions_ok v c \<longleftrightarrow> v \<noteq> Unspecified \<and> (\<forall>op\<in>set (iter_ops_with_simulations c). of_version v (ows_op op))"

lemma versions_ok_shrinks: "shrinks c d \<Longrightarrow> versions_ok v c \<Longrightarrow> versions_ok v d"
  using shrinks_set by (fastforce simp: versions_ok_def)

lemma push_failing_op_ops:
  "op \<in> set (upa_user_ops g) \<Longrightarrow> g \<in> set (push_failing_op f gs) \<Longrightarrow>
     op = f \<or> (\<exists>h\<in>set gs. op \<in> set (upa_user_ops h))"
  by (induction f gs rule: push_failing_op.induct) auto

lemma as_v0_7_failing_op: "as_v0_7 (failing_op al cs) \<noteq> None"
  by (simp add: failing_op_def)

lemma call_handle_ops_defined:
  assumes "pe_version env \<noteq> Unspecified" "\<forall>g\<in>set groups. \<forall>op\<in>set (upa_user_ops g). of_version (pe_version env) op"
  shows "call_handle_ops env p n groups gas fees v \<noteq> None"
proof (cases "pe_version env")
  case EP_V0_6
  with assms(2) show ?thesis
    by (auto simp: call_handle_ops_def call_handle_ops_v0_6_def get_handle_ops_call_v0_6_def of_version_def)
next
  case EP_V0_7
  have "get_handle_ops_call_v0_7 abi cs gs eoa gas fees proxy \<noteq> None"
    if "gs = groups \<or> gs = push_failing_op (failing_op al cs') groups" for abi cs cs' al gs eoa proxy
    using that assms(2) push_failing_op_ops as_v0_7_failing_op
    by (fastforce simp: get_handle_ops_call_v0_7_def of_version_def EP_V0_7)
  then have "get_handle_ops_call_v0_7 abi cs groups eoa gas fees proxy \<noteq> None"
    "get_handle_ops_call_v0_7 abi cs (push_failing_op (failing_op al cs') groups) eoa gas fees proxy \<noteq> None"
    for abi cs cs' al eoa proxy by blast+
  with EP_V0_7 show ?thesis
    by (simp add: call_handle_ops_def call_handle_ops_v0_7_def Let_def del: not_None_eq split: option.splits)
qed (use assms in simp)

lemma to_ops_per_aggregator_ops:
  "concat (map upa_user_ops (to_ops_per_aggregator c)) = iter_ops c"
  by (simp add: to_ops_per_aggregator_def iter_ops_def iter_ops_with_simulations_def map_concat o_def
      case_prod_beta)

lemma to_ops_versions:
  assumes "versions_ok v c" "g \<in> set (to_ops_per_aggregator c)" "op \<in> set (upa_user_ops g)"
  shows "of_version v op"
proof -
  have "op \<in> set (iter_ops c)"
    using assms(2,3) by (auto simp flip: to_ops_per_aggregator_ops)
  with assms(1) show ?thesis by (auto simp: versions_ok_def iter_ops_def)
qed

lemma to_ops_aggregators: "upa_aggregator ` set (to_ops_per_aggregator c) = context_keys c"
  by (force simp: to_ops_per_aggregator_def context_keys_def)

section \<open>One round\<close>

definition round_ok :: "proposer_env \<Rightarrow> bundle_proposer \<Rightarrow> proposal_context \<Rightarrow> bool" where
  "round_ok env p c \<longleftrightarrow> context_wf c \<and> aggregators_known (bps_chain_spec (bp_settings p)) c \<and>
     versions_ok (pe_version env) c"

definition smaller :: "proposal_context \<Rightarrow> proposal_context \<Rightarrow> bool" where
  "smaller c d \<longleftrightarrow> shrinks c d \<and> length (iter_ops_with_simulations d) < length (iter_ops_with_simulations c)"

lemma round_ok_shrinks: "shrinks c d \<Longrightarrow> round_ok env p c \<Longrightarrow> round_ok env p d"
  by (auto simp: round_ok_def shrinks_wf aggregators_known_shrinks versions_ok_shrinks)

lemma reject_indices_defined:
  "round_ok env p c \<Longrightarrow> reject_indices env p amend xs c \<noteq> None"
proof (induction env p amend xs c rule: reject_indices.induct)
  case (2 env p amend i reason xs c)
  show ?case
  proof (cases "i < length (iter_ops_with_simulations c)")
    case True
    obtain d where d: "proposer_reject_index p c i amend = Some d"
      using proposer_reject_index_defined "2.prems" by (fastforce simp: round_ok_def)
    with "2.prems" have "round_ok env p d"
      using proposer_reject_index_shrinks(1) round_ok_shrinks by (fastforce simp: round_ok_def)
    from "2.IH" [OF _ d this] True d show ?thesis
      by (auto simp: get_op_at_iter)
  qed (simp add: get_op_at_iter)
qed simp

lemma reject_indices_smaller:
  "context_wf c \<Longrightarrow> reject_indices env p amend xs c = Some (evs, Inr d) \<Longrightarrow>
     shrinks c d \<and> (xs \<noteq> [] \<longrightarrow> smaller c d)"
proof (induction env p amend xs c arbitrary: evs rule: reject_indices.induct)
  case (2 env p amend i reason xs c)
  then obtain op e evs' where o: "get_op_at c i = Inr op" "proposer_reject_index p c i amend = Some e"
    "reject_indices env p amend xs e = Some (evs', Inr d)"
    by (auto simp: bind_eq_Some_conv split: sum.splits)
  note s = proposer_reject_index_shrinks [OF "2.prems"(1) o(2)]
  from o(1) have i: "i < length (iter_ops_with_simulations c)" by (simp add: get_op_at_iter split: if_splits)
  from "2.IH" [OF o(1,2) shrinks_wf [OF s(1)] o(3)] have "shrinks e d" by simp
  with s(1) s(2) [OF i] show ?case
    using shrinks_length by (fastforce simp: smaller_def intro: shrinks_trans)
qed simp

lemma reject_hash_shrinks:
  assumes "context_wf c" "reject_hash p c h = Some (d, r)"
  shows "shrinks c d \<and> (r \<longrightarrow> smaller c d)"
proof (cases "get_op_index c h")
  case (Some i)
  then have i: "i < length (iter_ops_with_simulations c)"
  proof -
    have "position P xs = Some j \<Longrightarrow> j < length xs" for P :: "op_with_simulation \<Rightarrow> bool" and xs j
      by (induction xs arbitrary: j) (auto split: if_splits)
    with Some show ?thesis by (auto simp: get_op_index_def)
  qed
  from assms Some have "proposer_reject_index p c i False = Some d" "r"
    by (auto simp: reject_hash_def bind_eq_Some_conv)
  with proposer_reject_index_shrinks [OF assms(1)] i show ?thesis by (auto simp: smaller_def)
qed (use assms in \<open>auto simp: reject_hash_def\<close>)

lemma reject_hashes_shrinks:
  "context_wf c \<Longrightarrow> reject_hashes p hs c = Some (d, r) \<Longrightarrow> shrinks c d \<and> (r \<longrightarrow> smaller c d)"
proof (induction p hs c arbitrary: r rule: reject_hashes.induct)
  case (2 p h hs c)
  then obtain e r1 r2 where e: "reject_hash p c h = Some (e, r1)" "reject_hashes p hs e = Some (d, r2)"
    "r = (r1 \<or> r2)"
    by (auto simp: bind_eq_Some_conv)
  note s = reject_hash_shrinks [OF "2.prems"(1) e(1)]
  from "2.IH" [OF e(1) refl shrinks_wf e(2)] s have t: "shrinks e d \<and> (r2 \<longrightarrow> smaller e d)" by blast
  with s e(3) shrinks_length show ?case
    by (fastforce simp: smaller_def intro: shrinks_trans)
qed simp

lemma reject_hashes_defined: "round_ok env p c \<Longrightarrow> reject_hashes p hs c \<noteq> None"
proof (induction p hs c rule: reject_hashes.induct)
  case (2 p h hs c)
  have "proposer_reject_index p c i False \<noteq> None" for i
    using proposer_reject_index_defined "2.prems" by (auto simp: round_ok_def)
  then have "reject_hash p c h \<noteq> None"
    by (cases "get_op_index c h") (auto simp: reject_hash_def bind_eq_None_conv simp del: not_None_eq)
  then obtain e r where e: "reject_hash p c h = Some (e, r)" by auto
  have "shrinks c e" using reject_hash_shrinks [OF _ e] "2.prems" by (simp add: round_ok_def)
  from round_ok_shrinks [OF this "2.prems"] have "round_ok env p e" .
  from "2.IH" [OF e refl this] e show ?case by auto
qed simp

lemma process_failed_op_smaller:
  assumes "context_wf c" "i < length (iter_ops_with_simulations c)"
    "process_failed_op p c i message = Some (Inr d)"
  shows "smaller c d"
proof -
  let ?op = "iter_ops_with_simulations c ! i"
  have mem: "?op \<in> set (iter_ops_with_simulations c)" using assms(2) by simp
  have ent: "smaller c e" if "proposer_reject_entity p c ent st = Some e" "uses_entity ent (ows_op ?op)" for ent st e
    using proposer_reject_entity_shrinks [OF assms(1) that(1)] mem that(2) by (auto simp: smaller_def)
  have idx: "smaller c e" if "proposer_reject_index p c i True = Some e" for e
    using proposer_reject_index_shrinks [OF assms(1) that] assms(2) by (auto simp: smaller_def)
  consider "proposer_reject_index p c i True = Some d"
    | f st where "uo_factory (ows_op ?op) = Some f" "proposer_reject_entity p c (entity_factory f) st = Some d"
    | f st where "uo_paymaster (ows_op ?op) = Some f" "proposer_reject_entity p c (entity_paymaster f) st = Some d"
    using assms(2,3)
    by (auto simp: process_failed_op_def bind_eq_Some_conv get_op_at_iter split: if_splits option.splits)
  then show ?thesis
  proof cases
    case 1
    then show ?thesis by (rule idx)
  next
    case (2 f st)
    then show ?thesis
      by (intro ent [OF 2(2)]) (simp add: uses_entity_def entity_factory_def entity_new_def)
  next
    case (3 f st)
    then show ?thesis
      by (intro ent [OF 3(2)]) (simp add: uses_entity_def entity_paymaster_def entity_new_def)
  qed
qed

lemma process_failed_op_defined:
  assumes "round_ok env p c" "str_prefix 4 message \<noteq> None"
  shows "process_failed_op p c i message \<noteq> None"
  using assms proposer_reject_index_defined [of c p i True]
  by (auto simp: process_failed_op_def get_op_at_iter proposer_reject_entity_eq round_ok_def
      split: option.splits)

lemma check_post_op_single_ops_defined:
  "pe_version env \<noteq> Unspecified \<Longrightarrow> \<forall>op\<in>set ops. of_version (pe_version env) op \<Longrightarrow>
     check_post_op_single_ops env p n gas fees ops i \<noteq> None"
proof (induction ops arbitrary: i)
  case (Cons op ops)
  then obtain rs where "check_post_op_single_ops env p n gas fees ops (Suc i) = Some rs" by auto
  moreover have "call_handle_ops env p n [\<lparr>upa_user_ops = [op], upa_aggregator = 0, upa_signature = []\<rparr>] gas fees False \<noteq> None"
    using Cons.prems by (intro call_handle_ops_defined) auto
  ultimately show ?case by (auto simp: check_for_post_op_revert_single_op_def)
qed simp

lemma check_post_op_groups_defined:
  "pe_version env \<noteq> Unspecified \<Longrightarrow> \<forall>g\<in>set gs. \<forall>op\<in>set (upa_user_ops g). of_version (pe_version env) op \<Longrightarrow>
     check_post_op_groups env p n gas fees gs i \<noteq> None"
proof (induction gs arbitrary: i)
  case (Cons g gs)
  obtain rs where "check_post_op_groups env p n gas fees gs (i + length (upa_user_ops g)) = Some rs"
    using Cons.IH [of "i + length (upa_user_ops g)"] Cons.prems by auto
  moreover have "call_handle_ops env p n [g] gas fees False \<noteq> None"
    using Cons.prems by (intro call_handle_ops_defined) auto
  moreover have "check_post_op_single_ops env p n gas fees (upa_user_ops g) i \<noteq> None"
    using Cons.prems by (intro check_post_op_single_ops_defined) auto
  ultimately show ?case by (auto simp: check_for_post_op_revert_agg_ops_def)
qed simp

lemma process_post_op_revert_smaller:
  assumes "context_wf c" "iter_ops_with_simulations c \<noteq> []"
    "process_post_op_revert env p n c gas fees = Some (evs, Inr d)"
  shows "smaller c d"
proof -
  obtain found where f: "reject_indices env p True
      (map (\<lambda>i. (i, FailedInBundle ''post op reverted leading to entry point revert''))
        (rev (if found = [] then [0 ..< length (iter_ops c)] else found))) c = Some (evs, Inr d)"
    using assms(3) by (auto simp: process_post_op_revert_def bind_eq_Some_conv)
  from reject_indices_smaller [OF assms(1) this] assms(2) show ?thesis
    by (auto simp: iter_ops_def split: if_splits)
qed

lemma process_post_op_revert_defined:
  assumes "round_ok env p c"
  shows "process_post_op_revert env p n c gas fees \<noteq> None"
proof -
  have "check_post_op_groups env p n gas fees (to_ops_per_aggregator c) 0 \<noteq> None"
    using assms to_ops_versions by (intro check_post_op_groups_defined) (auto simp: round_ok_def versions_ok_def)
  then obtain found where "check_post_op_groups env p n gas fees (to_ops_per_aggregator c) 0 = Some found" by auto
  with reject_indices_defined [OF assms] show ?thesis by (simp add: process_post_op_revert_def)
qed

lemma reject_bundle_smaller:
  "context_wf c \<Longrightarrow> iter_ops_with_simulations c \<noteq> [] \<Longrightarrow> smaller c (reject_bundle c)"
  using reject_bundle_shrinks [of c] reject_all_result [of c]
  by (simp add: smaller_def reject_bundle_def context_wf_def)

lemma process_revert_data_smaller:
  assumes "context_wf c" "iter_ops_with_simulations c \<noteq> []" "process_revert_data p c data = Some d"
  shows "smaller c d"
proof (cases "bps_submission_proxy (bp_settings p)")
  case None
  with assms(3) reject_bundle_smaller [OF assms(1,2)] show ?thesis by (simp add: process_revert_data_def)
next
  case (Some proxy)
  then obtain e r where e: "reject_hashes p (sp_process_revert proxy data (to_ops_per_aggregator c)) c = Some (e, r)"
    "d = (if r then e else reject_bundle e)"
    using assms(3) by (auto simp: process_revert_data_def bind_eq_Some_conv)
  note s = reject_hashes_shrinks [OF assms(1) e(1)]
  note w = shrinks_wf [OF conjunct1 [OF s]]
  have "length (iter_ops_with_simulations (reject_bundle e)) = 0"
    using reject_all_result [of e] w by (simp add: reject_bundle_def context_wf_def)
  moreover have "shrinks c (reject_bundle e)"
    using s reject_bundle_shrinks [OF w] by (blast intro: shrinks_trans)
  ultimately show ?thesis using s e(2) assms(2) by (auto simp: smaller_def)
qed

lemma process_revert_data_defined: "round_ok env p c \<Longrightarrow> process_revert_data p c data \<noteq> None"
  using reject_hashes_defined [of env p c]
  by (simp add: process_revert_data_def bind_eq_None_conv case_prod_beta del: not_None_eq split: option.splits)

lemma map_sum_Inr_conv: "map_sum f g y = Inr z \<longleftrightarrow> (\<exists>x. y = Inr x \<and> z = g x)"
  by (cases y) auto

lemma handle_ops_result_smaller:
  assumes "context_wf c" "iter_ops_with_simulations c \<noteq> []" "answer_ok (to_ops_per_aggregator c) out"
    "handle_ops_result env p n c gas fees out = Some (evs, Inr (d, r))"
  shows "(r = None \<longrightarrow> smaller c d) \<and> (r \<noteq> None \<longrightarrow> d = c)"
proof (cases out)
  case (HO_FailedOp index message)
  with assms process_failed_op_smaller [OF assms(1)] show ?thesis
    by (auto simp: handle_ops_result_def bind_eq_Some_conv get_op_at_iter map_sum_Inr_conv split: if_splits)
next
  case (HO_SignatureValidationFailed a)
  then have a: "a \<noteq> 0" "a \<in> context_keys c"
    using assms(3) by (auto simp: answer_ok_def to_ops_aggregators)
  then obtain op where "op \<in> set (iter_ops_with_simulations c)" "uo_aggregator (ows_op op) = Some a"
    using assms(1) by (auto simp: context_keys_iff aggregator_key_def split: option.splits)
  then have u: "\<exists>op\<in>set (iter_ops_with_simulations c). uses_entity (entity_aggregator a) (ows_op op)"
    by (auto simp: uses_entity_def entity_aggregator_def entity_new_def)
  from HO_SignatureValidationFailed assms(4) have "proposer_reject_entity p c (entity_aggregator a) True = Some d"
    "r = None"
    by (auto simp: handle_ops_result_def bind_eq_Some_conv)
  with proposer_reject_entity_shrinks [OF assms(1)] u show ?thesis by (auto simp: smaller_def)
next
  case HO_PostOpRevert
  with assms process_post_op_revert_smaller [OF assms(1,2)] show ?thesis
    by (auto simp: handle_ops_result_def bind_eq_Some_conv map_sum_Inr_conv)
next
  case (HO_Revert data)
  with assms process_revert_data_smaller [OF assms(1,2)] show ?thesis
    by (auto simp: handle_ops_result_def bind_eq_Some_conv)
qed (use assms in \<open>auto simp: handle_ops_result_def\<close>)

lemma handle_ops_result_defined:
  assumes "round_ok env p c" "answer_ok (to_ops_per_aggregator c) out"
  shows "handle_ops_result env p n c gas fees out \<noteq> None"
proof (cases out)
  case (HO_FailedOp index message)
  then have "str_prefix 4 message \<noteq> None" using assms(2) by (simp add: answer_ok_def)
  from process_failed_op_defined [OF assms(1) this, of "unat index"] HO_FailedOp show ?thesis
    by (simp add: handle_ops_result_def get_op_at_iter bind_eq_None_conv del: not_None_eq)
next
  case HO_PostOpRevert
  with process_post_op_revert_defined [OF assms(1), of n gas fees] show ?thesis
    by (simp add: handle_ops_result_def bind_eq_None_conv case_prod_beta del: not_None_eq)
next
  case (HO_Revert data)
  with process_revert_data_defined [OF assms(1), of data] show ?thesis
    by (simp add: handle_ops_result_def bind_eq_None_conv del: not_None_eq)
qed (simp_all add: handle_ops_result_def proposer_reject_entity_eq)

section \<open>The loop\<close>

lemma estimate_defined:
  assumes "round_ok env p c" "entry_point_answers env p"
  shows "estimate_gas_rejecting_failed_ops env p n c fees \<noteq> None"
proof -
  let ?cs = "bps_chain_spec (bp_settings p)"
  obtain gas where gas: "get_bundle_gas_limit (pe_alloy env) c ?cs = Some gas"
    using get_bundle_gas_limit_inner_defined [of c ?cs] assms(1)
    by (auto simp: get_bundle_gas_limit_def round_ok_def)
  let ?g = "ucast (increase_by_percent gas BUNDLE_TRANSACTION_GAS_OVERHEAD_PERCENT)"
  let ?v = "bps_submission_proxy (bp_settings p) = None \<and> pe_version env \<noteq> EP_V0_6"
  have "call_handle_ops env p n (to_ops_per_aggregator c) ?g fees ?v \<noteq> None"
    using assms(1) to_ops_versions by (intro call_handle_ops_defined) (auto simp: round_ok_def versions_ok_def)
  then obtain out where out: "call_handle_ops env p n (to_ops_per_aggregator c) ?g fees ?v = Some out" by auto
  have "handle_ops_result env p n c ?g fees x \<noteq> None" if "out = Inr x" for x
    using handle_ops_result_defined [OF assms(1)] that assms(2) out unfolding entry_point_answers_def by blast
  with out show ?thesis
    by (cases out) (simp_all add: estimate_gas_rejecting_failed_ops_def gas Let_def)
qed

lemma estimate_smaller:
  assumes "round_ok env p c" "entry_point_answers env p" "iter_ops_with_simulations c \<noteq> []"
    "estimate_gas_rejecting_failed_ops env p n c fees = Some (evs, Inr (d, r))"
  shows "(r = None \<longrightarrow> smaller c d) \<and> (r \<noteq> None \<longrightarrow> d = c)"
proof -
  have ans: ?thesis if "handle_ops_result env p n c g fees out = Some (evs, Inr (d, r))"
    "call_handle_ops env p n (to_ops_per_aggregator c) g' fees v = Some (Inr out)" for g g' v out
    using handle_ops_result_smaller that assms(1-3) unfolding entry_point_answers_def round_ok_def by blast
  obtain gas where gas: "get_bundle_gas_limit (pe_alloy env) c (bps_chain_spec (bp_settings p)) = Some gas"
    using assms(4) by (auto simp: estimate_gas_rejecting_failed_ops_def bind_eq_Some_conv)
  show ?thesis
  proof (cases "pe_version env \<noteq> EP_V0_6 \<and> length (iter_ops c) = 1")
    case True
    with assms(4) gas show ?thesis
      by (auto simp: estimate_gas_rejecting_failed_ops_def Let_def split: if_splits)
  next
    case False
    let ?g = "ucast (increase_by_percent gas BUNDLE_TRANSACTION_GAS_OVERHEAD_PERCENT)"
    let ?v = "bps_submission_proxy (bp_settings p) = None \<and> pe_version env \<noteq> EP_V0_6"
    obtain r' where c: "call_handle_ops env p n (to_ops_per_aggregator c) ?g fees ?v = Some r'"
      "(case r' of Inl e \<Rightarrow> Some ([], Inl ''should call handle ops with candidate bundle'')
        | Inr out \<Rightarrow> handle_ops_result env p n c ?g fees out) = Some (evs, Inr (d, r))"
      using assms(4) gas False unfolding estimate_gas_rejecting_failed_ops_def Let_def
      by (simp add: bind_eq_Some_conv split: if_splits) blast
    then obtain out where "r' = Inr out" by (cases r') auto
    with c ans [of ?g out ?g ?v] show ?thesis by simp
  qed
qed

lemma accept_bundle_defined:
  assumes "round_ok env p c"
  shows "accept_bundle env p c gas fees \<noteq> None"
proof -
  let ?p = "p\<lparr>bp_condition_not_met_notified := False\<rparr>"
  have "round_ok env ?p c" using assms by (simp add: round_ok_def)
  then obtain evs r where "check_conditions_met env ?p c = Some (evs, r)"
    using reject_indices_defined [of env ?p c False "conditions_to_reject env c"]
    by (auto simp: check_conditions_met_def)
  then show ?thesis by (simp add: accept_bundle_def Let_def)
qed

end
