(* ===== verification/Bundle_Made.thy ===== *)
theory Bundle_Made
  imports Bundle_Assembled Bundle_Rounds
begin

text \<open>
  From the operations of the pool to the bundle: the steps of \<open>make_bundle\<close> composed, with what each
  promises of the operations that it keeps.
\<close>

section \<open>The loop of the assembly\<close>

lemma assemble_candidate_assembled:
  assumes "assembled env p m g balances xs s" "storage_sorted (pos, Inr sim)" "Suc (length xs) < 2 ^ 64"
    "range_contains (sr_valid_time_range sim) (pe_now env (po_uo (pos_op pos))) TIME_RANGE_BUFFER"
    "assemble_candidate env p m g senders s pos sim = Some s'"
  shows "assembled env p m g balances (xs @ [(pos, Inr sim)]) s'"
proof -
  let ?ows = "\<lparr>ows_op = po_uo (pos_op pos), ows_simulation = sim, ows_sponsored_da_gas = pos_sponsored_da_gas pos\<rparr>"
  let ?cs = "bps_chain_spec (bp_settings p)" and ?c = "context_push (asm_context s) ?ows"
  have deposits: "deposits_cover balances (asm_balances s) (mset (iter_ops_with_simulations (asm_context s)))"
    using assms(1) by (simp add: assembled_def)
  obtain gas cost size where *: "get_bundle_computation_gas_limit (pe_alloy env) ?c ?cs = Some gas"
    "gas \<le> bps_max_bundle_gas (bp_settings p) \<Longrightarrow> get_bundle_cost (pe_alloy env) ?c ?cs g = Some cost"
    "gas \<le> bps_max_bundle_gas (bp_settings p) \<Longrightarrow> cost \<le> m \<Longrightarrow> get_bundle_transaction_size ?c ?cs = Some size"
    using assms(5) by (auto simp: assemble_candidate_def Let_def bind_eq_Some_conv not_less split: if_splits)
  show ?thesis
  proof (cases "gas \<le> bps_max_bundle_gas (bp_settings p) \<and> cost \<le> m \<and>
      size < ucast (cs_max_transaction_size_bytes ?cs)")
    case False
    then have "asm_context s' = asm_context s \<and> asm_balances s' = asm_balances s"
      using assms(5) * by (auto simp: assemble_candidate_def Let_def asm_skip_def asm_emit_def not_less split: if_splits)
    then have "quiet (pos, Inr sim) s s'" by (auto intro: quiet_refl)
    from assembled_quiet [OF assms(1) this assms(2,3)] show ?thesis .
  next
    case True
    then have limits: "within_limits env p m g ?c" using * by (auto simp: within_limits_def)
    have ins: "assemble_insert env p senders s (pos_op pos) ?ows gas = Some s'"
      using assms(5) True * by (simp add: assemble_candidate_def Let_def not_less [symmetric])
    note push = assembled_push [OF assms(1) refl assms(2,3) refl assms(4) _ _ _ limits]
    show ?thesis
    proof (rule assemble_insert_cases [OF ins _ _ refl, of sim pos])
      assume "quiet (pos, Inr sim) s s'"
      from assembled_quiet [OF assms(1) this assms(2,3)] show ?thesis .
    next
      fix b
      assume b: "bes_add (px_bundle_expected_storage (asm_context s)) (sr_expected_storage sim) = Inr b"
        "asm_context s' = context_push ((asm_context s)\<lparr>px_bundle_expected_storage := b\<rparr>) ?ows"
        "uo_paymaster (ows_op ?ows) = None" "asm_balances s' = asm_balances s"
      show ?thesis
        using deposits_cover_free [OF deposits b(3)] b(4) by (intro push [OF b(1,2)]) simp
    next
      fix b a l
      assume b: "bes_add (px_bundle_expected_storage (asm_context s)) (sr_expected_storage sim) = Inr b"
        "asm_context s' = context_push ((asm_context s)\<lparr>px_bundle_expected_storage := b\<rparr>) ?ows"
        "uo_paymaster (ows_op ?ows) = Some a" "asm_balances s a = Some l" "uo_max_gas_cost (ows_op ?ows) \<le> l"
        "asm_balances s' = (asm_balances s)(a \<mapsto> l - uo_max_gas_cost (ows_op ?ows))"
      show ?thesis
        using deposits_cover_pay [OF deposits b(3-5)] b(6) by (intro push [OF b(1,2)]) simp
    qed simp_all
  qed
qed

lemma assemble_op_proceed:
  assumes "range_contains (sr_valid_time_range sim) (pe_now env (po_uo (pos_op pos))) TIME_RANGE_BUFFER"
  shows "assemble_op env p m g senders (pos, Inr sim) s =
    (if asm_passed_target s then Some (asm_skip env p s (po_uo (pos_op pos)) TargetGasLimit)
     else assemble_candidate env p m g senders s pos sim)"
proof (cases "perm_bundler_sponsorship (po_perms (pos_op pos))")
  case None
  with assms show ?thesis by (simp only: assemble_op_def Let_def prod.case sum.case if_not_P not_not option.case)
next
  case (Some b)
  with assms show ?thesis by (simp only: assemble_op_def Let_def prod.case sum.case if_not_P not_not option.case)
qed

lemma assemble_op_assembled:
  assumes "assembled env p m g balances xs s" "storage_sorted x" "Suc (length xs) < 2 ^ 64"
    "assemble_op env p m g senders x s = Some s'"
  shows "assembled env p m g balances (xs @ [x]) s'"
proof -
  obtain pos r where x: "x = (pos, r)" by force
  show ?thesis
  proof (cases r)
    case (Inl e)
    with assms(4) x have "assemble_failed env p s (pos_op pos) e = Some s'"
      by (simp add: assemble_op_def Let_def)
    from assemble_failed_quiet [OF this] assembled_quiet [OF assms(1) _ assms(2,3)] show ?thesis
      by (simp add: x Inl)
  next
    case (Inr sim)
    show ?thesis
    proof (cases "range_contains (sr_valid_time_range sim) (pe_now env (po_uo (pos_op pos))) TIME_RANGE_BUFFER")
      case False
      with assms(4) x Inr have "s' = asm_reject_time env p s (pos_op pos) (sr_valid_time_range sim)"
        by (simp add: assemble_op_def Let_def)
      then have "quiet x s s'" by (auto simp: asm_reject_time_def asm_emit_def Let_def quiet_def x)
      from assembled_quiet [OF assms(1) this assms(2,3)] show ?thesis .
    next
      case True
      note op = assemble_op_proceed [OF True, of p m g senders s, folded Inr, folded x]
      show ?thesis
      proof (cases "asm_passed_target s")
        case True
        with assms(4) op have "s' = asm_skip env p s (po_uo (pos_op pos)) TargetGasLimit" by simp
        then have "quiet x s s'" by (auto simp: asm_skip_def asm_emit_def intro: quiet_refl)
        from assembled_quiet [OF assms(1) this assms(2,3)] show ?thesis .
      next
        case False
        with assms(4) op have "assemble_candidate env p m g senders s pos sim = Some s'" by simp
        from assemble_candidate_assembled [OF assms(1) _ assms(3) True this] assms(2) show ?thesis
          by (simp add: x Inr)
      qed
    qed
  qed
qed

lemma assemble_loop_assembled:
  "assembled env p m g balances xs s \<Longrightarrow> \<forall>x\<in>set ys. storage_sorted x \<Longrightarrow> length xs + length ys < 2 ^ 64 \<Longrightarrow>
     assemble_loop (assemble_op env p m g senders) ys s = Some s' \<Longrightarrow>
     assembled env p m g balances (xs @ ys) s'"
proof (induction ys arbitrary: xs s)
  case (Cons y ys)
  then obtain t where t: "assemble_op env p m g senders y s = Some t"
    "assemble_loop (assemble_op env p m g senders) ys t = Some s'"
    by (auto simp: bind_eq_Some_conv)
  have "assembled env p m g balances (xs @ [y]) t"
    using Cons.prems by (intro assemble_op_assembled [OF _ _ _ t(1)]) auto
  from Cons.IH [OF this _ _ t(2)] Cons.prems(2,3) show ?case by simp
qed simp

section \<open>The proposal\<close>

definition proposal_ok ::
  "proposer_env \<Rightarrow> (address \<rightharpoonup> u256) \<Rightarrow> simulated list \<Rightarrow> proposal_context \<Rightarrow> bool" where
  "proposal_ok env balances xs c \<longleftrightarrow> context_wf c \<and>
     (\<forall>op\<in>set (iter_ops_with_simulations c). drawn_from env xs op) \<and>
     content c \<subseteq># mset (map uo_of xs) \<and> storage_ok c \<and>
     (\<forall>a. spent a (mset (iter_ops_with_simulations c)) \<le> (case balances a of None \<Rightarrow> 0 | Some b \<Rightarrow> unat b))"

lemma proposal_ok_shrinks:
  assumes "proposal_ok env balances xs c" "shrinks c d"
  shows "proposal_ok env balances xs d"
proof -
  note A = assms(1) [unfolded proposal_ok_def]
  have "spent a (mset (iter_ops_with_simulations d)) \<le> (case balances a of None \<Rightarrow> 0 | Some b \<Rightarrow> unat b)" for a
    using spent_mono [OF shrinks_subset [OF assms(2)], of a] A by (meson le_trans)
  moreover have "\<forall>op\<in>set (iter_ops_with_simulations d). drawn_from env xs op"
    using A shrinks_set [OF assms(2)] by auto
  ultimately show ?thesis
    using A shrinks_wf [OF assms(2)] shrinks_content [OF assms(2)] storage_ok_shrinks [OF _ assms(2)]
    by (simp add: proposal_ok_def)
qed

lemma assembled_new:
  "assembled env p m g balances []
     \<lparr>asm_context = context_new, asm_paymasters_to_reject = [], asm_passed_target = False,
      asm_balances = balances, asm_events = []\<rparr>"
proof -
  have "counts_le 0 bes_default"
    by (simp add: counts_le_def count_at_def slot_count_def bes_default_def btm_get_or_def)
  then show ?thesis
    by (simp add: assembled_def context_new_def context_wf_def iter_ops_with_simulations_def content_def iter_ops_def
        storage_ok_def within_limits_def context_is_empty_def deposits_cover_def split: option.splits)
qed

lemma assembled_proposal:
  assumes "assembled env p m g balances xs s"
  shows "proposal_ok env balances xs (asm_context s)"
proof -
  have "spent a (mset (iter_ops_with_simulations (asm_context s))) \<le> (case balances a of None \<Rightarrow> 0 | Some b \<Rightarrow> unat b)" for a
  proof -
    have "deposits_cover balances (asm_balances s) (mset (iter_ops_with_simulations (asm_context s)))"
      using assms by (simp add: assembled_def)
    then show ?thesis unfolding deposits_cover_def by (drule_tac spec [of _ a]) (auto split: option.splits)
  qed
  with assms show ?thesis by (simp add: proposal_ok_def assembled_def)
qed

lemma reject_entities_shrinks:
  "context_wf c \<Longrightarrow> shrinks c (fold (\<lambda>info c. fst (context_reject_entity c (ei_entity info) (ei_is_staked info))) infos c)"
proof (induction infos arbitrary: c)
  case (Cons info infos)
  obtain d changed where d: "context_reject_entity c (ei_entity info) (ei_is_staked info) = (d, changed)" by force
  note s = context_reject_entity_shrinks [OF Cons.prems d]
  from shrinks_trans [OF s Cons.IH [OF shrinks_wf [OF s]]] d show ?case by simp
qed simp

lemma assemble_context_ok:
  assumes "assemble_context env p fee price xs balances = Some (evs, c)"
    "\<forall>x\<in>set xs. storage_sorted x" "length xs < 2 ^ 64"
  shows "proposal_ok env balances xs c"
proof (cases "fee = 0")
  case True
  with assms(1) have c: "c = context_new" by (simp add: assemble_context_def)
  have "proposal_ok env balances [] context_new"
    using assembled_proposal [OF assembled_new] by simp
  then show ?thesis
    by (simp add: c proposal_ok_def context_new_def iter_ops_with_simulations_def content_def iter_ops_def)
next
  case False
  let ?m = "fee * ucast (100 - BUNDLE_TRANSACTION_GAS_OVERHEAD_PERCENT * 2) div 100"
  obtain s where s: "assemble_loop (assemble_op env p ?m price
        (set (map (\<lambda>(pos, _). uo_sender (po_uo (pos_op pos))) xs))) xs
      \<lparr>asm_context = context_new, asm_paymasters_to_reject = [], asm_passed_target = False,
       asm_balances = balances, asm_events = []\<rparr> = Some s"
    "compute_all_aggregator_signatures p (fold (\<lambda>info c. fst (context_reject_entity c (ei_entity info) (ei_is_staked info)))
       (asm_paymasters_to_reject s) (asm_context s)) = Some c"
    using assms(1) False unfolding assemble_context_def Let_def by (auto simp: bind_eq_Some_conv)
  have ok: "proposal_ok env balances xs (asm_context s)"
    using assemble_loop_assembled [OF assembled_new assms(2) _ s(1)] assms(3)
    by (intro assembled_proposal) simp
  then have "context_wf (asm_context s)" by (simp add: proposal_ok_def)
  note r = reject_entities_shrinks [OF this, of "asm_paymasters_to_reject s"]
  from s(2) have "shrinks (asm_context s) c"
    using shrinks_trans [OF r compute_aggregator_signatures_shrinks [OF shrinks_wf [OF r]]]
    by (simp add: compute_all_aggregator_signatures_def)
  with ok show ?thesis by (rule proposal_ok_shrinks)
qed

section \<open>The rounds\<close>

text \<open>A bundle is what is left of the proposal.\<close>

definition is_bundle :: "gas_fees \<Rightarrow> proposal_context \<Rightarrow> proposed_bundle \<Rightarrow> bool" where
  "is_bundle fees d b \<longleftrightarrow>
     (if context_is_empty d then b = empty_bundle d fees else \<exists>gas. b = full_bundle d gas fees)"

definition bundle_of :: "gas_fees \<Rightarrow> proposal_context \<Rightarrow> bundle_proposer_error + proposed_bundle \<Rightarrow> bool" where
  "bundle_of fees c r \<longleftrightarrow> (\<forall>b. r = Inr b \<longrightarrow> (\<exists>d. shrinks c d \<and> is_bundle fees d b))"

lemma bundle_of_shrinks: "shrinks c d \<Longrightarrow> bundle_of fees d r \<Longrightarrow> bundle_of fees c r"
  unfolding bundle_of_def using shrinks_trans by blast

lemma bundle_ofI: "shrinks c d \<Longrightarrow> is_bundle fees d b \<Longrightarrow> bundle_of fees c (Inr b)"
  unfolding bundle_of_def by auto

lemma accept_bundle_of:
  assumes "context_wf c" "\<not> context_is_empty c" "accept_bundle env p c gas fees = Some (p', evs, r)"
  shows "bundle_of fees c r"
proof (cases "bp_condition_not_met_notified p")
  case False
  with assms show ?thesis by (auto simp: accept_bundle_def is_bundle_def intro!: bundle_ofI [of c c])
next
  case True
  with assms(3) obtain r' where r: "check_conditions_met env (p\<lparr>bp_condition_not_met_notified := False\<rparr>) c = Some (evs, r')"
    "r = (case r' of Inl e \<Rightarrow> Inl (BP_Other e)
       | Inr c \<Rightarrow> Inr (if context_is_empty c then empty_bundle c fees else full_bundle c gas fees))"
    by (auto simp: accept_bundle_def Let_def bind_eq_Some_conv)
  show ?thesis
  proof (cases r')
    case (Inr d)
    with r reject_indices_smaller [OF assms(1)] have "shrinks c d"
      by (auto simp: check_conditions_met_def)
    with r(2) Inr show ?thesis by (auto simp: is_bundle_def intro!: bundle_ofI [of c d])
  qed (use r(2) in \<open>simp add: bundle_of_def\<close>)
qed

lemma make_bundle_loop_result:
  assumes "round_ok env p c" "entry_point_answers env p"
  shows "\<exists>p' evs r. make_bundle_loop env p fees n events c = Some (p', evs, r) \<and> bundle_of fees c r"
  using assms
proof (induction "length (iter_ops_with_simulations c)" arbitrary: c n events rule: less_induct)
  case less
  then have wf: "context_wf c" by (simp add: round_ok_def)
  show ?case
  proof (cases "context_is_empty c")
    case True
    then have "bundle_of fees c (Inr (empty_bundle c fees))" using wf by (intro bundle_ofI [of c c]) (simp_all add: is_bundle_def)
    with True show ?thesis by (subst make_bundle_loop.simps) simp
  next
    case False
    then have ne: "iter_ops_with_simulations c \<noteq> []"
      using wf context_is_empty_iff by (auto simp: context_wf_def)
    obtain evs r where e: "estimate_gas_rejecting_failed_ops env p n c fees = Some (evs, r)"
      using estimate_defined [OF less.prems, of n fees] by auto
    show ?thesis
    proof (cases r)
      case (Inr x)
      obtain d g where x: "x = (d, g)" by force
      note s = estimate_smaller [OF less.prems ne e [unfolded Inr x]]
      show ?thesis
      proof (cases g)
        case None
        with s have sm: "shrinks c d" "length (iter_ops_with_simulations d) < length (iter_ops_with_simulations c)"
          by (simp_all add: smaller_def)
        from less.hyps [OF sm(2) round_ok_shrinks [OF sm(1) less.prems(1)] less.prems(2)] bundle_of_shrinks [OF sm(1)]
        show ?thesis using False e Inr x None by (subst make_bundle_loop.simps) fastforce
      next
        case (Some gas)
        obtain p' evs' r' where a: "accept_bundle env p c gas fees = Some (p', evs', r')"
          using accept_bundle_defined [OF less.prems(1), of gas fees] by auto
        with s Some accept_bundle_of [OF wf False a] show ?thesis
          using False e Inr x by (subst make_bundle_loop.simps) simp
      qed
    qed (use False e in \<open>subst make_bundle_loop.simps, simp add: bundle_of_def\<close>)
  qed
qed

section \<open>No panics\<close>

text \<open>The codes that the proposer slices from the reasons of a failed validation.\<close>

definition violation_coded :: "simulation_violation \<Rightarrow> bool" where
  "violation_coded v =
     (case v of
        UnintendedRevertWithMessage _ message _ \<Rightarrow> str_prefix 4 message \<noteq> None
      | ValidationRevert (VR_Operation reason _ _) \<Rightarrow> str_prefix 3 reason \<noteq> None
      | _ \<Rightarrow> True)"

definition error_coded :: "simulation_error \<Rightarrow> bool" where
  "error_coded e =
     (case serr_violation_error e of Violations vs \<Rightarrow> \<forall>v\<in>set vs. violation_coded v | VE_Other _ \<Rightarrow> True)"

definition paymaster_known :: "pool_operation \<Rightarrow> bool" where
  "paymaster_known po \<longleftrightarrow> uo_paymaster (po_uo po) \<noteq> None \<longrightarrow> eis_paymaster (po_entity_infos po) \<noteq> None"

definition aggregator_registered :: "chain_spec \<Rightarrow> user_operation_variant \<Rightarrow> bool" where
  "aggregator_registered cs op \<longleftrightarrow>
     aggregator_key op \<noteq> 0 \<longrightarrow> get_signature_aggregator cs (aggregator_key op) \<noteq> None"

definition simulated_ok :: "chain_spec \<Rightarrow> simulated \<Rightarrow> bool" where
  "simulated_ok cs x \<longleftrightarrow> storage_sorted x \<and> aggregator_registered cs (uo_of x) \<and>
     paymaster_known (pos_op (fst x)) \<and> (\<forall>e. snd x = Inl e \<longrightarrow> error_coded e)"

lemma process_violation_defined: "violation_coded v \<Longrightarrow> process_violation infos v s \<noteq> None"
  by (cases "(infos, v, s)" rule: process_violation.cases) (auto simp: violation_coded_def)

lemma process_violations_defined: "\<forall>v\<in>set vs. violation_coded v \<Longrightarrow> process_violations infos vs s \<noteq> None"
proof (induction vs arbitrary: s)
  case (Cons v vs)
  then obtain t where "process_violation infos v s = Some t"
    using process_violation_defined [of v infos s] by auto
  with Cons show ?case by simp
qed simp

lemma process_simulation_violations_defined:
  assumes "\<forall>v\<in>set vs. violation_coded v"
  shows "process_simulation_violations c op vs infos \<noteq> None"
  using process_violations_defined [OF assms]
  by (cases "eis_factory infos")
    (simp_all add: process_simulation_violations_def Let_def bind_eq_None_conv case_prod_beta del: not_None_eq)

lemma assemble_failed_defined: "error_coded e \<Longrightarrow> assemble_failed env p s po e \<noteq> None"
  using process_simulation_violations_defined
  by (cases "serr_violation_error e")
    (simp_all add: assemble_failed_def Let_def error_coded_def bind_eq_None_conv del: not_None_eq)

lemma assemble_insert_defined:
  "paymaster_known po \<Longrightarrow> ows_op ows = po_uo po \<Longrightarrow> assemble_insert env p senders s po ows gas \<noteq> None"
  unfolding assemble_insert_def paymaster_known_def Let_def by (auto split: sum.splits option.splits)

lemma aggregators_known_registered:
  "aggregators_known cs c \<longleftrightarrow> (\<forall>op\<in>set (iter_ops_with_simulations c). aggregator_registered cs (ows_op op))"
  by (simp add: aggregators_known_def aggregator_registered_def)

lemma assemble_candidate_defined:
  assumes "context_wf (asm_context s)" "aggregators_known (bps_chain_spec (bp_settings p)) (asm_context s)"
    "aggregator_registered (bps_chain_spec (bp_settings p)) (po_uo (pos_op pos))" "paymaster_known (pos_op pos)"
  shows "assemble_candidate env p m g senders s pos sim \<noteq> None"
proof -
  let ?ows = "\<lparr>ows_op = po_uo (pos_op pos), ows_simulation = sim, ows_sponsored_da_gas = pos_sponsored_da_gas pos\<rparr>"
  let ?cs = "bps_chain_spec (bp_settings p)" and ?c = "context_push (asm_context s) ?ows"
  note push = context_push_result [OF assms(1), of ?ows]
  have "set (iter_ops_with_simulations ?c) = insert ?ows (set (iter_ops_with_simulations (asm_context s)))"
    using arg_cong [OF push(2), of set_mset] by simp
  then have known: "aggregators_known ?cs ?c" using assms(2,3) by (simp add: aggregators_known_registered)
  obtain gas where gas: "get_bundle_computation_gas_limit (pe_alloy env) ?c ?cs = Some gas"
    using get_bundle_gas_limit_inner_defined [OF push(1) known]
    by (auto simp: get_bundle_computation_gas_limit_def)
  obtain cost where cost: "get_bundle_cost (pe_alloy env) ?c ?cs g = Some cost"
    using get_bundle_gas_limit_inner_defined [OF push(1) known, of "pe_alloy env" True]
    by (auto simp: get_bundle_cost_def get_bundle_gas_limit_def)
  obtain size where size: "get_bundle_transaction_size ?c ?cs = Some size"
    using get_bundle_transaction_size_defined [OF push(1) known] by auto
  have "assemble_insert env p senders s (pos_op pos) ?ows gas \<noteq> None"
    by (rule assemble_insert_defined [OF assms(4)]) simp
  with gas cost size show ?thesis by (simp add: assemble_candidate_def Let_def)
qed

lemma assemble_op_defined:
  assumes "assembled env p m g balances xs s" "\<forall>x\<in>set xs. simulated_ok (bps_chain_spec (bp_settings p)) x"
    "simulated_ok (bps_chain_spec (bp_settings p)) y"
  shows "assemble_op env p m g senders y s \<noteq> None"
proof -
  let ?cs = "bps_chain_spec (bp_settings p)"
  obtain pos r where y: "y = (pos, r)" by force
  have "aggregator_registered ?cs (ows_op op)" if "op \<in> set (iter_ops_with_simulations (asm_context s))" for op
  proof -
    have "drawn_from env xs op" using assms(1) that by (simp add: assembled_def)
    with assms(2) show ?thesis by (fastforce simp: drawn_from_def simulated_ok_def)
  qed
  then have known: "aggregators_known ?cs (asm_context s)" by (simp add: aggregators_known_registered)
  show ?thesis
  proof (cases r)
    case (Inl e)
    with assms(3) y have "assemble_failed env p s (pos_op pos) e \<noteq> None"
      by (intro assemble_failed_defined) (simp add: simulated_ok_def)
    with Inl y show ?thesis by (simp add: assemble_op_def Let_def)
  next
    case (Inr sim)
    show ?thesis
    proof (cases "range_contains (sr_valid_time_range sim) (pe_now env (po_uo (pos_op pos))) TIME_RANGE_BUFFER")
      case True
      have "assemble_candidate env p m g senders s pos sim \<noteq> None"
        using assms(1,3) known y
        by (intro assemble_candidate_defined) (simp_all add: assembled_def simulated_ok_def)
      with assemble_op_proceed [OF True, of p m g senders s] y Inr show ?thesis by simp
    next
      case False
      with y Inr show ?thesis by (simp add: assemble_op_def Let_def)
    qed
  qed
qed

lemma assemble_loop_defined:
  "assembled env p m g balances xs s \<Longrightarrow> \<forall>x\<in>set (xs @ ys). simulated_ok (bps_chain_spec (bp_settings p)) x \<Longrightarrow>
     length xs + length ys < 2 ^ 64 \<Longrightarrow> assemble_loop (assemble_op env p m g senders) ys s \<noteq> None"
proof (induction ys arbitrary: xs s)
  case (Cons y ys)
  have ok: "\<forall>x\<in>set xs. simulated_ok (bps_chain_spec (bp_settings p)) x"
    "simulated_ok (bps_chain_spec (bp_settings p)) y"
    using Cons.prems(2) by simp_all
  obtain t where t: "assemble_op env p m g senders y s = Some t"
    using assemble_op_defined [OF Cons.prems(1) ok, of senders] by auto
  have "assembled env p m g balances (xs @ [y]) t"
    using Cons.prems(3) ok(2) by (intro assemble_op_assembled [OF Cons.prems(1) _ _ t]) (auto simp: simulated_ok_def)
  from Cons.IH [OF this] Cons.prems(2,3) t show ?case by simp
qed simp

end
