(* ===== verification/Bundle_Pipeline.thy ===== *)
theory Bundle_Pipeline
  imports Bundle_Made
begin

text \<open>
  The filters in front of the assembly, and \<open>make_bundle\<close> as their composition with the assembly and
  the rounds.
\<close>

section \<open>The filters\<close>

lemma join_flatten_mem: "y \<in> set (snd (join_flatten f xs)) \<longleftrightarrow> (\<exists>x\<in>set xs. snd (f x) = Some y)"
  by (induction xs) (auto simp: join_flatten_def List.map_filter_simps split: option.splits)

lemma join_flatten_mset:
  assumes "\<And>x y. snd (f x) = Some y \<Longrightarrow> h y = k x"
  shows "mset (map h (snd (join_flatten f xs))) \<subseteq># mset (map k xs)"
proof (induction xs)
  case (Cons x xs)
  show ?case
  proof (cases "snd (f x)")
    case None
    with Cons show ?thesis
      by (simp add: join_flatten_def List.map_filter_simps) (rule subset_mset.order_trans, assumption, simp)
  next
    case (Some y)
    with Cons assms [OF Some] show ?thesis by (simp add: join_flatten_def List.map_filter_simps)
  qed
qed (simp add: join_flatten_def List.map_filter_simps)

lemma check_fees_op: "snd (check_fees env p op bh da base req) = Some pos \<Longrightarrow> pos_op pos = op"
  unfolding check_fees_def Let_def by (auto split: if_splits sum.splits option.splits)

lemma simulate_op_result:
  assumes "snd (simulate_op env p op bh) = Some x"
  shows "fst x = op" "pe_simulate_validation env (po_uo (pos_op op)) (perm_trusted (po_perms (pos_op op))) bh
    (Some (po_expected_code_hash (pos_op op))) = snd x"
  using assms unfolding simulate_op_def Let_def
  by (auto split: sum.splits violation_error.splits)

lemma limit_loop_kept:
  assumes "limit_loop env p gas ops = (evs, kept, left)"
  shows "mset kept \<subseteq># mset ops \<and> (\<forall>op\<in>set kept. aggregator_registered (bps_chain_spec (bp_settings p)) (po_uo (pos_op op)))"
  using assms
proof (induction ops arbitrary: gas evs kept left)
  case (Cons op ops)
  let ?uo = "po_uo (pos_op op)" and ?cs = "bps_chain_spec (bp_settings p)"
  let ?gas = "bundle_computation_gas_limit (pe_alloy env) ?uo ?cs None"
  obtain evs1 kept1 left1 where l1: "limit_loop env p gas ops = (evs1, kept1, left1)" by (cases "limit_loop env p gas ops")
  obtain evs2 kept2 left2 where l2: "limit_loop env p (gas - ?gas) ops = (evs2, kept2, left2)"
    by (cases "limit_loop env p (gas - ?gas) ops")
  consider "kept = kept1" | "kept = op # kept2" "aggregator_registered ?cs ?uo"
    using Cons.prems l1 l2
    by (auto simp: Let_def aggregator_registered_def aggregator_key_def split: option.splits if_splits)
  then show ?case
  proof cases
    case 1
    have "mset kept1 \<subseteq># mset (op # ops)"
      using Cons.IH [OF l1] by (simp add: subset_mset.order_trans [of _ "mset ops"])
    with 1 Cons.IH [OF l1] show ?thesis by simp
  next
    case 2
    with Cons.IH [OF l2] show ?thesis by simp
  qed
qed simp

section \<open>The composition\<close>

text \<open>What is left of the operations when the assembly begins.\<close>

definition pipeline ::
  "proposer_env \<Rightarrow> bundle_proposer \<Rightarrow> b256 \<Rightarrow> u128 \<Rightarrow> gas_fees \<Rightarrow> pool_operation list \<Rightarrow> simulated list" where
  "pipeline env p bh base_fee req ops =
     snd (join_flatten (\<lambda>op. simulate_op env p op bh)
       (fst (snd (limit_user_operations_for_simulation env p
         (snd (join_flatten (\<lambda>op. check_fees env p op bh (get_da_block_data env p bh) base_fee req) ops))))))"

definition candidate ::
  "proposer_env \<Rightarrow> bundle_proposer \<Rightarrow> b256 \<Rightarrow> u128 \<Rightarrow> gas_fees \<Rightarrow> pool_operation list \<Rightarrow> simulated \<Rightarrow> bool" where
  "candidate env p bh base_fee req ops x \<longleftrightarrow>
     pos_op (fst x) \<in> set ops \<and>
     snd (check_fees env p (pos_op (fst x)) bh (get_da_block_data env p bh) base_fee req) = Some (fst x) \<and>
     pe_simulate_validation env (uo_of x) (perm_trusted (po_perms (pos_op (fst x)))) bh
       (Some (po_expected_code_hash (pos_op (fst x)))) = snd x \<and>
     aggregator_registered (bps_chain_spec (bp_settings p)) (uo_of x)"

lemma pipeline_kept:
  defines "checked \<equiv> \<lambda>env p bh base_fee req ops.
    snd (join_flatten (\<lambda>op. check_fees env p op bh (get_da_block_data env p bh) base_fee req) ops)"
  obtains kept where
    "pipeline env p bh base_fee req ops = snd (join_flatten (\<lambda>op. simulate_op env p op bh) kept)"
    "mset kept \<subseteq># mset (checked env p bh base_fee req ops)"
    "\<forall>op\<in>set kept. aggregator_registered (bps_chain_spec (bp_settings p)) (po_uo (pos_op op))"
proof -
  obtain evs kept left where l: "limit_loop env p (bps_max_bundle_gas (bp_settings p)) (checked env p bh base_fee req ops)
      = (evs, kept, left)"
    by (cases "limit_loop env p (bps_max_bundle_gas (bp_settings p)) (checked env p bh base_fee req ops)")
  from limit_loop_kept [OF l] l show ?thesis
    by (intro that [of kept]) (simp_all add: pipeline_def checked_def limit_user_operations_for_simulation_def)
qed

lemma pipeline_candidate:
  assumes "x \<in> set (pipeline env p bh base_fee req ops)"
  shows "candidate env p bh base_fee req ops x"
proof (rule pipeline_kept [of env p bh base_fee req ops])
  fix kept
  assume k: "pipeline env p bh base_fee req ops = snd (join_flatten (\<lambda>op. simulate_op env p op bh) kept)"
    "mset kept \<subseteq># mset (snd (join_flatten (\<lambda>op. check_fees env p op bh (get_da_block_data env p bh) base_fee req) ops))"
    "\<forall>op\<in>set kept. aggregator_registered (bps_chain_spec (bp_settings p)) (po_uo (pos_op op))"
  from assms k(1) obtain op where op: "op \<in> set kept" "snd (simulate_op env p op bh) = Some x"
    by (auto simp: join_flatten_mem)
  note sim = simulate_op_result [OF op(2)]
  have "op \<in> set (snd (join_flatten (\<lambda>op. check_fees env p op bh (get_da_block_data env p bh) base_fee req) ops))"
    using op(1) set_mset_mono [OF k(2)] by auto
  then obtain po where po: "po \<in> set ops"
    "snd (check_fees env p po bh (get_da_block_data env p bh) base_fee req) = Some op"
    by (auto simp: join_flatten_mem)
  with check_fees_op [OF po(2)] sim bspec [OF k(3) op(1)] show ?thesis by (simp add: candidate_def)
qed

lemma pipeline_mset: "mset (map uo_of (pipeline env p bh base_fee req ops)) \<subseteq># mset (map po_uo ops)"
proof (rule pipeline_kept [of env p bh base_fee req ops])
  fix kept
  assume k: "pipeline env p bh base_fee req ops = snd (join_flatten (\<lambda>op. simulate_op env p op bh) kept)"
    "mset kept \<subseteq># mset (snd (join_flatten (\<lambda>op. check_fees env p op bh (get_da_block_data env p bh) base_fee req) ops))"
  have "mset (map uo_of (snd (join_flatten (\<lambda>op. simulate_op env p op bh) kept)))
      \<subseteq># mset (map (\<lambda>op. po_uo (pos_op op)) kept)"
    using simulate_op_result(1) by (intro join_flatten_mset) fastforce
  also have "\<dots> \<subseteq># mset (map (\<lambda>op. po_uo (pos_op op)) (snd (join_flatten
      (\<lambda>op. check_fees env p op bh (get_da_block_data env p bh) base_fee req) ops)))"
    using image_mset_subseteq_mono [OF k(2)] by simp
  also have "\<dots> \<subseteq># mset (map po_uo ops)"
    using check_fees_op by (intro join_flatten_mset) fastforce
  finally show ?thesis by (simp add: k(1))
qed

lemma pipeline_length: "length (pipeline env p bh base_fee req ops) \<le> length ops"
  using size_mset_mono [OF pipeline_mset [of env p bh base_fee req ops]] by simp

lemma make_bundle_pipeline:
  obtains (error) evs e where "make_bundle env p ops bh fee min_fees repl = Some (p, evs, Inl e)"
  | (made) fees base_fee req balances evs where
      "estimate_gas_fees env bh min_fees = Inr (fees, base_fee)"
      "req = (if repl then fees else pe_required_op_fees env fees)"
      "get_balances_by_paymaster env (List.map_filter (uo_paymaster \<circ> po_uo) ops) bh = Inr balances"
      "make_bundle env p ops bh fee min_fees repl =
         do {
           (evs4, c) \<leftarrow> assemble_context env p fee (gf_max_fee_per_gas fees)
                        (pipeline env p bh base_fee req ops) balances;
           make_bundle_loop env p fees 0 (evs @ evs4) c
         }"
proof (cases "estimate_gas_fees env bh min_fees")
  case (Inl e)
  then show ?thesis by (intro error) (simp add: make_bundle_def)
next
  case (Inr x)
  obtain fees base_fee where x: "x = (fees, base_fee)" by force
  define req where "req = (if repl then fees else pe_required_op_fees env fees)"
  obtain evs1 ops1 where 1: "join_flatten
      (\<lambda>op. check_fees env p op bh (get_da_block_data env p bh) base_fee req) ops = (evs1, ops1)" by force
  obtain evs2 ops2 gas where 2: "limit_user_operations_for_simulation env p ops1 = (evs2, ops2, gas)"
    by (cases "limit_user_operations_for_simulation env p ops1")
  obtain evs3 ops3 where 3: "join_flatten (\<lambda>op. simulate_op env p op bh) ops2 = (evs3, ops3)" by force
  have pipe: "pipeline env p bh base_fee req ops = ops3" using 1 2 3 by (simp add: pipeline_def)
  note mb = make_bundle_def [of env p ops bh fee min_fees repl, unfolded Inr x sum.case prod.case Let_def,
      folded req_def, unfolded 1 prod.case 2 3]
  show ?thesis
  proof (cases "ops1 = []")
    case True
    then show ?thesis by (intro error) (simp add: mb)
  next
    case False
    show ?thesis
    proof (cases "get_balances_by_paymaster env (List.map_filter (uo_paymaster \<circ> po_uo) ops) bh")
      case (Inl e)
      with False show ?thesis by (intro error) (simp add: mb)
    next
      case b: (Inr balances)
      show ?thesis
        by (rule made [OF Inr [unfolded x] req_def b, of "evs1 @ evs2 @ evs3"])
          (simp add: mb False b pipe)
    qed
  qed
qed

section \<open>The result\<close>

text \<open>
  What the proposer relies on of the simulator: the reasons of its violations carry their codes, and
  the expected storage of a result is a map.
\<close>

definition simulator_ok :: "proposer_env \<Rightarrow> bool" where
  "simulator_ok env \<longleftrightarrow>
     (\<forall>uo trusted bh code_hash.
        case pe_simulate_validation env uo trusted bh code_hash of
          Inl e \<Rightarrow> error_coded e
        | Inr sim \<Rightarrow> es_sorted (sr_expected_storage sim))"

text \<open>The operations of the pool belong to the entry point, and a paymaster is among their entities.\<close>

definition pool_ops_ok :: "proposer_env \<Rightarrow> pool_operation list \<Rightarrow> bool" where
  "pool_ops_ok env ops \<longleftrightarrow> length ops < 2 ^ 64 \<and>
     (\<forall>po\<in>set ops. of_version (pe_version env) (po_uo po) \<and> paymaster_known po)"

definition made_from ::
  "proposer_env \<Rightarrow> bundle_proposer \<Rightarrow> pool_operation list \<Rightarrow> b256 \<Rightarrow> gas_fees option \<Rightarrow> bool \<Rightarrow> proposed_bundle \<Rightarrow> bool" where
  "made_from env p ops bh min_fees repl b \<longleftrightarrow>
     (\<exists>fees base_fee balances d.
        estimate_gas_fees env bh min_fees = Inr (fees, base_fee) \<and>
        get_balances_by_paymaster env (List.map_filter (uo_paymaster \<circ> po_uo) ops) bh = Inr balances \<and>
        proposal_ok env balances
          (pipeline env p bh base_fee (if repl then fees else pe_required_op_fees env fees) ops) d \<and>
        is_bundle fees d b)"

lemma candidate_simulated:
  assumes "candidate env p bh base_fee req ops x" "simulator_ok env" "pool_ops_ok env ops"
  shows "simulated_ok (bps_chain_spec (bp_settings p)) x"
proof -
  have "case snd x of Inl e \<Rightarrow> error_coded e | Inr sim \<Rightarrow> es_sorted (sr_expected_storage sim)"
    using assms(1,2) unfolding candidate_def simulator_ok_def by metis
  with assms(1,3) show ?thesis
    by (auto simp: simulated_ok_def storage_sorted_def candidate_def pool_ops_ok_def)
qed

lemma proposal_round_ok:
  assumes "proposal_ok env balances (pipeline env p bh base_fee req ops) c" "pe_version env \<noteq> Unspecified"
    "pool_ops_ok env ops"
  shows "round_ok env p c"
proof -
  have "aggregator_registered (bps_chain_spec (bp_settings p)) (ows_op op) \<and> of_version (pe_version env) (ows_op op)"
    if op: "op \<in> set (iter_ops_with_simulations c)" for op
  proof -
    have "drawn_from env (pipeline env p bh base_fee req ops) op" using assms(1) op by (simp add: proposal_ok_def)
    then obtain x where "x \<in> set (pipeline env p bh base_fee req ops)" "ows_op op = uo_of x"
      by (fastforce simp: drawn_from_def)
    with pipeline_candidate [OF this(1)] assms(3) show ?thesis by (simp add: candidate_def pool_ops_ok_def)
  qed
  with assms(1,2) show ?thesis
    by (simp add: round_ok_def proposal_ok_def versions_ok_def aggregators_known_registered)
qed

lemma assemble_context_defined:
  assumes "\<forall>x\<in>set xs. simulated_ok (bps_chain_spec (bp_settings p)) x" "length xs < 2 ^ 64"
  shows "assemble_context env p fee price xs balances \<noteq> None"
proof (cases "fee = 0")
  case False
  let ?m = "fee * ucast (100 - BUNDLE_TRANSACTION_GAS_OVERHEAD_PERCENT * 2) div 100"
  let ?loop = "assemble_loop (assemble_op env p ?m price (set (map (\<lambda>(pos, _). uo_sender (po_uo (pos_op pos))) xs))) xs
    \<lparr>asm_context = context_new, asm_paymasters_to_reject = [], asm_passed_target = False,
     asm_balances = balances, asm_events = []\<rparr>"
  obtain s where s: "?loop = Some s"
    using assemble_loop_defined [OF assembled_new, of xs p] assms by fastforce
  have sorted: "\<forall>x\<in>set xs. storage_sorted x" using assms(1) by (auto simp: simulated_ok_def)
  have ok: "proposal_ok env balances xs (asm_context s)"
    using assemble_loop_assembled [OF assembled_new sorted _ s] assms(2) by (intro assembled_proposal) simp
  then have wf: "context_wf (asm_context s)" by (simp add: proposal_ok_def)
  note r = reject_entities_shrinks [OF wf, of "asm_paymasters_to_reject s"]
  have "aggregators_known (bps_chain_spec (bp_settings p)) (asm_context s)"
    using ok assms(1) by (fastforce simp: proposal_ok_def aggregators_known_registered drawn_from_def simulated_ok_def)
  note known = aggregators_known_shrinks [OF r this]
  have "distinct (map fst (px_groups_by_aggregator (fold (\<lambda>info c. fst (context_reject_entity c (ei_entity info)
      (ei_is_staked info))) (asm_paymasters_to_reject s) (asm_context s))))"
    using shrinks_wf [OF r] by (simp only: context_wf_def groups_wf_def)
  from compute_aggregator_signatures_defined [OF shrinks_wf [OF r] known this] s False show ?thesis
    unfolding assemble_context_def Let_def
    by (simp add: compute_all_aggregator_signatures_def bind_eq_None_conv del: not_None_eq)
qed (simp add: assemble_context_def)

lemma make_bundle_result:
  assumes "pe_version env \<noteq> Unspecified" "entry_point_answers env p" "simulator_ok env" "pool_ops_ok env ops"
  shows "\<exists>p' evs r. make_bundle env p ops bh fee min_fees repl = Some (p', evs, r) \<and>
    (\<forall>b. r = Inr b \<longrightarrow> made_from env p ops bh min_fees repl b)"
proof (rule make_bundle_pipeline [of env p ops bh fee min_fees repl])
  fix evs e
  assume "make_bundle env p ops bh fee min_fees repl = Some (p, evs, Inl e)"
  then show ?thesis by simp
next
  fix fees base_fee req balances evs
  let ?xs = "pipeline env p bh base_fee req ops"
  assume m: "estimate_gas_fees env bh min_fees = Inr (fees, base_fee)"
    "req = (if repl then fees else pe_required_op_fees env fees)"
    "get_balances_by_paymaster env (List.map_filter (uo_paymaster \<circ> po_uo) ops) bh = Inr balances"
    "make_bundle env p ops bh fee min_fees repl =
       do { (evs4, c) \<leftarrow> assemble_context env p fee (gf_max_fee_per_gas fees) ?xs balances;
            make_bundle_loop env p fees 0 (evs @ evs4) c }"
  have sim: "\<forall>x\<in>set ?xs. simulated_ok (bps_chain_spec (bp_settings p)) x"
    using pipeline_candidate candidate_simulated assms(3,4) by blast
  then have sorted: "\<forall>x\<in>set ?xs. storage_sorted x" by (auto simp: simulated_ok_def)
  have len: "length ?xs < 2 ^ 64"
    using assms(4) pipeline_length [of env p bh base_fee req ops] by (simp add: pool_ops_ok_def)
  obtain evs4 c where c: "assemble_context env p fee (gf_max_fee_per_gas fees) ?xs balances = Some (evs4, c)"
    using assemble_context_defined [OF sim len, of env fee "gf_max_fee_per_gas fees" balances] by auto
  note ok = assemble_context_ok [OF c sorted len]
  obtain p' evs' r where l: "make_bundle_loop env p fees 0 (evs @ evs4) c = Some (p', evs', r)" "bundle_of fees c r"
    using make_bundle_loop_result [OF proposal_round_ok [OF ok assms(1,4)] assms(2)] by blast
  have "made_from env p ops bh min_fees repl b" if "r = Inr b" for b
  proof -
    from l(2) that obtain d where "shrinks c d" "is_bundle fees d b" unfolding bundle_of_def by blast
    with proposal_ok_shrinks [OF ok] m(1-3) show ?thesis unfolding made_from_def by blast
  qed
  with m(4) c l(1) show ?thesis by simp
qed

lemma is_bundle_fields:
  assumes "is_bundle fees d b" "context_wf d"
  shows "bundle_iter_ops b = iter_ops d" "bu_rejected_ops b = map fst (px_rejected_ops d)" "bu_gas_fees b = fees"
    "bundle_iter_ops b \<noteq> [] \<Longrightarrow> bu_expected_storage b = bes_inner (px_bundle_expected_storage d)"
proof -
  have e: "iter_ops d = []" if "context_is_empty d"
    using that by (simp add: context_is_empty_def iter_ops_def iter_ops_with_simulations_def)
  have "b = empty_bundle d fees \<and> context_is_empty d \<or> (\<exists>gas. b = full_bundle d gas fees)"
    using assms(1) by (auto simp: is_bundle_def split: if_splits)
  then show "bundle_iter_ops b = iter_ops d" "bu_rejected_ops b = map fst (px_rejected_ops d)" "bu_gas_fees b = fees"
    "bundle_iter_ops b \<noteq> [] \<Longrightarrow> bu_expected_storage b = bes_inner (px_bundle_expected_storage d)"
    using e to_ops_per_aggregator_ops [of d]
    by (auto simp: empty_bundle_def full_bundle_def bundle_iter_ops_def bundle_default_def)
qed

end
