(* ===== verification/Fee_Estimator.thy ===== *)
theory Fee_Estimator
  imports User_Op_Types Lru Gas_Fees "HOL-Library.Monad_Syntax"
begin

text \<open>
  The estimate of the fees of the next bundle, \<open>crates/provider/src/fees/mod.rs\<close> and
  \<open>fees/oracle.rs\<close>: oracles for the priority fee and the estimator that adds the configured
  overheads to what they report and remembers the report per block.

  The answers of the node are the record \<open>fee_node\<close>.  \<open>None\<close> is a panic: \<open>clamp\<close> with a minimum
  above the maximum.
\<close>

section \<open>Oracles of the priority fee\<close>

record fee_history =
  fh_gas_used_ratio :: "f64 list"
  fh_reward :: "u128 list list option"

record fee_node =
  fn_get_pending_base_fee :: "string + u128"
  fn_fee_history :: "u64 \<Rightarrow> f64 \<Rightarrow> string + fee_history"
  fn_get_max_priority_fee :: "string + u128"

datatype fee_oracle_error = NoOracle | FO_Other string

record usage_based_fee_oracle_config =
  ub_minimum_fee :: u128
  ub_maximum_fee :: u128
  ub_congestion_trigger_usage_ratio_threshold :: f64
  ub_congestion_trigger_num_blocks :: u64
  ub_congestion_fee_percentile :: f64

record fee_history_oracle_config =
  fho_blocks_history :: u64
  fho_percentile :: f64
  fho_minimum_fee :: u128
  fho_maximum_fee :: u128

datatype fee_oracle =
  UsageBasedFeeOracle usage_based_fee_oracle_config
  | FeeHistoryOracle fee_history_oracle_config
  | ProviderOracle u128
  | MaxOracle "fee_oracle list"
  | ConstantOracle u128

definition usage_based_fee_oracle_config_default :: usage_based_fee_oracle_config where
  "usage_based_fee_oracle_config_default =
     \<lparr>ub_minimum_fee = 0, ub_maximum_fee = - 1,
      ub_congestion_trigger_usage_ratio_threshold = Fin (3 / 4),
      ub_congestion_trigger_num_blocks = 5, ub_congestion_fee_percentile = Fin 33\<rparr>"

definition fee_history_oracle_config_default :: fee_history_oracle_config where
  "fee_history_oracle_config_default =
     \<lparr>fho_blocks_history = 15, fho_percentile = Fin 50, fho_minimum_fee = 0, fho_maximum_fee = - 1\<rparr>"

definition get_fee_oracle :: "chain_spec \<Rightarrow> fee_oracle" where
  "get_fee_oracle cs =
     (if \<not> cs_eip1559_enabled cs then ConstantOracle 0
      else (case cs_priority_fee_oracle_type cs of
              Provider \<Rightarrow> ProviderOracle (ucast (cs_min_max_priority_fee_per_gas cs))
            | UsageBased \<Rightarrow>
                UsageBasedFeeOracle
                  (usage_based_fee_oracle_config_default
                    \<lparr>ub_minimum_fee := ucast (cs_min_max_priority_fee_per_gas cs),
                     ub_maximum_fee := ucast (cs_max_max_priority_fee_per_gas cs),
                     ub_congestion_trigger_usage_ratio_threshold :=
                       cs_congestion_trigger_usage_ratio_threshold cs\<rparr>)))"

definition f64_ge :: "f64 \<Rightarrow> f64 \<Rightarrow> bool" where
  "f64_ge x y \<longleftrightarrow> x \<noteq> NaN \<and> y \<noteq> NaN \<and> \<not> f64_less x y"

definition clamp :: "u128 \<Rightarrow> u128 \<Rightarrow> u128 \<Rightarrow> u128 option" where
  "clamp x lo hi = (if lo > hi then None else Some (if x < lo then lo else if x > hi then hi else x))"

text \<open>The first reward of every block that has one.\<close>

definition first_rewards :: "u128 list list \<Rightarrow> u128 list" where
  "first_rewards reward = map hd (filter (\<lambda>b. b \<noteq> [] \<and> hd b \<noteq> 0) reward)"

definition saturating_sum :: "u128 list \<Rightarrow> u128" where
  "saturating_sum xs = fold (\<lambda>x acc. saturating_add acc x) xs 0"

definition calculate_estimate_from_rewards :: "u128 list list \<Rightarrow> u128" where
  "calculate_estimate_from_rewards reward =
     (let values = sort (first_rewards reward); n = length values
      in if values = [] then 0
         else let (start, end') = (if n < 4 then (0, n) else (n div 4, 3 * n div 4))
              in if start = end' then values ! start
                 else saturating_sum (take (end' - start) (drop start values)) div of_nat (end' - start))"

definition usage_based_estimate ::
  "fee_node \<Rightarrow> usage_based_fee_oracle_config \<Rightarrow> (fee_oracle_error + u128) option" where
  "usage_based_estimate nd config =
     (case fn_fee_history nd (ub_congestion_trigger_num_blocks config) (ub_congestion_fee_percentile config) of
        Inl e \<Rightarrow> Some (Inl (FO_Other e))
      | Inr history \<Rightarrow>
          if \<not> (\<forall>x\<in>set (fh_gas_used_ratio history).
                  f64_ge x (ub_congestion_trigger_usage_ratio_threshold config))
          then Some (Inr (ub_minimum_fee config))
          else (case fh_reward history of
                  None \<Rightarrow> Some (Inr 0)
                | Some reward \<Rightarrow>
                    (let values = first_rewards reward
                     in if values = [] then Some (Inr (ub_minimum_fee config))
                        else map_option Inr
                               (clamp (saturating_sum values div of_nat (length values))
                                 (ub_minimum_fee config) (ub_maximum_fee config)))))"

definition fee_history_estimate ::
  "fee_node \<Rightarrow> fee_history_oracle_config \<Rightarrow> (fee_oracle_error + u128) option" where
  "fee_history_estimate nd config =
     (case fn_fee_history nd (fho_blocks_history config) (fho_percentile config) of
        Inl e \<Rightarrow> Some (Inl (FO_Other e))
      | Inr history \<Rightarrow>
          (case fh_reward history of
             None \<Rightarrow> Some (Inr 0)
           | Some reward \<Rightarrow>
               map_option Inr
                 (clamp (calculate_estimate_from_rewards reward)
                   (fho_minimum_fee config) (fho_maximum_fee config))))"

fun estimate_priority_fee :: "fee_node \<Rightarrow> fee_oracle \<Rightarrow> (fee_oracle_error + u128) option"
  and estimate_priority_fees :: "fee_node \<Rightarrow> fee_oracle list \<Rightarrow> u128 list option" where
  "estimate_priority_fee nd (UsageBasedFeeOracle config) = usage_based_estimate nd config"
| "estimate_priority_fee nd (FeeHistoryOracle config) = fee_history_estimate nd config"
| "estimate_priority_fee nd (ProviderOracle min_max_fee_per_gas) =
     Some (case fn_get_max_priority_fee nd of
             Inl e \<Rightarrow> Inl (FO_Other e)
           | Inr fee \<Rightarrow> Inr (max fee min_max_fee_per_gas))"
| "estimate_priority_fee nd (MaxOracle oracles) =
     do {
       values \<leftarrow> estimate_priority_fees nd oracles;
       Some (if values = [] then Inl NoOracle else Inr (fold max values 0))
     }"
| "estimate_priority_fee nd (ConstantOracle fee) = Some (Inr fee)"
| "estimate_priority_fees nd [] = Some []"
| "estimate_priority_fees nd (o' # os) =
     do {
       r \<leftarrow> estimate_priority_fee nd o';
       rs \<leftarrow> estimate_priority_fees nd os;
       Some (case r of Inr v \<Rightarrow> v # rs | Inl _ \<Rightarrow> rs)
     }"

section \<open>The estimator\<close>

record cache_entry =
  ce_base_fee :: u128
  ce_priority_fee :: u128

record 'l fee_estimator =
  fe_priority_fee_mode :: priority_fee_mode
  fe_bundle_base_fee_overhead_percent :: u32
  fe_bundle_priority_fee_overhead_percent :: u32
  fe_fee_oracle :: fee_oracle
  fe_cache :: 'l

type_synonym 'l fee_cache_ops = "('l, b256, cache_entry) lru_ops"

definition fee_estimator_new ::
  "'l fee_cache_ops \<Rightarrow> fee_oracle \<Rightarrow> priority_fee_mode \<Rightarrow> u32 \<Rightarrow> u32 \<Rightarrow> 'l fee_estimator" where
  "fee_estimator_new ops orc mode base_pct prio_pct =
     \<lparr>fe_priority_fee_mode = mode, fe_bundle_base_fee_overhead_percent = base_pct,
      fe_bundle_priority_fee_overhead_percent = prio_pct, fe_fee_oracle = orc,
      fe_cache = lru_new ops 128\<rparr>"

definition new_fee_estimator ::
  "'l fee_cache_ops \<Rightarrow> chain_spec \<Rightarrow> priority_fee_mode \<Rightarrow> u32 \<Rightarrow> u32 \<Rightarrow> 'l fee_estimator" where
  "new_fee_estimator ops cs mode base_pct prio_pct =
     fee_estimator_new ops (get_fee_oracle cs) mode base_pct prio_pct"

definition calc_bundle_fees ::
  "'l fee_estimator \<Rightarrow> u128 \<Rightarrow> u128 \<Rightarrow> gas_fees option \<Rightarrow> gas_fees \<times> u128" where
  "calc_bundle_fees fe base_fee priority_fee min_fees =
     (let base_fee = increase_by_percent base_fee (fe_bundle_base_fee_overhead_percent fe);
          priority_fee = increase_by_percent priority_fee (fe_bundle_priority_fee_overhead_percent fe);
          required = (case min_fees of Some f \<Rightarrow> f | None \<Rightarrow> gas_fees_default);
          max_priority_fee_per_gas = max (gf_max_priority_fee_per_gas required) priority_fee;
          max_fee_per_gas = max (gf_max_fee_per_gas required) (base_fee + max_priority_fee_per_gas)
      in (\<lparr>gf_max_fee_per_gas = max_fee_per_gas, gf_max_priority_fee_per_gas = max_priority_fee_per_gas\<rparr>,
          base_fee))"

text \<open>The two requests that are joined; of two errors that of the base fee is reported.\<close>

definition report_fees :: "fee_node \<Rightarrow> fee_oracle \<Rightarrow> (string + u128 \<times> u128) option" where
  "report_fees nd orc =
     do {
       priority \<leftarrow> estimate_priority_fee nd orc;
       Some (case (fn_get_pending_base_fee nd, priority) of
               (Inl e, _) \<Rightarrow> Inl e
             | (Inr base_fee, Inl e) \<Rightarrow> Inl ''should get priority fee''
             | (Inr base_fee, Inr priority_fee) \<Rightarrow> Inr (base_fee, priority_fee))
     }"

definition latest_bundle_fees ::
  "fee_node \<Rightarrow> 'l fee_estimator \<Rightarrow> (string + gas_fees \<times> u128) option" where
  "latest_bundle_fees nd fe =
     do {
       r \<leftarrow> report_fees nd (fe_fee_oracle fe);
       Some (case r of
               Inl e \<Rightarrow> Inl e
             | Inr (base_fee, priority_fee) \<Rightarrow> Inr (calc_bundle_fees fe base_fee priority_fee None))
     }"

definition required_bundle_fees ::
  "'l fee_cache_ops \<Rightarrow> fee_node \<Rightarrow> 'l fee_estimator \<Rightarrow> b256 \<Rightarrow> gas_fees option \<Rightarrow>
     ('l fee_estimator \<times> (string + gas_fees \<times> u128)) option" where
  "required_bundle_fees ops nd fe block_hash min_fees =
     (case lru_peek ops (fe_cache fe) block_hash of
        Some entry \<Rightarrow>
          Some (fe\<lparr>fe_cache := lru_update ops (fe_cache fe) block_hash (\<lambda>e. e)\<rparr>,
                Inr (calc_bundle_fees fe (ce_base_fee entry) (ce_priority_fee entry) min_fees))
      | None \<Rightarrow>
          do {
            r \<leftarrow> report_fees nd (fe_fee_oracle fe);
            Some (case r of
                    Inl e \<Rightarrow> (fe, Inl e)
                  | Inr (base_fee, priority_fee) \<Rightarrow>
                      (fe\<lparr>fe_cache := lru_insert ops (fe_cache fe) block_hash
                            \<lparr>ce_base_fee = base_fee, ce_priority_fee = priority_fee\<rparr>\<rparr>,
                       Inr (calc_bundle_fees fe base_fee priority_fee min_fees)))
          })"

definition required_op_fees :: "'l fee_estimator \<Rightarrow> gas_fees \<Rightarrow> gas_fees" where
  "required_op_fees fe bundle_fees = required_fees (fe_priority_fee_mode fe) bundle_fees"

section \<open>Facts\<close>

lemma calc_bundle_fees_covers:
  "calc_bundle_fees fe base prio (Some required) = (fees, base') \<Longrightarrow> fees_cover fees required"
  by (auto simp: calc_bundle_fees_def fees_cover_def Let_def)

lemma required_bundle_fees_covers:
  assumes "required_bundle_fees ops nd fe h (Some required) = Some (fe', Inr (fees, base))"
  shows "fees_cover fees required"
proof (cases "lru_peek ops (fe_cache fe) h")
  case None
  with assms obtain r where "report_fees nd (fe_fee_oracle fe) = Some r"
    by (auto simp: required_bundle_fees_def bind_eq_Some_conv)
  with assms None show ?thesis
    by (cases r) (auto simp: required_bundle_fees_def dest: calc_bundle_fees_covers)
next
  case (Some entry)
  with assms show ?thesis
    by (auto simp: required_bundle_fees_def dest: calc_bundle_fees_covers)
qed

end
