(* ===== verification/Fee_Source.thy ===== *)
theory Fee_Source
  imports Bundle_Pipeline Fee_Estimator Transaction_Tracker
begin

text \<open>
  The source of the fees of a bundle, as the proposer and the tracker rely on it, and the fee
  estimator as such a source.
\<close>

text \<open>A source of fees for the next bundle honours the fees that a replacement needs.\<close>

locale fee_source =
  fixes source :: "'s \<Rightarrow> b256 \<Rightarrow> gas_fees option \<Rightarrow> string + gas_fees \<times> u128"
  assumes covers: "source s h (Some required) = Inr (fees, base_fee) \<Longrightarrow> fees_cover fees required"
begin

lemma estimate_covers:
  assumes "pe_required_bundle_fees env = source s"
    "estimate_gas_fees env bh (Some required) = Inr (fees, base_fee)"
  shows "fees_cover fees required"
proof (cases "source s bh (Some required)")
  case (Inr r)
  with assms have "source s bh (Some required) = Inr (fees, base_fee)" by (simp add: estimate_gas_fees_def)
  then show ?thesis by (rule covers)
qed (use assms in \<open>simp add: estimate_gas_fees_def\<close>)

text \<open>The transaction of a bundle that was made for the state of the tracker is accepted by it.\<close>

lemma bundle_validates:
  assumes "pe_required_bundle_fees env = source s"
    "made_from env p ops bh (ts_required_fees (get_state t)) repl b"
    "trq_max_fee_per_gas tx = Some (gf_max_fee_per_gas (bu_gas_fees b))"
    "trq_max_priority_fee_per_gas tx = Some (gf_max_priority_fee_per_gas (bu_gas_fees b))"
    "trq_nonce tx = Some (ts_nonce (get_state t))"
  shows "validate_transaction t tx = Inr ()"
proof (cases "ts_required_fees (get_state t)")
  case None
  with assms(5) show ?thesis by (simp add: validate_transaction_def Let_def)
next
  case (Some required)
  from assms(2) obtain fees base_fee balances d xs where m:
    "estimate_gas_fees env bh (Some required) = Inr (fees, base_fee)" "proposal_ok env balances xs d"
    "is_bundle fees d b"
    unfolding made_from_def Some by blast
  have "bu_gas_fees b = fees"
    using is_bundle_fields(3) [OF m(3)] m(2) by (simp add: proposal_ok_def)
  with estimate_covers [OF assms(1) m(1)] assms(3-5) Some show ?thesis
    by (simp add: validate_transaction_def Let_def request_fees_def unwrap_or_def fees_cover_def not_less)
qed

end

text \<open>The estimator of the chain is such a source; a panic of it is an error here.\<close>

definition estimator_view ::
  "'l fee_cache_ops \<times> fee_node \<times> 'l fee_estimator \<Rightarrow> b256 \<Rightarrow> gas_fees option \<Rightarrow> string + gas_fees \<times> u128" where
  "estimator_view s h min_fees =
     (case s of (ops, nd, fe) \<Rightarrow>
        case required_bundle_fees ops nd fe h min_fees of
          Some (_, r) \<Rightarrow> r
        | None \<Rightarrow> Inl ''panic'')"

interpretation fsrc: fee_source estimator_view
proof
  fix s :: "'a fee_cache_ops \<times> fee_node \<times> 'a fee_estimator" and h required fees base_fee
  assume v: "estimator_view s h (Some required) = Inr (fees, base_fee)"
  obtain ops nd fe where s: "s = (ops, nd, fe)" by (cases s)
  from v obtain fe' where "required_bundle_fees ops nd fe h (Some required) = Some (fe', Inr (fees, base_fee))"
    by (auto simp: estimator_view_def s split: option.splits)
  then show "fees_cover fees required" by (rule required_bundle_fees_covers)
qed

end
