(* ===== verification/Pool_Held.thy ===== *)
theory Pool_Held
  imports Pool_Liveness Uo_Pool_Steps
begin

text \<open>
  Where the operations of a pool come from: no step of the pool makes one up, so what holds of every
  operation that is added holds of every operation that is stored or remembered as mined.
\<close>

declare forget_mined_operations_before_block.simps [simp del]

section \<open>The pool\<close>

definition holds :: "(pool_operation \<Rightarrow> bool) \<Rightarrow> pool_inner \<Rightarrow> bool" where
  "holds Q p \<longleftrightarrow> (\<forall>op\<in>pool_handles p. Q (oo_po op))"

lemma holds_mono: "holds Q p \<Longrightarrow> pool_handles p' \<subseteq> pool_handles p \<Longrightarrow> holds Q p'"
  by (auto simp: holds_def)

lemma holds_stored: "holds Q p \<Longrightarrow> get_operation_by_hash p h = Some po \<Longrightarrow> Q po"
  by (auto simp: holds_def get_operation_by_hash_def pool_handles_def ran_def)

lemma holds_remove: "holds Q p \<Longrightarrow> holds Q (fst (remove_operation_internal p h bn))"
proof (cases "pi_by_hash p h")
  case (Some op)
  assume "holds Q p"
  from holds_mono [OF this remove_operation_internal_mined_subset [OF Some]] show ?thesis .
qed (simp add: remove_operation_internal_def)

lemma holds_remove_all:
  "holds Q p \<Longrightarrow> holds Q (fold (\<lambda>h p. fst (remove_operation_internal p h None)) hs p)"
  by (induction hs arbitrary: p) (simp_all add: holds_remove)

lemma holds_frame [simp]:
  "holds Q (p\<lparr>pi_events := es\<rparr>) = holds Q p"
  "holds Q (p\<lparr>pi_prev_block_number := n\<rparr>) = holds Q p"
  "holds Q (p\<lparr>pi_preconfirmed_uos_bundle_mapping := m\<rparr>) = holds Q p"
  "holds Q (p\<lparr>pi_preconfiemed_uos_at_block_number := mb\<rparr>) = holds Q p"
  "holds Q (p\<lparr>pi_cache_size := c\<rparr>) = holds Q p"
  "holds Q (p\<lparr>pi_best := b\<rparr>) = holds Q p"
  by (simp_all add: holds_def pool_handles_def)

lemma holds_uncached: "holds Q p \<Longrightarrow> holds Q (uncached p h n)"
  by (rule holds_mono) (auto simp: uncached_def pool_handles_def ran_def)

lemma holds_insert: "holds Q p \<Longrightarrow> Q (oo_po op) \<Longrightarrow> holds Q (insert_operation p op)"
  using insert_handles [of p op] by (auto simp: holds_def)

lemma holds_replaced: "holds Q p \<Longrightarrow> holds Q (replaced p i)"
  by (simp add: replaced_def remove_operation_by_hash_def holds_remove split: option.splits)

lemma holds_evicted: "evicted p p' removed \<Longrightarrow> holds Q p \<Longrightarrow> holds Q p'"
  by (rule holds_mono, assumption)
    (auto simp: evicted_def pool_handles_def ran_def split: if_splits)

lemma holds_add_internal:
  assumes "add_operation_internal p op = Some (p', res)" "pool_inv p" "fresh_op p op" "holds Q p" "Q (oo_po op)"
  shows "holds Q p'"
  using assms(1-3)
proof (cases rule: add_operation_internal_cases)
  case (stored r q removed)
  have "holds Q q" using assms(4,5) by (simp add: stored(2) holds_insert holds_replaced)
  then show ?thesis using holds_evicted [OF stored(6)] by simp
qed (use assms in simp)

lemma holds_maintain_op:
  "pool_handles (fst (maintain_op al now ts data fees base_fee h s)) = pool_handles (fst s)"
proof -
  obtain q expired events where s: "s = (q, expired, events)" by (metis prod_cases3)
  show ?thesis
    by (simp add: s maintain_op_def Let_def split: option.split)
qed

lemma holds_maintain:
  "pool_handles (fst (fold (maintain_op al now ts data fees base_fee) hs s)) = pool_handles (fst s)"
  by (induction hs arbitrary: s) (simp_all add: holds_maintain_op)

lemma holds_maintenance:
  assumes "holds Q p"
  shows "holds Q (do_maintenance al p order now n ts data fees base_fee)"
proof -
  obtain q expired events where q: "fold (maintain_op al now ts data fees base_fee) order
      (p\<lparr>pi_best := []\<rparr>, [], []) = (q, expired, events)" by (metis prod_cases3)
  have "holds Q q"
    using assms holds_maintain [of al now ts data fees base_fee order "(p\<lparr>pi_best := []\<rparr>, [], [])"]
    by (simp add: q holds_def)
  then have "holds Q (fold (\<lambda>h p. fst (remove_operation_internal p h None)) expired q)"
    by (rule holds_remove_all)
  then show ?thesis by (simp add: do_maintenance_def q emit_all remove_operation_by_hash_def Let_def)
qed

lemma holds_forget: "holds Q p \<Longrightarrow> holds Q (forget_mined_operations_before_block p n)"
proof (induction "length (pi_mined_hashes_with_block_numbers p)" arbitrary: p rule: less_induct)
  case less
  have "holds Q (forget_mined_operations_before_block (forget_first p bn h) n)"
    if "pi_mined_hashes_with_block_numbers p = (bn, h) # rest" for bn h rest
    by (rule less.hyps)
      (use that less.prems in \<open>simp_all add: forget_first_hashes forget_first_def holds_uncached\<close>,
        simp add: uncached_def)
  then show ?case using less.prems by (auto simp: forget_unfold [of p] split: list.splits)
qed

lemma holds_preconfirm: "holds Q p \<Longrightarrow> holds Q (preconfirm_txns p txns)"
  unfolding preconfirm_txns_def
  by (rule fold_inv [of "holds Q"]) (auto intro!: fold_inv [of "holds Q"])

lemma holds_outdated: "holds Q p \<Longrightarrow> holds Q (remove_out_of_date_preconfirmed_uos p order n)"
  unfolding remove_out_of_date_preconfirmed_uos_def Let_def holds_frame
  by (rule fold_inv [of "holds Q"]) (auto split: option.splits)

lemma prepared_holds:
  assumes "prepared p po base_fee required_pvg now = (q, op)"
  shows "pool_handles q = pool_handles p" "oo_po op = po"
  using assms by (auto simp: prepared_def pool_handles_def Let_def split: if_splits)

lemma pool_step_holds: "pool_step Q p p' \<Longrightarrow> pool_inv p \<Longrightarrow> holds Q p \<Longrightarrow> holds Q p'"
proof (induction rule: pool_step.induct)
  case (add p po base_fee required_pvg now p' res)
  obtain q op where q: "prepared p po base_fee required_pvg now = (q, op)"
    by (cases "prepared p po base_fee required_pvg now")
  from add(5) have "holds Q q" by (simp add: holds_def prepared_holds [OF q])
  then show ?case
    using add holds_add_internal prepared_inv [OF add(4,2) q] prepared_holds [OF q]
    by (simp add: pool_add_operation_prepared q)
next
  case (unmine p m p' r)
  from unmine(1) show ?case
  proof (cases rule: unmine_operation_cases)
    case (known op n res)
    then have "op \<in> pool_handles p" by (force simp: pool_handles_def ran_def)
    then have "Q (oo_po op)" using unmine(3) by (simp add: holds_def)
    then show ?thesis
      using holds_add_internal [OF known(2)] uncached_inv uncached_fresh known(1) unmine(2,3) holds_uncached
      by blast
  qed (simp add: unmine)
qed (simp_all add: remove_operation_by_hash_def holds_remove mine_operation_def
    pool_throttle_entity_def pool_remove_entity_def holds_remove_all holds_forget
    holds_preconfirm preconfirm_txns_at_block_number_def holds_outdated
    holds_maintenance Let_def split: option.splits,
   simp add: holds_def pool_clear_def pool_handles_def)

section \<open>The mempool\<close>

lemma component_steps_holds:
  assumes "component_steps Q s s'" "pool_inv (up_pool s)" "holds Q (up_pool s)"
  shows "holds Q (up_pool s')"
proof -
  have "pool_inv q \<and> holds Q q" if "(pool_step Q)\<^sup>*\<^sup>* p q" "pool_inv p" "holds Q p" for p q
    using that by (induction rule: rtranclp_induct) (auto intro: pool_step_inv pool_step_holds)
  with assms show ?thesis by (auto simp: component_steps_def)
qed

lemma mempool_step_holds:
  assumes "mempool_step C ops s s'" "pool_inv (up_pool s)" "validates C Q s" "holds Q (up_pool s)"
  shows "pool_inv (up_pool s')" "holds Q (up_pool s')" "up_config s' = up_config s"
proof -
  note c = mempool_step_components [OF assms(1-3)]
  show "pool_inv (up_pool s')" by (rule cs_inv [OF c assms(2)])
  show "holds Q (up_pool s')" by (rule component_steps_holds [OF c assms(2,4)])
  show "up_config s' = up_config s" using c by (simp add: component_steps_def)
qed

end
