(* ===== verification/Pool_Server_Steps.thy ===== *)
theory Pool_Server_Steps
  imports Pool_Server Uo_Pool_Theorems Pool_Held
begin

text \<open>
  Facts on the pool server: which mempools a request may write, that every mempool only takes steps
  of its own, and the states a server reaches.
\<close>

section \<open>Writing one mempool\<close>

text \<open>The entry points whose mempool a request may change.\<close>

fun request_writes :: "server_request_kind \<Rightarrow> address \<Rightarrow> bool" where
  "request_writes (Req_AddOp a op perms origin) ep \<longleftrightarrow> a = ep"
| "request_writes (Req_RemoveOps a hashes) ep \<longleftrightarrow> a = ep"
| "request_writes (Req_RemoveOpById a uid) ep \<longleftrightarrow> a = ep"
| "request_writes (Req_UpdateEntities a updates) ep \<longleftrightarrow> a = ep"
| "request_writes (Req_AdminSetTracking a p r) ep \<longleftrightarrow> a = ep"
| "request_writes (Req_DebugSetReputations a rs) ep \<longleftrightarrow> a = ep"
| "request_writes (Req_DebugClearState m r p) ep \<longleftrightarrow> True"
| "request_writes _ ep \<longleftrightarrow> False"

text \<open>
  \<open>pools_step R xs ys\<close>: the same entry points in the same order, and the mempool of each is either
  untouched or related by \<open>R\<close>.
\<close>

definition pools_step ::
  "(address \<Rightarrow> 'l uo_pool \<Rightarrow> 'l uo_pool \<Rightarrow> bool) \<Rightarrow> (address \<times> 'l uo_pool) list \<Rightarrow> (address \<times> 'l uo_pool) list \<Rightarrow> bool" where
  "pools_step R xs ys \<longleftrightarrow>
     list_all2 (\<lambda>(a, m) (b, n). a = b \<and> (m = n \<or> R a m n)) xs ys"

lemma pools_step_refl [simp]: "pools_step R xs xs"
  by (simp add: pools_step_def list.rel_refl case_prod_beta)

lemma pools_step_mono: "pools_step R xs ys \<Longrightarrow> (\<And>a m n. R a m n \<Longrightarrow> S a m n) \<Longrightarrow> pools_step S xs ys"
  unfolding pools_step_def by (erule list_all2_mono) auto

lemma pools_step_keys: "pools_step R xs ys \<Longrightarrow> map fst ys = map fst xs"
  unfolding pools_step_def by (induction rule: list_all2_induct) auto

lemma pools_step_mem:
  "pools_step R xs ys \<Longrightarrow> (a, n) \<in> set ys \<Longrightarrow> \<exists>m. (a, m) \<in> set xs \<and> (m = n \<or> R a m n)"
  unfolding pools_step_def by (induction rule: list_all2_induct) auto

lemma pools_step_map_of:
  "pools_step (\<lambda>a m n. P a) xs ys \<Longrightarrow> \<not> P ep \<Longrightarrow> map_of ys ep = map_of xs ep"
  unfolding pools_step_def by (induction rule: list_all2_induct) auto

lemma pools_step_put:
  assumes "distinct (map fst (srv_mempools srv))" "get_pool srv ep = Inr m" "R ep m n"
  shows "pools_step R (srv_mempools srv) (srv_mempools (put_pool srv ep n))"
proof -
  have "(a, x) \<in> set (srv_mempools srv) \<Longrightarrow> a = ep \<Longrightarrow> x = m" for a x
    using assms(1,2) by (auto simp: get_pool_def split: option.splits)
  with assms(3) show ?thesis
    unfolding pools_step_def put_pool_def by (auto simp: list.rel_map intro!: list.rel_refl_strong)
qed

lemma pools_step_map:
  assumes "\<And>a m. R a m (f m)"
  shows "pools_step R xs (map (\<lambda>(a, m). (a, f m)) xs)"
  unfolding pools_step_def using assms by (auto simp: list.rel_map intro!: list.rel_refl_strong)

section \<open>Requests\<close>

definition has_room :: "'l pool_server \<Rightarrow> bool" where
  "has_room srv \<longleftrightarrow>
     (\<forall>(a, m)\<in>set (srv_mempools srv). unat (pi_submission_id (up_pool m)) + 1 < 2 ^ 62)"

text \<open>
  The server hands an operation to a mempool only when it has the version of its entry point.  \<open>K\<close>
  is what is known of the environments in which requests are handled.
\<close>

definition admissible ::
  "(environment \<Rightarrow> bool) \<Rightarrow> 'l uo_pool \<Rightarrow> environment \<Rightarrow> user_operation_variant \<Rightarrow> bool" where
  "admissible K m env op \<longleftrightarrow> K env \<and> version_of op = pcf_entry_point_version (up_config m)"

definition served_steps ::
  "(environment \<Rightarrow> bool) \<Rightarrow> 'l balances_ops \<Rightarrow> 'l uo_pool \<Rightarrow> 'l uo_pool \<Rightarrow> bool" where
  "served_steps K ops m n \<longleftrightarrow> (mempool_step (admissible K m) ops)\<^sup>*\<^sup>* m n"

lemma served_stepI: "mempool_step (admissible K m) ops m n \<Longrightarrow> served_steps K ops m n"
  by (simp add: served_steps_def r_into_rtranclp)

lemma update_entities_steps:
  "update_entities_loop env us m = Some m' \<Longrightarrow> (mempool_step C ops)\<^sup>*\<^sup>* m m'"
  by (induction env us m rule: update_entities_loop.induct)
     (auto split: option.splits intro: converse_rtranclp_into_rtranclp mempool_step.update_entity)

lemma set_reputations_steps:
  "(mempool_step C ops)\<^sup>*\<^sup>* m
     (fold (\<lambda>rep m. up_set_reputation m (rep_address rep) (rep_ops_seen rep) (rep_ops_included rep)) rs m)"
  by (induction rs arbitrary: m)
     (auto intro: converse_rtranclp_into_rtranclp mempool_step.set_reputation)

lemma add_op_steps:
  assumes "distinct (map fst (srv_mempools srv))" "has_room srv" "K (ctx_env ctx ep)"
    "srv_add_op ops ctx srv ep op perms origin = Some (srv', r)"
  shows "pools_step (\<lambda>a m n. a = ep \<and> served_steps K ops m n) (srv_mempools srv) (srv_mempools srv')"
proof (cases "get_pool srv ep")
  case (Inr m)
  then have "(ep, m) \<in> set (srv_mempools srv)" by (auto simp: get_pool_def split: option.splits dest: map_of_SomeD)
  with assms(2) have id: "unat (pi_submission_id (up_pool m)) + 1 < 2 ^ 62" by (auto simp: has_room_def)
  have step: "served_steps K ops m n"
    if "up_add_operation al ops (ctx_env ctx ep) now m origin op perms = Some (n, q)"
      "pcf_entry_point_version (up_config m) = version_of op" for al now n q
    using mempool_step.add [OF that(1) id, of "admissible K m"] that(2) assms(3)
    by (auto simp: admissible_def intro: served_stepI)
  show ?thesis
    using assms(4) Inr step pools_step_put [OF assms(1) Inr]
    by (auto simp: srv_add_op_def Let_def split: if_splits option.splits sum.splits)
qed (use assms in \<open>simp add: srv_add_op_def\<close>)

lemma handle_request_steps:
  assumes "distinct (map fst (srv_mempools srv))" "has_room srv" "\<And>a. K (ctx_env ctx a)"
    "handle_request ops ctx srv req = Some (srv', r)"
  shows "pools_step (\<lambda>a. served_steps K ops) (srv_mempools srv) (srv_mempools srv')"
proof -
  note put = pools_step_put [OF assms(1), where R = "\<lambda>a. served_steps K ops"]
  show ?thesis
  proof (cases req)
    case (Req_AddOp ep op perms origin)
    with assms(4) obtain q where "srv_add_op ops ctx srv ep op perms origin = Some (srv', q)" by auto
    from add_op_steps [of srv K ctx ep, OF assms(1,2) assms(3) this] show ?thesis by (auto elim: pools_step_mono)
  next
    case (Req_RemoveOps ep hashes)
    with assms(4) put [of ep] served_stepI [of K _ ops, OF mempool_step.remove] show ?thesis
      by (auto simp: srv_remove_ops_def split: sum.splits)
  next
    case (Req_RemoveOpById ep uid)
    have "served_steps K ops m n" if "up_remove_op_by_id m uid = (n, q)" for m n q
      using served_stepI [OF mempool_step.remove_by_id [of "admissible K m" ops m uid]] that by simp
    with Req_RemoveOpById assms(4) put [of ep] show ?thesis
      by (auto simp: srv_remove_op_by_id_def split: sum.splits prod.splits)
  next
    case (Req_UpdateEntities ep us)
    show ?thesis
    proof (cases "get_pool srv ep")
      case (Inr m)
      with Req_UpdateEntities assms(4) obtain n
        where "update_entities_loop (ctx_env ctx ep) us m = Some n" "srv' = put_pool srv ep n"
        by (auto simp: srv_update_entities_def)
      then show ?thesis by (auto simp: served_steps_def intro!: put [OF Inr] update_entities_steps)
    qed (use Req_UpdateEntities assms(4) in \<open>simp add: srv_update_entities_def\<close>)
  next
    case (Req_AdminSetTracking ep p q)
    with assms(4) put [of ep] served_stepI [of K _ ops, OF mempool_step.set_tracking] show ?thesis
      by (auto simp: srv_admin_set_tracking_def split: sum.splits)
  next
    case (Req_DebugSetReputations ep rs)
    with assms(4) show ?thesis
      by (auto simp: srv_debug_set_reputations_def served_steps_def split: sum.splits
          intro!: put set_reputations_steps)
  next
    case (Req_DebugClearState m q p)
    with assms(4) show ?thesis
      by (auto simp: srv_debug_clear_state_def intro!: pools_step_map served_stepI mempool_step.clear)
  qed (use assms(4) in auto)
qed

section \<open>Updates of the chain\<close>

lemma update_pools_steps:
  "update_pools ops ctx u xs = Some ys \<Longrightarrow>
     list_all2 (\<lambda>(a, m) (b, n). a = b \<and>
       on_chain_update (ctx_alloy ctx) ops (ctx_env ctx a) (ctx_now ctx) m u = Some n) xs ys"
  by (induction ops ctx u xs arbitrary: ys rule: update_pools.induct) (auto split: option.splits)

lemma srv_chain_update_steps:
  assumes "srv_chain_update ops ctx srv u = Some srv'"
  shows "list_all2 (\<lambda>(a, m) (b, n). a = b \<and>
      on_chain_update (ctx_alloy ctx) ops (ctx_env ctx a) (ctx_now ctx) m u = Some n)
    (srv_mempools srv) (srv_mempools srv')"
  using assms update_pools_steps by (fastforce simp: srv_chain_update_def split: option.splits)

lemma on_chain_update_block:
  assumes "mempool_reachable ops sizes config da s" "iterates_keys env"
    "cu_update_type u = Confirmed" "on_chain_update al ops env now s u = Some s'"
  shows "up_block_number s' = cu_latest_block_number u"
proof -
  note C = mempool_reachable_components [OF assms(1)]
  obtain s5 where s': "s' = finish_update al env now u (update_fees env u s5)"
    and steps: "component_steps (\<lambda>_. True) s (update_fees env u s5)"
    by (rule on_chain_update_confirmed [OF assms(4,3)])
  have "pool_inv (up_pool (update_fees env u s5))"
    using cs_inv [OF steps] C pool_reachable_inv by blast
  from finish_update_result(2) [OF assms(2) this, where al = al and now = now and u = u, folded s']
  show ?thesis by (auto simp: update_fees_def split: sum.splits)
qed

section \<open>Reachable servers\<close>

text \<open>
  A server starts with one new mempool per entry point and then handles requests and updates of the
  chain, in any order and in any environment that \<open>K\<close> allows; meanwhile the tasks of a mempool run
  any of its methods but \<open>add_operation\<close>.  It may stop to receive requests.
\<close>

inductive server_reachable_in ::
  "(environment \<Rightarrow> bool) \<Rightarrow> 'l balances_ops \<Rightarrow> type_sizes \<Rightarrow> (address \<Rightarrow> pool_config) \<Rightarrow>
     (address \<Rightarrow> da_gas_oracle option) \<Rightarrow> 'l pool_server \<Rightarrow> bool"
  for K :: "environment \<Rightarrow> bool" and ops :: "'l balances_ops" and sizes config da where
  start: "distinct (map fst pools) \<Longrightarrow>
          (\<And>a m. (a, m) \<in> set pools \<Longrightarrow>
             \<exists>t r mc. rep_reachable r \<and> m = uo_pool_new sizes (config a) (da a) t r mc) \<Longrightarrow>
          server_reachable_in K ops sizes config da
            \<lparr>srv_mempools = pools, srv_to_track = [], srv_new_heads = [], srv_open = True\<rparr>"
| request: "server_reachable_in K ops sizes config da srv \<Longrightarrow> has_room srv \<Longrightarrow>
          (\<And>a. K (ctx_env ctx a)) \<Longrightarrow> handle_request ops ctx srv req = Some (srv', r) \<Longrightarrow>
          server_reachable_in K ops sizes config da srv'"
| chain: "server_reachable_in K ops sizes config da srv \<Longrightarrow> (\<And>a. iterates_keys (ctx_env ctx a)) \<Longrightarrow>
          srv_chain_update ops ctx srv u = Some srv' \<Longrightarrow> server_reachable_in K ops sizes config da srv'"
| task: "server_reachable_in K ops sizes config da srv \<Longrightarrow> get_pool srv a = Inr m \<Longrightarrow>
          mempool_step (\<lambda>_ _. False) ops m n \<Longrightarrow> server_reachable_in K ops sizes config da (put_pool srv a n)"
| shutdown: "server_reachable_in K ops sizes config da srv \<Longrightarrow>
          server_reachable_in K ops sizes config da (srv\<lparr>srv_open := False\<rparr>)"

abbreviation server_reachable ::
  "'l balances_ops \<Rightarrow> type_sizes \<Rightarrow> (address \<Rightarrow> pool_config) \<Rightarrow> (address \<Rightarrow> da_gas_oracle option) \<Rightarrow>
     'l pool_server \<Rightarrow> bool" where
  "server_reachable \<equiv> server_reachable_in (\<lambda>_. True)"

lemma mempool_step_mono:
  "mempool_step C ops m n \<Longrightarrow> (\<And>env op. C env op \<Longrightarrow> D env op) \<Longrightarrow> mempool_step D ops m n"
  by (induction rule: mempool_step.induct) (auto intro: mempool_step.intros)

lemma server_reachable_weaken:
  "server_reachable_in K ops sizes config da srv \<Longrightarrow> server_reachable ops sizes config da srv"
  by (induction rule: server_reachable_in.induct) (auto intro: server_reachable_in.intros)

text \<open>Every step of a server is made of steps of its mempools.\<close>

lemma server_steps_induct [consumes 1, case_names start step]:
  assumes "server_reachable_in K ops sizes config da srv"
    "\<And>a t r mc. rep_reachable r \<Longrightarrow> P a (uo_pool_new sizes (config a) (da a) t r mc)"
    "\<And>a m n. P a m \<Longrightarrow> served_steps K ops m n \<Longrightarrow> P a n"
  shows "distinct (map fst (srv_mempools srv)) \<and> (\<forall>(a, m)\<in>set (srv_mempools srv). P a m)"
  using assms(1)
proof (induction rule: server_reachable_in.induct)
  case (start pools)
  then show ?case using assms(2) by fastforce
next
  case (request srv ctx req srv' r)
  then have s: "pools_step (\<lambda>a. served_steps K ops) (srv_mempools srv) (srv_mempools srv')"
    by (intro handle_request_steps) auto
  have "P a n" if n: "(a, n) \<in> set (srv_mempools srv')" for a n
    using pools_step_mem [OF s n] assms(3) request.IH by blast
  with pools_step_keys [OF s] request.IH show ?case by auto
next
  case (chain srv ctx u srv')
  from srv_chain_update_steps [OF chain.hyps(3)] chain.hyps(2)
  have s: "pools_step (\<lambda>a. served_steps K ops) (srv_mempools srv) (srv_mempools srv')"
    unfolding pools_step_def by (auto elim!: list_all2_mono intro: served_stepI mempool_step.update)
  have "P a n" if n: "(a, n) \<in> set (srv_mempools srv')" for a n
    using pools_step_mem [OF s n] assms(3) chain.IH by blast
  with pools_step_keys [OF s] chain.IH show ?case by auto
next
  case (task srv a m n)
  have "served_steps K ops m n" using mempool_step_mono [OF task.hyps(3)] by (intro served_stepI) blast
  with task.IH task.hyps(2)
  have s: "pools_step (\<lambda>a. served_steps K ops) (srv_mempools srv) (srv_mempools (put_pool srv a n))"
    by (intro pools_step_put) auto
  have "P b k" if k: "(b, k) \<in> set (srv_mempools (put_pool srv a n))" for b k
    using pools_step_mem [OF s k] assms(3) task.IH by blast
  with pools_step_keys [OF s] task.IH show ?case by auto
qed auto

lemma served_steps_reachable:
  assumes "served_steps K ops m n" "mempool_reachable ops sizes config da m"
  shows "mempool_reachable ops sizes config da n"
proof -
  have "(mempool_step (admissible K m) ops)\<^sup>*\<^sup>* k n \<Longrightarrow> mempool_reachable ops sizes config da k \<Longrightarrow>
      mempool_reachable ops sizes config da n" for k
    by (induction rule: rtranclp_induct) (auto intro: mempool_reachable.step mempool_step_mono)
  with assms show ?thesis by (simp add: served_steps_def)
qed

lemma server_mempools:
  assumes "server_reachable_in K ops sizes config da srv"
  shows "distinct (map fst (srv_mempools srv)) \<and>
    (\<forall>(a, m)\<in>set (srv_mempools srv). mempool_reachable ops sizes (config a) (da a) m)"
  using assms
  by (rule server_steps_induct [of K ops sizes config da srv "\<lambda>a. mempool_reachable ops sizes (config a) (da a)"])
    (auto intro: mempool_reachable.new served_steps_reachable)

section \<open>The operations of a server\<close>

text \<open>The simulator describes the paymaster of every operation that has one.\<close>

definition reports_paymasters :: "environment \<Rightarrow> bool" where
  "reports_paymasters env \<longleftrightarrow>
     (\<forall>op trusted h code_hash sim. env_simulate_validation env op trusted h code_hash = Inr sim \<longrightarrow>
        uo_paymaster op \<noteq> None \<longrightarrow> eis_paymaster (sr_entity_infos sim) \<noteq> None)"

definition proper :: "entry_point_version \<Rightarrow> pool_operation \<Rightarrow> bool" where
  "proper v po \<longleftrightarrow> version_of (po_uo po) = v \<and>
     (uo_paymaster (po_uo po) \<noteq> None \<longrightarrow> eis_paymaster (po_entity_infos po) \<noteq> None)"

lemma apply_aggregator_version: "apply_aggregator al cs op = Inr uo \<Longrightarrow> version_of uo = version_of op"
  by (cases op) (auto simp: apply_aggregator_def split: option.splits sum.splits)

lemma validate_operation_result:
  assumes "validate_operation env s op perms h n = Inr (po, pvg)"
  shows "\<exists>sim. env_simulate_validation env op (perm_trusted perms) h None = Inr sim \<and> po_uo po = op \<and>
    po_entity_infos po = sr_entity_infos sim"
  using assms
  by (auto simp: validate_operation_def simulate_and_check_def Let_def split: sum.splits if_splits)

lemma validates_proper:
  "validates (admissible reports_paymasters m) (proper (pcf_entry_point_version (up_config m))) s"
proof -
  have "proper (pcf_entry_point_version (up_config m)) po"
    if a: "admissible reports_paymasters m env op" "apply_aggregator al (pcf_chain_spec (up_config s)) op = Inr uo"
      "validate_operation env (s\<lparr>up_paymaster := t\<rparr>) uo perms h n = Inr (po, pvg)" for al env op uo t perms h n po pvg
  proof -
    obtain sim where sim: "env_simulate_validation env uo (perm_trusted perms) h None = Inr sim" "po_uo po = uo"
      "po_entity_infos po = sr_entity_infos sim"
      using validate_operation_result [OF a(3)] by blast
    with a(1) show ?thesis
      using apply_aggregator_version [OF a(2)] unfolding proper_def admissible_def reports_paymasters_def by metis
  qed
  then show ?thesis unfolding validates_def by blast
qed

lemma served_steps_proper:
  assumes "served_steps reports_paymasters ops m n" "pool_inv (up_pool m)"
    "holds (proper (pcf_entry_point_version (up_config m))) (up_pool m)"
  shows "holds (proper (pcf_entry_point_version (up_config m))) (up_pool n)"
proof -
  let ?Q = "proper (pcf_entry_point_version (up_config m))"
  have "(mempool_step (admissible reports_paymasters m) ops)\<^sup>*\<^sup>* k n \<Longrightarrow> pool_inv (up_pool k) \<and> holds ?Q (up_pool k) \<Longrightarrow>
      pool_inv (up_pool n) \<and> holds ?Q (up_pool n)" for k
    by (induction rule: rtranclp_induct) (auto dest: mempool_step_holds(1,2) [OF _ _ validates_proper])
  with assms show ?thesis by (simp add: served_steps_def)
qed

lemma server_proper:
  assumes "server_reachable_in reports_paymasters ops sizes config da srv" "get_pool srv ep = Inr m"
  shows "holds (proper (pcf_entry_point_version (config ep))) (up_pool m)"
proof -
  let ?P = "\<lambda>a m. mempool_reachable ops sizes (config a) (da a) m \<and>
    holds (proper (pcf_entry_point_version (config a))) (up_pool m)"
  have "distinct (map fst (srv_mempools srv)) \<and> (\<forall>(a, m)\<in>set (srv_mempools srv). ?P a m)"
    using assms(1)
  proof (rule server_steps_induct)
    fix a t r mc
    assume "rep_reachable r"
    then show "?P a (uo_pool_new sizes (config a) (da a) t r mc)"
      by (simp add: mempool_reachable.new) (simp add: holds_def uo_pool_new_def pool_new_def pool_handles_def)
  next
    fix a and m n :: "'a uo_pool"
    assume P: "?P a m" and s: "served_steps reports_paymasters ops m n"
    from P have c: "up_config m = config a" "pool_inv (up_pool m)"
      using mempool_reachable_components pool_reachable_inv by blast+
    from served_steps_proper [OF s c(2)] P served_steps_reachable [OF s] show "?P a n" by (simp add: c(1))
  qed
  with assms(2) show ?thesis by (auto simp: get_pool_def split: option.splits dest: map_of_SomeD)
qed

end
