(* ===== verification/Pool_Server_Spec.thy ===== *)
theory Pool_Server_Spec
  imports Pool_Server_Steps
begin

text \<open>
  What the pool server promises: it is a table of mempools in which a request reaches the mempool of
  the entry point it names, and runs one method of it there.
\<close>

section \<open>The specification\<close>

abbreviation mempools_of :: "'l pool_server \<Rightarrow> address \<rightharpoonup> 'l uo_pool" where
  "mempools_of srv \<equiv> map_of (srv_mempools srv)"

text \<open>The entry point that a request names.\<close>

fun names_entry_point :: "server_request_kind \<Rightarrow> address option" where
  "names_entry_point (Req_AddOp a op perms origin) = Some a"
| "names_entry_point (Req_GetOps a n f) = Some a"
| "names_entry_point (Req_GetOpsSummaries a n f) = Some a"
| "names_entry_point (Req_GetOpsByHashes a hs) = Some a"
| "names_entry_point (Req_RemoveOps a hs) = Some a"
| "names_entry_point (Req_RemoveOpById a uid) = Some a"
| "names_entry_point (Req_UpdateEntities a us) = Some a"
| "names_entry_point (Req_AdminSetTracking a p r) = Some a"
| "names_entry_point (Req_DebugDumpMempool a) = Some a"
| "names_entry_point (Req_DebugSetReputations a rs) = Some a"
| "names_entry_point (Req_DebugDumpReputation a) = Some a"
| "names_entry_point (Req_DebugDumpPaymasterBalances a) = Some a"
| "names_entry_point (Req_GetReputationStatus a x) = Some a"
| "names_entry_point (Req_GetStakeStatus a x) = Some a"
| "names_entry_point Req_GetSupportedEntryPoints = None"
| "names_entry_point (Req_GetOpByHash h) = None"
| "names_entry_point (Req_GetOpById uid) = None"
| "names_entry_point (Req_DebugClearState m r p) = None"
| "names_entry_point (Req_SubscribeNewHeads as) = None"

text \<open>The method of one mempool that a request stands for, with the response to it.\<close>

fun mempool_method ::
  "'l balances_ops \<Rightarrow> server_context \<Rightarrow> environment \<Rightarrow> paymaster_config \<Rightarrow> server_request_kind \<Rightarrow> 'l uo_pool
     \<Rightarrow> ('l uo_pool \<times> (pool_error + server_response)) option" where
  "mempool_method ops ctx env pmc (Req_AddOp a op perms origin) m =
     (if pcf_entry_point_version (up_config m) = version_of op
      then map_option (map_prod id (map_sum pool_error_from Resp_AddOp))
             (up_add_operation (ctx_alloy ctx) ops env (ctx_now ctx) m origin op perms)
      else if pcf_entry_point_version (up_config m) = Unspecified then None
      else Some (m, Inl (PE_Other ''Invalid user operation version for mempool'')))"
| "mempool_method ops ctx env pmc (Req_RemoveOps a hs) m = Some (up_remove_operations ops m hs, Inr Resp_RemoveOps)"
| "mempool_method ops ctx env pmc (Req_RemoveOpById a uid) m =
     Some (map_prod id (map_sum pool_error_from Resp_RemoveOpById) (up_remove_op_by_id m uid))"
| "mempool_method ops ctx env pmc (Req_UpdateEntities a us) m =
     map_option (\<lambda>n. (n, Inr Resp_UpdateEntities))
       (fold (\<lambda>u n. Option.bind n (\<lambda>n. up_update_entity env n u)) us (Some m))"
| "mempool_method ops ctx env pmc (Req_AdminSetTracking a p r) m =
     Some (up_set_tracking m p r, Inr Resp_AdminSetTracking)"
| "mempool_method ops ctx env pmc (Req_DebugSetReputations a rs) m =
     Some (fold (\<lambda>rep n. up_set_reputation n (rep_address rep) (rep_ops_seen rep) (rep_ops_included rep)) rs m,
           Inr Resp_DebugSetReputations)"
| "mempool_method ops ctx env pmc (Req_GetOps a n f) m =
     Some (m, Inr (Resp_GetOps (up_best_operations m (ucast n) f)))"
| "mempool_method ops ctx env pmc (Req_GetOpsSummaries a n f) m =
     Some (m, Inr (Resp_GetOpsSummaries (map summary_from (up_best_operations m (ucast n) f))))"
| "mempool_method ops ctx env pmc (Req_GetOpsByHashes a hs) m =
     Some (m, Inr (Resp_GetOpsByHashes (List.map_filter (\<lambda>h. fst (up_get_user_operation_by_hash m h)) hs)))"
| "mempool_method ops ctx env pmc (Req_DebugDumpMempool a) m =
     Some (m, Inr (Resp_DebugDumpMempool (up_all_operations env m (- 1))))"
| "mempool_method ops ctx env pmc (Req_DebugDumpReputation a) m =
     Some (m, Inr (Resp_DebugDumpReputation (up_dump_reputation m (ctx_iter_reputation ctx (up_reputation m)))))"
| "mempool_method ops ctx env pmc (Req_DebugDumpPaymasterBalances a) m =
     Some (m, Inr (Resp_DebugDumpPaymasterBalances (up_dump_paymaster_balances ops m)))"
| "mempool_method ops ctx env pmc (Req_GetReputationStatus a x) m =
     Some (m, Inr (Resp_GetReputationStatus (up_get_reputation_status m x)))"
| "mempool_method ops ctx env pmc (Req_GetStakeStatus a x) m =
     Some (m, map_sum pool_error_from Resp_GetStakeStatus (up_get_stake_status env pmc x))"
| "mempool_method ops ctx env pmc _ m = None"

text \<open>
  \<open>serves ops ctx S req S' r\<close>: on the table \<open>S\<close> the request \<open>req\<close> is answered with \<open>r\<close> and leaves the
  table \<open>S'\<close>.  A lookup over all mempools may find the operation in any of them.
\<close>

inductive serves ::
  "'l balances_ops \<Rightarrow> server_context \<Rightarrow> (address \<rightharpoonup> 'l uo_pool) \<Rightarrow> server_request_kind \<Rightarrow>
     (address \<rightharpoonup> 'l uo_pool) \<Rightarrow> pool_error + server_response \<Rightarrow> bool"
  for ops :: "'l balances_ops" and ctx :: server_context and S :: "address \<rightharpoonup> 'l uo_pool" where
  unknown: "names_entry_point req = Some a \<Longrightarrow> S a = None \<Longrightarrow>
     serves ops ctx S req S (Inl (PE_MempoolError (UnknownEntryPoint a)))"
| known: "names_entry_point req = Some a \<Longrightarrow> S a = Some m \<Longrightarrow>
     mempool_method ops ctx (ctx_env ctx a) (ctx_paymaster_config ctx a) req m = Some (m', r) \<Longrightarrow>
     serves ops ctx S req (S(a \<mapsto> m')) r"
| entry_points: "set as = dom S \<Longrightarrow> distinct as \<Longrightarrow>
     serves ops ctx S Req_GetSupportedEntryPoints S (Inr (Resp_GetSupportedEntryPoints as))"
| found_hash: "S a = Some m \<Longrightarrow> up_get_user_operation_by_hash m h = (Some op, info) \<Longrightarrow>
     serves ops ctx S (Req_GetOpByHash h) S (Inr (Resp_GetOpByHash (Some op) info))"
| no_hash: "\<forall>m\<in>ran S. fst (up_get_user_operation_by_hash m h) = None \<Longrightarrow>
     serves ops ctx S (Req_GetOpByHash h) S (Inr (Resp_GetOpByHash None None))"
| found_id: "S a = Some m \<Longrightarrow> up_get_op_by_id m uid = Some op \<Longrightarrow>
     serves ops ctx S (Req_GetOpById uid) S (Inr (Resp_GetOpById (Some op)))"
| no_id: "\<forall>m\<in>ran S. up_get_op_by_id m uid = None \<Longrightarrow>
     serves ops ctx S (Req_GetOpById uid) S (Inr (Resp_GetOpById None))"
| clear: "serves ops ctx S (Req_DebugClearState mempool reputation paymaster)
     (\<lambda>a. map_option (\<lambda>m. up_clear_state ops m mempool paymaster reputation) (S a)) (Inr Resp_DebugClearState)"
| subscribe: "serves ops ctx S (Req_SubscribeNewHeads as) S (Inr (Resp_SubscribeNewHeads n))"

section \<open>The table of mempools\<close>

lemma get_pool_table:
  "get_pool srv a = (case mempools_of srv a of None \<Rightarrow> Inl (PE_MempoolError (UnknownEntryPoint a)) | Some m \<Rightarrow> Inr m)"
  by (simp add: get_pool_def)

lemma put_pool_table: "mempools_of srv a = Some m \<Longrightarrow> mempools_of (put_pool srv a n) = (mempools_of srv)(a \<mapsto> n)"
proof -
  have "map_of (map (\<lambda>(b, m). (b, if b = a then n else m)) xs) = (if a \<in> fst ` set xs then (map_of xs)(a \<mapsto> n) else map_of xs)"
    for xs :: "(address \<times> 'a uo_pool) list"
    by (induction xs) (auto simp: fun_eq_iff)
  moreover assume "mempools_of srv a = Some m"
  ultimately show ?thesis by (force simp: put_pool_def dest: map_of_SomeD)
qed

lemma put_pool_same: "mempools_of srv a = Some m \<Longrightarrow> (mempools_of srv)(a \<mapsto> m) = mempools_of srv"
  by (simp add: fun_upd_idem)

lemma clear_table:
  "mempools_of (srv_debug_clear_state ops srv x y z) =
     (\<lambda>a. map_option (\<lambda>m. up_clear_state ops m x y z) (mempools_of srv a))"
  by (simp add: srv_debug_clear_state_def fun_eq_iff map_of_map)

lemma find_op_by_hash_table:
  assumes "distinct (map fst pools)"
  shows "case find_op_by_hash pools h of
      (Some op, info) \<Rightarrow> \<exists>a m. map_of pools a = Some m \<and> up_get_user_operation_by_hash m h = (Some op, info)
    | (None, info) \<Rightarrow> info = None \<and> (\<forall>m\<in>ran (map_of pools). fst (up_get_user_operation_by_hash m h) = None)"
  using assms
proof (induction pools h rule: find_op_by_hash.induct)
  case (2 a m pools h)
  obtain q info where q: "up_get_user_operation_by_hash m h = (q, info)" by force
  show ?case
  proof (cases q)
    case None
    have "map_of pools a = None" using "2.prems" by (simp add: map_of_eq_None_iff)
    moreover have "map_of pools b = Some k \<Longrightarrow> b \<noteq> a" for b k using calculation by auto
    ultimately show ?thesis
      using "2.IH" [OF q [symmetric] None] "2.prems" None q by (fastforce split: option.splits prod.splits simp: ran_def)
  next
    case (Some op)
    with q show ?thesis by auto
  qed
qed simp

lemma find_op_by_id_table:
  assumes "distinct (map fst pools)"
  shows "case find_op_by_id pools uid of
      Some op \<Rightarrow> \<exists>a m. map_of pools a = Some m \<and> up_get_op_by_id m uid = Some op
    | None \<Rightarrow> (\<forall>m\<in>ran (map_of pools). up_get_op_by_id m uid = None)"
  using assms
proof (induction pools uid rule: find_op_by_id.induct)
  case (2 a m pools uid)
  have "map_of pools a = None" using "2.prems" by (simp add: map_of_eq_None_iff)
  then have "map_of pools b = Some k \<Longrightarrow> b \<noteq> a" for b k by auto
  with 2 show ?case by (fastforce split: option.splits simp: ran_def)
qed simp

section \<open>The refinement\<close>

lemma update_entities_fold:
  "fold (\<lambda>u n. Option.bind n (\<lambda>n. up_update_entity env n u)) us (Some m) = update_entities_loop env us m"
proof -
  have none: "fold (\<lambda>u n. Option.bind n (\<lambda>n. up_update_entity env n u)) us None = None" for us env by (induction us) auto
  show ?thesis by (induction env us m rule: update_entities_loop.induct) (auto simp: none split: option.splits)
qed

text \<open>A request that names an entry point runs the method of the mempool there, or finds none.\<close>

lemma handle_request_unknown:
  assumes "names_entry_point req = Some a" "mempools_of srv a = None"
  shows "handle_request ops ctx srv req = Some (srv, Inl (PE_MempoolError (UnknownEntryPoint a)))"
  using assms
  by (cases req)
    (simp_all add: get_pool_table respond_def srv_add_op_def srv_get_ops_def srv_get_ops_summaries_def
      srv_get_ops_by_hashes_def srv_remove_ops_def srv_remove_op_by_id_def srv_update_entities_def
      srv_admin_set_tracking_def srv_debug_dump_mempool_def srv_debug_set_reputations_def
      srv_debug_dump_reputation_def srv_debug_dump_paymaster_balances_def srv_get_reputation_status_def
      srv_get_stake_status_def)

lemma add_op_method:
  assumes "mempools_of srv a = Some m"
  shows "map_option (\<lambda>(srv', r). (mempools_of srv', r)) (handle_request ops ctx srv (Req_AddOp a op perms origin)) =
    map_option (\<lambda>(n, r). ((mempools_of srv)(a \<mapsto> n), r))
      (mempool_method ops ctx (ctx_env ctx a) pmc (Req_AddOp a op perms origin) m)"
proof -
  have g: "get_pool srv a = Inr m" using assms by (simp add: get_pool_table)
  let ?v = "pcf_entry_point_version (up_config m)"
  let ?c = "up_add_operation (ctx_alloy ctx) ops (ctx_env ctx a) (ctx_now ctx) m origin op perms"
  show ?thesis
  proof (cases "?v = version_of op")
    case False
    then show ?thesis by (simp add: srv_add_op_def g respond_def put_pool_same [OF assms] Let_def)
  next
    case True
    then have "?v \<noteq> Unspecified" by (cases op) auto
    moreover have "?thesis" if "?c = Some (n, r)" for n r
      using True that calculation
      by (cases r) (simp_all add: srv_add_op_def g respond_def put_pool_table [OF assms] Let_def)
    ultimately show ?thesis using True by (cases ?c) (auto simp: srv_add_op_def g Let_def)
  qed
qed

lemma handle_request_method:
  assumes "names_entry_point req = Some a" "mempools_of srv a = Some m"
  shows "map_option (\<lambda>(srv', r). (mempools_of srv', r)) (handle_request ops ctx srv req) =
    map_option (\<lambda>(n, r). ((mempools_of srv)(a \<mapsto> n), r))
      (mempool_method ops ctx (ctx_env ctx a) (ctx_paymaster_config ctx a) req m)"
proof -
  have g: "get_pool srv a = Inr m" using assms(2) by (simp add: get_pool_table)
  note t = put_pool_table [OF assms(2)] put_pool_same [OF assms(2)]
  show ?thesis
  proof (cases req)
    case (Req_AddOp b op perms origin)
    with assms add_op_method [OF assms(2)] show ?thesis by (simp del: handle_request.simps mempool_method.simps)
  next
    case (Req_RemoveOpById b uid)
    with assms(1) g t show ?thesis
      by (cases "up_remove_op_by_id m uid")
        (auto simp: srv_remove_op_by_id_def respond_def split: sum.splits)
  next
    case (Req_UpdateEntities b us)
    with assms(1) g t show ?thesis
      by (cases "update_entities_loop (ctx_env ctx a) us m")
        (simp_all add: srv_update_entities_def respond_def update_entities_fold)
  next
    case (Req_GetStakeStatus b x)
    with assms(1) g t show ?thesis
      by (cases "up_get_stake_status (ctx_env ctx a) (ctx_paymaster_config ctx a) x")
        (simp_all add: srv_get_stake_status_def respond_def)
  qed (use assms(1) g t in \<open>simp_all add: respond_def srv_get_ops_def srv_get_ops_summaries_def
      srv_get_ops_by_hashes_def srv_remove_ops_def srv_admin_set_tracking_def srv_debug_dump_mempool_def
      srv_debug_set_reputations_def srv_debug_dump_reputation_def srv_debug_dump_paymaster_balances_def
      srv_get_reputation_status_def\<close>)
qed

lemma handle_request_serves:
  assumes "distinct (map fst (srv_mempools srv))" "handle_request ops ctx srv req = Some (srv', r)"
  shows "serves ops ctx (mempools_of srv) req (mempools_of srv') r"
proof (cases "names_entry_point req")
  case (Some a)
  show ?thesis
  proof (cases "mempools_of srv a")
    case None
    with handle_request_unknown [OF Some None] assms(2) serves.unknown [where S = "mempools_of srv", OF Some] show ?thesis by simp
  next
    case (Some m)
    from handle_request_method [OF \<open>names_entry_point req = Some a\<close> Some, of ops ctx] assms(2)
    obtain n where "mempool_method ops ctx (ctx_env ctx a) (ctx_paymaster_config ctx a) req m = Some (n, r)"
      "mempools_of srv' = (mempools_of srv)(a \<mapsto> n)"
      by (cases "mempool_method ops ctx (ctx_env ctx a) (ctx_paymaster_config ctx a) req m") auto
    with serves.known [where S = "mempools_of srv", OF \<open>names_entry_point req = Some a\<close> Some this(1)] show ?thesis by simp
  qed
next
  case None
  show ?thesis
  proof (cases req)
    case Req_GetSupportedEntryPoints
    with assms serves.entry_points [of "map fst (srv_mempools srv)" "mempools_of srv"] show ?thesis
      by (auto simp: dom_map_of_conv_image_fst)
  next
    case (Req_GetOpByHash h)
    with assms find_op_by_hash_table [OF assms(1), of h] show ?thesis
      by (auto simp: srv_get_op_by_hash_def split: prod.splits option.splits intro: serves.found_hash serves.no_hash)
  next
    case (Req_GetOpById uid)
    with assms find_op_by_id_table [OF assms(1), of uid] show ?thesis
      by (auto simp: srv_get_op_by_id_def split: option.splits intro: serves.found_id serves.no_id)
  next
    case (Req_DebugClearState x y z)
    with assms(2) show ?thesis by (auto simp: clear_table intro: serves.clear)
  next
    case (Req_SubscribeNewHeads as)
    with assms(2) show ?thesis by (auto intro: serves.subscribe)
  qed (use None in simp_all)
qed

lemma handle_request_unanswered:
  assumes "handle_request ops ctx srv req = None"
  shows "\<exists>a m. names_entry_point req = Some a \<and> mempools_of srv a = Some m \<and>
    mempool_method ops ctx (ctx_env ctx a) (ctx_paymaster_config ctx a) req m = None"
proof (cases "names_entry_point req")
  case (Some a)
  show ?thesis
  proof (cases "mempools_of srv a")
    case None
    with handle_request_unknown [OF Some None] assms show ?thesis by simp
  next
    case m: (Some m)
    from handle_request_method [OF Some m, of ops ctx] assms
    have "mempool_method ops ctx (ctx_env ctx a) (ctx_paymaster_config ctx a) req m = None" by simp
    with Some m show ?thesis by blast
  qed
next
  case None
  with assms show ?thesis by (cases req) auto
qed

lemma handle_request_keys:
  assumes "handle_request ops ctx srv req = Some (srv', r)"
  shows "map fst (srv_mempools srv') = map fst (srv_mempools srv)"
proof -
  have put: "map fst (srv_mempools (put_pool srv a n)) = map fst (srv_mempools srv)" for a n
    by (simp add: put_pool_def o_def case_prod_beta)
  show ?thesis
    using assms
    by (cases req) (auto simp: put srv_add_op_def srv_remove_ops_def srv_remove_op_by_id_def srv_update_entities_def
        srv_admin_set_tracking_def srv_debug_set_reputations_def srv_debug_clear_state_def o_def case_prod_beta Let_def
        split: sum.splits if_splits option.splits prod.splits)
qed

lemma chain_update_table:
  assumes "srv_chain_update ops ctx srv u = Some srv'"
  shows "mempools_of srv' a = Option.bind (mempools_of srv a)
    (\<lambda>m. on_chain_update (ctx_alloy ctx) ops (ctx_env ctx a) (ctx_now ctx) m u)"
proof -
  have "update_pools ops ctx u xs = Some ys \<Longrightarrow> map_of ys a = Option.bind (map_of xs a)
      (\<lambda>m. on_chain_update (ctx_alloy ctx) ops (ctx_env ctx a) (ctx_now ctx) m u)" for xs ys
    by (induction ops ctx u xs arbitrary: ys rule: update_pools.induct) (auto split: option.splits if_splits)
  with assms show ?thesis by (auto simp: srv_chain_update_def split: option.splits)
qed

end
