(* ===== verification/Assigner_Interface.thy ===== *)
theory Assigner_Interface
  imports Assigner
begin

text \<open>
  What the assigner relies on of the pool: the operations that a request by hashes returns have one
  of those hashes, and an operation has the sender that its summary names.  With these laws the
  senders of the assigned operations are locked, and confirming them never breaks the contract of
  the locks.
\<close>

locale pool_source =
  fixes valid :: "'s \<Rightarrow> bool" and client :: "'s \<Rightarrow> pool_client"
  assumes by_hashes:
    "valid s \<Longrightarrow> pc_get_ops_by_hashes (client s) ep hs = Inr ops \<Longrightarrow> op \<in> set ops \<Longrightarrow>
       uo_hash (po_uo op) \<in> set hs"
  and same_sender:
    "valid s \<Longrightarrow> pc_get_ops_summaries (client s) ep n f = Inr ss \<Longrightarrow> x \<in> set ss \<Longrightarrow>
       pc_get_ops_by_hashes (client s) ep hs = Inr ops \<Longrightarrow> op \<in> set ops \<Longrightarrow>
       uo_hash (po_uo op) = sum_hash x \<Longrightarrow> uo_sender (po_uo op) = sum_sender x"
begin

lemma assigned_locked:
  assumes "valid s" "assigner_inv st" "assign_operations (client s) b ep f st = (st', Inr ops)"
    "op \<in> set ops"
  shows "locked_by st' b (uo_sender (po_uo op))"
proof -
  obtain ss where ss: "pc_get_ops_summaries (client s) ep (as_max_pool_ops_per_request st) f = Inr ss"
    using assms(3) by (auto simp: assign_operations_def split: sum.splits)
  show ?thesis
  proof (rule assign_operations_assigned [OF assms(3,2)])
    fix xs
    assume xs: "assigned st b xs st'"
      "\<And>ss. pc_get_ops_summaries (client s) ep (as_max_pool_ops_per_request st) f = Inr ss \<Longrightarrow>
         xs = take (max 1 (unat (as_max_bundle_size st))) (filter (\<lambda>op. assignable st b (sum_sender op)) ss)"
      "\<And>os. Inr ops = Inr os \<Longrightarrow> xs = [] \<and> os = [] \<or>
         xs \<noteq> [] \<and> pc_get_ops_by_hashes (client s) ep (map sum_hash xs) = Inr os"
    from xs(3) [OF refl] assms(4) have h: "pc_get_ops_by_hashes (client s) ep (map sum_hash xs) = Inr ops"
      by auto
    from by_hashes [OF assms(1) h assms(4)]
    obtain x where x: "x \<in> set xs" "uo_hash (po_uo op) = sum_hash x" by auto
    have "x \<in> set ss" using x(1) xs(2) [OF ss] by (auto dest: in_set_takeD)
    from same_sender [OF assms(1) ss this h assms(4) x(2)] x(1) xs(1) show ?thesis
      by (auto simp: assigned_def)
  qed
qed

lemma assigned_others:
  assumes "assigner_inv st" "assign_operations (client s) b ep f st = (st', r)" "b' \<noteq> b"
  shows "locked_by st' b' x \<longleftrightarrow> locked_by st b' x"
  by (rule assign_operations_assigned [OF assms(2,1)]) (use assms(3) in \<open>simp add: assigned_def\<close>)

lemma confirm_assigned:
  assumes "valid s" "assigner_inv st" "assign_operations (client s) b ep f st = (st', Inr ops)"
    "ops \<noteq> []" "set cs \<subseteq> (uo_sender \<circ> po_uo) ` set ops"
  shows "confirm_senders_drop_unused b cs st' \<noteq> None"
proof -
  have inv: "assigner_inv st'" by (rule assigner_step_inv [OF assigner_step.assign [OF assms(3)] assms(2)])
  note l = assigned_locked [OF assms(1-3)]
  from assms(4) obtain op where "op \<in> set ops" by (cases ops) auto
  with l have "uo_sender (po_uo op) \<in> set (builder_senders st' b)" by (simp add: assigner_invD(1) [OF inv])
  then have "builder_senders st' b \<noteq> []" by auto
  moreover have "\<forall>c\<in>set cs. locked_by st' b c" using l assms(5) by auto
  ultimately show ?thesis using confirm_defined [OF inv] by blast
qed

end

end
