(* ===== verification/Pool_Server_Theorems.thy ===== *)
theory Pool_Server_Theorems
  imports Pool_Server_Spec Uo_Pool_Samples Assigner_Interface
begin

text \<open>
  Theorems on the pool server and its handle, and the interface the assigner uses of it.
\<close>

section \<open>Responses\<close>

lemma pool_error_from_expected [simp]: "pool_error_from e \<noteq> PE_UnexpectedResponse"
  by (cases e) auto

lemma get_pool_expected [simp]: "get_pool srv a \<noteq> Inl PE_UnexpectedResponse"
  by (simp add: get_pool_def split: option.splits)

lemma expected_errors:
  "srv_add_op ops ctx srv ep op perms origin \<noteq> Some (srv', Inl PE_UnexpectedResponse)"
  "srv_get_stake_status ctx srv ep a \<noteq> Inl PE_UnexpectedResponse"
  "srv_get_ops srv ep n f \<noteq> Inl PE_UnexpectedResponse"
  "srv_get_ops_summaries srv ep n f \<noteq> Inl PE_UnexpectedResponse"
  "srv_get_ops_by_hashes srv ep hs \<noteq> Inl PE_UnexpectedResponse"
  "srv_remove_ops ops srv ep hs \<noteq> (srv', Inl PE_UnexpectedResponse)"
  "srv_remove_op_by_id srv ep uid \<noteq> (srv', Inl PE_UnexpectedResponse)"
  "srv_admin_set_tracking srv ep p r \<noteq> (srv', Inl PE_UnexpectedResponse)"
  "srv_update_entities ctx srv ep us \<noteq> Some (srv', Inl PE_UnexpectedResponse)"
  "srv_debug_dump_mempool ctx srv ep \<noteq> Inl PE_UnexpectedResponse"
  "srv_debug_set_reputations srv ep rs \<noteq> (srv', Inl PE_UnexpectedResponse)"
  "srv_debug_dump_reputation ctx srv ep \<noteq> Inl PE_UnexpectedResponse"
  "srv_debug_dump_paymaster_balances ops srv ep \<noteq> Inl PE_UnexpectedResponse"
  "srv_get_reputation_status srv ep a \<noteq> Inl PE_UnexpectedResponse"
  using get_pool_expected [of srv ep]
  by (auto simp: srv_add_op_def srv_get_stake_status_def srv_get_ops_def srv_get_ops_summaries_def
      srv_get_ops_by_hashes_def srv_remove_ops_def srv_remove_op_by_id_def srv_admin_set_tracking_def
      srv_update_entities_def srv_debug_dump_mempool_def srv_debug_set_reputations_def
      srv_debug_dump_reputation_def srv_debug_dump_paymaster_balances_def srv_get_reputation_status_def
      Let_def split: sum.splits option.splits prod.splits if_splits)

lemma respond_Inr [simp]: "respond f r = Inr y \<longleftrightarrow> (\<exists>x. r = Inr x \<and> y = f x)"
  by (cases r) (auto simp: respond_def)

lemma respond_Inl [simp]: "respond f r = Inl e \<longleftrightarrow> r = Inl e"
  by (cases r) (auto simp: respond_def)

text \<open>
  What the caller of a method of the handle gets when the server answers the request with \<open>result\<close>.
\<close>

definition relayed ::
  "server_context \<Rightarrow> 'l pool_server \<Rightarrow> ('l pool_server \<times> (pool_error + 'a)) option
     \<Rightarrow> ('l pool_server option \<times> (pool_error + 'a)) option" where
  "relayed ctx srv result =
     (if srv_open srv
      then case result of
             Some (srv', r) \<Rightarrow> Some (Some srv', r)
           | None \<Rightarrow> if ctx_unanswered ctx = Panics then Some (None, Inl PE_UnexpectedResponse) else None
      else Some (Some srv, Inl PE_UnexpectedResponse))"

definition answers ::
  "server_context \<Rightarrow> 'l pool_server \<Rightarrow> ('l pool_server option \<times> (pool_error + 'a)) option
     \<Rightarrow> ('l pool_server \<times> (pool_error + 'a)) option \<Rightarrow> bool" where
  "answers ctx srv reply result \<longleftrightarrow>
     reply = relayed ctx srv result \<and> (\<forall>srv'. result \<noteq> Some (srv', Inl PE_UnexpectedResponse))"

lemma call_answers:
  assumes "handle_request ops ctx srv req = map_option (\<lambda>(srv, r). (srv, respond f r)) result"
    "\<And>x. unwrap (f x) = Some x" "\<And>srv'. result \<noteq> Some (srv', Inl PE_UnexpectedResponse)"
  shows "answers ctx srv (call ops ctx srv req unwrap) result"
proof (cases result)
  case None
  with assms(1) show ?thesis
    by (auto simp: answers_def relayed_def call_def send_def split: unanswered.splits)
next
  case (Some x)
  obtain srv' r where x: "x = (srv', r)" by force
  with assms Some show ?thesis
    by (cases r) (auto simp: answers_def relayed_def call_def send_def respond_def)
qed

lemmas handle_defs = handle_get_supported_entry_points_def handle_add_op_def handle_get_ops_def
  handle_get_ops_summaries_def handle_get_ops_by_hashes_def handle_get_op_by_hash_def
  handle_get_op_by_id_def handle_remove_ops_def handle_remove_op_by_id_def handle_update_entities_def
  handle_debug_clear_state_def handle_admin_set_tracking_def handle_debug_dump_mempool_def
  handle_debug_set_reputations_def handle_debug_dump_reputation_def
  handle_debug_dump_paymaster_balances_def handle_get_stake_status_def
  handle_get_reputation_status_def handle_subscribe_new_heads_def

text \<open>
  C17: every method of the handle gives its caller exactly what the operation of the server for its
  request returns: the response always has the kind of the request and is taken apart without loss.
  The error for an unexpected response comes up in two cases only: the server no longer receives
  requests, or the handler of the request panicked before it answered.
\<close>

theorem handle_responses_typed:
  "answers ctx srv (handle_get_supported_entry_points ops ctx srv) (Some (srv, Inr (map fst (srv_mempools srv)))) \<and>
   answers ctx srv (handle_add_op ops ctx srv op perms) (srv_add_op ops ctx srv (uo_entry_point op) op perms Local) \<and>
   answers ctx srv (handle_get_ops ops ctx srv ep n f) (Some (srv, srv_get_ops srv ep n f)) \<and>
   answers ctx srv (handle_get_ops_summaries ops ctx srv ep n f) (Some (srv, srv_get_ops_summaries srv ep n f)) \<and>
   answers ctx srv (handle_get_ops_by_hashes ops ctx srv ep hs) (Some (srv, srv_get_ops_by_hashes srv ep hs)) \<and>
   answers ctx srv (handle_get_op_by_hash ops ctx srv h) (Some (srv, Inr (srv_get_op_by_hash srv h))) \<and>
   answers ctx srv (handle_get_op_by_id ops ctx srv uid) (Some (srv, Inr (srv_get_op_by_id srv uid))) \<and>
   answers ctx srv (handle_remove_ops ops ctx srv ep hs) (Some (srv_remove_ops ops srv ep hs)) \<and>
   answers ctx srv (handle_remove_op_by_id ops ctx srv ep uid) (Some (srv_remove_op_by_id srv ep uid)) \<and>
   answers ctx srv (handle_update_entities ops ctx srv ep us) (srv_update_entities ctx srv ep us) \<and>
   answers ctx srv (handle_debug_clear_state ops ctx srv b1 b2 b3) (Some (srv_debug_clear_state ops srv b1 b2 b3, Inr ())) \<and>
   answers ctx srv (handle_admin_set_tracking ops ctx srv ep b1 b2) (Some (srv_admin_set_tracking srv ep b1 b2)) \<and>
   answers ctx srv (handle_debug_dump_mempool ops ctx srv ep) (Some (srv, srv_debug_dump_mempool ctx srv ep)) \<and>
   answers ctx srv (handle_debug_set_reputations ops ctx srv ep rs) (Some (srv_debug_set_reputations srv ep rs)) \<and>
   answers ctx srv (handle_debug_dump_reputation ops ctx srv ep) (Some (srv, srv_debug_dump_reputation ctx srv ep)) \<and>
   answers ctx srv (handle_debug_dump_paymaster_balances ops ctx srv ep)
     (Some (srv, srv_debug_dump_paymaster_balances ops srv ep)) \<and>
   answers ctx srv (handle_get_stake_status ops ctx srv ep a) (Some (srv, srv_get_stake_status ctx srv ep a)) \<and>
   answers ctx srv (handle_get_reputation_status ops ctx srv ep a) (Some (srv, srv_get_reputation_status srv ep a)) \<and>
   answers ctx srv (handle_subscribe_new_heads ops ctx srv to_track)
     (Some (srv\<lparr>srv_to_track := srv_to_track srv @ filter (\<lambda>a. a \<notin> set (srv_to_track srv)) (remdups to_track)\<rparr>,
            Inr (length (srv_new_heads srv))))"
  unfolding handle_defs
  by (intro conjI call_answers)
    (auto simp: expected_errors unit_eq respond_def split: prod.splits sum.splits)

section \<open>Entry points\<close>

text \<open>
  C24: a request changes at most the mempool of the entry point it names; only the request that
  clears the state touches all of them.  The set of entry points never changes.
\<close>

theorem entry_points_isolated:
  assumes "server_reachable ops sizes config da srv" "handle_request ops ctx srv req = Some (srv', r)"
  shows "map fst (srv_mempools srv') = map fst (srv_mempools srv) \<and>
    (\<forall>ep. \<not> request_writes req ep \<longrightarrow> get_pool srv' ep = get_pool srv ep)"
proof -
  have d: "distinct (map fst (srv_mempools srv))" using server_mempools [OF assms(1)] by blast
  have "mempools_of srv' ep = mempools_of srv ep" if "\<not> request_writes req ep" for ep
    using handle_request_serves [OF d assms(2)] that
  proof cases
    case (known a m m')
    then show ?thesis using that by (cases req) (auto simp: fun_upd_idem)
  qed auto
  moreover have "map fst (srv_mempools srv') = map fst (srv_mempools srv)"
    using handle_request_keys [OF assms(2)] .
  ultimately show ?thesis by (simp add: get_pool_def)
qed

text \<open>A server with a mempool for each of two entry points, one of version 0.6 and one of version 0.7.\<close>

definition sample_context :: server_context where
  "sample_context = \<lparr>ctx_alloy = null_alloy, ctx_env = (\<lambda>_. sample_env),
     ctx_paymaster_config = (\<lambda>_. \<lparr>pmc_min_stake_value = 1, pmc_min_unstake_delay = 1,
       pmc_tracker_enabled = True, pmc_cache_length = 2\<rparr>), ctx_iter_reputation = (\<lambda>_. []), ctx_now = 0,
     ctx_unanswered = Panics\<rparr>"

definition sample_configs :: "address \<Rightarrow> pool_config" where
  "sample_configs a = (if a = 99 then sample_pool_config
     else sample_pool_config\<lparr>pcf_entry_point := a, pcf_entry_point_version := EP_V0_7\<rparr>)"

definition other_mempool :: list_mempool where
  "other_mempool = uo_pool_new sample_sizes (sample_configs 88) None tracker0
     (address_reputation_new (reputation_params_new True) {} {})
     \<lparr>mpc_entry_point = 88, mpc_allowlist = [], mpc_filters = []\<rparr>"

definition empty_server :: "(address, paymaster_balance) lru_list pool_server" where
  "empty_server = \<lparr>srv_mempools = [(99, mempool0), (88, other_mempool)], srv_to_track = [], srv_new_heads = [],
     srv_open = True\<rparr>"

definition sample_server :: "(address, paymaster_balance) lru_list pool_server" where
  "sample_server = empty_server\<lparr>srv_mempools := [(99, mempool1), (88, other_mempool)]\<rparr>"

abbreviation sample_request :: server_request_kind where
  "sample_request \<equiv> Req_AddOp 99 (po_uo (sponsored (sample_po 1 0 7 100))) permissions_default Local"

lemma empty_server_reachable:
  "server_reachable_in K ll_ops sample_sizes sample_configs (\<lambda>_. None) empty_server"
proof -
  have r: "rep_reachable (address_reputation_new (reputation_params_new True) {} {})"
    by (rule rep_reachable.intros(1) [of _ True]) simp
  show ?thesis
    unfolding empty_server_def
  proof (rule server_reachable_in.start)
    fix a :: address and m
    assume "(a, m) \<in> set [(99, mempool0), (88, other_mempool)]"
    then consider "a = 99" "m = mempool0" | "a = 88" "m = other_mempool" by auto
    then show "\<exists>t r mc. rep_reachable r \<and> m = uo_pool_new sample_sizes (sample_configs a) None t r mc"
    proof cases
      case 1
      then show ?thesis using r by (auto simp: mempool0_def sample_configs_def)
    next
      case 2
      then show ?thesis using r by (auto simp: other_mempool_def)
    qed
  qed simp
qed

lemma sample_server_added:
  "handle_request ll_ops sample_context empty_server sample_request = Some (sample_server, Inr (Resp_AddOp 7))"
  using add_mempool0
  by (simp add: srv_add_op_def get_pool_def put_pool_def empty_server_def sample_server_def sample_context_def respond_def Let_def)
    (simp add: sample_pool_config_def)

lemma sample_env_reports: "reports_paymasters sample_env"
  by (simp add: reports_paymasters_def sample_env_def) (auto simp: sample_sim_def)

lemma sample_server_reachable_in:
  "server_reachable_in reports_paymasters ll_ops sample_sizes sample_configs (\<lambda>_. None) sample_server"
  using empty_server_reachable _ _ sample_server_added
proof (rule server_reachable_in.request)
  show "has_room empty_server"
    by (simp add: has_room_def empty_server_def other_mempool_def uo_pool_new_def pool_new_def)
  show "reports_paymasters (ctx_env sample_context a)" for a
    using sample_env_reports by (simp add: sample_context_def)
qed

lemmas sample_server_reachable = server_reachable_weaken [OF sample_server_reachable_in]

lemma sample_server_pool:
  "get_pool sample_server 99 = Inr mempool1" "get_pool sample_server 88 = Inr other_mempool"
  by (simp_all add: get_pool_def sample_server_def empty_server_def)

lemma sample_server_open [simp]: "srv_open sample_server"
  by (simp add: sample_server_def empty_server_def)

theorem entry_points_isolated_witness:
  "\<exists>srv' r m. handle_request ll_ops sample_context sample_server (Req_RemoveOps 99 [7]) = Some (srv', r) \<and>
     map fst (srv_mempools srv') = [99, 88] \<and> get_pool srv' 88 = Inr other_mempool \<and>
     get_pool srv' 99 = Inr m \<and> pi_by_hash (up_pool m) 7 = None \<and> pi_by_hash (up_pool mempool1) 7 \<noteq> None"
proof -
  define m where "m = up_remove_operations ll_ops mempool1 [7]"
  define srv' where "srv' = put_pool sample_server 99 m"
  have h: "handle_request ll_ops sample_context sample_server (Req_RemoveOps 99 [7]) = Some (srv', Inr Resp_RemoveOps)"
    by (simp add: srv_remove_ops_def sample_server_pool respond_def srv'_def m_def)
  have "pi_by_hash (up_pool m) 7 = None"
    by (simp add: m_def up_remove_operations_def remove_operation_by_hash_def remove_operation_internal_def up_emit_def Let_def)
  moreover have "get_pool srv' 99 = Inr m"
    by (simp add: srv'_def put_pool_def get_pool_def sample_server_def empty_server_def)
  ultimately show ?thesis
    using entry_points_isolated [OF sample_server_reachable h] h sample_server_pool
    by (auto simp: sample_server_def empty_server_def)
qed

text \<open>
  C6: the server refines a table of mempools: a request that names an entry point runs exactly one
  method of the mempool there, an operation to add only if it has the version of that entry point,
  and is answered with its result; the other mempools stay as they are.  A request stays unanswered
  only if that method does.  An update of the chain is applied to every mempool.  Each mempool is in
  a state that it reaches from a new mempool by its own methods, so all that is shown of mempools
  holds for a server.
\<close>

theorem server_refines_mempools:
  assumes "server_reachable ops sizes config da srv"
  shows "(\<forall>a m. mempools_of srv a = Some m \<longrightarrow> mempool_reachable ops sizes (config a) (da a) m) \<and>
    (case handle_request ops ctx srv req of
       Some (srv', r) \<Rightarrow> serves ops ctx (mempools_of srv) req (mempools_of srv') r
     | None \<Rightarrow> \<exists>a m. names_entry_point req = Some a \<and> mempools_of srv a = Some m \<and>
         mempool_method ops ctx (ctx_env ctx a) (ctx_paymaster_config ctx a) req m = None) \<and>
    (\<forall>srv'. srv_chain_update ops ctx srv u = Some srv' \<longrightarrow>
       (\<forall>a. mempools_of srv' a = Option.bind (mempools_of srv a)
          (\<lambda>m. on_chain_update (ctx_alloy ctx) ops (ctx_env ctx a) (ctx_now ctx) m u)))"
proof (intro conjI)
  note R = server_mempools [OF assms]
  from R show "\<forall>a m. mempools_of srv a = Some m \<longrightarrow> mempool_reachable ops sizes (config a) (da a) m"
    by (auto dest: map_of_SomeD)
  from R show "case handle_request ops ctx srv req of
       Some (srv', r) \<Rightarrow> serves ops ctx (mempools_of srv) req (mempools_of srv') r
     | None \<Rightarrow> \<exists>a m. names_entry_point req = Some a \<and> mempools_of srv a = Some m \<and>
         mempool_method ops ctx (ctx_env ctx a) (ctx_paymaster_config ctx a) req m = None"
    using handle_request_serves [of srv ops ctx req] handle_request_unanswered [of ops ctx srv req]
    by (simp split: option.splits prod.splits)
  show "\<forall>srv'. srv_chain_update ops ctx srv u = Some srv' \<longrightarrow>
      (\<forall>a. mempools_of srv' a = Option.bind (mempools_of srv a)
          (\<lambda>m. on_chain_update (ctx_alloy ctx) ops (ctx_env ctx a) (ctx_now ctx) m u))"
    using chain_update_table by blast
qed

theorem server_refines_mempools_witness:
  "serves ll_ops sample_context [99 \<mapsto> mempool0, 88 \<mapsto> other_mempool] sample_request
     [99 \<mapsto> mempool1, 88 \<mapsto> other_mempool] (Inr (Resp_AddOp 7)) \<and> mempool0 \<noteq> mempool1"
proof -
  have "mempools_of empty_server = [99 \<mapsto> mempool0, 88 \<mapsto> other_mempool]"
    "mempools_of sample_server = [99 \<mapsto> mempool1, 88 \<mapsto> other_mempool]"
    by (simp_all add: empty_server_def sample_server_def fun_eq_iff)
  moreover have "mempool0 \<noteq> mempool1"
  proof
    assume "mempool0 = mempool1"
    then have "pi_by_hash (up_pool mempool0) 7 = pi_by_hash (up_pool mempool1) 7" by simp
    then show False by simp
  qed
  ultimately show ?thesis
    using server_refines_mempools [OF empty_server_reachable, where ctx = sample_context and req = sample_request
        and u = sample_update] sample_server_added
    by (simp del: handle_request.simps)
qed

text \<open>
  When the subscribers hear of a new head, every mempool is already at that head.
\<close>

theorem heads_follow_mempools:
  assumes "server_reachable ops sizes config da srv" "\<forall>a. iterates_keys (ctx_env ctx a)"
    "cu_update_type u = Confirmed" "srv_chain_update ops ctx srv u = Some srv'"
  shows "\<exists>head. srv_new_heads srv' = srv_new_heads srv @ [head] \<and>
    nh_block_hash head = cu_latest_block_hash u \<and>
    (\<forall>ep m. get_pool srv' ep = Inr m \<longrightarrow> up_block_number m = nh_block_number head)"
proof -
  have "up_block_number m = cu_latest_block_number u" if "get_pool srv' ep = Inr m" for ep m
  proof -
    from that have "(ep, m) \<in> set (srv_mempools srv')"
      by (auto simp: get_pool_def split: option.splits dest: map_of_SomeD)
    with srv_chain_update_steps [OF assms(4)] obtain n where n: "(ep, n) \<in> set (srv_mempools srv)"
      "on_chain_update (ctx_alloy ctx) ops (ctx_env ctx ep) (ctx_now ctx) n u = Some m"
      by (force simp: list_all2_conv_all_nth set_conv_nth)
    from n(1) server_mempools [OF assms(1)] have "mempool_reachable ops sizes (config ep) (da ep) n" by blast
    from on_chain_update_block [OF this spec [OF assms(2)] assms(3) n(2)] show ?thesis .
  qed
  with assms(3,4) show ?thesis by (auto simp: srv_chain_update_def split: option.splits)
qed

theorem heads_follow_mempools_witness:
  "\<exists>srv' head. srv_chain_update ll_ops sample_context sample_server sample_update = Some srv' \<and>
     srv_new_heads srv' = [head] \<and> nh_block_number head = 11"
proof -
  have "\<exists>m. on_chain_update null_alloy ll_ops sample_env 0 s sample_update = Some m" for s :: list_mempool
    by (simp add: on_chain_update_def sample_update_def chain_update_default_def deduped_ops_def
        apply_balance_updates_def unique_def Let_def)
  then obtain m n where "on_chain_update null_alloy ll_ops sample_env 0 mempool1 sample_update = Some m"
    "on_chain_update null_alloy ll_ops sample_env 0 other_mempool sample_update = Some n" by blast
  then obtain srv' where s: "srv_chain_update ll_ops sample_context sample_server sample_update = Some srv'"
    by (simp add: srv_chain_update_def sample_server_def empty_server_def sample_context_def)
  have "cu_update_type sample_update = Confirmed"
    by (simp add: sample_update_def chain_update_default_def)
  moreover have "\<forall>a. iterates_keys (ctx_env sample_context a)"
    by (simp add: sample_context_def sample_env_iterates)
  ultimately have "\<exists>head. srv_new_heads srv' = srv_new_heads sample_server @ [head] \<and>
      nh_block_hash head = cu_latest_block_hash sample_update \<and>
      (\<forall>ep m. get_pool srv' ep = Inr m \<longrightarrow> up_block_number m = nh_block_number head)"
    using heads_follow_mempools [OF sample_server_reachable _ _ s] by blast
  moreover have "nh_block_number (last (srv_new_heads srv')) = 11"
    using s by (auto simp: srv_chain_update_def sample_update_def chain_update_default_def split: option.splits)
  ultimately show ?thesis using s by (auto simp: sample_server_def empty_server_def)
qed

section \<open>The pool as a source of operations\<close>

text \<open>The part of the handle that the assigner uses; both requests only read.\<close>

definition server_client ::
  "'l balances_ops \<times> server_context \<times> 'l pool_server \<Rightarrow> pool_client" where
  "server_client s = (case s of (ops, ctx, srv) \<Rightarrow>
     \<lparr>pc_get_ops_summaries = (\<lambda>ep n f.
        case handle_get_ops_summaries ops ctx srv ep n f of
          Some (_, r) \<Rightarrow> r | None \<Rightarrow> Inl PE_UnexpectedResponse),
      pc_get_ops_by_hashes = (\<lambda>ep hs.
        case handle_get_ops_by_hashes ops ctx srv ep hs of
          Some (_, r) \<Rightarrow> r | None \<Rightarrow> Inl PE_UnexpectedResponse)\<rparr>)"

lemma server_client_summaries:
  "pc_get_ops_summaries (server_client (ops, ctx, srv)) ep n f = (if srv_open srv then srv_get_ops_summaries srv ep n f else Inl PE_UnexpectedResponse)"
  by (auto simp: server_client_def handle_get_ops_summaries_def call_def send_def respond_def split: sum.splits)

lemma server_client_by_hashes:
  "pc_get_ops_by_hashes (server_client (ops, ctx, srv)) ep hs = (if srv_open srv then srv_get_ops_by_hashes srv ep hs else Inl PE_UnexpectedResponse)"
  by (auto simp: server_client_def handle_get_ops_by_hashes_def call_def send_def respond_def split: sum.splits)

definition server_ok :: "'l balances_ops \<times> server_context \<times> 'l pool_server \<Rightarrow> bool" where
  "server_ok s = (case s of (ops, ctx, srv) \<Rightarrow> \<exists>sizes config da. server_reachable ops sizes config da srv)"

lemma server_pool_inv:
  assumes "server_reachable ops sizes config da srv" "get_pool srv ep = Inr m"
  shows "pool_inv (up_pool m)"
  using server_mempools [OF assms(1)] assms(2) mempool_reachable_components pool_reachable_inv
  by (fastforce simp: get_pool_def split: option.splits dest: map_of_SomeD)

lemma get_by_hash_hash:
  assumes "pool_inv p" "get_operation_by_hash p h = Some op"
  shows "uo_hash (po_uo op) = h"
  using assms pool_inv_by_hash(1) [of "{}" p h]
  by (auto simp: get_operation_by_hash_def pool_inv_def)

lemma best_by_hash:
  assumes "pool_inv p" "op \<in> set (pool_best_operations p)"
  shows "get_operation_by_hash p (uo_hash (po_uo op)) = Some op"
proof -
  from assms(2) obtain x where x: "x \<in> set (pi_best p)" "op = oo_po x" by (auto simp: pool_best_operations_def)
  with assms(1) obtain h where "pi_by_hash p h = Some x"
    using pool_invD(4) [of "{}" p] by (auto simp: pool_inv_def best_ok_def ran_def)
  with assms(1) x(2) show ?thesis
    using pool_inv_by_hash(1) [of "{}" p h x] by (auto simp: get_operation_by_hash_def pool_inv_def)
qed

lemma in_map_filter: "y \<in> set (List.map_filter f xs) \<longleftrightarrow> (\<exists>x\<in>set xs. f x = Some y)"
  by (induction xs) (auto simp: map_filter_simps split: option.splits)

interpretation psrc: pool_source server_ok server_client
proof
  fix s :: "'a balances_ops \<times> server_context \<times> 'a pool_server" and ep hs ops op
  assume v: "server_ok s" and h: "pc_get_ops_by_hashes (server_client s) ep hs = Inr ops" "op \<in> set ops"
  obtain bo ctx srv where s: "s = (bo, ctx, srv)" by (cases s)
  from h(1) obtain m where m1: "get_pool srv ep = Inr m"
    by (auto simp: s server_client_by_hashes srv_get_ops_by_hashes_def split: sum.splits if_splits)
  with h have "\<exists>x\<in>set hs. get_operation_by_hash (up_pool m) x = Some op"
    by (auto simp: s server_client_by_hashes srv_get_ops_by_hashes_def up_get_user_operation_by_hash_def
        in_map_filter split: if_splits)
  note m = m1 this
  from v m(1) have inv: "pool_inv (up_pool m)" by (auto simp: s server_ok_def dest: server_pool_inv)
  with m(2) get_by_hash_hash show "uo_hash (po_uo op) \<in> set hs" by blast
  fix n f ss x
  assume x: "pc_get_ops_summaries (server_client s) ep n f = Inr ss" "x \<in> set ss"
    "uo_hash (po_uo op) = sum_hash x"
  from x(1) m(1) have "ss = map summary_from (up_best_operations m (ucast n) f)"
    by (auto simp: s server_client_summaries srv_get_ops_summaries_def split: if_splits)
  with x(2) obtain o' where o': "o' \<in> set (up_best_operations m (ucast n) f)" "x = summary_from o'" by auto
  from o'(1) have "o' \<in> set (pool_best_operations (up_pool m))"
    unfolding up_best_operations_def by (meson filter_is_subset in_set_takeD subset_iff)
  moreover from m(2) get_by_hash_hash [OF inv] have
    "get_operation_by_hash (up_pool m) (uo_hash (po_uo op)) = Some op" by auto
  ultimately show "uo_sender (po_uo op) = sum_sender x"
    using best_by_hash [OF inv] x(3) o'(2) by (auto simp: summary_from_def)
qed

end
