(* ===== verification/Sender_Services.thy ===== *)
theory Sender_Services
  imports Sender_Moves Fee_Source Pool_Server_Theorems
begin

text \<open>
  A round of building with the services of the bundle sender: the proposer, the assigner and the
  entry point fit together, so that it does not panic.
\<close>

section \<open>The transaction of a bundle\<close>

lemma made_from_ops:
  assumes "made_from env p ops bh min_fees repl b"
  shows "set (bundle_iter_ops b) \<subseteq> po_uo ` set ops"
proof -
  from assms obtain fees base_fee balances d req where m:
    "proposal_ok env balances (pipeline env p bh base_fee req ops) d" "is_bundle fees d b"
    unfolding made_from_def by blast
  have wf: "context_wf d" using m(1) by (simp add: proposal_ok_def)
  have "mset (iter_ops d) \<subseteq># content d" by (simp add: content_def)
  also have "\<dots> \<subseteq># mset (map uo_of (pipeline env p bh base_fee req ops))" using m(1) by (simp add: proposal_ok_def)
  also have "\<dots> \<subseteq># mset (map po_uo ops)" by (rule pipeline_mset)
  finally have "set_mset (mset (iter_ops d)) \<subseteq> set_mset (mset (map po_uo ops))" by (rule set_mset_mono)
  then show ?thesis by (simp add: is_bundle_fields(1) [OF m(2) wf])
qed

lemma get_send_bundle_transaction_defined:
  assumes "v \<noteq> Unspecified" "\<forall>g\<in>set groups. \<forall>op\<in>set (upa_user_ops g). of_version v op"
  obtains tx where "get_send_bundle_transaction abi cs v groups eoa gas fees proxy = Some tx"
    "trq_max_fee_per_gas tx = Some (gf_max_fee_per_gas fees)"
    "trq_max_priority_fee_per_gas tx = Some (gf_max_priority_fee_per_gas fees)"
  using assms
  by (cases v) (auto simp: get_handle_ops_call_v0_6_def get_handle_ops_call_v0_7_def of_version_def
      bundle_transaction_def)

lemma get_bundle_tx_result:
  assumes "pe_version (sv_proposer_env sv) \<noteq> Unspecified"
    "\<forall>op\<in>set (bundle_iter_ops b). of_version (pe_version (sv_proposer_env sv)) op"
  obtains w' tx where "get_bundle_tx sv w nonce b = Some (w', tx)" "sw_state w' = sw_state w"
    "\<And>btx. tx = Some btx \<Longrightarrow> trq_max_fee_per_gas (btx_tx btx) = Some (gf_max_fee_per_gas (bu_gas_fees b)) \<and>
       trq_max_priority_fee_per_gas (btx_tx btx) = Some (gf_max_priority_fee_per_gas (bu_gas_fees b)) \<and>
       trq_nonce (btx_tx btx) = Some nonce \<and> map fst (btx_ops btx) = map uo_sender (bundle_iter_ops b)"
proof -
  define w1 where "w1 = (if bu_rejected_ops b = [] then w
    else pool_request (Req_RemoveOps (bsn_ep_address (sw_sender w)) (map uo_hash (bu_rejected_ops b))) w)"
  define w2 where "w2 = (if bu_entity_updates b = [] then w1
    else pool_request (Req_UpdateEntities (bsn_ep_address (sw_sender w)) (bu_entity_updates b)) w1)"
  have st: "sw_state w2 = sw_state w" by (simp add: w1_def w2_def pool_request_def)
  note g = get_bundle_tx_def [of sv w nonce b, unfolded Let_def, folded w1_def, folded w2_def]
  show ?thesis
  proof (cases "bundle_is_empty b")
    case True
    with g st show ?thesis by (intro that [of w2 None]) auto
  next
    case False
    have "\<forall>g\<in>set (bu_ops_per_aggregator b). \<forall>op\<in>set (upa_user_ops g). of_version (pe_version (sv_proposer_env sv)) op"
      using assms(2) by (auto simp: bundle_iter_ops_def)
    from get_send_bundle_transaction_defined [OF assms(1) this]
    obtain tx where "get_send_bundle_transaction (pe_abi (sv_proposer_env sv)) (bsn_chain_spec (sw_sender w))
        (pe_version (sv_proposer_env sv)) (bu_ops_per_aggregator b) (bsn_sender_eoa (sw_sender w)) (bu_gas_estimate b)
        (bu_gas_fees b) (map_option sp_address (bsn_submission_proxy (sw_sender w))) = Some tx"
      "trq_max_fee_per_gas tx = Some (gf_max_fee_per_gas (bu_gas_fees b))"
      "trq_max_priority_fee_per_gas tx = Some (gf_max_priority_fee_per_gas (bu_gas_fees b))" by blast
    with g st False show ?thesis
      by (intro that [of w2 "Some \<lparr>btx_tx = tx\<lparr>trq_nonce := Some nonce\<rparr>,
          btx_expected_storage = bu_expected_storage b,
          btx_ops = map (\<lambda>op. (uo_sender op, uo_hash op)) (bundle_iter_ops b)\<rparr>"]) (auto simp: o_def)
  qed
qed

section \<open>Sending\<close>

text \<open>What a round of building relies on of the entry point and of the simulator.\<close>

definition services_ok :: "step_env \<Rightarrow> bundle_proposer \<Rightarrow> bool" where
  "services_ok sv p \<longleftrightarrow> pe_version (sv_proposer_env sv) \<noteq> Unspecified \<and>
     entry_point_answers (sv_proposer_env sv) p \<and> simulator_ok (sv_proposer_env sv)"

text \<open>The operations that the pool has for an entry point.\<close>

definition pool_gives :: "pool_client \<Rightarrow> proposer_env \<Rightarrow> address \<Rightarrow> bool" where
  "pool_gives client env ep \<longleftrightarrow>
     (\<forall>hs ops. length hs < 2 ^ 64 \<and> pc_get_ops_by_hashes client ep hs = Inr ops \<longrightarrow> pool_ops_ok env ops)"

lemma send_bundle_inner_result:
  assumes "services_ok sv (bsn_proposer (sw_sender w))" "pool_ops_ok (sv_proposer_env sv) ops"
  obtains w' r where "send_bundle_inner sv w ops n = Some (w', r)"
    "\<And>sent. r = Inr (SA_Success sent) \<Longrightarrow> fst ` set sent \<subseteq> (uo_sender \<circ> po_uo) ` set ops"
proof -
  let ?env = "sv_proposer_env sv" and ?ts = "get_state (sm_transaction_tracker (sw_state w))"
  note sv = assms(1) [unfolded services_ok_def]
  obtain p evs q where m: "make_bundle ?env (bsn_proposer (sw_sender w)) ops (block_hash (sw_state w)) (ts_balance ?ts)
      (ts_required_fees ?ts) (n > 0) = Some (p, evs, q)"
    "\<And>b. q = Inr b \<Longrightarrow> made_from ?env (bsn_proposer (sw_sender w)) ops (block_hash (sw_state w))
       (ts_required_fees ?ts) (n > 0) b"
    using make_bundle_result [of ?env "bsn_proposer (sw_sender w)" ops] sv assms(2) by blast
  let ?w = "w\<lparr>sw_sender := (sw_sender w)\<lparr>bsn_proposer := p\<rparr>, sw_events := sw_events w @ evs\<rparr>"
  show ?thesis
  proof (cases q)
    case (Inl e)
    with m(1) show ?thesis
      by (cases e) (auto simp: send_bundle_inner_def Let_def intro!: that)
  next
    case (Inr b)
    note made = made_from_ops [OF m(2) [OF Inr]]
    with assms(2) have v: "\<forall>op\<in>set (bundle_iter_ops b). of_version (pe_version ?env) op"
      by (auto simp: pool_ops_ok_def)
    show ?thesis
    proof (rule get_bundle_tx_result [OF conjunct1 [OF sv] v, of ?w "ts_nonce ?ts"])
      fix w1 tx
      assume t: "get_bundle_tx sv ?w (ts_nonce ?ts) b = Some (w1, tx)"
        "\<And>btx. tx = Some btx \<Longrightarrow> trq_max_fee_per_gas (btx_tx btx) = Some (gf_max_fee_per_gas (bu_gas_fees b)) \<and>
          trq_max_priority_fee_per_gas (btx_tx btx) = Some (gf_max_priority_fee_per_gas (bu_gas_fees b)) \<and>
          trq_nonce (btx_tx btx) = Some (ts_nonce ?ts) \<and> map fst (btx_ops btx) = map uo_sender (bundle_iter_ops b)"
      note h = send_bundle_inner_def [of sv w ops n, unfolded Let_def m(1) bind.bind_lunit prod.case Inr sum.case t(1)]
      show ?thesis
      proof (cases tx)
        case None
        with h show ?thesis by (intro that) auto
      next
        case (Some btx)
        obtain t' r' where s: "send_transaction (sv_tracker_env sv) (sm_transaction_tracker (sw_state w1))
            (btx_tx btx) (btx_expected_storage btx) (block_number (sw_state w1)) = (t', r')" by force
        from t(2) [OF Some] have "map fst (btx_ops btx) = map uo_sender (bundle_iter_ops b)" by simp
        from arg_cong [OF this, of set] made
        have sub: "fst ` set (btx_ops btx) \<subseteq> (uo_sender \<circ> po_uo) ` set ops" by auto
        note h = h [unfolded Some option.case s prod.case]
        show ?thesis
        proof (cases r')
          case (Inl e)
          have "attempt_result_of e \<noteq> Inr (SA_Success sent)" for sent by (cases e) auto
          with h Inl show ?thesis by (intro that) auto
        next
          case (Inr x)
          with h sub show ?thesis by (intro that) auto
        qed
      qed
    qed
  qed
qed

lemma assign_operations_from_pool:
  assumes "assign_operations client b ep f st = (st', Inr ops)" "assigner_inv st" "ops \<noteq> []"
  shows "\<exists>hs. length hs < 2 ^ 64 \<and> pc_get_ops_by_hashes client ep hs = Inr ops"
proof -
  obtain ss where ss: "pc_get_ops_summaries client ep (as_max_pool_ops_per_request st) f = Inr ss"
    using assms(1) by (auto simp: assign_operations_def split: sum.splits)
  show ?thesis
  proof (rule assign_operations_assigned [OF assms(1,2)])
    fix xs
    assume xs: "\<And>ss. pc_get_ops_summaries client ep (as_max_pool_ops_per_request st) f = Inr ss \<Longrightarrow>
        xs = take (max 1 (unat (as_max_bundle_size st))) (filter (\<lambda>op. assignable st b (sum_sender op)) ss)"
      "\<And>os. Inr ops = Inr os \<Longrightarrow> xs = [] \<and> os = [] \<or>
        xs \<noteq> [] \<and> pc_get_ops_by_hashes client ep (map sum_hash xs) = Inr os"
    have "length xs \<le> max 1 (unat (as_max_bundle_size st))" using xs(1) [OF ss] by simp
    also have "\<dots> < 2 ^ 64" using unsigned_less [of "as_max_bundle_size st"] by simp
    finally have "length (map sum_hash xs) < 2 ^ 64" by simp
    with xs(2) [OF refl] assms(3) show ?thesis by blast
  qed
qed

context pool_source
begin

lemma send_bundle_returns:
  assumes "valid s" "sv_pool_client sv = client s" "assigner_inv (sw_assigner w)"
    "services_ok sv (bsn_proposer (sw_sender w))"
    "pool_gives (client s) (sv_proposer_env sv) (bsn_ep_address (sw_sender w))"
  obtains w' r where "send_bundle sv w n = Some (w', r)"
proof -
  let ?bs = "sw_sender w"
  obtain a q where a: "assign_operations (client s) (bsn_sender_eoa ?bs) (bsn_ep_address ?bs) (bsn_filter_id ?bs)
      (sw_assigner w) = (a, q)" by force
  note h = send_bundle_def [of sv w n, unfolded Let_def assms(2) a prod.case]
  show ?thesis
  proof (cases q)
    case (Inl e)
    with h show ?thesis by (intro that) auto
  next
    case (Inr ops)
    show ?thesis
    proof (cases "ops = []")
      case True
      with h Inr show ?thesis by (intro that) auto
    next
      case False
      note h = h [unfolded Inr sum.case if_not_P [OF False]]
      have ops: "pool_ops_ok (sv_proposer_env sv) ops"
        using assign_operations_from_pool [OF a [unfolded Inr] assms(3) False] assms(5)
        by (auto simp: pool_gives_def)
      have sv: "services_ok sv (bsn_proposer (sw_sender (w\<lparr>sw_assigner := a\<rparr>)))" using assms(4) by simp
      obtain w1 r where s: "send_bundle_inner sv (w\<lparr>sw_assigner := a\<rparr>) ops n = Some (w1, r)"
        "\<And>sent. r = Inr (SA_Success sent) \<Longrightarrow> fst ` set sent \<subseteq> (uo_sender \<circ> po_uo) ` set ops"
        by (rule send_bundle_inner_result [OF sv ops, of n]) blast
      from send_bundle_inner_undisturbed [OF s(1)]
      have w1: "sw_assigner w1 = a" "bsn_sender_eoa (sw_sender w1) = bsn_sender_eoa ?bs" by (simp_all add: undisturbed_def)
      have confirm: "\<exists>w'. confirm_senders cs w1 = Some w'" if "set cs \<subseteq> (uo_sender \<circ> po_uo) ` set ops" for cs
        using confirm_assigned [OF assms(1,3) a [unfolded Inr] False that] w1 by (auto simp: confirm_senders_def)
      note h = h [unfolded s(1) bind.bind_lunit prod.case]
      have "\<exists>w'. (case r of
          Inr (SA_Success sent) \<Rightarrow> confirm_senders (map fst sent) w1
        | Inr SA_NonceTooLow \<Rightarrow> Some (sender_release_all w1)
        | Inr SA_NoOperationsAfterSimulation \<Rightarrow> Some (sender_release_all w1)
        | _ \<Rightarrow> if num_pending_transactions (sm_transaction_tracker (sw_state w1)) = 0 then Some (sender_release_all w1)
               else confirm_senders [] w1) = Some w'"
      proof (cases r)
        case (Inl e)
        with confirm [of "[]"] show ?thesis by simp
      next
        case (Inr x)
        with confirm [of "[]"] confirm s(2) show ?thesis by (cases x) simp_all
      qed
      with h that show ?thesis by fastforce
    qed
  qed
qed

lemma building_returns:
  assumes "valid s" "sv_pool_client sv = client s" "assigner_inv (sw_assigner w)"
    "services_ok sv (bsn_proposer (sw_sender w))"
    "pool_gives (client s) (sv_proposer_env sv) (bsn_ep_address (sw_sender w))" "inner_of w = Building b"
  shows "handle_building_state sv w b \<noteq> None"
proof (rule send_bundle_returns [OF assms(1-5), of "bst_fee_increase_count b"])
  fix v r
  assume v: "send_bundle sv w (bst_fee_increase_count b) = Some (v, r)"
  note h = handle_building_state_def [of sv w b, unfolded Let_def v bind.bind_lunit prod.case]
  have no: "no_operations u \<noteq> None" if "steady w u" for u
    using steady_simps(4) [of w SB_NoOperationsInitially u] that assms(6) by (simp add: no_operations_def steady_def)
  have s: "steady w v" "steady w (abandon_if_increased b v)"
    using send_bundle_steady [OF v] by (simp_all add: abandon_if_increased_def)
  have "handle_fee_filtered b block v \<noteq> None" for block
    using no [OF s(1)] by (cases "bst_underpriced_info b") (auto simp: handle_fee_filtered_def underpriced_round_def)
  with h no [OF s(2)] show ?thesis
    by (cases r) (auto split: send_bundle_attempt_result.splits)
qed

end

section \<open>The pool behind the sender\<close>

text \<open>What the server stores for an entry point has its version and names its paymasters.\<close>

lemma server_pool_gives:
  assumes "server_reachable_in reports_paymasters ops sizes config da srv"
    "pe_version env = pcf_entry_point_version (config ep)"
  shows "pool_gives (server_client (ops, ctx, srv)) env ep"
proof -
  have "pool_ops_ok env uos"
    if h: "length hs < 2 ^ 64" "pc_get_ops_by_hashes (server_client (ops, ctx, srv)) ep hs = Inr uos" for hs uos
  proof -
    from h(2) obtain m where m: "get_pool srv ep = Inr m"
      "uos = List.map_filter (\<lambda>h. fst (up_get_user_operation_by_hash m h)) hs"
      by (auto simp: server_client_by_hashes srv_get_ops_by_hashes_def split: sum.splits if_splits)
    have "proper (pe_version env) po" if "po \<in> set uos" for po
    proof -
      from that m(2) obtain x where "get_operation_by_hash (up_pool m) x = Some po"
        by (auto simp: in_map_filter up_get_user_operation_by_hash_def)
      from holds_stored [OF server_proper [OF assms(1) m(1)] this] show ?thesis by (simp add: assms(2))
    qed
    moreover have "of_version v (po_uo po) \<and> paymaster_known po" if "proper v po" for v po
      using that by (cases "po_uo po") (auto simp: proper_def of_version_def paymaster_known_def)
    moreover have "length uos \<le> length hs" by (simp add: m(2) List.map_filter_def)
    then have "length uos < 2 ^ 64" using h(1) by linarith
    ultimately show ?thesis unfolding pool_ops_ok_def by blast
  qed
  then show ?thesis unfolding pool_gives_def by blast
qed

end
