(* ===== verification/Bundle_Samples.thy ===== *)
theory Bundle_Samples
  imports Fee_Source Uo_Pool_Samples
begin

text \<open>
  A concrete proposer with its environment, at which the theorems about bundles are applied.
\<close>

section \<open>The environment\<close>

definition sample_abi :: entry_point_abi where
  "sample_abi = \<lparr>abi_encode_call_v0_6 = (\<lambda>_. []), abi_decode_call_v0_6 = (\<lambda>_. None), abi_decode_errors_v0_6 = (\<lambda>_. None),
     abi_encode_call_v0_7 = (\<lambda>_. []), abi_decode_call_v0_7 = (\<lambda>_. None), abi_decode_errors_v0_7 = (\<lambda>_. None)\<rparr>"

text \<open>A base fee of 90 and a constant priority fee of 10, without overheads.\<close>

definition sample_fee_node :: fee_node where
  "sample_fee_node = \<lparr>fn_get_pending_base_fee = Inr 90, fn_fee_history = (\<lambda>_ _. Inl ''none''),
     fn_get_max_priority_fee = Inr 0\<rparr>"

definition sample_estimator :: "(b256, cache_entry) lru_list fee_estimator" where
  "sample_estimator = fee_estimator_new ll_ops (ConstantOracle 10) (BaseFeePercent 0) 0 0"

definition sample_proposer_env :: proposer_env where
  "sample_proposer_env =
     \<lparr>pe_alloy = null_alloy, pe_abi = sample_abi, pe_version = EP_V0_6, pe_entry_point = 99,
      pe_required_bundle_fees = estimator_view (ll_ops, sample_fee_node, sample_estimator),
      pe_required_op_fees = (\<lambda>f. f), pe_da_gas_oracle_sync = None,
      pe_calc_da_gas = (\<lambda>_ _ _ _. Inr 0),
      pe_simulate_validation = (\<lambda>op _ _ _. Inr (sample_sim op)),
      pe_balance_of = (\<lambda>_ _. Inr 1000000), pe_call = (\<lambda>_ _. Inr []),
      pe_batch_get_storage_at = (\<lambda>_ slots. Inr (map (\<lambda>_. 1) slots)), pe_now = (\<lambda>_. 100)\<rparr>"

definition sample_proposer :: bundle_proposer where
  "sample_proposer = bundle_proposer_new ''builder''
     \<lparr>bps_chain_spec = chain_spec_default, bps_target_bundle_gas = 10000000, bps_max_bundle_gas = 25000000,
      bps_sender_eoa = 77, bps_da_gas_tracking_enabled = False, bps_max_expected_storage_slots = 10,
      bps_verification_gas_limit_efficiency_reject_threshold = Fin 0, bps_submission_proxy = None\<rparr>"

abbreviation sponsored_uo :: user_operation_variant where
  "sponsored_uo \<equiv> po_uo (sponsored (sample_po 1 0 7 100))"

lemma sponsored_uo_gas [simp]:
  "uo_total_verification_gas_limit sponsored_uo = 4000"
  "uo_required_pre_execution_buffer sponsored_uo = 7000"
  "uo_call_gas_limit sponsored_uo = 1000"
  "uo_static_pre_verification_gas sponsored_uo chain_spec_default = 18300"
  "uo_aggregator_gas_limit sponsored_uo chain_spec_default n = 0"
  "uo_abi_encoded_size sponsored_uo = 576"
  "uo_calldata_floor_gas_limit sponsored_uo = 0"
  "uo_max_gas_cost sponsored_uo = 710000"
  "uo_paymaster sponsored_uo = Some 5"
  by (simp_all add: sponsored_def sample_po_def sample_uo_def uo6_total_verification_gas_limit_def uo6_paymaster_def get_address_from_field_def
    uo6_required_pre_execution_buffer_def V0_6_ENTRY_POINT_INNER_GAS_OVERHEAD_def uo6_static_pre_verification_gas_def uo6_factory_def
    uo6_aggregator_gas_limit_def uo6_abi_encoded_size_def  uo6_max_gas_cost_def byte_array_abi_len_def byte_len_def V0_6_ABI_ENCODED_USER_OPERATION_FIXED_LEN_def)
    (simp_all add: chain_spec_default_def)


lemma sponsored_uo_gas_limits:
  "bundle_computation_gas_limit null_alloy sponsored_uo chain_spec_default None = 30300"
  "bundle_gas_limit null_alloy sponsored_uo chain_spec_default None = 30300"
  by (simp_all add: bundle_computation_gas_limit_def pre_verification_execution_gas_limit_def bundle_gas_limit_def
      pre_verification_bundle_gas_limit_def bundle_gas_limit_without_pvg_def pre_verification_da_gas_limit_def
      optional_bundle_per_uo_shared_gas_def authorization_gas_limit_def saturating_add_def)
    (simp add: chain_spec_default_def)

section \<open>A bundle of one operation\<close>

definition sample_fees :: gas_fees where
  "sample_fees = \<lparr>gf_max_fee_per_gas = 100, gf_max_priority_fee_per_gas = 10\<rparr>"

definition sample_pos :: pool_operation_with_sponsored_da_gas where
  "sample_pos = \<lparr>pos_op = sample_valid 0 7 100, pos_sponsored_da_gas = 0\<rparr>"

definition sample_ows :: op_with_simulation where
  "sample_ows = \<lparr>ows_op = sponsored_uo, ows_simulation = sample_sim sponsored_uo, ows_sponsored_da_gas = 0\<rparr>"

lemma sample_ows_simps [simp]:
  "ows_op sample_ows = sponsored_uo" "ows_simulation sample_ows = sample_sim sponsored_uo"
  by (simp_all add: sample_ows_def)

lemmas sample_proposer_simps = sample_proposer_env_def sample_proposer_def bundle_proposer_new_def

lemma sample_estimate_fees:
  "estimate_gas_fees sample_proposer_env h min_fees = Inr (calc_bundle_fees sample_estimator 90 10 min_fees)"
  by (simp add: estimate_gas_fees_def sample_proposer_env_def estimator_view_def required_bundle_fees_def
      sample_estimator_def fee_estimator_new_def sample_fee_node_def report_fees_def ll_new_def ll_peek_def)

lemma sample_calc_fees:
  "calc_bundle_fees sample_estimator 90 10 None = (sample_fees, 90)"
  "calc_bundle_fees sample_estimator 90 10 (Some \<lparr>gf_max_fee_per_gas = 99, gf_max_priority_fee_per_gas = 10\<rparr>) =
     (sample_fees, 90)"
  "calc_bundle_fees sample_estimator 90 10 (Some \<lparr>gf_max_fee_per_gas = 110, gf_max_priority_fee_per_gas = 11\<rparr>) =
     (\<lparr>gf_max_fee_per_gas = 110, gf_max_priority_fee_per_gas = 11\<rparr>, 90)"
  by (simp_all add: calc_bundle_fees_def sample_estimator_def fee_estimator_new_def sample_fees_def
      increase_by_percent_def Gas_Fees.gas_fees_default_def Let_def max_def)

lemma sample_estimate: "estimate_gas_fees sample_proposer_env h None = Inr (sample_fees, 90)"
  by (simp add: sample_estimate_fees sample_calc_fees)

lemma sample_check:
  "check_fees sample_proposer_env sample_proposer (sample_valid 0 7 100) h da 90 sample_fees = ([], Some sample_pos)"
  by (simp add: check_fees_def Let_def sample_proposer_simps chain_spec_default_def permissions_default_def
      apply_bundle_pct_def sample_fees_def sample_pos_def)

lemma sample_limit:
  "limit_user_operations_for_simulation sample_proposer_env sample_proposer [sample_pos] = ([], [sample_pos], 30300)"
  by (simp add: limit_user_operations_for_simulation_def sample_proposer_simps sample_pos_def
      sponsored_uo_gas_limits saturating_sub_def)

lemma sample_simulate:
  "simulate_op sample_proposer_env sample_proposer sample_pos h = ([], Some (sample_pos, Inr (sample_sim sponsored_uo)))"
  by (simp add: simulate_op_def sample_proposer_env_def sample_pos_def)

lemma sample_balances:
  "get_balances_by_paymaster sample_proposer_env (List.map_filter (uo_paymaster \<circ> po_uo) [sample_valid 0 7 100]) h
     = Inr [5 \<mapsto> 1000000]"
  by (simp add: get_balances_by_paymaster_def List.map_filter_simps sample_proposer_env_def)

definition sample_storage :: bundle_expected_storage where
  "sample_storage = \<lparr>bes_inner = [(1, [(0, 1)])], bes_counts = [(1, [(0, 1)])]\<rparr>"

lemma sample_storage_add:
  "bes_add bes_default (sr_expected_storage (sample_sim sponsored_uo)) = Inr sample_storage"
  by (simp add: sample_sim_def bes_default_def es_insert_def btm_or_default_def btm_get_or_def change_slot_count_def
      sample_storage_def)

definition sample_proposal :: proposal_context where
  "sample_proposal = \<lparr>px_groups_by_aggregator = [(0, \<lparr>ag_ops_with_simulations = [sample_ows], ag_signature = []\<rparr>)],
     px_rejected_ops = [], px_entity_updates = [], px_bundle_expected_storage = sample_storage\<rparr>"

lemma sample_push:
  "context_push (context_new\<lparr>px_bundle_expected_storage := b\<rparr>) sample_ows = sample_proposal\<lparr>px_bundle_expected_storage := b\<rparr>"
  "context_push context_new sample_ows = sample_proposal\<lparr>px_bundle_expected_storage := bes_default\<rparr>"
  by (simp_all add: context_push_def context_new_def sample_proposal_def sample_ows_def aggregator_group_default_def)

lemma sample_limits:
  fixes b :: bundle_expected_storage
  defines "c \<equiv> sample_proposal\<lparr>px_bundle_expected_storage := b\<rparr>"
  shows "get_bundle_gas_limit_inner null_alloy c chain_spec_default da = Some 51300"
    "get_bundle_transaction_size c chain_spec_default = Some 975"
  by (simp_all add: c_def sample_proposal_def get_bundle_gas_limit_inner_def get_bundle_transaction_size_def
      bundle_overhead_bytes_def iter_ops_with_simulations_def sample_ows_def sponsored_uo_gas_limits group_len_def
      bundle_shared_gas_def calldata_floor_non_zero_byte_gas_def BUNDLE_BYTE_OVERHEAD_def calculate_transaction_size_def)
    (simp_all add: chain_spec_default_def)

lemma sample_assemble_op:
  "assemble_op sample_proposer_env sample_proposer 900000000 100 senders (sample_pos, Inr (sample_sim sponsored_uo))
     \<lparr>asm_context = context_new, asm_paymasters_to_reject = [], asm_passed_target = False,
      asm_balances = [5 \<mapsto> 1000000], asm_events = []\<rparr> =
   Some \<lparr>asm_context = sample_proposal, asm_paymasters_to_reject = [], asm_passed_target = False,
         asm_balances = [5 \<mapsto> 290000], asm_events = []\<rparr>"
proof -
  let ?s = "\<lparr>asm_context = context_new, asm_paymasters_to_reject = [], asm_passed_target = False,
    asm_balances = [5 \<mapsto> 1000000], asm_events = []\<rparr> :: assembly"
  have storage: "px_bundle_expected_storage context_new = bes_default" by (simp add: context_new_def)
  have slots: "num_slots (bes_inner sample_storage) = 1" by (simp add: num_slots_def sample_storage_def)
  have insert: "assemble_insert sample_proposer_env sample_proposer senders ?s (sample_valid 0 7 100) sample_ows 51300 =
      Some (?s\<lparr>asm_balances := [5 \<mapsto> 290000], asm_context := sample_proposal\<rparr>)" for senders
  proof -
    have "sr_accessed_addresses (sample_sim sponsored_uo) = []" by (simp add: sample_sim_def)
    then show ?thesis
      unfolding assemble_insert_def Let_def
      by (simp add: storage sample_storage_add slots sample_push) (simp add: sample_proposer_simps sample_proposal_def)
  qed
  have range: "range_contains (sr_valid_time_range (sample_sim sponsored_uo))
      (pe_now sample_proposer_env (po_uo (pos_op sample_pos))) TIME_RANGE_BUFFER"
    by (simp add: sample_sim_def sample_proposer_env_def range_contains_def TIME_RANGE_BUFFER_def timestamp_add_def as_secs_def)
  have ows: "\<lparr>ows_op = po_uo (pos_op sample_pos), ows_simulation = sample_sim sponsored_uo,
      ows_sponsored_da_gas = pos_sponsored_da_gas sample_pos\<rparr> = sample_ows"
    by (simp add: sample_pos_def sample_ows_def)
  have spec: "bps_chain_spec (bp_settings sample_proposer) = chain_spec_default"
    "pe_alloy sample_proposer_env = null_alloy" "bps_max_bundle_gas (bp_settings sample_proposer) = 25000000"
    "cs_max_transaction_size_bytes chain_spec_default = 131072"
    "pos_op sample_pos = sample_valid 0 7 100"
    by (simp_all add: sample_proposer_simps sample_pos_def) (simp add: chain_spec_default_def)
  have "assemble_candidate sample_proposer_env sample_proposer 900000000 100 senders ?s sample_pos (sample_sim sponsored_uo)
      = Some (?s\<lparr>asm_balances := [5 \<mapsto> 290000], asm_context := sample_proposal\<rparr>)"
    unfolding assemble_candidate_def Let_def ows
    by (simp add: sample_push sample_limits spec insert get_bundle_computation_gas_limit_def get_bundle_cost_def
        del: sample_valid_simps)
  with assemble_op_proceed [OF range] show ?thesis by simp
qed

lemma sample_assemble:
  "assemble_context sample_proposer_env sample_proposer 1000000000 100
     [(sample_pos, Inr (sample_sim sponsored_uo))] [5 \<mapsto> 1000000] = Some ([], sample_proposal)"
  by (simp add: assemble_context_def BUNDLE_TRANSACTION_GAS_OVERHEAD_PERCENT_def Let_def sample_assemble_op)
    (simp add: compute_all_aggregator_signatures_def compute_aggregator_signatures_def sample_proposal_def)

lemma sample_round:
  "estimate_gas_rejecting_failed_ops sample_proposer_env sample_proposer n sample_proposal fees =
     Some ([], Inr (sample_proposal, Some 53865))"
proof -
  have limit: "get_bundle_gas_limit null_alloy sample_proposal chain_spec_default = Some 51300"
    using sample_limits(1) [of "px_bundle_expected_storage sample_proposal"]
    by (simp add: get_bundle_gas_limit_def)
  have "as_v0_6 sponsored_uo \<noteq> None" by (simp add: sponsored_def sample_po_def)
  then have "call_handle_ops sample_proposer_env sample_proposer n (to_ops_per_aggregator sample_proposal) gas fees v
      = Some (Inr HO_Success)" for gas v
    by (simp add: call_handle_ops_def call_handle_ops_v0_6_def get_handle_ops_call_v0_6_def sample_proposer_simps
        to_ops_per_aggregator_def sample_proposal_def del: not_None_eq)
  with limit show ?thesis
    by (simp add: estimate_gas_rejecting_failed_ops_def handle_ops_result_def increase_by_percent_def
        BUNDLE_TRANSACTION_GAS_OVERHEAD_PERCENT_def sample_proposer_simps Let_def)
qed

definition sample_bundle :: proposed_bundle where
  "sample_bundle = full_bundle sample_proposal 53865 sample_fees"

lemma sample_make_bundle_with:
  assumes "estimate_gas_fees sample_proposer_env 1 min_fees = Inr (sample_fees, 90)"
  shows "make_bundle sample_proposer_env sample_proposer [sample_valid 0 7 100] 1 1000000000 min_fees False =
     Some (sample_proposer, [], Inr sample_bundle)"
proof -
  have "\<not> context_is_empty sample_proposal" "\<not> bp_condition_not_met_notified sample_proposer"
    by (simp_all add: context_is_empty_def sample_proposal_def sample_proposer_simps)
  then have "make_bundle_loop sample_proposer_env sample_proposer sample_fees 0 [] sample_proposal =
      Some (sample_proposer, [], Inr sample_bundle)"
    by (subst make_bundle_loop.simps) (simp add: sample_round accept_bundle_def sample_bundle_def)
  moreover have "pe_required_op_fees sample_proposer_env sample_fees = sample_fees"
    "gf_max_fee_per_gas sample_fees = 100"
    by (simp_all add: sample_proposer_env_def sample_fees_def)
  ultimately show ?thesis
    by (simp add: make_bundle_def assms join_flatten_def List.map_filter_simps sample_check sample_limit
        sample_simulate sample_balances [unfolded List.map_filter_simps, simplified] sample_assemble Let_def)
qed

lemmas sample_make_bundle = sample_make_bundle_with [OF sample_estimate]

text \<open>The assumptions about the services of the proposer.\<close>

lemma sample_services:
  "pe_version sample_proposer_env \<noteq> Unspecified" "entry_point_answers sample_proposer_env sample_proposer"
  "simulator_ok sample_proposer_env" "pool_ops_ok sample_proposer_env [sample_valid 0 7 100]"
proof -
  show "pe_version sample_proposer_env \<noteq> Unspecified" by (simp add: sample_proposer_env_def)
  show "entry_point_answers sample_proposer_env sample_proposer"
    by (auto simp: entry_point_answers_def call_handle_ops_def call_handle_ops_v0_6_def sample_proposer_env_def
        answer_ok_def split: option.splits)
  show "simulator_ok sample_proposer_env"
    by (simp add: simulator_ok_def sample_proposer_env_def sample_sim_def es_sorted_def es_insert_def btm_sorted_def
        btm_get_or_def)
  show "pool_ops_ok sample_proposer_env [sample_valid 0 7 100]"
    by (simp add: pool_ops_ok_def of_version_def paymaster_known_def sample_proposer_env_def sponsored_def sample_po_def)
      (simp add: sample_valid_def sample_sim_def sponsored_def sample_po_def sample_uo_def uo6_paymaster_def
        get_address_from_field_def)
qed

end
