(* ===== verification/Tracker_Theorems.thy ===== *)
theory Tracker_Theorems
  imports Transaction_Tracker
begin

text \<open>
  Theorems on the transaction tracker: what an update of the chain makes of its pending
  transactions, and which fees a repeated cancellation offers.
\<close>

section \<open>Updates\<close>

text \<open>The transactions that the update mines and the node has a receipt of.\<close>

definition confirmed :: "tracker_env \<Rightarrow> b256 list \<Rightarrow> pending_transaction \<Rightarrow> bool" where
  "confirmed te mined p \<longleftrightarrow>
     (\<exists>h\<in>set mined. pt_tx_hash p = Some h \<and> (\<exists>info. get_mined_tx_info te h = Inr (Some info)))"

definition mined_by :: "tracker_env \<Rightarrow> u64 \<Rightarrow> b256 list \<Rightarrow> pending_transaction list \<Rightarrow> tracker_update \<Rightarrow> bool" where
  "mined_by te nonce mined ps out \<longleftrightarrow>
     (\<exists>p\<in>set ps. \<exists>h\<in>set mined. \<exists>info. pt_tx_hash p = Some h \<and> get_mined_tx_info te h = Inr (Some info) \<and>
        out = mined_update_of nonce p h info)"

lemma find_mined_result:
  "find_mined te nonce mined ps out = Inr out' \<Longrightarrow>
     mined_by te nonce mined ps out' \<or> out' = out \<and> (\<forall>p\<in>set ps. \<not> confirmed te mined p)"
proof (induction te nonce mined ps out rule: find_mined.induct)
  case (2 te nonce mined tx txs out)
  show ?case
  proof (cases "pt_tx_hash tx")
    case None
    with "2.IH"(1) "2.prems" show ?thesis by (auto simp: mined_by_def confirmed_def)
  next
    case (Some h)
    show ?thesis
    proof (cases "h \<in> set mined")
      case False
      with Some "2.IH"(4) "2.prems" show ?thesis by (auto simp: mined_by_def confirmed_def)
    next
      case True
      then obtain r where r: "get_mined_tx_info te h = Inr r"
        using Some "2.prems" by (auto split: sum.splits)
      show ?thesis
      proof (cases r)
        case None
        with Some True r "2.IH"(2) "2.prems" show ?thesis by (auto simp: mined_by_def confirmed_def)
      next
        case info: (Some info)
        with Some True r "2.IH"(3) "2.prems"
        have "mined_by te nonce mined txs out' \<or> out' = mined_update_of nonce tx h info" by auto
        with Some True r info show ?thesis by (auto simp: mined_by_def)
      qed
    qed
  qed
qed simp

text \<open>
  C18: an update that reports something moves the tracker behind the nonce of the account and forgets
  its transactions. It reports a transaction as mined only when the tracker had sent it under its
  nonce, the update names its hash and the node has its receipt; when it reports that the nonce was
  used for another transaction, no transaction of the tracker is among those that were mined.
\<close>

theorem update_recognises_own:
  assumes "process_update te t u = (t', Inr (Some out))"
  shows "\<exists>n. au_nonce u = Some n \<and> tt_nonce t \<le> n \<and> tt_nonce t' = n + 1 \<and> tt_transactions t' = [] \<and>
    (case out of
       Mined m \<Rightarrow> mu_nonce m = tt_nonce t \<and> mu_tx_hash m \<in> set (au_mined_tx_hashes u) \<and>
         (\<exists>p\<in>set (tt_transactions t). pt_tx_hash p = Some (mu_tx_hash m) \<and> mu_attempt_number m = pt_attempt_number p) \<and>
         (\<exists>r. te_get_transaction_receipt te (mu_tx_hash m) = Inr (Some r) \<and> mu_is_success m = rcp_status r)
     | NonceUsedForOtherTx k \<Rightarrow> k = tt_nonce t \<and>
         (\<forall>p\<in>set (tt_transactions t). \<not> confirmed te (au_mined_tx_hashes u) p)
     | LatestTxDropped _ \<Rightarrow> False)"
proof -
  let ?t = "t\<lparr>tt_balance := au_balance u\<rparr>"
  obtain n where n: "au_nonce u = Some n" "tt_nonce t \<le> n"
    using assms by (auto simp: process_update_def Let_def not_less split: option.splits if_splits)
  then obtain out' where f: "find_mined te (tt_nonce t) (au_mined_tx_hashes u) (rev (tt_transactions t))
      (NonceUsedForOtherTx (tt_nonce t)) = Inr out'"
    using assms by (auto simp: process_update_def Let_def split: sum.splits if_splits)
  with assms n have t': "t' = set_nonce_and_clear_state ?t (n + 1)" "out' = out"
    by (auto simp: process_update_def Let_def not_less [symmetric])
  from find_mined_result [OF f] t'(2)
  have "mined_by te (tt_nonce t) (au_mined_tx_hashes u) (tt_transactions t) out \<or>
      out = NonceUsedForOtherTx (tt_nonce t) \<and>
      (\<forall>p\<in>set (tt_transactions t). \<not> confirmed te (au_mined_tx_hashes u) p)"
    by (auto simp: mined_by_def)
  moreover have "\<exists>r. te_get_transaction_receipt te h = Inr (Some r) \<and> mti_is_success info = rcp_status r"
    if "get_mined_tx_info te h = Inr (Some info)" for h info
    using that by (auto simp: get_mined_tx_info_def split: sum.splits option.splits)
  ultimately show ?thesis
    using n t'(1)
    by (intro exI [of _ n]) (auto simp: set_nonce_and_clear_state_def mined_by_def mined_update_of_def)
qed

section \<open>Cancelling\<close>

text \<open>
  C38: a cancellation that is refused as underpriced is remembered without a hash, and the next one
  looks for the last transaction with a hash: it is offered for the same transaction and at the same
  fees, however often it was refused.
\<close>

theorem underpriced_cancel_repeats:
  assumes "cancel_transaction te t fees = (t', Inl TT_ReplacementUnderpriced)"
  shows "cancel_target t' fees = cancel_target t fees"
proof -
  have "cancel_target (push_underpriced t fees') f = cancel_target t f" for fees' f
    by (cases "find (\<lambda>p. pt_tx_hash p \<noteq> None) (rev (tt_transactions t))")
      (simp_all add: cancel_target_def push_underpriced_def Let_def)
  then show ?thesis
    using assms by (auto simp: cancel_transaction_def Let_def split: prod.splits sum.splits if_splits)
qed

section \<open>A tracker with one transaction\<close>

definition sample_tracker_env :: tracker_env where
  "sample_tracker_env =
     \<lparr>te_sender_env = \<lparr>se_signer_address = 77, se_sign_tx_raw = (\<lambda>_. Inr []),
        se_send_raw_transaction = (\<lambda>_. Inl (RPC (Some (''replacement transaction underpriced'', -32000)) ''refused'')),
        se_send_raw_transaction_conditional = (\<lambda>_ _. Inr 0), se_polygon_private_tx = (\<lambda>_. Inr 0),
        se_send_private_transaction = (\<lambda>_ _. Inr 0), se_cancel_private_transaction = (\<lambda>_. Inr False)\<rparr>,
      te_get_transaction_count = (\<lambda>_. Inr 4), te_get_balance = (\<lambda>_. Inr 1000),
      te_get_transaction_by_hash = (\<lambda>_. Inr (Some 30000)),
      te_get_transaction_receipt = (\<lambda>h. Inr (if h = 12 then Some \<lparr>rcp_block_number = Some 11, rcp_gas_used = 100,
        rcp_effective_gas_price = 5, rcp_status = True\<rparr> else None)), te_now = 0\<rparr>"

definition sample_tracker :: transaction_tracker where
  "sample_tracker =
     \<lparr>tt_sender = Raw False, tt_signer = 77, tt_replacement_fee_percent_increase = 10, tt_nonce = 4, tt_balance = 1000,
      tt_transactions = [\<lparr>pt_tx_hash = Some 12, pt_gas_fees = \<lparr>gf_max_fee_per_gas = 100, gf_max_priority_fee_per_gas = 10\<rparr>,
        pt_attempt_number = 0, pt_sent_at_block = Some 10, pt_sent_at_time = Some 0\<rparr>],
      tt_has_abandoned = False, tt_attempt_count = 1\<rparr>"

definition sample_address_update :: address_update where
  "sample_address_update = \<lparr>au_address = 77, au_balance = 900, au_nonce = Some 4, au_mined_tx_hashes = [12]\<rparr>"

theorem update_recognises_own_witness:
  "\<exists>t' out. process_update sample_tracker_env sample_tracker sample_address_update = (t', Inr (Some out)) \<and>
    tt_nonce t' = 5 \<and> (\<exists>m. out = Mined m \<and> mu_tx_hash m = 12 \<and> mu_nonce m = 4 \<and> mu_is_success m)"
proof -
  obtain t' m where p: "process_update sample_tracker_env sample_tracker sample_address_update = (t', Inr (Some (Mined m)))"
    "mu_tx_hash m = 12"
    by (simp add: process_update_def sample_tracker_env_def sample_tracker_def sample_address_update_def Let_def
        get_mined_tx_info_def mined_update_of_def)
  from update_recognises_own [OF p(1)] p show ?thesis
    by (auto simp: sample_address_update_def sample_tracker_def sample_tracker_env_def)
qed

lemma underpriced_reply:
  "parse_known_call_execution_failed ''replacement transaction underpriced'' (-32000) = Some TS_ReplacementUnderpriced"
  by code_simp

theorem underpriced_cancel_repeats_witness:
  "cancel_target (push_underpriced sample_tracker \<lparr>gf_max_fee_per_gas = 110, gf_max_priority_fee_per_gas = 11\<rparr>)
     gas_fees_default = cancel_target sample_tracker gas_fees_default"
proof (rule underpriced_cancel_repeats)
  show "cancel_transaction sample_tracker_env sample_tracker gas_fees_default =
      (push_underpriced sample_tracker \<lparr>gf_max_fee_per_gas = 110, gf_max_priority_fee_per_gas = 11\<rparr>,
       Inl TT_ReplacementUnderpriced)"
    using underpriced_reply
    by (simp add: cancel_transaction_def cancel_target_def sample_tracker_def sample_tracker_env_def unwrap_or_def
        gas_fees_increase_by_percent_def increase_by_percent_ceil_def raw_cancel_transaction_def gas_fees_default_def Let_def)
qed

end
