(* ===== verification/Assigner_Theorems.thy ===== *)
theory Assigner_Theorems
  imports Pool_Server_Theorems
begin

text \<open>
  Theorems on the assigner of operations to builders, together with the pool server behind it.
\<close>

text \<open>
  C10: the operations a builder is assigned have senders that it alone holds: no other builder held
  one before or holds one after, no lock of another builder changes, and confirming any of these
  senders afterwards does not panic.
\<close>

theorem assigned_exclusively:
  assumes "server_reachable ops sizes config da srv" "assigner_reachable st"
    "assign_operations (server_client (ops, ctx, srv)) b ep f st = (st', Inr uos)"
  shows "(\<forall>op\<in>set uos. locked_by st' b (uo_sender (po_uo op)) \<and>
      (\<forall>b'. b' \<noteq> b \<longrightarrow> \<not> locked_by st b' (uo_sender (po_uo op)) \<and> \<not> locked_by st' b' (uo_sender (po_uo op)))) \<and>
    (\<forall>b' s. b' \<noteq> b \<longrightarrow> locked_by st' b' s = locked_by st b' s) \<and>
    (\<forall>cs. uos \<noteq> [] \<and> set cs \<subseteq> (uo_sender \<circ> po_uo) ` set uos \<longrightarrow>
      confirm_senders_drop_unused b cs st' \<noteq> None)"
proof -
  have ok: "server_ok (ops, ctx, srv)" using assms(1) by (auto simp: server_ok_def)
  note inv = assigner_reachable_inv [OF assms(2)]
  note l = psrc.assigned_locked [OF ok inv assms(3)] and o = psrc.assigned_others [OF inv assms(3)]
  have "\<not> locked_by st' b' (uo_sender (po_uo op))" if "op \<in> set uos" "b' \<noteq> b" for op b'
    using l [OF that(1)] that(2) locked_by_one by blast
  moreover have "confirm_senders_drop_unused b cs st' \<noteq> None"
    if "uos \<noteq> []" "set cs \<subseteq> (uo_sender \<circ> po_uo) ` set uos" for cs
    using psrc.confirm_assigned [OF ok inv assms(3) that] .
  ultimately show ?thesis using l o by blast
qed

definition sample_assigner :: assigner where
  "sample_assigner = assigner_new 10 5"

lemma sample_assigner_reachable: "assigner_reachable sample_assigner"
  unfolding sample_assigner_def by (rule assigner_reachable.start)

text \<open>The sample server has one operation, which the builder 3 is assigned.\<close>

definition sample_locked :: assigner where
  "sample_locked = lock_sender sample_assigner 3 1"

lemma sample_best: "up_best_operations mempool1 10 None = [sample_valid 0 7 100]"
  by (simp add: up_best_operations_def pool_best_operations_def mempool1_eq sample_handle_def sample_valid_def
      sponsored_def sample_po_def)

lemma sample_assign:
  "assign_operations (server_client (ll_ops, sample_context, sample_server)) 3 99 None sample_assigner =
     (sample_locked, Inr [sample_valid 0 7 100])"
  by (simp add: assign_operations_def server_client_summaries server_client_by_hashes sample_server_pool
      srv_get_ops_summaries_def srv_get_ops_by_hashes_def sample_assigner_def assigner_new_def sample_best
      assign_loop_Cons assignable_def summary_from_def sample_locked_def up_get_user_operation_by_hash_def
      get_operation_by_hash_def sample_handle_def map_filter_simps)

theorem assigned_exclusively_witness:
  "locked_by sample_locked 3 1 \<and> \<not> locked_by sample_locked 4 1 \<and>
     confirm_senders_drop_unused 3 [1] sample_locked \<noteq> None"
  using assigned_exclusively [OF sample_server_reachable sample_assigner_reachable sample_assign] by auto

text \<open>
  Confirming panics exactly when the contract of the locks is broken, that is when one of the
  senders is not locked by the builder or the builder holds no lock at all.
\<close>

theorem confirm_panics_iff:
  assumes "assigner_reachable st"
  shows "confirm_senders_drop_unused b cs st = None \<longleftrightarrow>
    (\<exists>c\<in>set cs. \<not> locked_by st b c) \<or> (\<nexists>s. locked_by st b s)"
proof -
  note inv = assigner_reachable_inv [OF assms]
  have "builder_senders st b = [] \<longleftrightarrow> (\<nexists>s. locked_by st b s)"
    using assigner_invD(1) [OF inv, of _ b] by (cases "builder_senders st b") auto
  with confirm_defined [OF inv, of b cs] show ?thesis by blast
qed

theorem confirm_panics_iff_witness:
  "confirm_senders_drop_unused 3 [1] sample_assigner = None"
  using confirm_panics_iff [OF sample_assigner_reachable, of 3 "[1]"]
  by (simp add: sample_assigner_def assigner_new_def locked_by_def)

text \<open>
  C25: after confirming, the builder holds exactly the senders it confirmed now or before, and after
  releasing it holds none; both leave the locks of every other builder alone.
\<close>

theorem confirm_and_release:
  assumes "assigner_reachable st" "confirm_senders_drop_unused b cs st = Some st'"
  shows "(\<forall>s. locked_by st' b s \<longleftrightarrow> locked_by st b s \<and>
      (s \<in> set cs \<or> as_uo_sender_to_builder_state st s = Some (b, Confirmed_Lock))) \<and>
    (\<forall>s. locked_by st' b s \<longrightarrow> as_uo_sender_to_builder_state st' s = Some (b, Confirmed_Lock)) \<and>
    (\<forall>s. \<not> locked_by (release_all b st') b s) \<and>
    (\<forall>b' s. b' \<noteq> b \<longrightarrow> locked_by st' b' s = locked_by st b' s \<and>
       locked_by (release_all b st') b' s = locked_by st b' s)"
proof -
  note inv = assigner_reachable_inv [OF assms(1)]
  note M = confirm_maps(1) [OF inv assms(2)] and R = release_locked [OF confirm_inv [OF inv assms(2)]]
  have "locked_by st' b' s = locked_by st b' s" if "b' \<noteq> b" for b' s
    using M [of s] that by (auto simp: locked_by_iff split: if_splits)
  moreover have "locked_by st' b s \<longleftrightarrow> locked_by st b s \<and>
      (s \<in> set cs \<or> as_uo_sender_to_builder_state st s = Some (b, Confirmed_Lock))" for s
    using M [of s] by (auto simp: locked_by_iff split: if_splits)
  moreover have "locked_by st' b s \<longrightarrow> as_uo_sender_to_builder_state st' s = Some (b, Confirmed_Lock)" for s
    using M [of s] by (auto simp: locked_by_iff split: if_splits)
  ultimately show ?thesis using R by blast
qed

lemma sample_locked_reachable: "assigner_reachable sample_locked"
  by (rule assigner_reachable.step [OF sample_assigner_reachable assigner_step.assign [OF sample_assign]])

theorem confirm_and_release_witness:
  "\<exists>st'. confirm_senders_drop_unused 3 [1] sample_locked = Some st' \<and> locked_by st' 3 1 \<and>
     \<not> locked_by (release_all 3 st') 3 1"
proof -
  obtain st' where st': "confirm_senders_drop_unused 3 [1] sample_locked = Some st'"
    by (auto simp: confirm_senders_drop_unused_def sample_locked_def lock_sender_def sample_assigner_def
        assigner_new_def builder_senders_def)
  have "locked_by sample_locked 3 1"
    by (simp add: locked_by_def sample_locked_def lock_sender_def sample_assigner_def assigner_new_def)
  with st' confirm_and_release [OF sample_locked_reachable st'] show ?thesis by auto
qed

end
