(* ===== verification/Sender_Theorems.thy ===== *)
theory Sender_Theorems
  imports Sender_Services Bundle_Samples Tracker_Theorems Assigner_Theorems
begin

text \<open>
  Theorems on the bundle sender together with the proposer, the assigner, the pool, the tracker and
  the fee estimator that it drives.
\<close>

section \<open>The state machine\<close>

text \<open>
  C11: the state of a sender follows an automaton whose input is what the round observes: the result
  of an attempt to send a bundle, the update of the tracker, the result of a cancellation, and the
  block they come with.  Every round of the loop makes the one move that the automaton has for its
  input: when a bundle is sent, when it counts as stuck and its fees are raised, when a sender that
  stays underpriced gives up, when it cancels again, and when it starts anew.
\<close>

theorem sender_refines_automaton:
  assumes "loop_step sv w = Some w'"
  shows "\<exists>i. observed sv w = Some i \<and>
    (\<forall>s. sender_move (bsn_settings (sw_sender w)) (sm_inner (sw_state w)) i s \<longleftrightarrow> s = sm_inner (sw_state w')) \<and>
    bsn_settings (sw_sender w') = bsn_settings (sw_sender w)"
proof (rule loop_step_moves [OF assms])
  fix i
  assume "observed sv w = Some i" "moves w i w'"
  then show ?thesis using sender_move_deterministic unfolding moves_def by blast
qed

text \<open>The worlds after each of a number of rounds.\<close>

fun sender_run :: "step_env list \<Rightarrow> sender_world \<Rightarrow> sender_world list option" where
  "sender_run [] w = Some []"
| "sender_run (sv # svs) w =
     do { w' \<leftarrow> loop_step sv w; ws \<leftarrow> sender_run svs w'; Some (w' # ws) }"

definition is_cancelling :: "sender_world \<Rightarrow> bool" where
  "is_cancelling w = (case inner_of w of Cancelling _ \<Rightarrow> True | _ \<Rightarrow> False)"

definition in_cancellation :: "sender_world \<Rightarrow> bool" where
  "in_cancellation w = (case inner_of w of Cancelling _ \<Rightarrow> True | CancelPending _ \<Rightarrow> True | _ \<Rightarrow> False)"

text \<open>How many more attempts a state allows.\<close>

definition attempts_left :: "sender_world \<Rightarrow> nat" where
  "attempts_left w =
     (let n = unat (bss_max_cancellation_fee_increases (settings_of w))
      in case inner_of w of
           Cancelling c \<Rightarrow> n - unat (cst_fee_increase_count c)
         | CancelPending d \<Rightarrow> n - unat (cps_fee_increase_count d)
         | _ \<Rightarrow> Suc n)"

lemma unat_Suc_less: "(a :: 'a::len word) < b \<Longrightarrow> unat (a + 1) = Suc (unat a) \<and> unat a < unat b"
proof -
  assume "a < b"
  then have l: "unat a < unat b" by (simp add: word_less_nat_alt)
  moreover have "unat b < 2 ^ LENGTH('a)" by (rule unsigned_less)
  ultimately have "Suc (unat a) < 2 ^ LENGTH('a)" by linarith
  with l show ?thesis by (simp add: unat_word_ariths)
qed

lemma attempts_left_step:
  assumes "loop_step sv w = Some w'" "in_cancellation w'"
  shows "(if is_cancelling w' then 1 else 0) + attempts_left w' \<le> attempts_left w"
proof -
  obtain i where m: "sender_move (settings_of w) (inner_of w) i (inner_of w')" "settings_of w' = settings_of w"
    using loop_step_moves [OF assms(1)] by (auto simp: moves_def)
  from m(1) show ?thesis
  proof cases
    case (refused e c n)
    with m(2) unat_Suc_less [OF refused(5)] show ?thesis
      by (auto simp: is_cancelling_def attempts_left_def Let_def)
  next
    case (cancels_again d n manual)
    with m(2) unat_Suc_less [OF cancels_again(5)] show ?thesis
      by (auto simp: is_cancelling_def attempts_left_def Let_def)
  qed (use assms(2) m(2) in \<open>simp_all add: is_cancelling_def in_cancellation_def attempts_left_def reset_state_def
      idle_state_def Let_def\<close>)
qed

lemma attempts_left_run:
  "sender_run svs w = Some ws \<Longrightarrow> \<forall>v\<in>set ws. in_cancellation v \<Longrightarrow> length (filter is_cancelling ws) \<le> attempts_left w"
proof (induction svs w arbitrary: ws rule: sender_run.induct)
  case (2 sv svs w)
  then obtain w' vs where v: "loop_step sv w = Some w'" "sender_run svs w' = Some vs" "ws = w' # vs"
    by (auto simp: bind_eq_Some_conv)
  from "2.IH" [OF v(1,2)] "2.prems"(2) attempts_left_step [OF v(1)] v(3) show ?case by auto
qed simp

text \<open>
  C14: a sender that gives up a bundle tries to cancel it at most one time more than its settings
  allow fee increases: in any run that starts outside of a cancellation and stays in one from the
  first round on, the number of rounds that begin an attempt is bounded.
\<close>

theorem cancellation_bounded:
  assumes "sender_run svs w = Some ws" "sm_inner (sw_state w) = Building b"
    "\<forall>v\<in>set ws. in_cancellation v"
  shows "length (filter is_cancelling ws) \<le> Suc (unat (bss_max_cancellation_fee_increases (bsn_settings (sw_sender w))))"
  using attempts_left_run [OF assms(1,3)] assms(2) by (simp add: attempts_left_def Let_def)

section \<open>The services together\<close>

text \<open>
  C5: a round of building returns, whatever the node, the fee estimator and the transaction sender
  answer: the loop of the proposer ends, the bundle it makes can be turned into a transaction, and the
  senders that are confirmed are locked by this builder.  The operations come from the pool server and
  the locks from the assigner, in any state they reach; the entry point of the sender has the same
  version in the pool and in the proposer.  What can still make the round panic is excluded by the
  hypotheses: the entry point reports a failed operation with a reason of at least four characters
  and a failed signature for an aggregator of the bundle, the simulator reports violations with their
  codes, and it describes the paymaster of an operation that has one.
\<close>

theorem building_step_returns:
  assumes "server_reachable_in reports_paymasters ops sizes config da srv" "assigner_reachable (sw_assigner w)"
    "sv_pool_client sv = server_client (ops, ctx, srv)"
    "pe_version (sv_proposer_env sv) = pcf_entry_point_version (config (bsn_ep_address (sw_sender w)))"
    "services_ok sv (bsn_proposer (sw_sender w))" "sm_inner (sw_state w) = Building b"
  shows "\<exists>w'. handle_building_state sv w b = Some w'"
proof -
  have "server_ok (ops, ctx, srv)" using server_reachable_weaken [OF assms(1)] by (auto simp: server_ok_def)
  from psrc.building_returns [OF this assms(3) assigner_reachable_inv [OF assms(2)] assms(5)
      server_pool_gives [OF assms(1,4)] assms(6)] show ?thesis by simp
qed

text \<open>
  C15: the transaction of a bundle that was made with the fees the tracker requires is accepted by the
  tracker: it carries the nonce of the tracker, and the fee estimator never goes below the fees that
  replacing the pending transaction needs.
\<close>

theorem bundle_passes_tracker:
  assumes "services_ok sv p" "pool_ops_ok (sv_proposer_env sv) uos"
    "pe_required_bundle_fees (sv_proposer_env sv) = estimator_view (lru, nd, fe)"
    "make_bundle (sv_proposer_env sv) p uos h balance (ts_required_fees (get_state t)) repl = Some (p', evs, Inr b)"
    "get_bundle_tx sv w (ts_nonce (get_state t)) b = Some (w', Some btx)"
  shows "validate_transaction t (btx_tx btx) = Inr ()"
proof -
  let ?env = "sv_proposer_env sv"
  note sv = assms(1) [unfolded services_ok_def]
  have made: "made_from ?env p uos h (ts_required_fees (get_state t)) repl b"
    using make_bundle_result [of ?env p uos h balance "ts_required_fees (get_state t)" repl] sv assms(2,4) by auto
  have v: "\<forall>op\<in>set (bundle_iter_ops b). of_version (pe_version ?env) op"
    using made_from_ops [OF made] assms(2) by (auto simp: pool_ops_ok_def)
  show ?thesis
  proof (rule get_bundle_tx_result [OF conjunct1 [OF sv] v, of w "ts_nonce (get_state t)"])
    fix w1 tx
    assume t: "get_bundle_tx sv w (ts_nonce (get_state t)) b = Some (w1, tx)"
      "\<And>btx. tx = Some btx \<Longrightarrow> trq_max_fee_per_gas (btx_tx btx) = Some (gf_max_fee_per_gas (bu_gas_fees b)) \<and>
        trq_max_priority_fee_per_gas (btx_tx btx) = Some (gf_max_priority_fee_per_gas (bu_gas_fees b)) \<and>
        trq_nonce (btx_tx btx) = Some (ts_nonce (get_state t)) \<and> map fst (btx_ops btx) = map uo_sender (bundle_iter_ops b)"
    from t(1) assms(5) have "tx = Some btx" by simp
    from t(2) [OF this] fsrc.bundle_validates [OF assms(3) made] show ?thesis by simp
  qed
qed

section \<open>A sender at work\<close>

text \<open>The sample proposer behind a sender whose pool is the sample server.\<close>

definition sample_sender :: bundle_sender where
  "sample_sender =
     \<lparr>bsn_builder_tag = ''builder'', bsn_filter_id = None, bsn_chain_spec = chain_spec_default, bsn_sender_eoa = 3,
      bsn_submission_proxy = None, bsn_proposer = sample_proposer,
      bsn_settings = \<lparr>bss_max_replacement_underpriced_blocks = 5, bss_max_cancellation_fee_increases = 2,
        bss_max_blocks_to_wait_for_mine = 2\<rparr>,
      bsn_ep_address = 99\<rparr>"

definition sample_head :: new_head where
  "sample_head = \<lparr>nh_block_hash = 1, nh_block_number = 10, nh_address_updates = []\<rparr>"

definition sample_machine :: "inner_state \<Rightarrow> sender_machine_state" where
  "sample_machine inner =
     \<lparr>sm_trigger = \<lparr>trg_bundling_mode = Auto, trg_last_block = sample_head\<rparr>, sm_transaction_tracker = sample_tracker,
      sm_send_bundle_response = None, sm_inner = inner, sm_requires_reset = False\<rparr>"

definition sample_world :: "inner_state \<Rightarrow> sender_world" where
  "sample_world inner =
     \<lparr>sw_sender = sample_sender, sw_state = sample_machine inner, sw_assigner = sample_assigner, sw_events = [],
      sw_responses = [], sw_pool_requests = []\<rparr>"

definition sample_step_env :: step_env where
  "sample_step_env =
     \<lparr>sv_inputs = [In_Tick], sv_block = Some sample_head, sv_buffered = [], sv_closed = False,
      sv_wait_tracker_env = sample_tracker_env, sv_tracker_env = sample_tracker_env,
      sv_proposer_env = sample_proposer_env,
      sv_pool_client = server_client (ll_ops, sample_context, sample_server),
      sv_debug_trace_transaction = (\<lambda>_. Inl ''not traced'')\<rparr>"

lemma sample_world_simps [simp]:
  "inner_of (sample_world inner) = inner" "sw_sender (sample_world inner) = sample_sender"
  "sw_assigner (sample_world inner) = sample_assigner"
  by (simp_all add: sample_world_def sample_machine_def)

lemma sample_services_ok: "services_ok sample_step_env sample_proposer"
  using sample_services by (simp add: services_ok_def sample_step_env_def)

theorem building_step_returns_witness:
  "\<exists>w'. handle_building_state sample_step_env
     (sample_world (Building \<lparr>bst_wait_for_trigger = False, bst_fee_increase_count = 0, bst_underpriced_info = None\<rparr>))
     \<lparr>bst_wait_for_trigger = False, bst_fee_increase_count = 0, bst_underpriced_info = None\<rparr> = Some w'"
  by (rule building_step_returns [OF sample_server_reachable_in])
    (use sample_assigner_reachable sample_services_ok in \<open>simp_all add: sample_sender_def\<close>,
      simp_all add: sample_step_env_def sample_proposer_env_def sample_configs_def sample_pool_config_def)

text \<open>A tracker whose pending transaction is replaced by the sample bundle.\<close>

definition replaceable_tracker :: transaction_tracker where
  "replaceable_tracker = sample_tracker\<lparr>tt_transactions :=
     [\<lparr>pt_tx_hash = Some 12, pt_gas_fees = \<lparr>gf_max_fee_per_gas = 90, gf_max_priority_fee_per_gas = 9\<rparr>,
       pt_attempt_number = 0, pt_sent_at_block = Some 10, pt_sent_at_time = Some 0\<rparr>]\<rparr>"

lemma replaceable_required:
  "ts_required_fees (get_state replaceable_tracker) = Some \<lparr>gf_max_fee_per_gas = 99, gf_max_priority_fee_per_gas = 10\<rparr>"
  by (simp add: get_state_def replaceable_tracker_def sample_tracker_def gas_fees_increase_by_percent_def
      increase_by_percent_ceil_def)

theorem bundle_passes_tracker_witness:
  "\<exists>w' btx. get_bundle_tx sample_step_env (sample_world reset_state) 4 sample_bundle = Some (w', Some btx) \<and>
     validate_transaction replaceable_tracker (btx_tx btx) = Inr ()"
proof -
  let ?w = "sample_world reset_state"
  have "as_v0_6 sponsored_uo \<noteq> None" by (simp add: sponsored_def sample_po_def)
  then obtain w' btx where b: "get_bundle_tx sample_step_env ?w 4 sample_bundle = Some (w', Some btx)"
    by (simp add: get_bundle_tx_def sample_bundle_def full_bundle_def sample_step_env_def sample_proposer_env_def
        sample_proposal_def bundle_is_empty_def to_ops_per_aggregator_def get_handle_ops_call_v0_6_def Let_def
        del: not_None_eq)
  have "pool_ops_ok (sv_proposer_env sample_step_env) [sample_valid 0 7 100]"
    "pe_required_bundle_fees (sv_proposer_env sample_step_env) = estimator_view (ll_ops, sample_fee_node, sample_estimator)"
    "make_bundle (sv_proposer_env sample_step_env) sample_proposer [sample_valid 0 7 100] 1 1000000000
       (ts_required_fees (get_state replaceable_tracker)) False = Some (sample_proposer, [], Inr sample_bundle)"
    "ts_nonce (get_state replaceable_tracker) = 4"
    using sample_services(4) sample_make_bundle_with
    by (simp_all add: sample_step_env_def replaceable_required sample_estimate_fees sample_calc_fees)
      (simp_all add: sample_proposer_env_def get_state_def replaceable_tracker_def sample_tracker_def)
  with bundle_passes_tracker [OF sample_services_ok, of _ _ _ _ _ _ replaceable_tracker] b show ?thesis by metis
qed

text \<open>A cancellation that the node refuses every time.\<close>

lemma refused_cancel:
  assumes "tt_sender t = Raw False"
  shows "\<exists>t'. cancel_transaction sample_tracker_env t fees = (t', Inl TT_ReplacementUnderpriced) \<and> tt_sender t' = Raw False"
  using assms underpriced_reply
  by (simp add: cancel_transaction_def raw_cancel_transaction_def sample_tracker_env_def push_underpriced_def
      Let_def split: prod.splits)

definition refusing :: "sender_world \<Rightarrow> bool" where
  "refusing w \<longleftrightarrow> tt_sender (sm_transaction_tracker (sw_state w)) = Raw False \<and> \<not> sm_requires_reset (sw_state w) \<and>
     settings_of w = bsn_settings sample_sender"

lemma refused_step:
  assumes "refusing w" "inner_of w = Cancelling c" "cst_fee_increase_count c < 2"
  shows "\<exists>w'. loop_step sample_step_env w = Some w' \<and> refusing w' \<and> inner_of w' = Cancelling (to_self c)"
proof -
  let ?fees = "case estimate_gas_fees sample_proposer_env (block_hash (sw_state w)) None of
    Inr (fees, _) \<Rightarrow> fees | Inl e \<Rightarrow> gas_fees_default"
  obtain t' where t: "cancel_transaction sample_tracker_env (sm_transaction_tracker (sw_state w)) ?fees =
      (t', Inl TT_ReplacementUnderpriced)" "tt_sender t' = Raw False"
    using refused_cancel assms(1) by (auto simp: refusing_def)
  define w' where "w' = on_state (update (Cancelling (to_self c))) (on_tracker (\<lambda>_. t') w)"
  have "handle_cancelling_state sample_step_env w c = w'"
    using t(1) assms(1,3)
    by (simp add: handle_cancelling_state_def sample_step_env_def w'_def refusing_def sample_sender_def Let_def not_le)
  moreover have "machine_wait_for_trigger sample_step_env (sw_state w) = Some (sw_state w, Inr None)"
    using assms(1,2) by (simp add: machine_wait_for_trigger_def refusing_def)
  ultimately have "loop_step sample_step_env w = Some w'"
    using assms(2) by (simp add: loop_step_def step_state_def)
  moreover have "refusing w'" "inner_of w' = Cancelling (to_self c)"
    using assms(1) t(2) by (simp_all add: refusing_def w'_def on_tracker_def on_state_def update_def)
  ultimately show ?thesis by blast
qed

definition stalled :: inner_state where
  "stalled = Building \<lparr>bst_wait_for_trigger = False, bst_fee_increase_count = 1,
     bst_underpriced_info = Some \<lparr>ui_since_block = 0, ui_rounds = 1\<rparr>\<rparr>"

lemma stalled_filtered:
  "\<exists>evs. make_bundle sample_proposer_env sample_proposer [sample_valid 0 7 100] 1 1000
     (Some \<lparr>gf_max_fee_per_gas = 110, gf_max_priority_fee_per_gas = 11\<rparr>) True =
     Some (sample_proposer, evs, Inl NoOperationsAfterFeeFilter)"
proof -
  have "snd (check_fees sample_proposer_env sample_proposer (sample_valid 0 7 100) 1 da 90
      \<lparr>gf_max_fee_per_gas = 110, gf_max_priority_fee_per_gas = 11\<rparr>) = None" for da
    by (simp add: check_fees_def Let_def permissions_default_def apply_bundle_pct_def)
  then show ?thesis
    by (simp add: make_bundle_def sample_estimate_fees sample_calc_fees join_flatten_def List.map_filter_simps Let_def)
qed

lemma stalled_state:
  "sm_transaction_tracker (sw_state (sample_world stalled)) = sample_tracker"
  "block_hash (sw_state (sample_world stalled)) = 1" "block_number (sw_state (sample_world stalled)) = 10"
  by (simp_all add: sample_world_def sample_machine_def sample_head_def block_hash_def block_number_def)

lemma sample_required:
  "get_state sample_tracker = \<lparr>ts_nonce = 4, ts_balance = 1000,
     ts_required_fees = Some \<lparr>gf_max_fee_per_gas = 110, gf_max_priority_fee_per_gas = 11\<rparr>\<rparr>"
  by (simp add: get_state_def sample_tracker_def gas_fees_increase_by_percent_def increase_by_percent_ceil_def)

lemma sample_confirm: "\<exists>a. confirm_senders_drop_unused 3 [] sample_locked = Some a"
  using psrc.confirm_assigned [of "(ll_ops, sample_context, sample_server)" sample_assigner 3 99 None sample_locked
      "[sample_valid 0 7 100]" "[]"] sample_assign sample_server_reachable
    assigner_reachable_inv [OF sample_assigner_reachable]
  by (auto simp: server_ok_def)

lemma stalled_send:
  "\<exists>w1. send_bundle sample_step_env (sample_world stalled) 1 = Some (w1, Inr SA_NoOperationsAfterFeeFilter) \<and>
     sw_state w1 = sw_state (sample_world stalled) \<and> settings_of w1 = bsn_settings sample_sender"
proof -
  let ?v = "(sample_world stalled)\<lparr>sw_assigner := sample_locked\<rparr>"
  obtain evs where m: "make_bundle sample_proposer_env sample_proposer [sample_valid 0 7 100] 1 1000
      (Some \<lparr>gf_max_fee_per_gas = 110, gf_max_priority_fee_per_gas = 11\<rparr>) True =
      Some (sample_proposer, evs, Inl NoOperationsAfterFeeFilter)"
    using stalled_filtered by blast
  have sender: "bsn_proposer sample_sender = sample_proposer" "bsn_sender_eoa sample_sender = 3"
    "bsn_ep_address sample_sender = 99" "bsn_filter_id sample_sender = None"
    by (simp_all add: sample_sender_def)
  define w1 where "w1 = ?v\<lparr>sw_sender := sample_sender\<lparr>bsn_proposer := sample_proposer\<rparr>,
    sw_events := sw_events ?v @ evs\<rparr>"
  have inner: "send_bundle_inner sample_step_env ?v [sample_valid 0 7 100] 1 = Some (w1, Inr SA_NoOperationsAfterFeeFilter)"
    using m by (simp add: send_bundle_inner_def sample_step_env_def stalled_state sample_required sender w1_def Let_def)
  have w1: "sw_state w1 = sw_state (sample_world stalled)" "sw_assigner w1 = sample_locked"
    "bsn_sender_eoa (sw_sender w1) = 3" "settings_of w1 = bsn_settings sample_sender"
    by (simp_all add: w1_def sender)
  obtain a where "confirm_senders [] w1 = Some (w1\<lparr>sw_assigner := a\<rparr>)"
    using sample_confirm w1 by (auto simp: confirm_senders_def)
  moreover have "num_pending_transactions (sm_transaction_tracker (sw_state w1)) = 1"
    unfolding w1 stalled_state by (simp add: num_pending_transactions_def sample_tracker_def)
  ultimately have "send_bundle sample_step_env (sample_world stalled) 1 =
      Some (w1\<lparr>sw_assigner := a\<rparr>, Inr SA_NoOperationsAfterFeeFilter)"
    using inner sample_assign by (simp add: send_bundle_def sender sample_step_env_def Let_def)
  with w1 show ?thesis by simp
qed

lemma stalled_step:
  "\<exists>w'. loop_step sample_step_env (sample_world stalled) = Some w' \<and> refusing w' \<and>
     inner_of w' = Cancelling \<lparr>cst_fee_increase_count = 0\<rparr>"
proof -
  let ?w = "sample_world stalled" and ?b = "case stalled of Building b \<Rightarrow> b"
  obtain w1 where w1: "send_bundle sample_step_env ?w 1 = Some (w1, Inr SA_NoOperationsAfterFeeFilter)"
    "sw_state w1 = sw_state ?w" "settings_of w1 = bsn_settings sample_sender"
    using stalled_send by blast
  let ?w' = "on_state (update (Cancelling \<lparr>cst_fee_increase_count = 0\<rparr>)) w1"
  have "handle_fee_filtered ?b 10 w1 = Some ?w'"
    by (simp add: handle_fee_filtered_def stalled_def saturating_sub_def building_to_cancelling_def w1)
      (simp add: sample_sender_def)
  then have "handle_building_state sample_step_env ?w ?b = Some ?w'"
    using w1(1) stalled_state(3) by (simp add: handle_building_state_def stalled_def)
  moreover have "machine_wait_for_trigger sample_step_env (sw_state ?w) = Some (sw_state ?w, Inr None)"
    by (simp add: machine_wait_for_trigger_def sample_world_def sample_machine_def stalled_def)
  ultimately have "loop_step sample_step_env ?w = Some ?w'"
    by (simp add: loop_step_def step_state_def stalled_def)
  moreover have "refusing ?w'"
    by (simp add: refusing_def on_state_def update_def w1)
      (simp add: sample_world_def sample_machine_def sample_tracker_def)
  moreover have "inner_of ?w' = Cancelling \<lparr>cst_fee_increase_count = 0\<rparr>" by (simp add: on_state_def update_def)
  ultimately show ?thesis by blast
qed

text \<open>A sender that stays underpriced gives up its bundle and starts to cancel it.\<close>

theorem sender_refines_automaton_witness:
  "\<exists>w'. loop_step sample_step_env (sample_world stalled) = Some w' \<and>
     observed sample_step_env (sample_world stalled) = Some (Attempted 10 (Inr SA_NoOperationsAfterFeeFilter)) \<and>
     (\<forall>s. sender_move (bsn_settings sample_sender) stalled (Attempted 10 (Inr SA_NoOperationsAfterFeeFilter)) s \<longleftrightarrow>
        s = Cancelling \<lparr>cst_fee_increase_count = 0\<rparr>)"
proof -
  obtain w' where w': "loop_step sample_step_env (sample_world stalled) = Some w'"
    "inner_of w' = Cancelling \<lparr>cst_fee_increase_count = 0\<rparr>"
    using stalled_step by blast
  obtain w1 where "send_bundle sample_step_env (sample_world stalled) 1 = Some (w1, Inr SA_NoOperationsAfterFeeFilter)"
    using stalled_send by blast
  moreover have "machine_wait_for_trigger sample_step_env (sw_state (sample_world stalled)) =
      Some (sw_state (sample_world stalled), Inr None)"
    by (simp add: machine_wait_for_trigger_def sample_world_def sample_machine_def stalled_def)
  ultimately have "observed sample_step_env (sample_world stalled) = Some (Attempted 10 (Inr SA_NoOperationsAfterFeeFilter))"
    using stalled_state(3) by (simp add: observed_def stalled_def)
  with sender_refines_automaton [OF w'(1)] w' show ?thesis by simp
qed

text \<open>The bound is reached: three attempts with two fee increases.\<close>

theorem cancellation_bounded_witness:
  "\<exists>ws. sender_run [sample_step_env, sample_step_env, sample_step_env] (sample_world stalled) = Some ws \<and>
     length (filter is_cancelling ws) = 3 \<and>
     length (filter is_cancelling ws) \<le> Suc (unat (bss_max_cancellation_fee_increases (bsn_settings sample_sender)))"
proof -
  obtain w1 where w1: "loop_step sample_step_env (sample_world stalled) = Some w1" "refusing w1"
    "inner_of w1 = Cancelling \<lparr>cst_fee_increase_count = 0\<rparr>"
    using stalled_step by blast
  obtain w2 where w2: "loop_step sample_step_env w1 = Some w2" "refusing w2"
    "inner_of w2 = Cancelling \<lparr>cst_fee_increase_count = 1\<rparr>"
    using refused_step [OF w1(2,3)] by (auto simp: to_self_def)
  obtain w3 where w3: "loop_step sample_step_env w2 = Some w3" "inner_of w3 = Cancelling \<lparr>cst_fee_increase_count = 2\<rparr>"
    using refused_step [OF w2(2,3)] by (auto simp: to_self_def)
  have run: "sender_run [sample_step_env, sample_step_env, sample_step_env] (sample_world stalled) = Some [w1, w2, w3]"
    using w1 w2 w3 by simp
  have all: "\<forall>v\<in>set [w1, w2, w3]. in_cancellation v" "length (filter is_cancelling [w1, w2, w3]) = 3"
    using w1(3) w2(3) w3(2) by (simp_all add: in_cancellation_def is_cancelling_def)
  from cancellation_bounded [OF run _ all(1)] run all(2) show ?thesis by (auto simp: stalled_def)
qed

end
