(* ===== verification/Bundle_Refused.thy ===== *)
theory Bundle_Refused
  imports Bundle_Samples
begin

text \<open>
  The sample proposer at an entry point that reports a failed operation in the first round: the
  operation is rejected and the second round makes a bundle without it.
\<close>

definition failure_abi :: "string \<Rightarrow> entry_point_abi" where
  "failure_abi reason = sample_abi\<lparr>abi_decode_errors_v0_6 := (\<lambda>_. Some (EP6_FailedOp 0 reason))\<rparr>"

definition refusing_env :: "string \<Rightarrow> proposer_env" where
  "refusing_env reason = sample_proposer_env\<lparr>pe_abi := failure_abi reason,
     pe_call := (\<lambda>n _. if n = 0 then Inl (ErrorResp ''execution reverted'' (Some [1])) else Inr [])\<rparr>"

lemma refusing_env_simps [simp]:
  "pe_alloy (refusing_env m) = pe_alloy sample_proposer_env" "pe_version (refusing_env m) = pe_version sample_proposer_env"
  "pe_entry_point (refusing_env m) = pe_entry_point sample_proposer_env"
  "pe_required_bundle_fees (refusing_env m) = pe_required_bundle_fees sample_proposer_env"
  "pe_required_op_fees (refusing_env m) = pe_required_op_fees sample_proposer_env"
  "pe_da_gas_oracle_sync (refusing_env m) = pe_da_gas_oracle_sync sample_proposer_env"
  "pe_calc_da_gas (refusing_env m) = pe_calc_da_gas sample_proposer_env"
  "pe_simulate_validation (refusing_env m) = pe_simulate_validation sample_proposer_env"
  "pe_balance_of (refusing_env m) = pe_balance_of sample_proposer_env"
  "pe_batch_get_storage_at (refusing_env m) = pe_batch_get_storage_at sample_proposer_env"
  "pe_now (refusing_env m) = pe_now sample_proposer_env"
  by (simp_all add: refusing_env_def)

section \<open>Up to the first round\<close>

lemma refusing_emit: "proposer_emit (refusing_env m) = proposer_emit sample_proposer_env"
  by (intro ext) (simp add: proposer_emit_def)

lemma refusing_check_fees: "check_fees (refusing_env m) = check_fees sample_proposer_env"
proof -
  have da: "required_da_gas (refusing_env m) = required_da_gas sample_proposer_env"
    by (intro ext, unfold required_da_gas_def refusing_env_simps) (rule refl)
  show ?thesis by (intro ext, unfold check_fees_def refusing_emit refusing_env_simps da) (rule refl)
qed

lemma refusing_limit:
  "limit_user_operations_for_simulation (refusing_env m) sample_proposer [sample_pos] = ([], [sample_pos], 30300)"
proof -
  have "limit_loop (refusing_env m) p gas [x] = limit_loop sample_proposer_env p gas [x]" for p gas x
    by (simp add: refusing_emit Let_def split: option.splits)
  with sample_limit show ?thesis unfolding limit_user_operations_for_simulation_def by simp
qed

lemma refusing_simulate: "simulate_op (refusing_env m) = simulate_op sample_proposer_env"
  by (intro ext, unfold simulate_op_def refusing_emit refusing_env_simps) (rule refl)

lemma refusing_assemble_op: "assemble_op (refusing_env m) = assemble_op sample_proposer_env"
proof -
  have emit: "asm_emit (refusing_env m) = asm_emit sample_proposer_env"
    by (intro ext) (simp add: asm_emit_def refusing_emit)
  have skip: "asm_skip (refusing_env m) = asm_skip sample_proposer_env"
    by (intro ext) (simp add: asm_skip_def emit)
  have time: "asm_reject_time (refusing_env m) = asm_reject_time sample_proposer_env"
    by (intro ext) (simp add: asm_reject_time_def emit)
  have failed: "assemble_failed (refusing_env m) = assemble_failed sample_proposer_env"
    by (intro ext) (simp add: assemble_failed_def emit)
  have insert: "assemble_insert (refusing_env m) = assemble_insert sample_proposer_env"
    by (intro ext, unfold assemble_insert_def skip) (rule refl)
  have candidate: "assemble_candidate (refusing_env m) = assemble_candidate sample_proposer_env"
    by (intro ext, unfold assemble_candidate_def skip insert refusing_env_simps) (rule refl)
  show ?thesis
    by (intro ext, unfold assemble_op_def skip time failed candidate refusing_env_simps) (rule refl)
qed

lemma refusing_balances: "get_balances_by_paymaster (refusing_env m) = get_balances_by_paymaster sample_proposer_env"
  by (intro ext) (simp add: get_balances_by_paymaster_def)

lemma refusing_make_bundle:
  "make_bundle (refusing_env m) sample_proposer [sample_valid 0 7 100] 1 1000000000 None False =
     make_bundle_loop (refusing_env m) sample_proposer sample_fees 0 [] sample_proposal"
proof -
  have "estimate_gas_fees (refusing_env m) 1 None = Inr (sample_fees, 90)"
    using sample_estimate by (simp add: estimate_gas_fees_def)
  moreover have "get_da_block_data (refusing_env m) sample_proposer 1 = get_da_block_data sample_proposer_env sample_proposer 1"
    by (simp add: get_da_block_data_def)
  moreover have "assemble_context (refusing_env m) sample_proposer 1000000000 100
      [(sample_pos, Inr (sample_sim sponsored_uo))] [5 \<mapsto> 1000000] = Some ([], sample_proposal)"
    using sample_assemble unfolding assemble_context_def refusing_assemble_op .
  moreover have "pe_required_op_fees sample_proposer_env sample_fees = sample_fees"
    "gf_max_fee_per_gas sample_fees = 100"
    by (simp_all add: sample_proposer_env_def sample_fees_def)
  ultimately show ?thesis
    by (simp add: make_bundle_def join_flatten_def List.map_filter_simps refusing_check_fees sample_check refusing_limit
        refusing_simulate sample_simulate refusing_balances sample_balances [unfolded List.map_filter_simps, simplified] Let_def)
qed

section \<open>The rounds\<close>

lemma refusing_answer:
  "call_handle_ops (refusing_env m) sample_proposer 0 (to_ops_per_aggregator sample_proposal) gas fees v =
     Some (Inr (HO_FailedOp 0 m))"
proof -
  have "as_v0_6 sponsored_uo \<noteq> None" by (simp add: sponsored_def sample_po_def)
  then show ?thesis
    by (simp add: call_handle_ops_def call_handle_ops_v0_6_def get_handle_ops_call_v0_6_def refusing_env_def
        sample_proposer_simps failure_abi_def decode_handle_ops_revert_v0_6_def usize_or_max_def
        to_ops_per_aggregator_def sample_proposal_def del: not_None_eq)
qed

lemma refusing_round:
  "estimate_gas_rejecting_failed_ops (refusing_env m) sample_proposer 0 sample_proposal fees =
     handle_ops_result (refusing_env m) sample_proposer 0 sample_proposal 53865 fees (HO_FailedOp 0 m)"
proof -
  have limit: "get_bundle_gas_limit null_alloy sample_proposal chain_spec_default = Some 51300"
    using sample_limits(1) [of "px_bundle_expected_storage sample_proposal"]
    by (simp add: get_bundle_gas_limit_def)
  have "bps_chain_spec (bp_settings sample_proposer) = chain_spec_default" "pe_alloy (refusing_env m) = null_alloy"
    "pe_version (refusing_env m) = EP_V0_6"
    by (simp_all add: sample_proposer_simps refusing_env_def)
  with limit show ?thesis
    unfolding estimate_gas_rejecting_failed_ops_def
    by (simp add: refusing_answer increase_by_percent_def BUNDLE_TRANSACTION_GAS_OVERHEAD_PERCENT_def Let_def
        del: refusing_env_simps)
qed

text \<open>The proposal without its operation.\<close>

definition rejected_proposal :: proposal_context where
  "rejected_proposal = the (proposer_reject_index sample_proposer sample_proposal 0 True)"

lemma sample_take:
  "take_index (px_groups_by_aggregator sample_proposal) 0 =
     ([(0, \<lparr>ag_ops_with_simulations = [], ag_signature = []\<rparr>)], Some (sample_ows, 0))"
  by (simp add: sample_proposal_def remove_nth_def)

lemma sample_reject:
  "proposer_reject_index sample_proposer sample_proposal 0 True = Some rejected_proposal"
  "context_is_empty rejected_proposal" "map fst (px_rejected_ops rejected_proposal) = [sponsored_uo]"
  unfolding rejected_proposal_def proposer_reject_index_def reject_index_def sample_take
  by (simp_all add: compute_aggregator_signatures_def reject_op_def context_is_empty_def sample_proposal_def Let_def)

lemma refusing_loop:
  assumes "m = ''AA25 invalid account nonce''"
  shows "\<exists>evs. make_bundle_loop (refusing_env m) sample_proposer sample_fees 0 [] sample_proposal =
    Some (sample_proposer, evs, Inr (empty_bundle rejected_proposal sample_fees))"
proof -
  have "\<not> context_is_empty sample_proposal" "get_op_at sample_proposal 0 = Inr sample_ows"
    by (simp_all add: context_is_empty_def sample_proposal_def get_op_at_def iter_ops_with_simulations_def)
  moreover have "str_prefix 4 m = Some ''AA25''" by (simp add: assms str_prefix_def)
  ultimately show ?thesis
    by (subst make_bundle_loop.simps, subst make_bundle_loop.simps)
      (simp add: refusing_round handle_ops_result_def process_failed_op_def sample_reject)
qed

text \<open>The assumptions about the services.\<close>

lemma refusing_services:
  assumes "str_prefix 4 m \<noteq> None"
  shows "pe_version (refusing_env m) \<noteq> Unspecified" "entry_point_answers (refusing_env m) sample_proposer"
    "simulator_ok (refusing_env m)" "pool_ops_ok (refusing_env m) [sample_valid 0 7 100]"
proof -
  show "pe_version (refusing_env m) \<noteq> Unspecified" using sample_services(1) by simp
  show "simulator_ok (refusing_env m)" using sample_services(3) by (simp add: simulator_ok_def)
  show "pool_ops_ok (refusing_env m) [sample_valid 0 7 100]" using sample_services(4) by (simp add: pool_ops_ok_def)
  show "entry_point_answers (refusing_env m) sample_proposer"
    using assms
    by (auto simp: entry_point_answers_def call_handle_ops_def call_handle_ops_v0_6_def refusing_env_def
        sample_proposer_env_def failure_abi_def decode_handle_ops_revert_v0_6_def answer_ok_def
        split: option.splits if_splits)
qed

end
