(* ===== verification/Bundle_Theorems.thy ===== *)
theory Bundle_Theorems
  imports Bundle_Refused
begin

text \<open>
  What a proposed bundle promises: making one ends without a panic, every operation of it has been
  checked, none is made up or bundled twice, and the deposits of the paymasters pay for it.
\<close>

section \<open>Making a bundle\<close>

text \<open>
  C2: \<open>make_bundle\<close> returns, with a bundle or an error: the loop that estimates the gas and rejects
  what fails comes to an end, and no step of it panics, provided that four things hold.  The version
  of the entry point is known; the entry point reports a failed operation with a reason whose first
  four bytes can be sliced off, and a failed signature for the aggregator of a group of the call; the
  simulator reports its violations with such codes and its expected storage as a map; and the
  operations have the version of the entry point and name their paymasters.  Without the second one
  the proposer can panic.
\<close>

theorem make_bundle_returns:
  assumes "pe_version env \<noteq> Unspecified" "entry_point_answers env p" "simulator_ok env" "pool_ops_ok env ops"
  shows "\<exists>p' evs r. make_bundle env p ops block_hash max_bundle_fee min_gas_fees is_replacement = Some (p', evs, r)"
  using make_bundle_result [OF assms] by blast

text \<open>The entry point refuses the first round, and the second one makes a bundle without the operation.\<close>

theorem make_bundle_returns_witness:
  "\<exists>p' evs b. make_bundle (refusing_env ''AA25 invalid account nonce'') sample_proposer [sample_valid 0 7 100] 1
       1000000000 None False = Some (p', evs, Inr b) \<and> bundle_iter_ops b = [] \<and> bu_rejected_ops b = [sponsored_uo]"
proof -
  let ?m = "''AA25 invalid account nonce''"
  have m: "str_prefix 4 ?m \<noteq> None" by (simp add: str_prefix_def)
  obtain p' evs r where r: "make_bundle (refusing_env ?m) sample_proposer [sample_valid 0 7 100] 1 1000000000 None False =
      Some (p', evs, r)"
    using make_bundle_returns [OF refusing_services [OF m]] by blast
  moreover obtain evs' where "make_bundle (refusing_env ?m) sample_proposer [sample_valid 0 7 100] 1 1000000000 None False =
      Some (sample_proposer, evs', Inr (empty_bundle rejected_proposal sample_fees))"
    using refusing_loop [OF refl] by (auto simp: refusing_make_bundle)
  ultimately have "r = Inr (empty_bundle rejected_proposal sample_fees)" by simp
  with r sample_reject(3) show ?thesis
    by (simp add: empty_bundle_def bundle_default_def bundle_iter_ops_def)
qed



lemma make_bundle_made:
  assumes "pe_version env \<noteq> Unspecified" "entry_point_answers env p" "simulator_ok env" "pool_ops_ok env ops"
    "make_bundle env p ops bh fee min_fees repl = Some (p', evs, Inr b)"
  obtains fees base_fee balances d where
    "estimate_gas_fees env bh min_fees = Inr (fees, base_fee)"
    "get_balances_by_paymaster env (List.map_filter (uo_paymaster \<circ> po_uo) ops) bh = Inr balances"
    "proposal_ok env balances
       (pipeline env p bh base_fee (if repl then fees else pe_required_op_fees env fees) ops) d"
    "is_bundle fees d b"
  using make_bundle_result [OF assms(1-4), of bh fee min_fees repl] assms(5) unfolding made_from_def by auto

text \<open>
  C3: an operation of a bundle is one of the operations that the pool handed out. It passed the
  check of its fees at the fees of the bundle, its validation was simulated at the block with its
  code hash unchanged, the bundle is made within its validity range, and the storage that the
  simulation read is part of the storage that the bundle expects.
\<close>

theorem bundle_ops_checked:
  assumes "pe_version env \<noteq> Unspecified" "entry_point_answers env p" "simulator_ok env" "pool_ops_ok env ops"
    "make_bundle env p ops block_hash max_bundle_fee min_gas_fees is_replacement = Some (p', evs, Inr b)"
    "op \<in> set (bundle_iter_ops b)"
  shows "\<exists>po\<in>set ops. \<exists>fees base_fee sim. po_uo po = op \<and>
    estimate_gas_fees env block_hash min_gas_fees = Inr (fees, base_fee) \<and>
    snd (check_fees env p po block_hash (get_da_block_data env p block_hash) base_fee
      (if is_replacement then fees else pe_required_op_fees env fees)) \<noteq> None \<and>
    pe_simulate_validation env op (perm_trusted (po_perms po)) block_hash (Some (po_expected_code_hash po)) = Inr sim \<and>
    range_contains (sr_valid_time_range sim) (pe_now env op) TIME_RANGE_BUFFER \<and>
    (\<forall>((a, slot), v)\<in>set (slots_of (sr_expected_storage sim)). slot_value (bu_expected_storage b) a slot = Some v)"
proof (rule make_bundle_made [OF assms(1-5)])
  fix fees base_fee balances d
  let ?req = "if is_replacement then fees else pe_required_op_fees env fees"
  let ?xs = "pipeline env p block_hash base_fee ?req ops"
  assume m: "estimate_gas_fees env block_hash min_gas_fees = Inr (fees, base_fee)"
    "get_balances_by_paymaster env (List.map_filter (uo_paymaster \<circ> po_uo) ops) block_hash = Inr balances"
    "proposal_ok env balances ?xs d" "is_bundle fees d b"
  have wf: "context_wf d" using m(3) by (simp add: proposal_ok_def)
  note b = is_bundle_fields [OF m(4) wf]
  obtain r where r: "r \<in> set (iter_ops_with_simulations d)" "op = ows_op r"
    using assms(6) by (auto simp: b(1) iter_ops_def)
  with m(3) have "drawn_from env ?xs r" by (simp add: proposal_ok_def)
  then obtain pos sim where x: "(pos, Inr sim) \<in> set ?xs" "op = po_uo (pos_op pos)" "ows_simulation r = sim"
    "range_contains (sr_valid_time_range sim) (pe_now env op) TIME_RANGE_BUFFER"
    by (auto simp: drawn_from_def r(2))
  note cand = pipeline_candidate [OF x(1), unfolded candidate_def fst_conv snd_conv]
  have st: "storage_holds (mset (iter_ops_with_simulations d)) (px_bundle_expected_storage d)"
    using m(3) by (simp add: proposal_ok_def storage_ok_def)
  have "bu_expected_storage b = bes_inner (px_bundle_expected_storage d)"
    by (rule b(4)) (use assms(6) in auto)
  then have "slot_value (bu_expected_storage b) a slot = Some v"
    if "((a, slot), v) \<in> set (slots_of (sr_expected_storage sim))" for a slot v
    using storage_holds_slot [OF st, of r "(a, slot)" v] that r(1) x(3)
    by (auto simp: expects_def slot_at_def)
  then have storage: "\<forall>((a, slot), v)\<in>set (slots_of (sr_expected_storage sim)).
      slot_value (bu_expected_storage b) a slot = Some v" by auto
  show ?thesis
    by (rule bexI [of _ "pos_op pos"], rule exI [of _ fees], rule exI [of _ base_fee], rule exI [of _ sim])
      (use cand m(1) x(2,4) storage in simp_all)
qed

lemma sample_bundle_ops: "bundle_iter_ops sample_bundle = [sponsored_uo]"
  by (simp add: sample_bundle_def full_bundle_def bundle_iter_ops_def to_ops_per_aggregator_def sample_proposal_def)

theorem bundle_ops_checked_witness:
  "\<exists>po\<in>set [sample_valid 0 7 100]. \<exists>fees base_fee sim. po_uo po = sponsored_uo \<and>
    estimate_gas_fees sample_proposer_env 1 None = Inr (fees, base_fee) \<and>
    snd (check_fees sample_proposer_env sample_proposer po 1 (get_da_block_data sample_proposer_env sample_proposer 1)
      base_fee (if False then fees else pe_required_op_fees sample_proposer_env fees)) \<noteq> None \<and>
    pe_simulate_validation sample_proposer_env sponsored_uo (perm_trusted (po_perms po)) 1
      (Some (po_expected_code_hash po)) = Inr sim \<and>
    range_contains (sr_valid_time_range sim) (pe_now sample_proposer_env sponsored_uo) TIME_RANGE_BUFFER \<and>
    (\<forall>((a, slot), v)\<in>set (slots_of (sr_expected_storage sim)).
       slot_value (bu_expected_storage sample_bundle) a slot = Some v)"
  by (rule bundle_ops_checked [OF sample_services sample_make_bundle]) (simp add: sample_bundle_ops)

text \<open>
  C9: no operation is made up, bundled twice or both bundled and rejected: the operations of the
  bundle and those that it reports as rejected are together among the operations of the pool, each
  as often as there.
\<close>

theorem bundle_accounts_for_ops:
  assumes "pe_version env \<noteq> Unspecified" "entry_point_answers env p" "simulator_ok env" "pool_ops_ok env ops"
    "make_bundle env p ops block_hash max_bundle_fee min_gas_fees is_replacement = Some (p', evs, Inr b)"
  shows "mset (bundle_iter_ops b) + mset (bu_rejected_ops b) \<subseteq># mset (map po_uo ops)"
proof (rule make_bundle_made [OF assms])
  fix fees base_fee balances d
  let ?xs = "pipeline env p block_hash base_fee (if is_replacement then fees else pe_required_op_fees env fees) ops"
  assume m: "proposal_ok env balances ?xs d" "is_bundle fees d b"
  have wf: "context_wf d" using m(1) by (simp add: proposal_ok_def)
  note b = is_bundle_fields [OF m(2) wf]
  have "mset (bundle_iter_ops b) + mset (bu_rejected_ops b) = content d"
    by (simp add: b(1,2) content_def)
  also have "\<dots> \<subseteq># mset (map uo_of ?xs)" using m(1) by (simp add: proposal_ok_def)
  also have "\<dots> \<subseteq># mset (map po_uo ops)" by (rule pipeline_mset)
  finally show ?thesis .
qed

theorem bundle_accounts_for_ops_witness:
  "mset (bundle_iter_ops sample_bundle) + mset (bu_rejected_ops sample_bundle) \<subseteq># mset (map po_uo [sample_valid 0 7 100])"
  by (rule bundle_accounts_for_ops [OF sample_services sample_make_bundle])

text \<open>
  C4: the deposit that a paymaster has at the entry point pays for all of its operations in the
  bundle together, each at its maximal gas cost. The sum is taken without wrap-around.
\<close>

theorem bundle_within_deposits:
  assumes "pe_version env \<noteq> Unspecified" "entry_point_answers env p" "simulator_ok env" "pool_ops_ok env ops"
    "make_bundle env p ops block_hash max_bundle_fee min_gas_fees is_replacement = Some (p', evs, Inr b)"
    "pe_balance_of env paymaster block_hash = Inr deposit"
  shows "(\<Sum>op\<leftarrow>filter (\<lambda>op. uo_paymaster op = Some paymaster) (bundle_iter_ops b). unat (uo_max_gas_cost op))
    \<le> unat deposit"
proof (rule make_bundle_made [OF assms(1-5)])
  fix fees base_fee balances d
  let ?xs = "pipeline env p block_hash base_fee (if is_replacement then fees else pe_required_op_fees env fees) ops"
  assume m: "get_balances_by_paymaster env (List.map_filter (uo_paymaster \<circ> po_uo) ops) block_hash = Inr balances"
    "proposal_ok env balances ?xs d" "is_bundle fees d b"
  have wf: "context_wf d" using m(2) by (simp add: proposal_ok_def)
  have balance: "balances paymaster \<in> {None, Some deposit}"
  proof (cases "balances paymaster")
    case (Some v)
    with m(1) have "(paymaster, v) \<in> (\<lambda>a. (a, projr (pe_balance_of env a block_hash))) `
        set (List.map_filter (uo_paymaster \<circ> po_uo) ops)"
      by (auto simp: get_balances_by_paymaster_def split: if_splits dest: map_of_SomeD)
    with Some assms(6) show ?thesis by auto
  qed simp
  have "(\<Sum>op\<leftarrow>filter (\<lambda>op. uo_paymaster op = Some paymaster) (map ows_op xs). unat (uo_max_gas_cost op))
      = spent paymaster (mset xs)" for xs
    by (induction xs) auto
  then have "(\<Sum>op\<leftarrow>filter (\<lambda>op. uo_paymaster op = Some paymaster) (bundle_iter_ops b). unat (uo_max_gas_cost op))
      = spent paymaster (mset (iter_ops_with_simulations d))"
    by (simp add: is_bundle_fields(1) [OF m(3) wf] iter_ops_def)
  also have "\<dots> \<le> (case balances paymaster of None \<Rightarrow> 0 | Some b \<Rightarrow> unat b)"
    using m(2) by (simp add: proposal_ok_def)
  also have "\<dots> \<le> unat deposit" using balance by auto
  finally show ?thesis .
qed

theorem bundle_within_deposits_witness:
  "(\<Sum>op\<leftarrow>filter (\<lambda>op. uo_paymaster op = Some 5) (bundle_iter_ops sample_bundle). unat (uo_max_gas_cost op))
     \<le> unat (1000000 :: u256)"
  by (rule bundle_within_deposits [OF sample_services sample_make_bundle]) (simp add: sample_proposer_env_def)

section \<open>Limits\<close>

text \<open>
  C29: after every operation that it adds, the assembly has a proposal whose gas limit is within the
  limit of a bundle, whose cost is within the buffered maximal fee, and whose transaction is smaller
  than the chain allows.
\<close>

theorem assembly_within_limits:
  assumes "\<forall>x\<in>set xs. storage_sorted x" "length xs < 2 ^ 64"
    "assemble_loop (assemble_op env p max_fee gas_price senders) xs
       \<lparr>asm_context = context_new, asm_paymasters_to_reject = [], asm_passed_target = False,
        asm_balances = balances, asm_events = []\<rparr> = Some s"
    "\<not> context_is_empty (asm_context s)"
  shows "\<exists>gas cost size.
    get_bundle_computation_gas_limit (pe_alloy env) (asm_context s) (bps_chain_spec (bp_settings p)) = Some gas \<and>
    gas \<le> bps_max_bundle_gas (bp_settings p) \<and>
    get_bundle_cost (pe_alloy env) (asm_context s) (bps_chain_spec (bp_settings p)) gas_price = Some cost \<and>
    cost \<le> max_fee \<and>
    get_bundle_transaction_size (asm_context s) (bps_chain_spec (bp_settings p)) = Some size \<and>
    size < ucast (cs_max_transaction_size_bytes (bps_chain_spec (bp_settings p)))"
proof -
  have "assembled env p max_fee gas_price balances xs s"
    using assemble_loop_assembled [OF assembled_new assms(1) _ assms(3)] assms(2) by simp
  with assms(4) show ?thesis by (simp add: assembled_def within_limits_def)
qed

section \<open>Where the proposer departs from its comments\<close>

text \<open>
  C34: the permissions of an operation, the expiry of a sponsorship among them, do not influence its
  assembly: the second check of the validity range tests the range of the simulation again.
\<close>

theorem sponsorship_expiry_ignored:
  "assemble_op env p max_fee gas_price senders (pos\<lparr>pos_op := (pos_op pos)\<lparr>po_perms := perms\<rparr>\<rparr>, result) s =
     assemble_op env p max_fee gas_price senders (pos, result) s"
proof -
  have same: "pos_op (pos\<lparr>pos_op := q\<rparr>) = q" "pos_sponsored_da_gas (pos\<lparr>pos_op := q\<rparr>) = pos_sponsored_da_gas pos"
    "po_uo (q\<lparr>po_perms := perms\<rparr>) = po_uo q" "po_entity_infos (q\<lparr>po_perms := perms\<rparr>) = po_entity_infos q" for q
    by simp_all
  show ?thesis
  proof (cases result)
    case (Inl e)
    show ?thesis unfolding Inl assemble_op_def assemble_failed_def prod.case sum.case Let_def same by (rule refl)
  next
    case (Inr sim)
    have candidate: "assemble_candidate env p max_fee gas_price senders s (pos\<lparr>pos_op := (pos_op pos)\<lparr>po_perms := perms\<rparr>\<rparr>) sim
        = assemble_candidate env p max_fee gas_price senders s pos sim"
      unfolding assemble_candidate_def assemble_insert_def Let_def same by (rule refl)
    show ?thesis
    proof (cases "range_contains (sr_valid_time_range sim) (pe_now env (po_uo (pos_op pos))) TIME_RANGE_BUFFER")
      case True
      with Inr candidate show ?thesis by (simp add: assemble_op_proceed)
    next
      case False
      with Inr show ?thesis by (simp add: assemble_op_def asm_reject_time_def Let_def)
    qed
  qed
qed

lemma filter_groups_signature:
  assumes "(a, grp) \<in> set gs" "op \<in> set (ag_ops_with_simulations grp)" "P (ows_op op)"
    "op' \<in> set (ag_ops_with_simulations grp)" "\<not> P (ows_op op')"
  shows "\<exists>grp'. (a, grp') \<in> set (fst (filter_groups amend P gs c)) \<and> ag_ops_with_simulations grp' \<noteq> [] \<and>
    ag_signature grp' = []"
  using assms(1)
proof (induction gs arbitrary: c)
  case (Cons h gs)
  obtain b grp' where h: "h = (b, grp')" by force
  have kept: "op' \<in> set ops \<Longrightarrow> op' \<in> set (fst (filter_group amend P ops c))" for ops c
    using assms(5) by (induction ops arbitrary: c) (auto simp: case_prod_beta)
  show ?case
  proof (cases "h = (a, grp)")
    case True
    obtain ks d where k: "filter_group amend P (ag_ops_with_simulations grp) c = (ks, d)" by force
    with kept [OF assms(4), of c] have "ks \<noteq> []" by auto
    with True k assms(2,3) show ?thesis
      by (auto simp: aggregator_group_default_def case_prod_beta Let_def)
  next
    case False
    with Cons.prems have "(a, grp) \<in> set gs" by auto
    with Cons.IH
    have "\<exists>g. (a, g) \<in> set (fst (filter_groups amend P gs d)) \<and> ag_ops_with_simulations g \<noteq> [] \<and> ag_signature g = []" for d
      by simp
    then show ?thesis
      by (cases "filter_group amend P (ag_ops_with_simulations grp') c") (fastforce simp: h case_prod_beta Let_def)
  qed
qed simp

text \<open>
  C33: when an entity is rejected that some operations of an aggregator use and others do not, the
  group of the aggregator stays in the proposal with its signature dropped, and none is computed.
\<close>

theorem entity_rejection_drops_signature:
  assumes "(a, grp) \<in> set (px_groups_by_aggregator c)"
    "op \<in> set (ag_ops_with_simulations grp)" "uses_entity e (ows_op op)"
    "op' \<in> set (ag_ops_with_simulations grp)" "\<not> uses_entity e (ows_op op')"
  shows "\<exists>c' grp'. proposer_reject_entity p c e is_staked = Some c' \<and> (a, grp') \<in> set (px_groups_by_aggregator c') \<and>
    ag_ops_with_simulations grp' \<noteq> [] \<and> ag_signature grp' = []"
proof -
  obtain c' changed where r: "context_reject_entity c e is_staked = (c', changed)" by force
  show ?thesis
  proof (rule context_reject_entity_result [OF r])
    fix d amend
    assume d: "filter_reject c amend (uses_entity e) = (d, changed)"
      "px_groups_by_aggregator c' = px_groups_by_aggregator d"
    then have "px_groups_by_aggregator c' = fst (filter_groups amend (uses_entity e) (px_groups_by_aggregator c) c)"
      by (auto simp: filter_reject_def case_prod_beta)
    with filter_groups_signature [OF assms, of amend c] r show ?thesis
      by (auto simp: proposer_reject_entity_eq)
  qed
qed

lemma reject_indices_append:
  "reject_indices env p amend (xs @ ys) c = Some (evs, Inr d) \<Longrightarrow>
     \<exists>e evs1 evs2. reject_indices env p amend xs c = Some (evs1, Inr e) \<and> reject_indices env p amend ys e = Some (evs2, Inr d)"
proof (induction xs arbitrary: c evs)
  case (Cons x xs)
  obtain i reason where x: "x = (i, reason)" by force
  with Cons.prems obtain op c1 evs1 where o: "get_op_at c i = Inr op" "proposer_reject_index p c i amend = Some c1"
    "reject_indices env p amend (xs @ ys) c1 = Some (evs1, Inr d)"
    by (auto simp: bind_eq_Some_conv split: sum.splits)
  from Cons.IH [OF o(3)] o(1,2) x show ?case by fastforce
qed simp

lemma conditions_to_reject_snoc:
  assumes "iter_ops_with_simulations c = ops @ [op]" "check_op_conditions_met env (sr_expected_storage (ows_simulation op)) \<noteq> None"
    "op' \<in> set ops" "check_op_conditions_met env (sr_expected_storage (ows_simulation op')) \<noteq> None"
  obtains xs reason where "conditions_to_reject env c = xs @ [(length ops, reason)]" "xs \<noteq> []"
proof -
  let ?f = "\<lambda>(i, op). map_option (\<lambda>reason. (i, RejectedConditionNotMet reason))
    (check_op_conditions_met env (sr_expected_storage (ows_simulation op)))"
  obtain reason where r: "check_op_conditions_met env (sr_expected_storage (ows_simulation op)) = Some reason"
    using assms(2) by auto
  have "op' \<in> snd ` set (enumerate 0 ops)" using assms(3) by (simp add: enumerate_eq_zip flip: set_map)
  then obtain i where "(i, op') \<in> set (enumerate 0 ops)" by auto
  with assms(4) have ne: "List.map_filter ?f (enumerate 0 ops) \<noteq> []"
    by (force simp: List.map_filter_def filter_empty_conv)
  have "conditions_to_reject env c = List.map_filter ?f (enumerate 0 ops) @ [(length ops, RejectedConditionNotMet reason)]"
    by (simp add: conditions_to_reject_def assms(1) enumerate_append_eq List.map_filter_def r)
  with ne show ?thesis by (rule that [rotated])
qed

text \<open>
  C32: the operations whose conditions are not met are rejected by their indices in ascending order,
  although a rejection shifts the indices behind it. When the last operation and an earlier one fail,
  the last index is out of range by then, and no bundle is made.
\<close>

theorem conditions_reject_shifted_index:
  assumes "context_wf c" "iter_ops_with_simulations c = ops @ [op]"
    "check_op_conditions_met env (sr_expected_storage (ows_simulation op)) \<noteq> None"
    "op' \<in> set ops" "check_op_conditions_met env (sr_expected_storage (ows_simulation op')) \<noteq> None"
  shows "check_conditions_met env p c \<noteq> Some (evs, Inr d)"
proof
  assume made: "check_conditions_met env p c = Some (evs, Inr d)"
  show False
  proof (rule conditions_to_reject_snoc [OF assms(2-5)])
    fix xs reason
    assume x: "conditions_to_reject env c = xs @ [(length ops, reason)]" "xs \<noteq> []"
    with made obtain e evs1 evs2 where e: "reject_indices env p False xs c = Some (evs1, Inr e)"
      "reject_indices env p False [(length ops, reason)] e = Some (evs2, Inr d)"
      using reject_indices_append by (fastforce simp: check_conditions_met_def)
    from reject_indices_smaller [OF assms(1) e(1)] x(2)
    have "length (iter_ops_with_simulations e) \<le> length ops" using assms(2) by (simp add: smaller_def)
    with e(2) show False by (simp add: get_op_at_iter)
  qed
qed

section \<open>The theorems at a concrete proposal\<close>

text \<open>A second operation in the proposal, of another sender, and a chain whose storage has changed.\<close>

definition second_ows :: op_with_simulation where
  "second_ows = \<lparr>ows_op = po_uo (sample_po 2 0 8 200), ows_simulation = sample_sim (po_uo (sample_po 2 0 8 200)),
     ows_sponsored_da_gas = 0\<rparr>"

definition two_ops :: proposal_context where
  "two_ops = sample_proposal\<lparr>px_groups_by_aggregator :=
     [(0, \<lparr>ag_ops_with_simulations = [sample_ows, second_ows], ag_signature = []\<rparr>)]\<rparr>"

definition changed_env :: proposer_env where
  "changed_env = sample_proposer_env\<lparr>pe_batch_get_storage_at := (\<lambda>_ slots. Inr (map (\<lambda>_. 0) slots))\<rparr>"

lemma second_uo_simps [simp]:
  "uo_aggregator (po_uo (sample_po 2 0 8 200)) = None" "uo_paymaster (po_uo (sample_po 2 0 8 200)) = None"
  by (simp_all add: sample_po_def sample_uo_def uo6_paymaster_def get_address_from_field_def)

lemma two_ops_simps:
  "context_wf two_ops" "iter_ops_with_simulations two_ops = [sample_ows] @ [second_ows]"
  by (simp_all add: context_wf_def two_ops_def iter_ops_with_simulations_def second_ows_def aggregator_key_def)

lemma changed_conditions:
  "check_op_conditions_met changed_env (sr_expected_storage (sample_sim op)) \<noteq> None"
  by (simp add: check_op_conditions_met_def changed_env_def sample_sim_def es_insert_def List.map_filter_simps btm_get_or_def)

theorem conditions_reject_shifted_index_witness:
  "check_conditions_met changed_env sample_proposer two_ops \<noteq> Some ([], Inr context_new)"
  by (rule conditions_reject_shifted_index [OF two_ops_simps, of _ sample_ows])
    (use changed_conditions in \<open>simp_all add: second_ows_def del: not_None_eq\<close>)

definition aggregated_ops :: proposal_context where
  "aggregated_ops = two_ops\<lparr>px_groups_by_aggregator :=
     [(9, \<lparr>ag_ops_with_simulations = [sample_ows, second_ows], ag_signature = [1, 2]\<rparr>)]\<rparr>"

theorem entity_rejection_drops_signature_witness:
  "\<exists>c' grp'. proposer_reject_entity sample_proposer aggregated_ops (entity_paymaster 5) False = Some c' \<and>
    (9, grp') \<in> set (px_groups_by_aggregator c') \<and> ag_ops_with_simulations grp' \<noteq> [] \<and> ag_signature grp' = []"
proof (rule entity_rejection_drops_signature)
  show "(9, \<lparr>ag_ops_with_simulations = [sample_ows, second_ows], ag_signature = [1, 2]\<rparr>)
      \<in> set (px_groups_by_aggregator aggregated_ops)"
    by (simp add: aggregated_ops_def)
  show "uses_entity (entity_paymaster 5) (ows_op sample_ows)" "\<not> uses_entity (entity_paymaster 5) (ows_op second_ows)"
    by (simp_all add: second_ows_def uses_entity_def entity_paymaster_def entity_new_def)
qed simp_all

definition sample_assembly :: assembly where
  "sample_assembly = \<lparr>asm_context = sample_proposal, asm_paymasters_to_reject = [], asm_passed_target = False,
     asm_balances = [5 \<mapsto> 290000], asm_events = []\<rparr>"

theorem assembly_within_limits_witness:
  "\<exists>gas cost size.
    get_bundle_computation_gas_limit (pe_alloy sample_proposer_env) (asm_context sample_assembly)
      (bps_chain_spec (bp_settings sample_proposer)) = Some gas \<and>
    gas \<le> bps_max_bundle_gas (bp_settings sample_proposer) \<and>
    get_bundle_cost (pe_alloy sample_proposer_env) (asm_context sample_assembly)
      (bps_chain_spec (bp_settings sample_proposer)) 100 = Some cost \<and>
    cost \<le> 900000000 \<and>
    get_bundle_transaction_size (asm_context sample_assembly) (bps_chain_spec (bp_settings sample_proposer)) = Some size \<and>
    size < ucast (cs_max_transaction_size_bytes (bps_chain_spec (bp_settings sample_proposer)))"
proof (rule assembly_within_limits [where xs = "[(sample_pos, Inr (sample_sim sponsored_uo))]" and senders = "{1}"
      and balances = "[5 \<mapsto> 1000000]"])
  show "\<forall>x\<in>set [(sample_pos, Inr (sample_sim sponsored_uo))]. storage_sorted x"
    by (simp add: storage_sorted_def sample_sim_def es_sorted_def es_insert_def btm_sorted_def btm_get_or_def)
  show "assemble_loop (assemble_op sample_proposer_env sample_proposer 900000000 100 {1})
      [(sample_pos, Inr (sample_sim sponsored_uo))]
      \<lparr>asm_context = context_new, asm_paymasters_to_reject = [], asm_passed_target = False,
       asm_balances = [5 \<mapsto> 1000000], asm_events = []\<rparr> = Some sample_assembly"
    by (simp add: sample_assemble_op sample_assembly_def)
  show "\<not> context_is_empty (asm_context sample_assembly)"
    by (simp add: context_is_empty_def sample_assembly_def sample_proposal_def)
qed simp

end
