(* ===== verification/Spec2Isabelle.thy ===== *)
theory Spec2Isabelle
  imports Pool_Upkeep Types_Theorems Reputation_Theorems Paymaster_Theorems Uo_Pool_Theorems Chain_Theorems
    Sender_Theorems Bundle_Theorems
begin

text \<open>
  A verification development for \<^bold>\<open>rundler\<close>, an ERC-4337 bundler written in Rust.  Paths below are
  relative to \<open>src/\<close>.

  \<^bold>\<open>The program.\<close>  Users submit operations for one of the supported entry point contracts.  The
  \<^emph>\<open>pool server\<close> (\<open>crates/pool/src/server/local.rs\<close>) keeps one \<^emph>\<open>mempool\<close> per entry point
  (\<open>crates/pool/src/mempool/uo_pool.rs\<close>), which checks an operation and stores it in the \<^emph>\<open>pool\<close>
  (\<open>mempool/pool.rs\<close>), charges it to its paymaster (\<open>mempool/paymaster.rs\<close>) and counts it in the
  \<^emph>\<open>reputation\<close> of its entities (\<open>mempool/reputation.rs\<close>).  The \<^emph>\<open>chain tracker\<close>
  (\<open>crates/pool/src/chain.rs\<close>) follows the head of the chain and reports mined and unmined
  operations and changed balances to all mempools.  For every builder a \<^emph>\<open>bundle sender\<close>
  (\<open>crates/builder/src/bundle_sender.rs\<close>) runs a machine of four states: it asks the \<^emph>\<open>assigner\<close>
  (\<open>assigner.rs\<close>) for operations, which locks their senders for this builder, lets the
  \<^emph>\<open>proposer\<close> (\<open>bundle_proposer.rs\<close>) make a bundle of them, hands the transaction to the
  \<^emph>\<open>transaction tracker\<close> (\<open>transaction_tracker.rs\<close>) and its sender (\<open>sender/\<close>), raises the fees of a
  bundle that is not mined, and cancels one that is stuck.

  \<^bold>\<open>Conventions.\<close>  A struct is a record and an enum a datatype; a Rust integer is a word of its width,
  so that \<open>+\<close> wraps around as a release build does, with \<open>saturating_add\<close> and the like from
  \<open>Prelude\<close>.  A \<open>Result\<close> is a sum type with the error on the left.  An \<open>option\<close> around the
  result of an operation is \<open>None\<close> where the source panics or does not return.  A \<open>HashMap\<close> is
  a map, with the order of an iteration given by the environment; a \<open>BTreeMap\<close> or \<open>BTreeSet\<close> is a sorted
  list (\<open>BTree_Map\<close>, \<open>BTree_Set\<close>).  The cells that the handles of \<open>pool.rs\<close> share through
  \<open>Arc\<close> are a store from locations to cells.  Asynchronous calls run in sequence: a method of a
  component is one step, and between two methods any others may run.  An \<open>Instant\<close> is a
  natural number that the environment supplies; the assembly of a bundle reads the clock
  once per operation, where the source reads it a second time for a sponsored one.

  \<^bold>\<open>Theories and sources.\<close>
  \<^item> \<open>Prelude\<close>, \<open>Math\<close>, \<open>F64\<close>, \<open>Bytes\<close>, \<open>BTree_Map\<close>, \<open>BTree_Set\<close>, \<open>Lru\<close>: machine integers,
    percentages (\<open>crates/utils/src/math.rs\<close>), the part of \<open>f64\<close> that is used, byte strings, the
    ordered and the bounded collections (\<open>crates/utils/src/cache.rs\<close>).
  \<^item> \<open>Gas_Fees\<close>, \<open>Timestamp\<close>, \<open>Entity\<close>, \<open>User_Op_Types\<close>, \<open>User_Operation_V0_6\<close>, \<open>User_Operation_V0_7\<close>,
    \<open>User_Operation\<close>, \<open>Storage\<close>: the data of \<open>crates/types/src\<close>, the gas limits of operations, packing,
    hashing and building, and expected storage.  \<open>Types_Theorems\<close> has their theorems.
  \<^item> \<open>Mempool_Filter\<close>, \<open>Violations\<close>: \<open>crates/sim/src/simulation/mempool.rs\<close> and the errors of
    prechecks and simulation.
  \<^item> \<open>Pool_Types\<close>, \<open>Pool\<close>: \<open>PoolInner\<close> of \<open>pool.rs\<close>.  \<open>Pool_Counts\<close>, \<open>Pool_Invariant\<close>, \<open>Pool_Insert\<close>,
    \<open>Pool_Steps\<close>, \<open>Pool_Maintenance\<close>, \<open>Pool_Reach\<close> prove its invariant for every operation and define
    the reachable pools; \<open>Pool_Liveness\<close> shows that the eviction loop ends; \<open>Pool_Held\<close> shows that no
    operation is made up; \<open>Pool_Properties\<close>, \<open>Pool_Theorems\<close>, \<open>Pool_Upkeep\<close> have the theorems.
  \<^item> \<open>Reputation\<close>, \<open>Reputation_Theorems\<close>: \<open>reputation.rs\<close>.
  \<^item> \<open>Paymaster\<close>, \<open>Paymaster_Invariant\<close>, \<open>Paymaster_Theorems\<close>: \<open>paymaster.rs\<close>.
  \<^item> \<open>Uo_Pool\<close>: \<open>UoPool\<close> of \<open>uo_pool.rs\<close>.  \<open>Uo_Pool_Steps\<close> decomposes each of its methods into steps
    of its components; \<open>Uo_Pool_Theorems\<close> has the theorems.
  \<^item> \<open>Chain_Update\<close>, \<open>Chain\<close>: \<open>chain.rs\<close>.  \<open>Chain_Invariant\<close>, \<open>Chain_Progress\<close>, \<open>Chain_Theorems\<close> show
    that the remembered blocks are linked and that updates account for them.
  \<^item> \<open>Pool_Server\<close>: \<open>local.rs\<close>, the server with all its requests and the handle that calls it.
    \<open>Pool_Server_Spec\<close> specifies the server as a table of mempools, \<open>Pool_Server_Steps\<close> defines its
    reachable states, \<open>Pool_Server_Theorems\<close> shows that the server refines the table.
  \<^item> \<open>Assigner\<close>, \<open>Assigner_Interface\<close>, \<open>Assigner_Theorems\<close>: \<open>assigner.rs\<close>.
  \<^item> \<open>Builder_Event\<close>, \<open>Entry_Point_Calls\<close>, \<open>Fee_Estimator\<close>, \<open>Fee_Source\<close>: \<open>crates/builder/src/emit.rs\<close>, the
    calls of \<open>crates/provider/src/alloy/entry_point/\<close> and \<open>crates/provider/src/fees/\<close>.
  \<^item> \<open>Bundle_Context\<close>, \<open>Bundle_Proposer\<close>: \<open>bundle_proposer.rs\<close>.  \<open>Bundle_Context_Invariant\<close>,
    \<open>Bundle_Storage\<close>, \<open>Bundle_Assembly\<close>, \<open>Bundle_Assembled\<close>, \<open>Bundle_Rounds\<close>, \<open>Bundle_Pipeline\<close>,
    \<open>Bundle_Made\<close> follow an operation from the pool to the bundle; \<open>Bundle_Theorems\<close> has the theorems.
  \<^item> \<open>Tx_Sender\<close>, \<open>Transaction_Tracker\<close>, \<open>Tracker_Theorems\<close>: \<open>sender/\<close> and \<open>transaction_tracker.rs\<close>.
  \<^item> \<open>Bundle_Sender\<close>: \<open>bundle_sender.rs\<close>.  \<open>Sender_Moves\<close> is its automaton, \<open>Sender_Services\<close> puts it
    together with the services it drives, \<open>Sender_Theorems\<close> has the theorems.
  \<^item> \<open>Pool_Samples\<close>, \<open>Uo_Pool_Samples\<close>, \<open>Chain_Samples\<close>, \<open>Bundle_Samples\<close>, \<open>Bundle_Refused\<close>: concrete
    states at which the theorems are applied.

  \<^bold>\<open>What is shown.\<close>
  \<^item> Pool: both lookup maps, the ordered set, the counts, the size and the mined cache agree in every
    reachable state; adding returns, stores the operation and respects the size limit; a replacement pays
    more; eviction takes the lowest ranked operations and no more than needed; mining and unmining are
    inverse; the check for multiple roles says what rule STO-040 says.
  \<^item> Mempool: what an accepted operation passed, and the state after an update of the chain.  Paymasters:
    the pending amount is the sum of the costs of the operations, and the deposit covers it.
  \<^item> Server: a simulation between the server and a table of mempools, the isolation of entry points,
    and that every method of the handle gets the response of its request.
  \<^item> Chain: the remembered blocks are linked and end in the head; a reorganisation is accounted for;
    updates arrive.
  \<^item> Proposer: making a bundle returns; its operations were checked, are among the given ones, are paid
    by the deposits, and are within the limits.
  \<^item> Assigner: no sender is locked by two builders; confirming and releasing do what they say.
  \<^item> Sender: every round is a move of a deterministic automaton, a round of building returns with the
    composed services, cancellation is bounded, and the transaction of a bundle passes the tracker.
  \<^item> Where the source does not do what it means to, a theorem states what it does: the
    eviction loop that spins, the operation that stays stored although it was rejected, the costs that an
    eviction of the paymaster forgets, the replacement that is checked and then refused, the deep
    reorganisation that unmines nothing, the sponsorship whose expiry is not looked at, the signature and
    the index lost by a rejection, the reason whose slicing panics, the cancellation at the same fees.

  \<^bold>\<open>Interfaces.\<close>  Where a component relies on another, a locale holds the laws and is interpreted on the
  definitions of the model: the ordered set of best operations, the bounded map of balances
  (\<open>lru_map\<close>, interpreted on \<open>lru_list\<close>), the pool behind the assigner (interpreted on the pool
  server), the source of fees (interpreted on the fee estimator).

  \<^bold>\<open>Parameters.\<close>  The node, the contracts, hashing and ABI encoding, signing, the simulator, the prechecks,
  the DA gas oracle and the signature aggregators are not part of the sources or are pure I/O.  They are
  fields of the records \<open>alloy\<close>, \<open>entry_point_abi\<close>, \<open>environment\<close>, \<open>server_context\<close> and of the
  environments of the proposer, the tracker and the sender; what a theorem needs of them is a named
  hypothesis with a witness.  The hypotheses of the proposer are that the simulator gives its violation
  codes and describes the paymaster of an operation, and that the entry point gives a reason of at
  least four characters for a failed operation and blames an aggregator of the call.

  \<^bold>\<open>Bounds.\<close>  Loops that may not end are \<open>partial_function (option)\<close>, with a theorem that they return;
  there is no fuel.  Submission ids are assumed below \<open>2 ^ 62\<close>, so that ids and counts of a pool
  cannot wrap around: at any realistic rate this takes centuries.  Size limits
  are read as signed numbers, as the source compares them.

  \<^bold>\<open>Not modelled.\<close>  Gas estimation, which searches over calls of helper contracts; the simulator and its
  tracer, which the node runs; the DA gas oracles; the RPC server and the remote pool server, which
  convert and forward requests; signers and signature aggregators; the command line, task spawning,
  channels, metrics, logging and serialisation.  Interleavings inside one method are not modelled:
  two calls of \<open>add_operation\<close> that overlap may both pass a check that only one of them should pass,
  as a comment in \<open>uo_pool.rs\<close> says.
\<close>

end
